(* ===== verification/Prelude.thy ===== *)
theory Prelude
  imports Main
begin

text \<open>
  The shared layer of the development: computations that may throw
  (\<open>'e + 'a\<close>, \<open>Inl\<close> the thrown value), computations that throw and also
  mutate an object (\<open>'s \<Rightarrow> ('e + 'a) \<times> 's\<close>: the state survives a throw, as a
  JavaScript object does), and the list lemmas the components use.  A JavaScript
  array method that calls a throwing function on each element is \<open>mapM\<close>.
\<close>

named_theorems res_simps \<open>inversion of computations that may throw\<close>
named_theorems prog_defs \<open>the combinators of mutating computations\<close>

section \<open>Computations that may throw\<close>

type_synonym ('e, 'a) res = "'e + 'a"

definition andThen :: "('e, 'a) res \<Rightarrow> ('a \<Rightarrow> ('e, 'b) res) \<Rightarrow> ('e, 'b) res" where
  "andThen m f = (case m of Inl e \<Rightarrow> Inl e | Inr x \<Rightarrow> f x)"

definition throwIf :: "bool \<Rightarrow> 'e \<Rightarrow> ('e, unit) res" where
  "throwIf b e = (if b then Inl e else Inr ())"

lemma andThen_Inl [simp]: "andThen (Inl e) f = Inl e"
  by (simp add: andThen_def)

lemma andThen_Inr [simp]: "andThen (Inr x) f = f x"
  by (simp add: andThen_def)

lemma andThen_eq_Inr [res_simps]:
  "andThen m f = Inr y \<longleftrightarrow> (\<exists>x. m = Inr x \<and> f x = Inr y)"
  by (auto simp: andThen_def split: sum.splits)

lemma andThen_eq_Inl [res_simps]:
  "andThen m f = Inl e \<longleftrightarrow> m = Inl e \<or> (\<exists>x. m = Inr x \<and> f x = Inl e)"
  by (auto simp: andThen_def split: sum.splits)

lemma andThenE: "andThen m f = Inr y \<Longrightarrow> (\<And>x. m = Inr x \<Longrightarrow> f x = Inr y \<Longrightarrow> P) \<Longrightarrow> P"
  by (auto simp: andThen_eq_Inr)

lemma throwIf_eq_Inr [res_simps]: "throwIf b e = Inr u \<longleftrightarrow> \<not> b"
  by (auto simp: throwIf_def)

lemma throwIf_eq_Inl [res_simps]: "throwIf b e = Inl e' \<longleftrightarrow> b \<and> e' = e"
  by (auto simp: throwIf_def)

lemma throwIf_True [simp]: "throwIf True e = Inl e"
  by (simp add: throwIf_def)

lemma throwIf_False [simp]: "throwIf False e = Inr ()"
  by (simp add: throwIf_def)

text \<open>\<open>xs.map(f)\<close> for a function that may throw: the first throw wins.\<close>

fun mapM :: "('a \<Rightarrow> ('e, 'b) res) \<Rightarrow> 'a list \<Rightarrow> ('e, 'b list) res" where
  "mapM f [] = Inr []"
| "mapM f (x # xs) = andThen (f x) (\<lambda>y. andThen (mapM f xs) (\<lambda>ys. Inr (y # ys)))"

lemma mapM_eq_Inr [res_simps]:
  "mapM f xs = Inr ys \<longleftrightarrow> list_all2 (\<lambda>x y. f x = Inr y) xs ys"
  by (induction xs arbitrary: ys) (auto simp: andThen_eq_Inr list_all2_Cons1)

lemma mapM_roundtrip:
  assumes "\<And>x. x \<in> set xs \<Longrightarrow> f (g x) = Inr x"
  shows "mapM f (map g xs) = Inr xs"
  using assms by (induction xs) auto

lemma mapM_same:
  assumes "mapM f (map g xs) = Inr ys" and "\<And>x y. x \<in> set xs \<Longrightarrow> f (g x) = Inr y \<Longrightarrow> y = x"
  shows "ys = xs"
  using assms by (induction xs arbitrary: ys) (auto simp: res_simps)

lemma mapM_Inr_length: "mapM f xs = Inr ys \<Longrightarrow> length ys = length xs"
  by (auto simp: mapM_eq_Inr dest: list_all2_lengthD)

lemma mapM_Inr_all:
  assumes "mapM f xs = Inr ys" and "\<And>x y. f x = Inr y \<Longrightarrow> P y" and "y \<in> set ys"
  shows "P y"
  using assms by (induction xs arbitrary: ys) (auto simp: andThen_eq_Inr)

section \<open>Computations that throw and mutate\<close>

type_synonym ('s, 'e, 'a) prog = "'s \<Rightarrow> ('e, 'a) res \<times> 's"

definition ret :: "'a \<Rightarrow> ('s, 'e, 'a) prog" where
  [prog_defs]: "ret x = (\<lambda>s. (Inr x, s))"

definition throw :: "'e \<Rightarrow> ('s, 'e, 'a) prog" where
  [prog_defs]: "throw e = (\<lambda>s. (Inl e, s))"

definition seqp :: "('s, 'e, 'a) prog \<Rightarrow> ('a \<Rightarrow> ('s, 'e, 'b) prog) \<Rightarrow> ('s, 'e, 'b) prog" where
  "seqp p f = (\<lambda>s. case p s of (Inl e, s') \<Rightarrow> (Inl e, s') | (Inr x, s') \<Rightarrow> f x s')"

definition getp :: "('s \<Rightarrow> ('s, 'e, 'b) prog) \<Rightarrow> ('s, 'e, 'b) prog" where
  [prog_defs]: "getp f = (\<lambda>s. f s s)"

definition modifyp :: "('s \<Rightarrow> 's) \<Rightarrow> ('s, 'e, unit) prog" where
  [prog_defs]: "modifyp f = (\<lambda>s. (Inr (), f s))"

definition liftp :: "('e, 'a) res \<Rightarrow> ('s, 'e, 'a) prog" where
  [prog_defs]: "liftp m = (\<lambda>s. (m, s))"

lemma liftp_seqp: "seqp (liftp m) k f = (case m of Inl e \<Rightarrow> (Inl e, f) | Inr x \<Rightarrow> k x f)"
  by (auto simp: seqp_def liftp_def split: sum.splits)

fun forp :: "'a list \<Rightarrow> ('a \<Rightarrow> ('s, 'e, unit) prog) \<Rightarrow> ('s, 'e, unit) prog" where
  "forp [] f = ret ()"
| "forp (x # xs) f = seqp (f x) (\<lambda>_. forp xs f)"

lemma seqp_apply_Inl [simp]: "p s = (Inl e, s') \<Longrightarrow> seqp p f s = (Inl e, s')"
  by (simp add: seqp_def)

lemma seqp_apply_Inr [simp]: "p s = (Inr x, s') \<Longrightarrow> seqp p f s = f x s'"
  by (simp add: seqp_def)

lemma seqp_eq_Inr [res_simps]:
  "seqp p f s = (Inr y, s'') \<longleftrightarrow> (\<exists>x s'. p s = (Inr x, s') \<and> f x s' = (Inr y, s''))"
  by (auto simp: seqp_def split: prod.splits sum.splits)

lemma seqp_eq_Inl [res_simps]:
  "seqp p f s = (Inl e, s'') \<longleftrightarrow>
     p s = (Inl e, s'') \<or> (\<exists>x s'. p s = (Inr x, s') \<and> f x s' = (Inl e, s''))"
  by (auto simp: seqp_def split: prod.splits sum.splits)

lemma seqp_assoc: "seqp (seqp p f) g = seqp p (\<lambda>x. seqp (f x) g)"
  by (auto simp: seqp_def fun_eq_iff split: prod.splits sum.splits)

lemma seqp_ret_left: "seqp (ret x) f = f x"
  by (simp add: seqp_def ret_def)

lemma forp_append: "forp (xs @ ys) f = seqp (forp xs f) (\<lambda>_. forp ys f)"
  by (induction xs) (simp_all add: seqp_assoc seqp_ret_left)

text \<open>A frame rule for the loop: what every pass keeps, the loop keeps.\<close>

lemma forp_preserves:
  assumes "\<And>x s r s'. x \<in> set xs \<Longrightarrow> I s \<Longrightarrow> f x s = (r, s') \<Longrightarrow> I s'"
    and "I s" and "forp xs f s = (r, s')"
  shows "I s'"
  using assms
proof (induction xs arbitrary: s)
  case Nil
  then show ?case by (simp add: ret_def)
next
  case (Cons x xs)
  obtain r1 s1 where step: "f x s = (r1, s1)" by (cases "f x s")
  with Cons.prems have "I s1" by auto
  show ?case
  proof (cases r1)
    case (Inl e)
    with step Cons.prems(3) \<open>I s1\<close> show ?thesis by (simp add: seqp_def)
  next
    case (Inr u)
    with step Cons.prems(3) have "forp xs f s1 = (r, s')" by (simp add: seqp_def)
    with Cons.IH [of s1] Cons.prems(1) \<open>I s1\<close> show ?thesis by auto
  qed
qed

section \<open>Frames\<close>

text \<open>A relation that a program keeps between the state it starts in and the state it
  leaves, however it ends.  The locale says what makes such a relation compositional.\<close>

definition keeps :: "('s \<Rightarrow> 's \<Rightarrow> bool) \<Rightarrow> ('s, 'e, 'a) prog \<Rightarrow> bool" where
  "keeps R p = (\<forall>s r s'. p s = (r, s') \<longrightarrow> R s s')"

lemma keepsI: "(\<And>s r s'. p s = (r, s') \<Longrightarrow> R s s') \<Longrightarrow> keeps R p"
  by (simp add: keeps_def)

lemma keepsD: "keeps R p \<Longrightarrow> p s = (r, s') \<Longrightarrow> R s s'"
  by (simp add: keeps_def)

lemma keeps_getp: "(\<And>s. keeps R (f s)) \<Longrightarrow> keeps R (getp f)"
  by (simp add: keeps_def getp_def)

lemma keeps_modifyp: "(\<And>s. R s (f s)) \<Longrightarrow> keeps R (modifyp f)"
  by (auto simp: keeps_def modifyp_def)

lemma keeps_if: "keeps R p \<Longrightarrow> keeps R q \<Longrightarrow> keeps R (if b then p else q)"
  by simp

lemma keeps_option: "keeps R p \<Longrightarrow> (\<And>x. keeps R (f x)) \<Longrightarrow> keeps R (case v of None \<Rightarrow> p | Some x \<Rightarrow> f x)"
  by (cases v) auto

locale frame =
  fixes R :: "'s \<Rightarrow> 's \<Rightarrow> bool"
  assumes frame_refl: "R s s"
    and frame_trans: "R s t \<Longrightarrow> R t u \<Longrightarrow> R s u"
begin

lemma keeps_ret: "keeps R (ret x)"
  by (auto simp: keeps_def ret_def frame_refl)

lemma keeps_throw: "keeps R (throw e)"
  by (auto simp: keeps_def throw_def frame_refl)

lemma keeps_liftp: "keeps R (liftp m)"
  by (auto simp: keeps_def liftp_def frame_refl)

lemma keeps_seqp:
  assumes "keeps R p" and "\<And>x. keeps R (f x)"
  shows "keeps R (seqp p f)"
proof (rule keepsI)
  fix s r s'
  assume h: "seqp p f s = (r, s')"
  obtain r1 s1 where p: "p s = (r1, s1)" by (cases "p s")
  with assms(1) have "R s s1" by (rule keepsD)
  with h p assms(2) show "R s s'"
    by (cases r1) (auto dest: keepsD intro: frame_trans)
qed

lemma keeps_forp: "(\<And>x. keeps R (f x)) \<Longrightarrow> keeps R (forp xs f)"
  by (induction xs) (auto intro: keeps_ret keeps_seqp)

lemmas keeps_intros =
  keeps_ret keeps_throw keeps_liftp keeps_seqp keeps_forp keeps_getp keeps_modifyp keeps_if keeps_option

end

section \<open>Lists\<close>

text \<open>\<open>xs.find(p)\<close> is \<^const>\<open>List.find\<close>; replacing the found element in place:\<close>

fun updateFirst :: "('a \<Rightarrow> bool) \<Rightarrow> ('a \<Rightarrow> 'a) \<Rightarrow> 'a list \<Rightarrow> 'a list" where
  "updateFirst p f [] = []"
| "updateFirst p f (x # xs) = (if p x then f x # xs else x # updateFirst p f xs)"

lemma length_updateFirst [simp]: "length (updateFirst p f xs) = length xs"
  by (induction xs) auto

lemma map_updateFirst:
  "(\<And>x. x \<in> set xs \<Longrightarrow> p x \<Longrightarrow> g (f x) = g x) \<Longrightarrow> map g (updateFirst p f xs) = map g xs"
  by (induction xs) auto

lemma set_updateFirst:
  "y \<in> set (updateFirst p f xs) \<Longrightarrow> y \<in> set xs \<or> (\<exists>x \<in> set xs. p x \<and> y = f x)"
  by (induction xs) (auto split: if_splits)

lemma updateFirst_hit:
  "List.find p xs = Some y \<Longrightarrow> (\<And>x. p x \<Longrightarrow> Q (f x)) \<Longrightarrow> \<exists>x \<in> set (updateFirst p f xs). Q x"
  by (induction xs) (auto split: if_splits)

lemma updateFirst_keep:
  "\<exists>x \<in> set xs. Q x \<Longrightarrow> (\<And>x. p x \<Longrightarrow> Q x \<Longrightarrow> Q (f x)) \<Longrightarrow> \<exists>x \<in> set (updateFirst p f xs). Q x"
  by (induction xs) auto

lemma updateFirst_unique:
  "x \<in> set (updateFirst p f xs) \<Longrightarrow> distinct (map g xs) \<Longrightarrow> (\<And>x y. p x \<Longrightarrow> p y \<Longrightarrow> g x = g y) \<Longrightarrow>
   (\<exists>y. p y \<and> x = f y) \<or> \<not> p x"
proof (induction xs)
  case (Cons a xs)
  show ?case
  proof (cases "p a")
    case True
    then have "p y \<Longrightarrow> y \<notin> set xs" for y
      using Cons.prems(2) Cons.prems(3) [of a y] by force
    with True Cons.prems(1) show ?thesis by auto
  next
    case False
    with Cons.prems(1) have "x = a \<or> x \<in> set (updateFirst p f xs)" by simp
    moreover have "distinct (map g xs)" using Cons.prems(2) by simp
    ultimately show ?thesis using Cons.IH Cons.prems(3) False by blast
  qed
qed simp

lemma find_eq_None [simp]: "List.find p xs = None \<longleftrightarrow> (\<forall>x \<in> set xs. \<not> p x)"
  by (induction xs) auto

lemma find_SomeD: "List.find p xs = Some x \<Longrightarrow> x \<in> set xs \<and> p x"
  by (induction xs) (auto split: if_splits)

lemma find_unique:
  "distinct (map f xs) \<Longrightarrow> x \<in> set xs \<Longrightarrow> List.find (\<lambda>y. f y = f x) xs = Some x"
  by (induction xs) force+

lemma distinct_snoc_map: "distinct (map f (xs @ [x])) \<longleftrightarrow> distinct (map f xs) \<and> f x \<notin> f ` set xs"
  by auto

text \<open>\<open>new Set(values).size !== values.length\<close>: JavaScript's duplicate test.\<close>

lemma card_set_eq_length: "card (set xs) = length xs \<longleftrightarrow> distinct xs"
  by (metis card_distinct distinct_card)

end
