(* ===== verification/Js_Text.thy ===== *)
theory Js_Text
  imports Prelude "HOL-Library.Char_ord" "HOL-Library.List_Lexorder" "HOL-Library.Sublist"
begin

text \<open>
  JavaScript strings.  A string is a list of code units; the model covers the
  code units below 256, one \<^typ>\<open>char\<close> each, so \<open>s.length\<close> is
  \<^const>\<open>length\<close>.  The operations are those the sources use: \<open>trim\<close>,
  \<open>toLowerCase\<close>, \<open>toUpperCase\<close>, \<open>startsWith\<close>,
  \<open>includes\<close>, \<open>split\<close> on one character, the decimal text of
  an integer, and \<open>Buffer.byteLength\<close> of the UTF-8 encoding.
\<close>

section \<open>Code units\<close>

definition code :: "char \<Rightarrow> nat" where
  "code c = of_char c"

definition between :: "char \<Rightarrow> char \<Rightarrow> char \<Rightarrow> bool" where
  "between lo hi c = (code lo \<le> code c \<and> code c \<le> code hi)"

definition is_digit :: "char \<Rightarrow> bool" where "is_digit c = between CHR ''0'' CHR ''9'' c"
definition is_lower :: "char \<Rightarrow> bool" where "is_lower c = between CHR ''a'' CHR ''z'' c"
definition is_upper :: "char \<Rightarrow> bool" where "is_upper c = between CHR ''A'' CHR ''Z'' c"
definition is_alnum :: "char \<Rightarrow> bool" where "is_alnum c = (is_lower c \<or> is_upper c \<or> is_digit c)"

text \<open>White space: \<open>\s\<close> and what \<open>trim\<close> removes, below 256.\<close>

definition is_ws :: "char \<Rightarrow> bool" where
  "is_ws c = (9 \<le> code c \<and> code c \<le> 13 \<or> code c = 32 \<or> code c = 160)"

definition is_control :: "char \<Rightarrow> bool" where
  "is_control c = (code c < 32)"

definition lower_char :: "char \<Rightarrow> char" where
  "lower_char c =
     (let n = code c in
      if 65 \<le> n \<and> n \<le> 90 \<or> 192 \<le> n \<and> n \<le> 222 \<and> n \<noteq> 215 then char_of (n + 32) else c)"

definition upper_char :: "char \<Rightarrow> char" where
  "upper_char c =
     (let n = code c in
      if 97 \<le> n \<and> n \<le> 122 \<or> 224 \<le> n \<and> n \<le> 254 \<and> n \<noteq> 247 then char_of (n - 32) else c)"

definition toLowerCase :: "string \<Rightarrow> string" where
  "toLowerCase s = map lower_char s"

definition toUpperCase :: "string \<Rightarrow> string" where
  "toUpperCase s = map upper_char s"

lemma length_toLowerCase [simp]: "length (toLowerCase s) = length s"
  by (simp add: toLowerCase_def)

lemma code_char_of [simp]: "n < 256 \<Longrightarrow> code (char_of n) = n"
  by (simp add: code_def)

lemma code_less [simp]: "code c < 256"
  by (simp add: code_def)

lemma lower_char_idem [simp]: "lower_char (lower_char c) = lower_char c"
  by (auto simp: lower_char_def Let_def)

lemma toLowerCase_idem [simp]: "toLowerCase (toLowerCase s) = toLowerCase s"
  by (simp add: toLowerCase_def)

section \<open>Trimming\<close>

definition trim :: "string \<Rightarrow> string" where
  "trim s = rev (dropWhile is_ws (rev (dropWhile is_ws s)))"

lemma dropWhile_decomp: "s = takeWhile P s @ dropWhile P s"
  by simp

lemma trim_decomp:
  "\<exists>u v. s = u @ trim s @ v \<and> list_all is_ws u \<and> list_all is_ws v"
proof -
  let ?d = "dropWhile is_ws s"
  have "s = takeWhile is_ws s @ ?d" by simp
  moreover have "?d = trim s @ rev (takeWhile is_ws (rev ?d))"
    unfolding trim_def by (metis rev_append rev_rev_ident takeWhile_dropWhile_id)
  moreover have "list_all is_ws (takeWhile is_ws s)"
    by (auto simp: list_all_iff dest: set_takeWhileD)
  moreover have "list_all is_ws (rev (takeWhile is_ws (rev ?d)))"
    by (auto simp: list_all_iff dest: set_takeWhileD)
  ultimately show ?thesis by metis
qed

lemma length_trim: "length (trim s) \<le> length s"
  using trim_decomp [of s] by (metis le_add1 le_add2 length_append le_trans)

lemma set_trim: "set (trim s) \<subseteq> set s"
  using trim_decomp [of s] by (metis Un_upper1 Un_upper2 set_append subset_trans)

lemma trim_ends: "trim s \<noteq> [] \<Longrightarrow> \<not> is_ws (hd (trim s)) \<and> \<not> is_ws (last (trim s))"
proof -
  assume ne: "trim s \<noteq> []"
  let ?d = "dropWhile is_ws s"
  have e: "dropWhile is_ws (rev ?d) \<noteq> []" using ne by (simp add: trim_def)
  then have l: "\<not> is_ws (last (trim s))"
    using hd_dropWhile [OF e] by (simp add: trim_def last_rev)
  have d: "?d \<noteq> []" using e by (metis dropWhile.simps(1) rev.simps(1))
  obtain w where w: "rev ?d = w @ dropWhile is_ws (rev ?d)"
    by (metis takeWhile_dropWhile_id)
  then have "?d = trim s @ rev w"
    unfolding trim_def by (metis rev_append rev_rev_ident)
  then have "hd ?d = hd (trim s)" using ne by simp
  with hd_dropWhile [OF d] l show ?thesis by simp
qed

lemma trim_fixed: "s = [] \<or> \<not> is_ws (hd s) \<and> \<not> is_ws (last s) \<Longrightarrow> trim s = s"
proof -
  assume h: "s = [] \<or> \<not> is_ws (hd s) \<and> \<not> is_ws (last s)"
  show ?thesis
  proof (cases s)
    case Nil
    then show ?thesis by (simp add: trim_def)
  next
    case (Cons c cs)
    with h have 1: "dropWhile is_ws s = s" by simp
    obtain d ds where r: "rev s = d # ds" using Cons by (cases "rev s") auto
    with h Cons have "\<not> is_ws d" by (metis hd_rev list.sel(1) list.simps(3))
    with r have "dropWhile is_ws (rev s) = rev s" by simp
    with 1 show ?thesis by (simp add: trim_def)
  qed
qed

lemma trim_trim [simp]: "trim (trim s) = trim s"
  by (rule trim_fixed) (use trim_ends in blast)

section \<open>Searching and splitting\<close>

definition startsWith :: "string \<Rightarrow> string \<Rightarrow> bool" where
  "startsWith s p = (take (length p) s = p)"

fun str_includes :: "string \<Rightarrow> string \<Rightarrow> bool" where
  "str_includes [] p = (p = [])"
| "str_includes (c # cs) p = (startsWith (c # cs) p \<or> str_includes cs p)"

text \<open>\<open>s.split(d)\<close> for a one-character separator.\<close>

fun split_on :: "char \<Rightarrow> string \<Rightarrow> string list" where
  "split_on d [] = [[]]"
| "split_on d (c # cs) =
     (if c = d then [] # split_on d cs
      else (case split_on d cs of [] \<Rightarrow> [[c]] | x # xs \<Rightarrow> (c # x) # xs))"

fun join :: "string \<Rightarrow> string list \<Rightarrow> string" where
  "join sep [] = []"
| "join sep [x] = x"
| "join sep (x # y # xs) = x @ sep @ join sep (y # xs)"

lemma startsWith_append [simp]: "startsWith (p @ s) p"
  by (simp add: startsWith_def)

lemma startsWith_iff: "startsWith s p \<longleftrightarrow> (\<exists>t. s = p @ t)"
  by (metis append_take_drop_id append_eq_conv_conj startsWith_def)

lemma str_includes_iff: "str_includes s p \<longleftrightarrow> (\<exists>u v. s = u @ p @ v)"
proof (induction s)
  case (Cons c cs)
  have "(\<exists>u v. c # cs = u @ p @ v) \<longleftrightarrow> (\<exists>v. c # cs = p @ v) \<or> (\<exists>u v. cs = u @ p @ v)"
    by (metis append_Cons append_Nil list.exhaust list.sel(3))
  with Cons show ?case by (simp add: startsWith_iff)
qed auto

lemma split_on_ne [simp]: "split_on d s \<noteq> []"
  by (cases s) (auto split: list.splits)

lemma join_split_on: "join [d] (split_on d s) = s"
proof (induction s)
  case (Cons c cs)
  obtain x xs where e: "split_on d cs = x # xs" by (cases "split_on d cs") auto
  with Cons show ?case by (cases xs) auto
qed simp

section \<open>Numbers as text, UTF-8 length\<close>

fun nat_digits :: "nat \<Rightarrow> string" where
  "nat_digits n =
     (if n < 10 then [char_of (48 + n)] else nat_digits (n div 10) @ [char_of (48 + n mod 10)])"

declare nat_digits.simps [simp del]

definition int_text :: "int \<Rightarrow> string" where
  "int_text i = (if i < 0 then ''-'' @ nat_digits (nat (- i)) else nat_digits (nat i))"

definition utf8_length :: "string \<Rightarrow> nat" where
  "utf8_length s = (\<Sum>c\<leftarrow>s. if code c < 128 then 1 else 2)"

lemma utf8_length_append [simp]: "utf8_length (s @ t) = utf8_length s + utf8_length t"
  by (simp add: utf8_length_def)

lemma utf8_length_ge: "length s \<le> utf8_length s"
  by (induction s) (auto simp: utf8_length_def)

end
