(* ===== verification/Js_Regex.thy ===== *)
theory Js_Regex
  imports Js_Text
begin

text \<open>
  The fragment of JavaScript regular expressions the sources use, with the
  backtracking semantics of the language: \<open>rests r s\<close> lists what is left of
  \<open>s\<close> after every way \<open>r\<close> matches a prefix of it, in the order in which a
  backtracking matcher tries them (greedy quantifiers first try one more pass, the
  left alternative comes first).  The match JavaScript takes is the head of the list.
  \<open>replace_all\<close> is \<open>String.prototype.replace\<close> with the \<open>g\<close> flag.
\<close>

section \<open>Expressions and their matches\<close>

datatype rx =
    Eps
  | Cls "char \<Rightarrow> bool"
  | Seq rx rx
  | Alt rx rx
  | Star rx
  | LazyStar rx

function rests :: "rx \<Rightarrow> string \<Rightarrow> string list" where
  "rests Eps s = [s]"
| "rests (Cls P) s = (case s of [] \<Rightarrow> [] | c # cs \<Rightarrow> if P c then [cs] else [])"
| "rests (Seq a b) s = concat (map (rests b) (rests a s))"
| "rests (Alt a b) s = rests a s @ rests b s"
| "rests (Star a) s =
     concat (map (\<lambda>t. if length t < length s then rests (Star a) t else []) (rests a s)) @ [s]"
| "rests (LazyStar a) s =
     s # concat (map (\<lambda>t. if length t < length s then rests (LazyStar a) t else []) (rests a s))"
  by pat_completeness auto
termination
  by (relation "measures [size \<circ> fst, length \<circ> snd]") auto

declare rests.simps(5,6) [simp del]

definition ch :: "char \<Rightarrow> rx" where "ch c = Cls ((=) c)"

text \<open>A letter under the \<open>i\<close> flag.\<close>

definition chi :: "char \<Rightarrow> rx" where "chi c = Cls (\<lambda>x. lower_char x = lower_char c)"

fun lit :: "string \<Rightarrow> rx" where
  "lit [] = Eps"
| "lit (c # cs) = Seq (ch c) (lit cs)"

fun liti :: "string \<Rightarrow> rx" where
  "liti [] = Eps"
| "liti (c # cs) = Seq (chi c) (liti cs)"

definition Opt :: "rx \<Rightarrow> rx" where "Opt r = Alt r Eps"
definition Plus :: "rx \<Rightarrow> rx" where "Plus r = Seq r (Star r)"

text \<open>\<open>r{n}\<close>, \<open>r{n,}\<close> and \<open>r{0,n}\<close>.\<close>

fun Times :: "nat \<Rightarrow> rx \<Rightarrow> rx" where
  "Times 0 r = Eps"
| "Times (Suc n) r = Seq r (Times n r)"

definition AtLeast :: "nat \<Rightarrow> rx \<Rightarrow> rx" where "AtLeast n r = Seq (Times n r) (Star r)"

fun UpTo :: "nat \<Rightarrow> rx \<Rightarrow> rx" where
  "UpTo 0 r = Eps"
| "UpTo (Suc n) r = Alt (Seq r (UpTo n r)) Eps"

text \<open>\<open>/^r$/.test(s)\<close> (without the \<open>m\<close> flag): the whole string.\<close>

definition test_full :: "rx \<Rightarrow> string \<Rightarrow> bool" where
  "test_full r s = ([] \<in> set (rests r s))"

text \<open>\<open>/r/.test(s)\<close>: some position.\<close>

fun test_any :: "rx \<Rightarrow> string \<Rightarrow> bool" where
  "test_any r [] = (rests r [] \<noteq> [])"
| "test_any r (c # cs) = (rests r (c # cs) \<noteq> [] \<or> test_any r cs)"

text \<open>
  \<open>s.replace(/r/g, m)\<close> for an expression that matches no empty string: scan from the
  left; on a match, emit the replacement and go on behind it.
\<close>

function replace_all :: "rx \<Rightarrow> string \<Rightarrow> string \<Rightarrow> string" where
  "replace_all r m s =
     (case s of
        [] \<Rightarrow> []
      | c # cs \<Rightarrow>
          (case rests r s of
             [] \<Rightarrow> c # replace_all r m cs
           | t # _ \<Rightarrow> if length t < length s then m @ replace_all r m t
                     else c # replace_all r m cs))"
  by pat_completeness auto
termination
  by (relation "measure (\<lambda>(r, m, s). length s)") auto

declare replace_all.simps [simp del]

lemma replace_all_Nil [simp]: "replace_all r m [] = []"
  by (subst replace_all.simps) simp

lemma replace_all_nomatch:
  "rests r (c # cs) = [] \<Longrightarrow> replace_all r m (c # cs) = c # replace_all r m cs"
  by (subst replace_all.simps) simp

lemma replace_all_match:
  "rests r s = t # ts \<Longrightarrow> length t < length s \<Longrightarrow> replace_all r m s = m @ replace_all r m t"
  by (subst replace_all.simps) (auto split: list.splits)

lemma replace_all_Cons_cases:
  obtains (skip) "replace_all r m (c # cs) = c # replace_all r m cs"
    | (hit) x xs where "rests r (c # cs) = x # xs" "length x < length (c # cs)"
        "replace_all r m (c # cs) = m @ replace_all r m x"
proof (cases "rests r (c # cs)")
  case Nil
  then show ?thesis using replace_all_nomatch skip by blast
next
  case (Cons x xs)
  show ?thesis
  proof (cases "length x < length (c # cs)")
    case True
    with Cons show ?thesis using replace_all_match hit by blast
  next
    case False
    with Cons have "replace_all r m (c # cs) = c # replace_all r m cs"
      by (subst replace_all.simps) simp
    then show ?thesis by (rule skip)
  qed
qed

section \<open>General facts\<close>

lemma in_rests_Star:
  "t \<in> set (rests (Star a) s) \<longleftrightarrow>
     t = s \<or> (\<exists>x \<in> set (rests a s). length x < length s \<and> t \<in> set (rests (Star a) x))"
  by (subst rests.simps) auto

lemma in_rests_LazyStar:
  "t \<in> set (rests (LazyStar a) s) \<longleftrightarrow>
     t = s \<or> (\<exists>x \<in> set (rests a s). length x < length s \<and> t \<in> set (rests (LazyStar a) x))"
  by (subst rests.simps) auto

lemma rests_suffix: "t \<in> set (rests r s) \<Longrightarrow> \<exists>u. s = u @ t"
proof (induction r s arbitrary: t rule: rests.induct)
  case (3 a b s)
  then show ?case by (fastforce)
next
  case (5 a s)
  then show ?case unfolding in_rests_Star [of t a s] by (metis append_assoc append_Nil)
next
  case (6 a s)
  then show ?case unfolding in_rests_LazyStar [of t a s] by (metis append_assoc append_Nil)
qed (auto split: list.splits if_splits)

lemma rests_length: "t \<in> set (rests r s) \<Longrightarrow> length t \<le> length s"
  using rests_suffix by fastforce

text \<open>
  The matches that stay inside a prefix: appending text at the end adds only matches
  that reach into it.  Every scanner fact below rests on this equation.
\<close>

lemma filter_concat_map:
  assumes "\<And>x. x \<in> set xs \<Longrightarrow> filter P (f x) = (if Q x then g x else [])"
  shows "filter P (concat (map f xs)) = concat (map g (filter Q xs))"
  using assms by (induction xs) auto

lemma concat_map_cong_set:
  "(\<And>x. x \<in> set xs \<Longrightarrow> f x = g x) \<Longrightarrow> concat (map f xs) = concat (map g xs)"
  by (induction xs) auto

lemma rests_longer_filter:
  "length s < n \<Longrightarrow> filter (\<lambda>x. n \<le> length x) (rests r s) = []"
  using rests_length by (force simp: filter_empty_conv)

lemma rests_append:
  "filter (\<lambda>x. length t \<le> length x) (rests r (s @ t)) = map (\<lambda>y. y @ t) (rests r s)"
proof (induction r s rule: rests.induct)
  case (1 s)
  then show ?case by simp
next
  case (2 P s)
  then show ?case by (cases s) (auto split: list.splits)
next
  case (3 a b s)
  let ?P = "\<lambda>x. length t \<le> length x"
  have "filter ?P (concat (map (rests b) (rests a (s @ t)))) =
        concat (map (\<lambda>x. filter ?P (rests b x)) (filter ?P (rests a (s @ t))))"
    by (rule filter_concat_map) (auto simp: rests_longer_filter not_le)
  also have "\<dots> = concat (map (\<lambda>y. filter ?P (rests b (y @ t))) (rests a s))"
    by (simp add: 3(1) comp_def)
  also have "\<dots> = concat (map (\<lambda>y. map (\<lambda>z. z @ t) (rests b y)) (rests a s))"
    using 3(2) by (intro concat_map_cong_set) auto
  also have "\<dots> = map (\<lambda>z. z @ t) (concat (map (rests b) (rests a s)))"
    by (simp add: map_concat comp_def)
  finally show ?case by simp
next
  case (4 a b s)
  then show ?case by simp
next
  case (5 a s)
  let ?P = "\<lambda>x. length t \<le> length x"
  let ?f = "\<lambda>n x. if length x < n then rests (Star a) x else []"
  have "filter ?P (concat (map (?f (length (s @ t))) (rests a (s @ t)))) =
        concat (map (\<lambda>x. filter ?P (?f (length (s @ t)) x)) (filter ?P (rests a (s @ t))))"
    by (rule filter_concat_map) (auto simp: rests_longer_filter not_le)
  also have "\<dots> = concat (map (\<lambda>y. filter ?P (?f (length (s @ t)) (y @ t))) (rests a s))"
    by (simp add: 5(1) comp_def)
  also have "\<dots> = concat (map (\<lambda>y. map (\<lambda>z. z @ t) (?f (length s) y)) (rests a s))"
    using 5(2) by (intro concat_map_cong_set) auto
  also have "\<dots> = map (\<lambda>z. z @ t) (concat (map (?f (length s)) (rests a s)))"
    by (simp add: map_concat comp_def)
  finally show ?case by (simp add: rests.simps(5) [of a s] rests.simps(5) [of a "s @ t"])
next
  case (6 a s)
  let ?P = "\<lambda>x. length t \<le> length x"
  let ?f = "\<lambda>n x. if length x < n then rests (LazyStar a) x else []"
  have "filter ?P (concat (map (?f (length (s @ t))) (rests a (s @ t)))) =
        concat (map (\<lambda>x. filter ?P (?f (length (s @ t)) x)) (filter ?P (rests a (s @ t))))"
    by (rule filter_concat_map) (auto simp: rests_longer_filter not_le)
  also have "\<dots> = concat (map (\<lambda>y. filter ?P (?f (length (s @ t)) (y @ t))) (rests a s))"
    by (simp add: 6(1) comp_def)
  also have "\<dots> = concat (map (\<lambda>y. map (\<lambda>z. z @ t) (?f (length s) y)) (rests a s))"
    using 6(2) by (intro concat_map_cong_set) auto
  also have "\<dots> = map (\<lambda>z. z @ t) (concat (map (?f (length s)) (rests a s)))"
    by (simp add: map_concat comp_def)
  finally show ?case by (simp add: rests.simps(6) [of a s] rests.simps(6) [of a "s @ t"])
qed

lemma rests_extend: "y \<in> set (rests r s) \<Longrightarrow> y @ t \<in> set (rests r (s @ t))"
proof -
  assume "y \<in> set (rests r s)"
  then have "y @ t \<in> set (map (\<lambda>y. y @ t) (rests r s))" by simp
  then show ?thesis unfolding rests_append [symmetric] by simp
qed

lemma rests_restrict:
  "x \<in> set (rests r (s @ t)) \<Longrightarrow> length t \<le> length x \<Longrightarrow> \<exists>y \<in> set (rests r s). x = y @ t"
proof -
  assume "x \<in> set (rests r (s @ t))" and "length t \<le> length x"
  then have "x \<in> set (filter (\<lambda>x. length t \<le> length x) (rests r (s @ t)))" by simp
  then show ?thesis unfolding rests_append by auto
qed

section \<open>Whole-string tests of simple shapes\<close>

lemma test_full_Cls_Seq:
  "test_full (Seq (Cls P) r) s \<longleftrightarrow> (case s of [] \<Rightarrow> False | c # cs \<Rightarrow> P c \<and> test_full r cs)"
  by (auto simp: test_full_def split: list.splits)

lemma test_full_Times: "test_full (Times n (Cls P)) s \<longleftrightarrow> length s = n \<and> list_all P s"
proof (induction n arbitrary: s)
  case 0
  then show ?case by (auto simp: test_full_def)
next
  case (Suc n)
  then show ?case by (cases s) (auto simp: test_full_Cls_Seq)
qed

lemma test_full_UpTo: "test_full (UpTo n (Cls P)) s \<longleftrightarrow> length s \<le> n \<and> list_all P s"
proof (induction n arbitrary: s)
  case 0
  then show ?case by (auto simp: test_full_def)
next
  case (Suc n)
  have "test_full (UpTo (Suc n) (Cls P)) s \<longleftrightarrow> s = [] \<or> test_full (Seq (Cls P) (UpTo n (Cls P))) s"
    by (auto simp: test_full_def)
  with Suc show ?case by (cases s) (auto simp: test_full_Cls_Seq)
qed

section \<open>What a match can consume\<close>

text \<open>
  Syntactic conditions: whether the empty string matches, whether every consumed
  character satisfies a condition, whether the first and the last one do.
\<close>

primrec nullable :: "rx \<Rightarrow> bool" where
  "nullable Eps = True"
| "nullable (Cls P) = False"
| "nullable (Seq a b) = (nullable a \<and> nullable b)"
| "nullable (Alt a b) = (nullable a \<or> nullable b)"
| "nullable (Star a) = True"
| "nullable (LazyStar a) = True"

primrec all_cls :: "(char \<Rightarrow> bool) \<Rightarrow> rx \<Rightarrow> bool" where
  "all_cls Q Eps = True"
| "all_cls Q (Cls P) = (\<forall>c. P c \<longrightarrow> Q c)"
| "all_cls Q (Seq a b) = (all_cls Q a \<and> all_cls Q b)"
| "all_cls Q (Alt a b) = (all_cls Q a \<and> all_cls Q b)"
| "all_cls Q (Star a) = all_cls Q a"
| "all_cls Q (LazyStar a) = all_cls Q a"

primrec starts_in :: "(char \<Rightarrow> bool) \<Rightarrow> rx \<Rightarrow> bool" where
  "starts_in Q Eps = True"
| "starts_in Q (Cls P) = (\<forall>c. P c \<longrightarrow> Q c)"
| "starts_in Q (Seq a b) = (starts_in Q a \<and> (nullable a \<longrightarrow> starts_in Q b))"
| "starts_in Q (Alt a b) = (starts_in Q a \<and> starts_in Q b)"
| "starts_in Q (Star a) = starts_in Q a"
| "starts_in Q (LazyStar a) = starts_in Q a"

primrec ends_in :: "(char \<Rightarrow> bool) \<Rightarrow> rx \<Rightarrow> bool" where
  "ends_in Q Eps = True"
| "ends_in Q (Cls P) = (\<forall>c. P c \<longrightarrow> Q c)"
| "ends_in Q (Seq a b) = (ends_in Q b \<and> (nullable b \<longrightarrow> ends_in Q a))"
| "ends_in Q (Alt a b) = (ends_in Q a \<and> ends_in Q b)"
| "ends_in Q (Star a) = ends_in Q a"
| "ends_in Q (LazyStar a) = ends_in Q a"

lemma rests_not_nullable: "t \<in> set (rests r s) \<Longrightarrow> \<not> nullable r \<Longrightarrow> length t < length s"
proof (induction r arbitrary: s t)
  case (Seq a b)
  then obtain x where x: "x \<in> set (rests a s)" "t \<in> set (rests b x)" by auto
  with Seq show ?case using rests_length [OF x(1)] rests_length [OF x(2)]
    by (metis le_less_trans less_le_trans nullable.simps(3))
qed (auto split: list.splits if_splits)

lemma rests_all_cls:
  "t \<in> set (rests r s) \<Longrightarrow> all_cls Q r \<Longrightarrow> \<exists>u. s = u @ t \<and> list_all Q u"
proof (induction r s arbitrary: t rule: rests.induct)
  case (2 P s)
  then show ?case
    by (auto split: list.splits if_splits intro: exI [of _ "[_]"])
next
  case (3 a b s)
  then obtain x where "x \<in> set (rests a s)" "t \<in> set (rests b x)" by auto
  with 3 obtain u v where "s = u @ x" "list_all Q u" "x = v @ t" "list_all Q v" by force
  then show ?case by (metis append_assoc list_all_append)
next
  case (5 a s)
  then consider "t = s" | x where "x \<in> set (rests a s)" "length x < length s"
      "t \<in> set (rests (Star a) x)"
    unfolding in_rests_Star [of t a s] by blast
  then show ?case
  proof cases
    case 1
    then show ?thesis by simp
  next
    case (2 x)
    with 5 obtain u v where "s = u @ x" "list_all Q u" "x = v @ t" "list_all Q v"
      by (metis all_cls.simps(5))
    then show ?thesis by (metis append_assoc list_all_append)
  qed
next
  case (6 a s)
  then consider "t = s" | x where "x \<in> set (rests a s)" "length x < length s"
      "t \<in> set (rests (LazyStar a) x)"
    unfolding in_rests_LazyStar [of t a s] by blast
  then show ?case
  proof cases
    case 1
    then show ?thesis by simp
  next
    case (2 x)
    with 6 obtain u v where "s = u @ x" "list_all Q u" "x = v @ t" "list_all Q v"
      by (metis all_cls.simps(6))
    then show ?thesis by (metis append_assoc list_all_append)
  qed
qed (auto split: list.splits if_splits)

lemma rests_starts_in:
  "t \<in> set (rests r s) \<Longrightarrow> starts_in Q r \<Longrightarrow> t \<noteq> s \<Longrightarrow> \<exists>c cs. s = c # cs \<and> Q c"
proof (induction r s arbitrary: t rule: rests.induct)
  case (3 a b s)
  then obtain x where x: "x \<in> set (rests a s)" "t \<in> set (rests b x)" by auto
  show ?case
  proof (cases "x = s")
    case True
    with x have "nullable a" using rests_not_nullable by blast
    with 3 x True show ?thesis by auto
  next
    case False
    with 3 x show ?thesis by auto
  qed
next
  case (5 a s)
  then show ?case unfolding in_rests_Star [of t a s] by (metis less_irrefl starts_in.simps(5))
next
  case (6 a s)
  then show ?case unfolding in_rests_LazyStar [of t a s] by (metis less_irrefl starts_in.simps(6))
qed (auto split: list.splits if_splits)

lemma rests_ends_in:
  "t \<in> set (rests r s) \<Longrightarrow> ends_in Q r \<Longrightarrow> t \<noteq> s \<Longrightarrow> \<exists>u c. s = u @ c # t \<and> Q c"
proof (induction r s arbitrary: t rule: rests.induct)
  case (3 a b s)
  then obtain x where x: "x \<in> set (rests a s)" "t \<in> set (rests b x)" by auto
  obtain u where u: "s = u @ x" using rests_suffix [OF x(1)] by blast
  show ?case
  proof (cases "t = x")
    case True
    with x have "nullable b" using rests_not_nullable by blast
    with 3 x True show ?thesis by auto
  next
    case False
    have "ends_in Q b" using 3(4) by simp
    with 3(2) [OF x(1) x(2)] False obtain v c where "x = v @ c # t" "Q c" by blast
    with u show ?thesis by (metis append_assoc)
  qed
next
  case (5 a s)
  then consider x where "x \<in> set (rests a s)" "length x < length s" "t \<in> set (rests (Star a) x)"
    unfolding in_rests_Star [of t a s] by blast
  then show ?case
  proof cases
    case 1
    then obtain u where "s = u @ x" using rests_suffix by blast
    with 1 "5.prems" "5.IH" show ?thesis
      by (cases "t = x") (fastforce, metis append_assoc ends_in.simps(5))
  qed
next
  case (6 a s)
  then consider x where "x \<in> set (rests a s)" "length x < length s" "t \<in> set (rests (LazyStar a) x)"
    unfolding in_rests_LazyStar [of t a s] by blast
  then show ?case
  proof cases
    case 1
    then obtain u where "s = u @ x" using rests_suffix by blast
    with 1 "6.prems" "6.IH" show ?thesis
      by (cases "t = x") (fastforce, metis append_assoc ends_in.simps(6))
  qed
qed (auto split: list.splits if_splits)

section \<open>Scanning and surrounding white space\<close>

text \<open>An expression whose matches are not empty and neither begin nor end with white space.\<close>

definition tight :: "rx \<Rightarrow> bool" where
  "tight r \<longleftrightarrow> \<not> nullable r \<and> starts_in (\<lambda>c. \<not> is_ws c) r \<and> ends_in (\<lambda>c. \<not> is_ws c) r"

lemma tight_at_ws: "tight r \<Longrightarrow> is_ws c \<Longrightarrow> rests r (c # cs) = []"
proof (rule ccontr)
  assume t: "tight r" and c: "is_ws c" and "rests r (c # cs) \<noteq> []"
  then obtain x where x: "x \<in> set (rests r (c # cs))" by (cases "rests r (c # cs)") auto
  have "x \<noteq> c # cs" using rests_not_nullable [OF x] t by (auto simp: tight_def)
  with rests_starts_in [OF x, of "\<lambda>c. \<not> is_ws c"] t c show False by (simp add: tight_def)
qed

lemma replace_all_ws: "tight r \<Longrightarrow> list_all is_ws u \<Longrightarrow> replace_all r m (u @ s) = u @ replace_all r m s"
  by (induction u) (simp_all add: replace_all_nomatch tight_at_ws)

lemma tight_rests_append:
  assumes "tight r" and "list_all is_ws v"
  shows "rests r (s @ v) = map (\<lambda>y. y @ v) (rests r s)"
proof -
  have "length v \<le> length x" if x: "x \<in> set (rests r (s @ v))" for x
  proof (rule ccontr)
    assume short: "\<not> length v \<le> length x"
    have "x \<noteq> s @ v" using short by auto
    with rests_ends_in [OF x, of "\<lambda>c. \<not> is_ws c"] assms(1)
    obtain w c where w: "s @ v = w @ c # x" and c: "\<not> is_ws c" by (auto simp: tight_def)
    have "c \<in> set v"
    proof -
      have "length s \<le> length w" using short arg_cong [OF w, of length] by simp
      then obtain w' where "w = s @ w'" using w by (metis append_eq_append_conv_if append_take_drop_id)
      with w have "v = w' @ c # x" by simp
      then show ?thesis by simp
    qed
    with assms(2) c show False by (simp add: list_all_iff)
  qed
  then have "filter (\<lambda>x. length v \<le> length x) (rests r (s @ v)) = rests r (s @ v)"
    by (simp add: filter_id_conv)
  then show ?thesis by (simp add: rests_append)
qed

lemma replace_all_ws_end:
  assumes "tight r" and "list_all is_ws v"
  shows "replace_all r m (s @ v) = replace_all r m s @ v"
proof (induction s rule: length_induct)
  case (1 s)
  note ap = tight_rests_append [OF assms, of s]
  show ?case
  proof (cases s)
    case Nil
    then show ?thesis using replace_all_ws [OF assms, of m "[]"] by simp
  next
    case (Cons c cs)
    show ?thesis
    proof (cases "rests r s")
      case nomatch: Nil
      have "replace_all r m (cs @ v) = replace_all r m cs @ v" using 1 Cons by simp
      then show ?thesis using nomatch ap Cons by (simp add: replace_all_nomatch)
    next
      case (Cons t ts)
      then have "t \<in> set (rests r s)" by simp
      then have lt: "length t < length s" using rests_not_nullable assms(1) tight_def by blast
      with 1 have "replace_all r m (t @ v) = replace_all r m t @ v" by blast
      with Cons ap lt show ?thesis by (simp add: replace_all_match)
    qed
  qed
qed

section \<open>What survives a replacement\<close>

text \<open>
  An expression whose matches are not empty and never contain the mask character \<open>*\<close>:
  after the replacement by the mask no match is left, and a later replacement of other
  text by the mask brings none back.
\<close>

abbreviation mask3 :: string where "mask3 \<equiv> ''***''"

definition maskable :: "rx \<Rightarrow> bool" where
  "maskable r \<longleftrightarrow> \<not> nullable r \<and> all_cls (\<lambda>c. c \<noteq> CHR ''*'') r"

definition occurs :: "rx \<Rightarrow> string \<Rightarrow> bool" where
  "occurs r s \<longleftrightarrow> (\<exists>u v. s = u @ v \<and> rests r v \<noteq> [])"

lemma occurs_test_any: "test_any r s \<longleftrightarrow> occurs r s"
proof (induction s)
  case Nil
  then show ?case by (simp add: occurs_def)
next
  case (Cons c cs)
  have "occurs r (c # cs) \<longleftrightarrow> rests r (c # cs) \<noteq> [] \<or> occurs r cs"
    unfolding occurs_def by (metis append_Cons append_Nil list.exhaust list.sel(3))
  with Cons show ?case by simp
qed

text \<open>A star-free text at the front of a masked string is at the front of the original.\<close>

lemma replace_all_prefix:
  assumes "replace_all r mask3 s = w @ t" and "CHR ''*'' \<notin> set w"
  shows "\<exists>t'. s = w @ t'"
  using assms
proof (induction w arbitrary: s t)
  case (Cons c w)
  show ?case
  proof (cases s)
    case Nil
    with Cons.prems show ?thesis by simp
  next
    case (Cons d ds)
    have "replace_all r mask3 s = d # replace_all r mask3 ds"
    proof (rule ccontr)
      assume "replace_all r mask3 s \<noteq> d # replace_all r mask3 ds"
      then obtain x where "replace_all r mask3 s = mask3 @ replace_all r mask3 x"
        using replace_all_Cons_cases [of r mask3 d ds] Cons by metis
      with Cons.prems show False by simp
    qed
    with Cons.prems have "c = d" and "replace_all r mask3 ds = w @ t" by simp_all
    with Cons.IH Cons.prems(2) \<open>s = d # ds\<close> show ?thesis by (metis append_Cons list.set_intros(2))
  qed
qed simp

lemma maskable_match:
  assumes "maskable r" and "rests r s \<noteq> []"
  shows "\<exists>w t. s = w @ t \<and> w \<noteq> [] \<and> CHR ''*'' \<notin> set w \<and> rests r w \<noteq> []"
proof -
  obtain t where t: "t \<in> set (rests r s)" using assms(2) by (cases "rests r s") auto
  with assms(1) obtain w where w: "s = w @ t" "list_all (\<lambda>c. c \<noteq> CHR ''*'') w"
    unfolding maskable_def using rests_all_cls by blast
  have "length t < length s" using rests_not_nullable [OF t] assms(1) by (simp add: maskable_def)
  with w have "w \<noteq> []" by auto
  moreover have "rests r w \<noteq> []"
    using rests_restrict [of t r w t] t w by (auto simp: w(1))
  ultimately show ?thesis using w by (auto simp: list_all_iff)
qed

lemma rests_prefix_extend: "rests r w \<noteq> [] \<Longrightarrow> rests r (w @ t) \<noteq> []"
  using rests_extend [of "hd (rests r w)" r w t] by (cases "rests r w") auto

lemma replace_all_no_occurrence: "maskable r \<Longrightarrow> \<not> occurs r s \<Longrightarrow> \<not> occurs r (replace_all q mask3 s)"
proof (induction s rule: length_induct)
  case (1 s)
  have IH: "\<not> occurs r (replace_all q mask3 t)" if "length t < length s" "s = u @ t" for t u
    using 1 that by (metis append_assoc occurs_def)
  show ?case
  proof
    assume "occurs r (replace_all q mask3 s)"
    then obtain u v where uv: "replace_all q mask3 s = u @ v" and m: "rests r v \<noteq> []"
      by (auto simp: occurs_def)
    obtain w t where w: "v = w @ t" "w \<noteq> []" "CHR ''*'' \<notin> set w" "rests r w \<noteq> []"
      using maskable_match [OF 1(2) m] by blast
    show False
    proof (cases s)
      case Nil
      with uv w show False by simp
    next
      case (Cons c cs)
      consider (skip) "replace_all q mask3 s = c # replace_all q mask3 cs"
        | (hit) x xs where "rests q s = x # xs" "length x < length s"
            "replace_all q mask3 s = mask3 @ replace_all q mask3 x"
        using replace_all_Cons_cases [of q mask3 c cs] Cons by metis
      then show False
      proof cases
        case skip
        show False
        proof (cases u)
          case Nil
          with uv w have "replace_all q mask3 s = w @ t" by simp
          then obtain t' where "s = w @ t'" using replace_all_prefix w(3) by blast
          then have "rests r s \<noteq> []" using rests_prefix_extend w(4) by blast
          with 1(3) show False by (metis append_Nil occurs_def)
        next
          case (Cons d ds)
          with uv skip have "replace_all q mask3 cs = ds @ v" by simp
          then have "occurs r (replace_all q mask3 cs)" using m by (auto simp: occurs_def)
          with IH [of cs "[c]"] \<open>s = c # cs\<close> show False by simp
        qed
      next
        case hit
        have "CHR ''*'' # CHR ''*'' # CHR ''*'' # replace_all q mask3 x = u @ w @ t"
          using hit(3) uv w(1) by simp
        then have "\<exists>u'. replace_all q mask3 x = u' @ w @ t"
          using w(2,3) by (auto simp: Cons_eq_append_conv)
        then have "occurs r (replace_all q mask3 x)" using m w(1) by (auto simp: occurs_def)
        moreover obtain u' where "s = u' @ x" using rests_suffix [of x q s] hit(1) by auto
        ultimately show False using IH hit(2) by blast
      qed
    qed
  qed
qed

lemma replace_all_removes: "maskable r \<Longrightarrow> \<not> occurs r (replace_all r mask3 s)"
proof (induction s rule: length_induct)
  case (1 s)
  show ?case
  proof
    assume "occurs r (replace_all r mask3 s)"
    then obtain u v where uv: "replace_all r mask3 s = u @ v" and m: "rests r v \<noteq> []"
      by (auto simp: occurs_def)
    obtain w t where w: "v = w @ t" "w \<noteq> []" "CHR ''*'' \<notin> set w" "rests r w \<noteq> []"
      using maskable_match [OF 1(2) m] by blast
    show False
    proof (cases s)
      case Nil
      with uv w show False by simp
    next
      case (Cons c cs)
      show False
      proof (cases "rests r s")
        case Nil
        then have skip: "replace_all r mask3 s = c # replace_all r mask3 cs"
          using Cons by (simp add: replace_all_nomatch)
        show False
        proof (cases u)
          case Nil
          with uv w have "replace_all r mask3 s = w @ t" by simp
          then obtain t' where "s = w @ t'" using replace_all_prefix w(3) by blast
          then show False using rests_prefix_extend w(4) \<open>rests r s = []\<close> by blast
        next
          case (Cons d ds)
          with uv skip have "replace_all r mask3 cs = ds @ v" by simp
          then have "occurs r (replace_all r mask3 cs)" using m by (auto simp: occurs_def)
          with 1 \<open>s = c # cs\<close> show False by auto
        qed
      next
        case (Cons x xs)
        then have lt: "length x < length s"
          using rests_not_nullable [of x r s] 1(2) by (simp add: maskable_def)
        with Cons have "replace_all r mask3 s = mask3 @ replace_all r mask3 x"
          by (simp add: replace_all_match)
        then have "CHR ''*'' # CHR ''*'' # CHR ''*'' # replace_all r mask3 x = u @ w @ t"
          using uv w(1) by simp
        then have "\<exists>u'. replace_all r mask3 x = u' @ w @ t"
          using w(2,3) by (auto simp: Cons_eq_append_conv)
        then have "occurs r (replace_all r mask3 x)" using m w(1) by (auto simp: occurs_def)
        with 1 lt show False by blast
      qed
    qed
  qed
qed

end
