(* ===== verification/Js_Value.thy ===== *)
theory Js_Value
  imports Js_Text
begin

text \<open>
  JavaScript values of type \<open>unknown\<close> as far as the sources inspect them, and
  their JSON texts.  A number is \<open>JInt i\<close> when \<open>Number.isInteger\<close>
  holds of it (then \<open>i\<close> is its exact value) and \<open>JFrac t\<close> otherwise, with
  \<open>t\<close> the text \<open>JSON.stringify\<close> gives.  An object is the list of its own
  enumerable properties in order; a missing property reads as \<open>undefined\<close>.
\<close>

datatype json =
    JUndef
  | JNull
  | JBool bool
  | JInt int
  | JFrac string
  | JStr string
  | JArr "json list"
  | JObj "(string \<times> json) list"

type_synonym fields = "(string \<times> json) list"

section \<open>Properties\<close>

definition jget :: "fields \<Rightarrow> string \<Rightarrow> json" where
  "jget ob k = (case map_of ob k of None \<Rightarrow> JUndef | Some v \<Rightarrow> v)"

text \<open>\<open>o[k] = v\<close>, also \<open>{...o, [k]: v}\<close>: in place when present, else at the end.\<close>

fun jset :: "fields \<Rightarrow> string \<Rightarrow> json \<Rightarrow> fields" where
  "jset [] k v = [(k, v)]"
| "jset ((k', v') # ob) k v = (if k' = k then (k, v) # ob else (k', v') # jset ob k v)"

text \<open>\<open>{...o, ...p}\<close>.\<close>

definition jmerge :: "fields \<Rightarrow> fields \<Rightarrow> fields" where
  "jmerge ob p = fold (\<lambda>(k, v) acc. jset acc k v) p ob"

definition jkeys :: "fields \<Rightarrow> string list" where
  "jkeys ob = map fst ob"

lemma jget_jset: "jget (jset ob k v) k' = (if k' = k then v else jget ob k')"
  by (induction ob k v rule: jset.induct) (auto simp: jget_def)

lemma jget_Nil [simp]: "jget [] k = JUndef"
  by (simp add: jget_def)

lemma jget_Cons [simp]: "jget ((k', v) # ob) k = (if k = k' then v else jget ob k)"
  by (simp add: jget_def)

lemma set_jset_keys: "fst ` set (jset ob k v) = insert k (fst ` set ob)"
  by (induction ob k v rule: jset.induct) auto

lemma distinct_jset: "distinct (map fst ob) \<Longrightarrow> distinct (map fst (jset ob k v))"
  by (induction ob k v rule: jset.induct) (auto simp: set_jset_keys)

lemma length_jset: "length (jset ob k v) = (if k \<in> fst ` set ob then length ob else Suc (length ob))"
  by (induction ob k v rule: jset.induct) auto

lemma jset_mem: "(k', v') \<in> set (jset ob k v) \<Longrightarrow> (k', v') \<in> set ob \<or> (k' = k \<and> v' = v)"
  by (induction ob k v rule: jset.induct) (auto split: if_splits)

section \<open>JSON text\<close>

definition hex_digit :: "nat \<Rightarrow> char" where
  "hex_digit n = (if n < 10 then char_of (48 + n) else char_of (87 + n))"

definition json_escape_char :: "char \<Rightarrow> string" where
  "json_escape_char c =
     (let n = code c in
      if c = CHR 0x22 then [CHR 0x5C, CHR 0x22]
      else if c = CHR 0x5C then [CHR 0x5C, CHR 0x5C]
      else if n = 8 then [CHR 0x5C, CHR ''b'']
      else if n = 9 then [CHR 0x5C, CHR ''t'']
      else if n = 10 then [CHR 0x5C, CHR ''n'']
      else if n = 12 then [CHR 0x5C, CHR ''f'']
      else if n = 13 then [CHR 0x5C, CHR ''r'']
      else if n < 32 then [CHR 0x5C, CHR ''u'', CHR ''0'', CHR ''0'', hex_digit (n div 16), hex_digit (n mod 16)]
      else [c])"

definition json_string :: "string \<Rightarrow> string" where
  "json_string s = [CHR 0x22] @ concat (map json_escape_char s) @ [CHR 0x22]"

text \<open>
  \<open>JSON.stringify(v)\<close>: undefined properties are left out, undefined elements are
  \<open>null\<close>; the result for \<open>undefined\<close> itself is not a text (\<open>None\<close>).
\<close>

fun stringify :: "json \<Rightarrow> string option"
  and stringify_elems :: "json list \<Rightarrow> string list"
  and stringify_props :: "fields \<Rightarrow> string list" where
  "stringify JUndef = None"
| "stringify JNull = Some ''null''"
| "stringify (JBool b) = Some (if b then ''true'' else ''false'')"
| "stringify (JInt i) = Some (int_text i)"
| "stringify (JFrac t) = Some t"
| "stringify (JStr s) = Some (json_string s)"
| "stringify (JArr vs) = Some (''['' @ join '','' (stringify_elems vs) @ '']'')"
| "stringify (JObj ob) = Some (''{'' @ join '','' (stringify_props ob) @ ''}'')"
| "stringify_elems [] = []"
| "stringify_elems (v # vs) =
     (case stringify v of None \<Rightarrow> ''null'' | Some t \<Rightarrow> t) # stringify_elems vs"
| "stringify_props [] = []"
| "stringify_props ((k, v) # ob) =
     (case stringify v of
        None \<Rightarrow> stringify_props ob
      | Some t \<Rightarrow> (json_string k @ '':'' @ t) # stringify_props ob)"

text \<open>\<open>Buffer.byteLength(JSON.stringify(v), "utf8")\<close>.\<close>

definition json_bytes :: "json \<Rightarrow> nat" where
  "json_bytes v = (case stringify v of None \<Rightarrow> 0 | Some t \<Rightarrow> utf8_length t)"

text \<open>\<open>JSON.stringify(v, null, 2)\<close>, the text the stores write.\<close>

definition newline :: "nat \<Rightarrow> string" where
  "newline d = CHR 0x0A # replicate d CHR '' ''"

fun pretty :: "nat \<Rightarrow> json \<Rightarrow> string option"
  and pretty_elems :: "nat \<Rightarrow> json list \<Rightarrow> string list"
  and pretty_props :: "nat \<Rightarrow> fields \<Rightarrow> string list" where
  "pretty d JUndef = None"
| "pretty d JNull = Some ''null''"
| "pretty d (JBool b) = Some (if b then ''true'' else ''false'')"
| "pretty d (JInt i) = Some (int_text i)"
| "pretty d (JFrac t) = Some t"
| "pretty d (JStr s) = Some (json_string s)"
| "pretty d (JArr vs) =
     Some (if vs = [] then ''[]''
           else ''['' @ newline (d + 2) @ join ('','' @ newline (d + 2)) (pretty_elems (d + 2) vs)
                @ newline d @ '']'')"
| "pretty d (JObj ob) =
     (let ps = pretty_props (d + 2) ob in
      Some (if ps = [] then ''{}''
            else ''{'' @ newline (d + 2) @ join ('','' @ newline (d + 2)) ps @ newline d @ ''}''))"
| "pretty_elems d [] = []"
| "pretty_elems d (v # vs) =
     (case pretty d v of None \<Rightarrow> ''null'' | Some t \<Rightarrow> t) # pretty_elems d vs"
| "pretty_props d [] = []"
| "pretty_props d ((k, v) # ob) =
     (case pretty d v of
        None \<Rightarrow> pretty_props d ob
      | Some t \<Rightarrow> (json_string k @ '': '' @ t) # pretty_props d ob)"

text \<open>
  The canonical text the audit chains hash: properties sorted by name, no white space;
  a value that is not JSON throws (\<open>None\<close>).
\<close>

fun canonical :: "json \<Rightarrow> string option"
  and canonical_elems :: "json list \<Rightarrow> string list option"
  and canonical_props :: "fields \<Rightarrow> (string \<times> string) list option" where
  "canonical JUndef = None"
| "canonical JNull = Some ''null''"
| "canonical (JBool b) = Some (if b then ''true'' else ''false'')"
| "canonical (JInt i) = Some (int_text i)"
| "canonical (JFrac t) = Some t"
| "canonical (JStr s) = Some (json_string s)"
| "canonical (JArr vs) =
     map_option (\<lambda>ts. ''['' @ join '','' ts @ '']'') (canonical_elems vs)"
| "canonical (JObj ob) =
     map_option
       (\<lambda>ps. ''{'' @ join '','' (map (\<lambda>(k, t). json_string k @ '':'' @ t) (sort_key fst ps)) @ ''}'')
       (canonical_props ob)"
| "canonical_elems [] = Some []"
| "canonical_elems (v # vs) =
     (case (canonical v, canonical_elems vs) of
        (Some t, Some ts) \<Rightarrow> Some (t # ts) | _ \<Rightarrow> None)"
| "canonical_props [] = Some []"
| "canonical_props ((k, v) # ob) =
     (case (canonical v, canonical_props ob) of
        (Some t, Some ts) \<Rightarrow> Some ((k, t) # ts) | _ \<Rightarrow> None)"

section \<open>Shape tests\<close>

text \<open>\<open>value !== null && typeof value === "object" && !Array.isArray(value)\<close>.\<close>

fun isJsonObject :: "json \<Rightarrow> bool" where
  "isJsonObject (JObj _) = True"
| "isJsonObject _ = False"

text \<open>\<open>hasBooleanFlag\<close> of \<open>utils/json.ts\<close>.\<close>

fun hasBooleanFlag :: "json \<Rightarrow> string \<Rightarrow> bool" where
  "hasBooleanFlag (JObj ob) flag = (jget ob flag = JBool True \<or> jget ob flag = JStr ''true'')"
| "hasBooleanFlag _ flag = False"

end
