(* ===== verification/Secrets.thy ===== *)
theory Secrets
  imports Js_Regex Js_Value
begin

text \<open>
  \<open>src/security/secrets.ts\<close>: the heuristic masking of secret-shaped text.
  \<open>sanitizeSecretString\<close> replaces bearer credentials and the token shapes of
  \<open>TOKEN_PATTERNS\<close>; \<open>sanitizeSecrets\<close> walks a value and masks whole
  properties whose name is secret.  Proved here: surrounding white space does not
  matter to the masking, no token of a mask-free shape survives it, and every string
  and secret property of a sanitized value is masked.
\<close>

section \<open>The patterns\<close>

definition SECRET_FIELD_NAMES :: "string list" where
  "SECRET_FIELD_NAMES = [
    ''authorization'', ''cookie'', ''set-cookie'', ''api_key'', ''apikey'', ''x-api-key'',
    ''access_token'', ''refresh_token'', ''client_secret'', ''private_key'', ''privatekey'',
    ''signing_key'', ''webhook_secret'', ''session_id'', ''sessionid'', ''passphrase'', ''cvc'',
    ''password'', ''secret'', ''token'', ''key'']"

text \<open>Character classes: \<open>[A-Za-z0-9_]\<close>, \<open>[A-Za-z0-9-]\<close>, \<open>[A-Za-z0-9_-]\<close> and so on.\<close>

definition c_word :: "char \<Rightarrow> bool" where "c_word c = (is_alnum c \<or> c = CHR ''_'')"
definition c_adash :: "char \<Rightarrow> bool" where "c_adash c = (is_alnum c \<or> c = CHR ''-'')"
definition c_wdash :: "char \<Rightarrow> bool" where "c_wdash c = (is_alnum c \<or> c = CHR ''_'' \<or> c = CHR ''-'')"
definition c_wdashdot :: "char \<Rightarrow> bool" where "c_wdashdot c = (c_wdash c \<or> c = CHR ''.'')"
definition c_upnum :: "char \<Rightarrow> bool" where "c_upnum c = (is_upper c \<or> is_digit c)"
definition c_nonws :: "char \<Rightarrow> bool" where "c_nonws c = (\<not> is_ws c)"

definition PRIVATE_KEY_KIND :: rx where
  "PRIVATE_KEY_KIND = Opt (Alt (lit ''RSA '') (Alt (lit ''EC '') (lit ''OPENSSH '')))"

text \<open>The shapes whose characters never include the mask character.\<close>

definition PLAIN_TOKENS :: "rx list" where
  "PLAIN_TOKENS = [
    Seq (lit ''sk_live_'') (Plus (Cls c_wdash)),
    Seq (lit ''sk_test_'') (Plus (Cls c_wdash)),
    Seq (lit ''rk_live_'') (Plus (Cls c_wdash)),
    Seq (lit ''ghp_'') (Plus (Cls c_word)),
    Seq (lit ''github_pat_'') (Plus (Cls c_word)),
    Seq (lit ''xoxb-'') (Plus (Cls c_adash)),
    Seq (lit ''SG.'') (Plus (Cls c_wdashdot)),
    Seq (Alt (lit ''AKIA'') (lit ''ASIA'')) (Times 16 (Cls c_upnum)),
    Seq (lit ''AIza'') (AtLeast 20 (Cls c_wdash)),
    Seq (lit ''ya29.'') (Plus (Cls c_wdash)),
    Seq (Seq (lit ''eyJ'') (AtLeast 8 (Cls c_wdash)))
      (Seq (ch CHR ''.'') (Seq (AtLeast 8 (Cls c_wdash))
        (Seq (ch CHR ''.'') (AtLeast 8 (Cls c_wdash)))))]"

definition PRIVATE_KEY :: rx where
  "PRIVATE_KEY =
     Seq (lit ''-----BEGIN '') (Seq PRIVATE_KEY_KIND (Seq (lit ''PRIVATE KEY-----'')
       (Seq (LazyStar (Cls (\<lambda>_. True)))
         (Seq (lit ''-----END '') (Seq PRIVATE_KEY_KIND (lit ''PRIVATE KEY-----''))))))"

definition DATABASE_URL :: rx where
  "DATABASE_URL =
     Seq (Alt (Seq (liti ''postgres'') (Opt (liti ''ql'')))
            (Alt (liti ''mysql'') (Seq (liti ''mongodb'') (Opt (liti ''+srv'')))))
       (Seq (lit ''://'')
         (Seq (Plus (Cls (\<lambda>c. \<not> is_ws c \<and> c \<noteq> CHR '':'' \<and> c \<noteq> CHR ''@'' \<and> c \<noteq> CHR ''/'')))
           (Seq (ch CHR '':'')
             (Seq (Plus (Cls (\<lambda>c. \<not> is_ws c \<and> c \<noteq> CHR ''@'' \<and> c \<noteq> CHR ''/'')))
               (Seq (ch CHR ''@'') (Plus (Cls c_nonws)))))))"

definition REGISTRY_TOKEN :: rx where
  "REGISTRY_TOKEN =
     Alt (Seq (lit ''npm_'') (AtLeast 20 (Cls is_alnum)))
         (Seq (lit ''pypi-'') (AtLeast 20 (Cls c_wdash)))"

definition TOKEN_PATTERNS :: "rx list" where
  "TOKEN_PATTERNS = PLAIN_TOKENS @ [PRIVATE_KEY, DATABASE_URL, REGISTRY_TOKEN]"

definition BEARER :: rx where
  "BEARER = Seq (liti ''Bearer'') (Seq (Plus (Cls is_ws)) (Plus (Cls c_nonws)))"

abbreviation MASK :: string where "MASK \<equiv> mask3"

section \<open>Masking\<close>

definition sanitizeSecretString :: "string \<Rightarrow> string" where
  "sanitizeSecretString value =
     fold (\<lambda>pattern result. replace_all pattern MASK result) TOKEN_PATTERNS
       (replace_all BEARER ''Bearer ***'' value)"

definition isSecretFieldName :: "string \<Rightarrow> bool" where
  "isSecretFieldName name =
     (let normalizedName = toLowerCase name
      in list_ex (\<lambda>secretName. str_includes normalizedName secretName) SECRET_FIELD_NAMES)"

definition isCardNumberField :: "string \<Rightarrow> string option \<Rightarrow> bool" where
  "isCardNumberField key parentKey =
     (toLowerCase key = ''number'' \<and>
      (case parentKey of
         None \<Rightarrow> False
       | Some p \<Rightarrow> test_any (Alt (liti ''card'') (liti ''payment_method'')) p))"

fun maskByType :: "json \<Rightarrow> json"
  and maskByType_elems :: "json list \<Rightarrow> json list" where
  "maskByType (JArr vs) = JArr (maskByType_elems vs)"
| "maskByType (JObj ob) = JObj (map (\<lambda>k. (k, JStr MASK)) (jkeys ob))"
| "maskByType (JStr s) =
     (if startsWith (toLowerCase (trim s)) ''bearer '' then JStr ''Bearer ***'' else JStr MASK)"
| "maskByType _ = JStr MASK"
| "maskByType_elems [] = []"
| "maskByType_elems (v # vs) = maskByType v # maskByType_elems vs"

fun sanitizeValue :: "json \<Rightarrow> string option \<Rightarrow> json"
  and sanitizeValue_elems :: "json list \<Rightarrow> string option \<Rightarrow> json list"
  and sanitizeValue_props :: "fields \<Rightarrow> string option \<Rightarrow> fields" where
  "sanitizeValue (JArr vs) parentKey = JArr (sanitizeValue_elems vs parentKey)"
| "sanitizeValue (JObj ob) parentKey = JObj (sanitizeValue_props ob parentKey)"
| "sanitizeValue (JStr s) parentKey = JStr (sanitizeSecretString s)"
| "sanitizeValue v parentKey = v"
| "sanitizeValue_elems [] parentKey = []"
| "sanitizeValue_elems (v # vs) parentKey =
     sanitizeValue v parentKey # sanitizeValue_elems vs parentKey"
| "sanitizeValue_props [] parentKey = []"
| "sanitizeValue_props ((key, entryValue) # ob) parentKey =
     (key, if isSecretFieldName key \<or> isCardNumberField key parentKey
           then maskByType entryValue
           else sanitizeValue entryValue (Some key)) # sanitizeValue_props ob parentKey"

definition sanitizeSecrets :: "json \<Rightarrow> json" where
  "sanitizeSecrets value = sanitizeValue value None"

section \<open>White space around the text\<close>

named_theorems class_defs

lemmas [class_defs] =
  c_word_def c_adash_def c_wdash_def c_wdashdot_def c_upnum_def c_nonws_def
  is_alnum_def is_lower_def is_upper_def is_digit_def is_ws_def between_def code_def

lemma is_ws_lower: "is_ws c \<Longrightarrow> lower_char c = c"
  by (auto simp: is_ws_def lower_char_def)

lemma lower_char_not_ws: "lower_char x = lower_char c \<Longrightarrow> \<not> is_ws (lower_char c) \<Longrightarrow> \<not> is_ws x"
  using is_ws_lower by metis

lemma chi_not_ws: "\<not> is_ws (lower_char c) \<Longrightarrow> starts_in (\<lambda>c. \<not> is_ws c) (chi c) \<and> ends_in (\<lambda>c. \<not> is_ws c) (chi c)"
  by (auto simp: chi_def dest: lower_char_not_ws)

lemmas rx_defs = Plus_def Opt_def AtLeast_def ch_def

lemma nullable_liti [simp]: "nullable (liti s) \<longleftrightarrow> s = []"
  by (cases s) (simp_all add: chi_def)

lemma nullable_lit [simp]: "nullable (lit s) \<longleftrightarrow> s = []"
  by (cases s) (simp_all add: ch_def)

lemma starts_in_liti:
  "s \<noteq> [] \<Longrightarrow> \<not> is_ws (lower_char (hd s)) \<Longrightarrow> starts_in (\<lambda>c. \<not> is_ws c) (liti s)"
  by (cases s) (auto simp: chi_def dest: lower_char_not_ws)

lemma all_cls_ends_in: "all_cls Q r \<Longrightarrow> ends_in Q r"
  by (induction r) auto

lemma all_cls_starts_in: "all_cls Q r \<Longrightarrow> starts_in Q r"
  by (induction r) auto

lemma tightI: "\<not> nullable r \<Longrightarrow> all_cls (\<lambda>c. \<not> is_ws c) r \<Longrightarrow> tight r"
  by (simp add: tight_def all_cls_ends_in all_cls_starts_in)

lemma all_cls_lit [simp]: "all_cls Q (lit s) \<longleftrightarrow> list_all Q s"
  by (induction s) (auto simp: ch_def)

lemma all_cls_Times [simp]: "all_cls Q (Times n r) \<longleftrightarrow> n = 0 \<or> all_cls Q r"
  by (induction n) auto

lemma nullable_Times [simp]: "nullable (Times n r) \<longleftrightarrow> n = 0 \<or> nullable r"
  by (induction n) auto

lemma all_cls_liti_ws: "list_all (\<lambda>c. \<not> is_ws (lower_char c)) s \<Longrightarrow> all_cls (\<lambda>c. \<not> is_ws c) (liti s)"
  by (induction s) (auto simp: chi_def dest: lower_char_not_ws)

lemma tight_PLAIN: "r \<in> set PLAIN_TOKENS \<Longrightarrow> tight r"
  by (rule tightI; auto simp: PLAIN_TOKENS_def rx_defs class_defs)

lemma tight_PRIVATE_KEY: "tight PRIVATE_KEY"
  by (simp add: tight_def PRIVATE_KEY_def PRIVATE_KEY_KIND_def rx_defs) (simp add: class_defs)

lemma tight_DATABASE_URL: "tight DATABASE_URL"
  by (rule tightI; simp add: DATABASE_URL_def rx_defs all_cls_liti_ws)
    (auto simp: class_defs chi_def lower_char_def)

lemma tight_REGISTRY_TOKEN: "tight REGISTRY_TOKEN"
  by (rule tightI; auto simp: REGISTRY_TOKEN_def rx_defs class_defs)

lemma tight_BEARER: "tight BEARER"
proof -
  have "starts_in (\<lambda>c. \<not> is_ws c) (liti ''Bearer'')"
    by (rule starts_in_liti) (simp_all add: class_defs lower_char_def)
  then show ?thesis by (simp add: tight_def BEARER_def rx_defs c_nonws_def del: liti.simps)
qed

lemma tight_TOKEN_PATTERNS: "r \<in> set TOKEN_PATTERNS \<Longrightarrow> tight r"
  using tight_PLAIN tight_PRIVATE_KEY tight_DATABASE_URL tight_REGISTRY_TOKEN
  by (auto simp: TOKEN_PATTERNS_def)

lemma fold_replace_ws:
  "(\<And>r. r \<in> set rs \<Longrightarrow> tight r) \<Longrightarrow> list_all is_ws u \<Longrightarrow> list_all is_ws v \<Longrightarrow>
   fold (\<lambda>r s. replace_all r m s) rs (u @ s @ v) = u @ fold (\<lambda>r s. replace_all r m s) rs s @ v"
  by (induction rs arbitrary: s) (simp_all add: replace_all_ws replace_all_ws_end)

lemma sanitizeSecretString_ws:
  assumes "list_all is_ws u" and "list_all is_ws v"
  shows "sanitizeSecretString (u @ s @ v) = u @ sanitizeSecretString s @ v"
  unfolding sanitizeSecretString_def
  using assms tight_TOKEN_PATTERNS fold_replace_ws [of TOKEN_PATTERNS u v]
  by (simp add: replace_all_ws [OF tight_BEARER] replace_all_ws_end [OF tight_BEARER])

text \<open>A text the masking leaves alone is left alone when it is trimmed as well.\<close>

lemma sanitizeSecretString_trim:
  assumes "sanitizeSecretString s = s"
  shows "sanitizeSecretString (trim s) = trim s"
proof -
  obtain u v where s: "s = u @ trim s @ v" and ws: "list_all is_ws u" "list_all is_ws v"
    using trim_decomp by blast
  have "u @ sanitizeSecretString (trim s) @ v = sanitizeSecretString (u @ trim s @ v)"
    using sanitizeSecretString_ws [OF ws] by simp
  also have "\<dots> = u @ trim s @ v" using assms s by simp
  finally show ?thesis by simp
qed

section \<open>No token survives\<close>

lemma maskable_PLAIN: "r \<in> set PLAIN_TOKENS \<Longrightarrow> maskable r"
  by (auto simp: PLAIN_TOKENS_def maskable_def rx_defs class_defs)

lemma maskable_REGISTRY_TOKEN: "maskable REGISTRY_TOKEN"
  by (auto simp: REGISTRY_TOKEN_def maskable_def rx_defs class_defs)

lemma fold_replace_keeps:
  "maskable r \<Longrightarrow> \<not> occurs r s \<Longrightarrow> \<not> occurs r (fold (\<lambda>q t. replace_all q MASK t) qs s)"
  by (induction qs arbitrary: s) (simp_all add: replace_all_no_occurrence)

lemma fold_replace_removes:
  "maskable r \<Longrightarrow> r \<in> set qs \<Longrightarrow> \<not> occurs r (fold (\<lambda>q t. replace_all q MASK t) qs s)"
proof (induction qs arbitrary: s)
  case (Cons q qs)
  then show ?case
  proof (cases "r = q")
    case True
    then show ?thesis using Cons.prems fold_replace_keeps replace_all_removes by simp
  next
    case False
    then show ?thesis using Cons by simp
  qed
qed simp

lemma sanitizeSecretString_no_token:
  assumes "r \<in> set PLAIN_TOKENS \<or> r = REGISTRY_TOKEN"
  shows "\<not> test_any r (sanitizeSecretString s)"
proof -
  have "maskable r" "r \<in> set TOKEN_PATTERNS"
    using assms maskable_PLAIN maskable_REGISTRY_TOKEN by (auto simp: TOKEN_PATTERNS_def)
  then show ?thesis
    unfolding occurs_test_any sanitizeSecretString_def by (simp add: fold_replace_removes)
qed

section \<open>Sanitized values\<close>

definition token_free :: "string \<Rightarrow> bool" where
  "token_free s = (list_all (\<lambda>r. \<not> test_any r s) PLAIN_TOKENS \<and> \<not> test_any REGISTRY_TOKEN s)"

fun masked :: "json \<Rightarrow> bool"
  and masked_elems :: "json list \<Rightarrow> bool" where
  "masked (JArr vs) = masked_elems vs"
| "masked (JObj ob) = list_all (\<lambda>(k, v). v = JStr MASK) ob"
| "masked (JStr s) = (s = MASK \<or> s = ''Bearer ***'')"
| "masked _ = False"
| "masked_elems [] = True"
| "masked_elems (v # vs) = (masked v \<and> masked_elems vs)"

fun sanitized :: "json \<Rightarrow> bool"
  and sanitized_elems :: "json list \<Rightarrow> bool"
  and sanitized_props :: "fields \<Rightarrow> bool" where
  "sanitized (JArr vs) = sanitized_elems vs"
| "sanitized (JObj ob) = sanitized_props ob"
| "sanitized (JStr s) = token_free s"
| "sanitized _ = True"
| "sanitized_elems [] = True"
| "sanitized_elems (v # vs) = (sanitized v \<and> sanitized_elems vs)"
| "sanitized_props [] = True"
| "sanitized_props ((k, v) # ob) =
     ((if isSecretFieldName k then masked v else sanitized v) \<and> sanitized_props ob)"

lemma token_free_sanitizeSecretString: "token_free (sanitizeSecretString s)"
  using sanitizeSecretString_no_token by (simp add: token_free_def list_all_iff)

lemma masked_maskByType: "masked (maskByType v)" "masked_elems (maskByType_elems vs)"
  by (induction v and vs rule: maskByType_maskByType_elems.induct) (auto simp: list_all_iff)

lemma token_free_MASK: "token_free MASK"
proof -
  have "sanitizeSecretString MASK = MASK" by code_simp
  then show ?thesis using token_free_sanitizeSecretString by metis
qed

lemma token_free_Bearer: "token_free ''Bearer ***''"
proof -
  have "sanitizeSecretString ''Bearer ***'' = ''Bearer ***''" by code_simp
  then show ?thesis using token_free_sanitizeSecretString by metis
qed

lemma sanitized_props_mask: "sanitized_props (map (\<lambda>k. (k, JStr MASK)) ks)"
  by (induction ks) (auto simp: token_free_MASK)

lemma masked_sanitized: "sanitized (maskByType v)" "sanitized_elems (maskByType_elems vs)"
  by (induction v and vs rule: maskByType_maskByType_elems.induct)
    (auto simp: token_free_MASK token_free_Bearer sanitized_props_mask)

lemma sanitized_sanitizeValue:
  "sanitized (sanitizeValue v p)" "sanitized_elems (sanitizeValue_elems vs p)"
  "sanitized_props (sanitizeValue_props ob p)"
  by (induction v p and vs p and ob p
      rule: sanitizeValue_sanitizeValue_elems_sanitizeValue_props.induct)
    (auto simp: token_free_sanitizeSecretString masked_maskByType masked_sanitized)

lemma sanitized_sanitizeSecrets: "sanitized (sanitizeSecrets v)"
  by (simp add: sanitizeSecrets_def sanitized_sanitizeValue)

text \<open>The walk keeps the shape: the property names and the element counts.\<close>

lemma sanitizeValue_props_keys: "map fst (sanitizeValue_props ob p) = map fst ob"
  by (induction ob) auto

section \<open>Texts without a marker\<close>

text \<open>Every token shape carries a fixed marker, so a text without markers is untouched.\<close>

definition TOKEN_MARKERS :: "string list" where
  "TOKEN_MARKERS = [''sk_live_'', ''sk_test_'', ''rk_live_'', ''ghp_'', ''github_pat_'', ''xoxb-'', ''SG.'',
     ''AKIA'', ''ASIA'', ''AIza'', ''ya29.'', ''eyJ'', ''-----BEGIN '', ''://'', ''npm_'', ''pypi-'']"

definition has_marker :: "string \<Rightarrow> bool" where
  "has_marker s = list_ex (str_includes s) TOKEN_MARKERS"

definition has_bearer :: "string \<Rightarrow> bool" where
  "has_bearer s = str_includes (toLowerCase s) ''bearer''"

lemma rests_lit: "rests (lit p) s = (if startsWith s p then [drop (length p) s] else [])"
  by (induction p arbitrary: s) (auto simp: ch_def startsWith_def split: list.splits)

lemma rests_liti:
  "rests (liti p) s \<noteq> [] \<longleftrightarrow> startsWith (toLowerCase s) (toLowerCase p)"
proof (induction p arbitrary: s)
  case (Cons c p)
  then show ?case by (cases s) (auto simp: chi_def startsWith_def toLowerCase_def)
qed (simp add: startsWith_def toLowerCase_def)

lemma str_includes_suffix: "str_includes x p \<Longrightarrow> str_includes (u @ x) p"
  by (auto simp: str_includes_iff) (metis append_assoc)

definition marked :: "(string \<Rightarrow> bool) \<Rightarrow> rx \<Rightarrow> bool" where
  "marked M r = (\<forall>s. rests r s \<noteq> [] \<longrightarrow> M s)"

lemma marked_replace:
  assumes "marked M r" and "\<And>c cs. M cs \<Longrightarrow> M (c # cs)" and "\<not> M s"
  shows "replace_all r m s = s"
  using assms(3)
proof (induction s)
  case (Cons c s)
  then have "rests r (c # s) = []" using assms(1) by (auto simp: marked_def)
  with Cons assms(2) show ?case by (auto simp: replace_all_nomatch)
qed simp

lemma marked_Seq1: "marked M a \<Longrightarrow> marked M (Seq a b)"
proof -
  have "rests (Seq a b) s \<noteq> [] \<Longrightarrow> rests a s \<noteq> []" for s by auto
  then show "marked M a \<Longrightarrow> marked M (Seq a b)" by (simp add: marked_def del: rests.simps)
qed

lemma marked_Seq2:
  assumes "marked M b" and "\<And>u x. M x \<Longrightarrow> M (u @ x)"
  shows "marked M (Seq a b)"
  unfolding marked_def
proof (intro allI impI)
  fix s
  assume "rests (Seq a b) s \<noteq> []"
  then obtain x where "x \<in> set (rests a s)" "rests b x \<noteq> []" by auto
  moreover then obtain u where "s = u @ x" using rests_suffix by blast
  ultimately show "M s" using assms by (auto simp: marked_def)
qed

lemma marked_Alt: "marked M a \<Longrightarrow> marked M b \<Longrightarrow> marked M (Alt a b)"
  by (auto simp: marked_def)

lemma startsWith_includes: "startsWith s p \<Longrightarrow> str_includes s p"
  unfolding startsWith_iff str_includes_iff by (metis append_Nil)

lemma marked_lit: "p \<in> set TOKEN_MARKERS \<Longrightarrow> marked has_marker (lit p)"
  by (auto simp: marked_def has_marker_def list_ex_iff rests_lit split: if_splits dest: startsWith_includes)

lemma has_marker_suffix: "has_marker x \<Longrightarrow> has_marker (u @ x)"
  by (auto simp: has_marker_def list_ex_iff intro: str_includes_suffix)

lemma has_bearer_suffix: "has_bearer x \<Longrightarrow> has_bearer (u @ x)"
  by (auto simp: has_bearer_def toLowerCase_def intro: str_includes_suffix)

lemma marked_PLAIN: "r \<in> set PLAIN_TOKENS \<Longrightarrow> marked has_marker r"
  unfolding PLAIN_TOKENS_def
  by (simp only: set_simps insert_iff empty_iff, elim disjE FalseE; hypsubst;
      intro marked_Alt marked_Seq1 marked_lit; simp add: TOKEN_MARKERS_def)

lemma marked_TOKEN_PATTERNS:
  assumes "r \<in> set TOKEN_PATTERNS"
  shows "marked has_marker r"
proof -
  have "marked has_marker PRIVATE_KEY" "marked has_marker REGISTRY_TOKEN"
    unfolding PRIVATE_KEY_def REGISTRY_TOKEN_def
    by (intro marked_Alt marked_Seq1 marked_lit; simp add: TOKEN_MARKERS_def)+
  moreover have "marked has_marker DATABASE_URL"
    unfolding DATABASE_URL_def
    by (rule marked_Seq2, rule marked_Seq1, rule marked_lit) (simp_all add: TOKEN_MARKERS_def has_marker_suffix)
  ultimately show ?thesis using assms marked_PLAIN by (auto simp: TOKEN_PATTERNS_def)
qed

lemma marked_BEARER: "marked has_bearer BEARER"
  unfolding BEARER_def
proof (rule marked_Seq1)
  have "toLowerCase ''Bearer'' = ''bearer''" by code_simp
  then show "marked has_bearer (liti ''Bearer'')"
    unfolding marked_def rests_liti has_bearer_def by (simp add: startsWith_includes)
qed

lemma sanitizeSecretString_unmarked:
  assumes "\<not> has_marker s" and "\<not> has_bearer s"
  shows "sanitizeSecretString s = s"
proof -
  have "replace_all BEARER ''Bearer ***'' s = s"
    using marked_BEARER has_bearer_suffix [of _ "[_]"] assms(2) by (intro marked_replace) auto
  moreover have "fold (\<lambda>r t. replace_all r m t) rs s = s" if "set rs \<subseteq> set TOKEN_PATTERNS" for rs m
    using that marked_replace [OF marked_TOKEN_PATTERNS _ assms(1)] has_marker_suffix [of _ "[_]"]
    by (induction rs) auto
  ultimately show ?thesis by (simp add: sanitizeSecretString_def)
qed

end
