(* ===== verification/Sha256.thy ===== *)
theory Sha256
  imports Js_Value "HOL-Library.Word"
begin

unbundle bit_operations_syntax

text \<open>
  \<open>createHash("sha256").update(value, "utf8").digest("hex")\<close>: SHA-256 (FIPS 180-4)
  of the UTF-8 bytes of a string, in lower-case hexadecimal.  Only the shape of the
  result (64 hexadecimal digits) is used in the proofs; no property of collisions is.
\<close>

type_synonym u32 = "32 word"

section \<open>Bytes\<close>

definition utf8_bytes :: "string \<Rightarrow> nat list" where
  "utf8_bytes s =
     concat (map (\<lambda>c. let n = code c in
                   if n < 128 then [n] else [192 + n div 64, 128 + n mod 64]) s)"

lemma length_utf8_bytes: "length (utf8_bytes s) = utf8_length s"
  by (induction s) (auto simp: utf8_bytes_def utf8_length_def Let_def)

section \<open>The compression function\<close>

definition rotr :: "nat \<Rightarrow> u32 \<Rightarrow> u32" where
  "rotr n x = drop_bit n x OR push_bit (32 - n) x"

definition K256 :: "u32 list" where
  "K256 = [
    1116352408, 1899447441, 3049323471, 3921009573, 961987163, 1508970993, 2453635748, 2870763221,
    3624381080, 310598401, 607225278, 1426881987, 1925078388, 2162078206, 2614888103, 3248222580,
    3835390401, 4022224774, 264347078, 604807628, 770255983, 1249150122, 1555081692, 1996064986,
    2554220882, 2821834349, 2952996808, 3210313671, 3336571891, 3584528711, 113926993, 338241895,
    666307205, 773529912, 1294757372, 1396182291, 1695183700, 1986661051, 2177026350, 2456956037,
    2730485921, 2820302411, 3259730800, 3345764771, 3516065817, 3600352804, 4094571909, 275423344,
    430227734, 506948616, 659060556, 883997877, 958139571, 1322822218, 1537002063, 1747873779,
    1955562222, 2024104815, 2227730452, 2361852424, 2428436474, 2756734187, 3204031479, 3329325298]"

record hstate =
  w_a :: u32
  w_b :: u32
  w_c :: u32
  w_d :: u32
  w_e :: u32
  w_f :: u32
  w_g :: u32
  w_h :: u32

definition H0 :: hstate where
  "H0 = \<lparr>w_a = 1779033703, w_b = 3144134277, w_c = 1013904242, w_d = 2773480762,
         w_e = 1359893119, w_f = 2600822924, w_g = 528734635, w_h = 1541459225\<rparr>"

definition sha_round :: "u32 \<times> u32 \<Rightarrow> hstate \<Rightarrow> hstate" where
  "sha_round kw st =
     (let e = w_e st; a = w_a st;
          s1 = rotr 6 e XOR rotr 11 e XOR rotr 25 e;
          chs = (e AND w_f st) XOR (NOT e AND w_g st);
          t1 = w_h st + s1 + chs + fst kw + snd kw;
          s0 = rotr 2 a XOR rotr 13 a XOR rotr 22 a;
          maj = (a AND w_b st) XOR (a AND w_c st) XOR (w_b st AND w_c st);
          t2 = s0 + maj
      in \<lparr>w_a = t1 + t2, w_b = a, w_c = w_b st, w_d = w_c st,
          w_e = w_d st + t1, w_f = e, w_g = w_f st, w_h = w_g st\<rparr>)"

definition small_sigma0 :: "u32 \<Rightarrow> u32" where
  "small_sigma0 x = rotr 7 x XOR rotr 18 x XOR drop_bit 3 x"

definition small_sigma1 :: "u32 \<Rightarrow> u32" where
  "small_sigma1 x = rotr 17 x XOR rotr 19 x XOR drop_bit 10 x"

text \<open>The message schedule, kept in reverse: the newest word first.\<close>

fun schedule :: "nat \<Rightarrow> u32 list \<Rightarrow> u32 list" where
  "schedule 0 ws = ws"
| "schedule (Suc n) ws =
     schedule n ((small_sigma1 (ws ! 1) + ws ! 6 + small_sigma0 (ws ! 14) + ws ! 15) # ws)"

definition word_of_bytes :: "nat list \<Rightarrow> u32" where
  "word_of_bytes bs = of_nat (fold (\<lambda>b acc. 256 * acc + b) bs 0)"

fun chunks :: "nat \<Rightarrow> nat \<Rightarrow> 'a list \<Rightarrow> 'a list list" where
  "chunks 0 n xs = []"
| "chunks (Suc k) n xs = take n xs # chunks k n (drop n xs)"

definition compress :: "hstate \<Rightarrow> nat list \<Rightarrow> hstate" where
  "compress st block =
     (let ws = rev (schedule 48 (rev (map word_of_bytes (chunks 16 4 block))));
          st' = fold sha_round (zip K256 ws) st
      in \<lparr>w_a = w_a st + w_a st', w_b = w_b st + w_b st', w_c = w_c st + w_c st', w_d = w_d st + w_d st',
          w_e = w_e st + w_e st', w_f = w_f st + w_f st', w_g = w_g st + w_g st', w_h = w_h st + w_h st'\<rparr>)"

fun be_bytes :: "nat \<Rightarrow> nat \<Rightarrow> nat list" where
  "be_bytes 0 n = []"
| "be_bytes (Suc k) n = be_bytes k (n div 256) @ [n mod 256]"

definition pad_message :: "nat list \<Rightarrow> nat list" where
  "pad_message bs =
     (let l = length bs; z = (119 - l mod 64) mod 64
      in bs @ [128] @ replicate z 0 @ be_bytes 8 (8 * l))"

definition sha256_words :: "nat list \<Rightarrow> hstate" where
  "sha256_words bs =
     (let m = pad_message bs in fold (\<lambda>block st. compress st block) (chunks (length m div 64) 64 m) H0)"

section \<open>The hexadecimal digest\<close>

fun hex_digits :: "nat \<Rightarrow> nat \<Rightarrow> string" where
  "hex_digits 0 n = []"
| "hex_digits (Suc k) n = hex_digits k (n div 16) @ [hex_digit (n mod 16)]"

definition word_hex :: "u32 \<Rightarrow> string" where
  "word_hex w = hex_digits 8 (unat w)"

definition sha256 :: "string \<Rightarrow> string" where
  "sha256 s =
     (let h = sha256_words (utf8_bytes s)
      in word_hex (w_a h) @ word_hex (w_b h) @ word_hex (w_c h) @ word_hex (w_d h) @
         word_hex (w_e h) @ word_hex (w_f h) @ word_hex (w_g h) @ word_hex (w_h h))"

definition is_hex :: "char \<Rightarrow> bool" where
  "is_hex c = (between CHR ''a'' CHR ''f'' c \<or> is_digit c)"

lemma is_hex_hex_digit: "n < 16 \<Longrightarrow> is_hex (hex_digit n)"
  by (auto simp: is_hex_def hex_digit_def between_def is_digit_def) (simp_all add: code_def)

lemma hex_digits_shape: "length (hex_digits k n) = k \<and> list_all is_hex (hex_digits k n)"
  by (induction k n rule: hex_digits.induct) (auto simp: is_hex_hex_digit)

lemma word_hex_shape: "length (word_hex w) = 8" "list_all is_hex (word_hex w)"
  by (simp_all add: word_hex_def hex_digits_shape)

lemma length_sha256 [simp]: "length (sha256 s) = 64"
  by (simp add: sha256_def Let_def word_hex_shape)

lemma sha256_hex: "list_all is_hex (sha256 s)"
  by (simp add: sha256_def Let_def word_hex_shape)

end
