(* ===== verification/Iso_Time.thy ===== *)
theory Iso_Time
  imports Js_Value
begin

text \<open>
  \<open>Date\<close> as the sources use it: \<open>toISOString\<close> of a time value
  (milliseconds since 1970-01-01T00:00:00.000Z) and \<open>Date.parse\<close> of the fixed
  24-character form the validators admit.  \<open>Date.parse\<close> follows V8: any day
  from 1 to 31 is taken whatever the month, and hour 24 only as 24:00:00.000.
\<close>

section \<open>The proleptic Gregorian calendar\<close>

text \<open>
  Days are counted from 1970-01-01.  A year of the computation starts on the first of
  March, so that the leap day is its last day; 400 years have 146097 days.
\<close>

definition days_from_civil :: "int \<Rightarrow> int \<Rightarrow> int \<Rightarrow> int" where
  "days_from_civil y m d =
     (let y' = (if m \<le> 2 then y - 1 else y);
          era = y' div 400; yoe = y' mod 400;
          mp = (if m \<le> 2 then m + 9 else m - 3);
          doy = (153 * mp + 2) div 5 + d - 1;
          doe = 365 * yoe + yoe div 4 - yoe div 100 + doy
      in era * 146097 + doe - 719468)"

definition civil_from_days :: "int \<Rightarrow> int \<times> int \<times> int" where
  "civil_from_days z =
     (let z' = z + 719468; era = z' div 146097; doe = z' mod 146097;
          cent = min 3 (doe div 36524); doc = doe - cent * 36524;
          quad = doc div 1461; doq = doc mod 1461;
          yr = min 3 (doq div 365); doy = doq - yr * 365;
          mp = (5 * doy + 2) div 153;
          d = doy - (153 * mp + 2) div 5 + 1;
          m = (if mp < 10 then mp + 3 else mp - 9);
          y = era * 400 + cent * 100 + quad * 4 + yr
      in (if m \<le> 2 then y + 1 else y, m, d))"

lemma civil_bounds:
  assumes "0 \<le> doe" and "doe < (146097::int)"
    and "cent = min 3 (doe div 36524)" and "doc = doe - cent * 36524"
    and "quad = doc div 1461" and "doq = doc mod 1461"
    and "yr = min 3 (doq div 365)" and "doy = doq - yr * 365"
  shows "0 \<le> cent" "cent \<le> 3" "0 \<le> quad" "quad \<le> 24" "0 \<le> yr" "yr \<le> 3" "0 \<le> doy" "doy \<le> 365"
    "doe = 36524 * cent + 1461 * quad + 365 * yr + doy"
proof -
  show c: "0 \<le> cent" "cent \<le> 3" using assms(1,3) by (auto simp: pos_imp_zdiv_nonneg_iff)
  have doc: "0 \<le> doc" "doc \<le> 36524" using assms(1-4) by (auto simp: min_def split: if_splits)
  show q: "0 \<le> quad" "quad \<le> 24" using doc assms(5) by (auto simp: pos_imp_zdiv_nonneg_iff)
  have doq: "0 \<le> doq" "doq \<le> 1460" using assms(6) by auto
  show "0 \<le> yr" "yr \<le> 3" using doq(1) assms(7) by (auto simp: pos_imp_zdiv_nonneg_iff)
  show "0 \<le> doy" "doy \<le> 365" using doq assms(7,8) by (auto simp: min_def split: if_splits)
  have "doc = 1461 * quad + doq" using assms(5,6) by simp
  then show "doe = 36524 * cent + 1461 * quad + 365 * yr + doy" using assms(4,8) by simp
qed

lemma month_day_bounds:
  assumes "0 \<le> doy" "doy \<le> (365::int)" "mp = (5 * doy + 2) div 153" "d = doy - (153 * mp + 2) div 5 + 1"
  shows "0 \<le> mp" "mp \<le> 11" "1 \<le> d" "d \<le> 31"
proof -
  show mp: "0 \<le> mp" "mp \<le> 11" using assms(1-3) by (auto simp: pos_imp_zdiv_nonneg_iff)
  have b: "153 * mp \<le> 5 * doy + 2" "5 * doy + 2 < 153 * mp + 153" using assms(3) by linarith+
  show "1 \<le> d" using assms(4) b(1) by linarith
  show "d \<le> 31" using assms(4) b(2) by linarith
qed

lemma days_from_civil_from_days:
  assumes "civil_from_days z = (y, m, d)"
  shows "days_from_civil y m d = z" "1 \<le> m" "m \<le> 12" "1 \<le> d" "d \<le> 31"
proof -
  define z' era doe where z: "z' = z + 719468" "era = z' div 146097" "doe = z' mod 146097"
  define cent doc where c: "cent = min 3 (doe div 36524)" "doc = doe - cent * 36524"
  define quad doq where q: "quad = doc div 1461" "doq = doc mod 1461"
  define yr doy where yr: "yr = min 3 (doq div 365)" "doy = doq - yr * 365"
  define mp dd where mp: "mp = (5 * doy + 2) div 153" "dd = doy - (153 * mp + 2) div 5 + 1"
  have "0 \<le> doe" "doe < 146097" using z by auto
  note cb = civil_bounds [OF this c q yr]
  note mb = month_day_bounds [OF cb(7,8) mp]
  define yy where "yy = era * 400 + cent * 100 + quad * 4 + yr"
  define mm where "mm = (if mp < 10 then mp + 3 else mp - 9)"
  have "civil_from_days z = (if mm \<le> 2 then yy + 1 else yy, mm, dd)"
    by (simp only: civil_from_days_def Let_def z c q yr mp yy_def mm_def)
  then have e: "m = (if mp < 10 then mp + 3 else mp - 9)" "y = (if m \<le> 2 then yy + 1 else yy)" "d = dd"
    using assms by (simp_all add: mm_def)
  show "1 \<le> m" "m \<le> 12" "1 \<le> d" "d \<le> 31" using e mb by auto
  have y': "(if m \<le> 2 then y - 1 else y) = yy" using e(2) by auto
  have mp': "(if m \<le> 2 then m + 9 else m - 3) = mp" using e(1) mb by auto
  let ?r = "cent * 100 + quad * 4 + yr"
  have r: "0 \<le> ?r" "?r < 400" using cb by linarith+
  have "yy = ?r + era * 400" by (simp add: yy_def)
  then have yy: "yy div 400 = era" "yy mod 400 = ?r" using r by simp_all
  have d4: "?r div 4 = cent * 25 + quad" using cb(5,6) by linarith
  have d100: "?r div 100 = cent" using cb(1-6) by linarith
  have "days_from_civil y m d = era * 146097 + (365 * ?r + ?r div 4 - ?r div 100 + ((153 * mp + 2) div 5 + d - 1)) - 719468"
    unfolding days_from_civil_def Let_def y' mp' yy by simp
  also have "\<dots> = era * 146097 + doe - 719468"
    unfolding d4 d100 using cb(9) e(3) mp(2) by (simp add: algebra_simps)
  also have "\<dots> = z" using z by simp
  finally show "days_from_civil y m d = z" .
qed

section \<open>Formatting and parsing\<close>

definition digit :: "int \<Rightarrow> char" where
  "digit n = char_of (nat (48 + n mod 10))"

definition pad2 :: "int \<Rightarrow> string" where
  "pad2 n = [digit (n div 10), digit n]"

definition pad3 :: "int \<Rightarrow> string" where
  "pad3 n = [digit (n div 100), digit (n div 10), digit n]"

definition pad4 :: "int \<Rightarrow> string" where
  "pad4 n = [digit (n div 1000), digit (n div 100), digit (n div 10), digit n]"

definition pad6 :: "int \<Rightarrow> string" where
  "pad6 n = [digit (n div 100000), digit (n div 10000)] @ pad4 n"

definition iso_year :: "int \<Rightarrow> string" where
  "iso_year y = (if 0 \<le> y \<and> y \<le> 9999 then pad4 y
                 else if y < 0 then ''-'' @ pad6 (- y) else ''+'' @ pad6 y)"

definition toISOString :: "int \<Rightarrow> string" where
  "toISOString ms =
     (let days = ms div 86400000; t = ms mod 86400000; (y, m, d) = civil_from_days days
      in iso_year y @ ''-'' @ pad2 m @ ''-'' @ pad2 d @ ''T'' @ pad2 (t div 3600000) @ '':'' @
         pad2 (t div 60000 mod 60) @ '':'' @ pad2 (t div 1000 mod 60) @ ''.'' @ pad3 (t mod 1000) @ ''Z'')"

definition dval :: "char \<Rightarrow> int" where
  "dval c = int (code c) - 48"

text \<open>The form \<open>/^\d{4}-\d{2}-\d{2}T\d{2}:\d{2}:\d{2}\.\d{3}Z$/\<close>, field by field.\<close>

fun iso_fields :: "string \<Rightarrow> (int \<times> int \<times> int \<times> int \<times> int \<times> int \<times> int) option" where
  "iso_fields [y1, y2, y3, y4, s1, m1, m2, s2, d1, d2, s3, h1, h2, s4, n1, n2, s5, c1, c2, s6,
               f1, f2, f3, s7] =
     (if list_all is_digit [y1, y2, y3, y4, m1, m2, d1, d2, h1, h2, n1, n2, c1, c2, f1, f2, f3] \<and>
         [s1, s2, s3, s4, s5, s6, s7] = ''--T::.Z''
      then Some (1000 * dval y1 + 100 * dval y2 + 10 * dval y3 + dval y4,
                 10 * dval m1 + dval m2, 10 * dval d1 + dval d2, 10 * dval h1 + dval h2,
                 10 * dval n1 + dval n2, 10 * dval c1 + dval c2,
                 100 * dval f1 + 10 * dval f2 + dval f3)
      else None)"
| "iso_fields _ = None"

text \<open>\<open>Date.parse\<close> on that form; \<open>None\<close> is \<open>NaN\<close>.\<close>

definition date_parse :: "string \<Rightarrow> int option" where
  "date_parse s =
     (case iso_fields s of
        None \<Rightarrow> None
      | Some (y, m, d, h, mi, sec, ms) \<Rightarrow>
          if 1 \<le> m \<and> m \<le> 12 \<and> 1 \<le> d \<and> d \<le> 31 \<and> mi < 60 \<and> sec < 60 \<and>
             (h < 24 \<or> h = 24 \<and> mi = 0 \<and> sec = 0 \<and> ms = 0)
          then Some (days_from_civil y m d * 86400000 + h * 3600000 + mi * 60000 + sec * 1000 + ms)
          else None)"

lemma date_parse_fields:
  "iso_fields s = Some (y, m, d, h, mi, sec, ms) \<Longrightarrow> 1 \<le> m \<Longrightarrow> m \<le> 12 \<Longrightarrow> 1 \<le> d \<Longrightarrow> d \<le> 31 \<Longrightarrow>
   mi < 60 \<Longrightarrow> sec < 60 \<Longrightarrow> h < 24 \<Longrightarrow>
   date_parse s = Some (days_from_civil y m d * 86400000 + h * 3600000 + mi * 60000 + sec * 1000 + ms)"
  by (simp add: date_parse_def)

text \<open>\<open>timestamp(value)\<close>'s test: the form and a finite \<open>Date.parse\<close>.\<close>

definition is_iso :: "string \<Rightarrow> bool" where
  "is_iso s = (iso_fields s \<noteq> None \<and> date_parse s \<noteq> None)"

lemma is_iso_iff: "is_iso s \<longleftrightarrow> date_parse s \<noteq> None"
  by (cases "iso_fields s") (simp_all add: is_iso_def date_parse_def)

lemma digit_facts [simp]: "is_digit (digit n)" "dval (digit n) = n mod 10"
proof -
  have "0 \<le> n mod 10" "n mod 10 < 10" by auto
  then have "code (digit n) = nat (48 + n mod 10)" by (simp add: digit_def)
  then show "is_digit (digit n)" "dval (digit n) = n mod 10"
    using \<open>0 \<le> n mod 10\<close> \<open>n mod 10 < 10\<close>
    by (auto simp: is_digit_def between_def dval_def) (simp_all add: code_def)
qed

lemma undigit_step: "10 * (n div (10 * k) mod 10) + n div k mod 10 = n div k mod 100" if "0 < k" for n k :: int
proof -
  have "n div (10 * k) = n div k div 10"
    using that by (simp add: zdiv_zmult2_eq mult.commute)
  moreover have "10 * (m div 10 mod 10) + m mod 10 = m mod 100" for m :: int
    using zmod_zmult2_eq [of 10 m 10] by simp
  ultimately show ?thesis by simp
qed

lemma undigits:
  "0 \<le> n \<Longrightarrow> n < 100 \<Longrightarrow> 10 * (n div 10 mod 10) + n mod 10 = (n::int)"
  "0 \<le> n \<Longrightarrow> n < 1000 \<Longrightarrow> 100 * (n div 100 mod 10) + 10 * (n div 10 mod 10) + n mod 10 = (n::int)"
  "0 \<le> n \<Longrightarrow> n < 10000 \<Longrightarrow>
     1000 * (n div 1000 mod 10) + 100 * (n div 100 mod 10) + 10 * (n div 10 mod 10) + n mod 10 = (n::int)"
proof -
  have s1: "10 * (n div 10 mod 10) + n mod 10 = n mod 100"
    and s2: "10 * (n div 100 mod 10) + n div 10 mod 10 = n div 10 mod 100"
    and s3: "10 * (n div 1000 mod 10) + n div 100 mod 10 = n div 100 mod 100"
    using undigit_step [of 1 n] undigit_step [of 10 n] undigit_step [of 100 n] by simp_all
  have m: "n = 100 * (n div 100) + n mod 100" by simp
  show "10 * (n div 10 mod 10) + n mod 10 = n" if "0 \<le> n" "n < 100"
    using s1 that by simp
  show "100 * (n div 100 mod 10) + 10 * (n div 10 mod 10) + n mod 10 = n" if "0 \<le> n" "n < 1000"
  proof -
    have "n div 100 mod 10 = n div 100" using that by (simp add: pos_imp_zdiv_nonneg_iff)
    with s1 m show ?thesis by linarith
  qed
  show "1000 * (n div 1000 mod 10) + 100 * (n div 100 mod 10) + 10 * (n div 10 mod 10) + n mod 10 = n"
    if "0 \<le> n" "n < 10000"
  proof -
    have "n div 100 mod 100 = n div 100" using that by (simp add: pos_imp_zdiv_nonneg_iff)
    with s1 s3 m show ?thesis by linarith
  qed
qed

text \<open>The representable range: years 0 to 9999.\<close>

definition clock_ok :: "int \<Rightarrow> bool" where
  "clock_ok ms = (let (y, m, d) = civil_from_days (ms div 86400000) in 0 \<le> y \<and> y \<le> 9999)"

lemma date_parse_toISOString:
  assumes "clock_ok ms"
  shows "date_parse (toISOString ms) = Some ms"
proof -
  obtain y m d where c: "civil_from_days (ms div 86400000) = (y, m, d)"
    by (cases "civil_from_days (ms div 86400000)")
  note r = days_from_civil_from_days [OF c]
  define t where "t = ms mod 86400000"
  have y: "0 \<le> y" "y \<le> 9999" using assms by (simp_all add: clock_ok_def c)
  have t: "0 \<le> t" "t < 86400000" by (simp_all add: t_def)
  let ?h = "t div 3600000" and ?n = "t div 60000 mod 60" and ?s = "t div 1000 mod 60" and ?f = "t mod 1000"
  have h: "0 \<le> ?h" "?h < 24" using t by (simp_all add: pos_imp_zdiv_nonneg_iff)
  have "t = 1000 * (t div 1000) + ?f" by simp
  moreover have "t div 1000 = 60 * (t div 60000) + ?s"
    using zdiv_zmult2_eq [of 60 t 1000] by simp
  moreover have "t div 60000 = 60 * ?h + ?n"
    using zdiv_zmult2_eq [of 60 t 60000] by simp
  ultimately have sum: "?h * 3600000 + ?n * 60000 + ?s * 1000 + ?f = t"
    by linarith
  have iy: "iso_year y = pad4 y" using y by (simp add: iso_year_def)
  have "iso_fields (toISOString ms) =
    Some (1000 * (y div 1000 mod 10) + 100 * (y div 100 mod 10) + 10 * (y div 10 mod 10) + y mod 10,
          10 * (m div 10 mod 10) + m mod 10, 10 * (d div 10 mod 10) + d mod 10,
          10 * (?h div 10 mod 10) + ?h mod 10, 10 * (?n div 10 mod 10) + ?n mod 10,
          10 * (?s div 10 mod 10) + ?s mod 10, 100 * (?f div 100 mod 10) + 10 * (?f div 10 mod 10) + ?f mod 10)"
    by (simp add: toISOString_def c t_def [symmetric] iy pad4_def pad2_def pad3_def)
  also have "\<dots> = Some (y, m, d, ?h, ?n, ?s, ?f)"
  proof -
    have b: "0 \<le> ?n" "?n < 100" "0 \<le> ?s" "?s < 100" "0 \<le> ?f" "?f < 1000" "0 \<le> m" "m < 100" "0 \<le> d" "d < 100"
      "?h < 100" "y < 10000" using r(2-5) h(2) y(2) by (auto intro: less_trans [of _ 60])
    show ?thesis
      by (simp only: undigits(1) [OF b(1,2)] undigits(1) [OF b(3,4)] undigits(2) [OF b(5,6)]
          undigits(1) [OF b(7,8)] undigits(1) [OF b(9,10)] undigits(1) [OF h(1) b(11)] undigits(3) [OF y(1) b(12)])
  qed
  finally have fields: "iso_fields (toISOString ms) = Some (y, m, d, ?h, ?n, ?s, ?f)" .
  have "?n < 60" "?s < 60" by auto
  then have "date_parse (toISOString ms) =
      Some (ms div 86400000 * 86400000 + ?h * 3600000 + ?n * 60000 + ?s * 1000 + ?f)"
    unfolding r(1) [symmetric] by (rule date_parse_fields [OF fields r(2-5) _ _ h(2)])
  also have "ms div 86400000 * 86400000 + ?h * 3600000 + ?n * 60000 + ?s * 1000 + ?f =
      ms div 86400000 * 86400000 + t"
    using sum by linarith
  also have "\<dots> = ms" by (simp add: t_def)
  finally show ?thesis .
qed

lemma is_iso_toISOString: "clock_ok ms \<Longrightarrow> is_iso (toISOString ms)"
  by (simp add: is_iso_iff date_parse_toISOString)

end
