(* ===== verification/Js_Number.thy ===== *)
theory Js_Number
  imports Prelude
begin

text \<open>
  Sums of non-negative integer-valued numbers in IEEE-754 double precision, as
  JavaScript's \<open>+\<close> computes them: the exact sum rounded to a 53-bit significand,
  ties to even.  The sums of the sources stay far below the overflow threshold.
\<close>

fun bit_length :: "nat \<Rightarrow> nat" where
  "bit_length n = (if n = 0 then 0 else Suc (bit_length (n div 2)))"

declare bit_length.simps [simp del]

definition MAX_SAFE_INTEGER :: nat where
  "MAX_SAFE_INTEGER = 9007199254740991"

text \<open>Rounding of an integer to the nearest double.\<close>

definition round53 :: "nat \<Rightarrow> nat" where
  "round53 n =
     (if n \<le> 2 ^ 53 then n
      else let e = bit_length n - 53; q = n div 2 ^ e; r = n mod 2 ^ e; h = 2 ^ (e - 1)
           in (if r < h \<or> r = h \<and> even q then q else q + 1) * 2 ^ e)"

definition js_add :: "nat \<Rightarrow> nat \<Rightarrow> nat" where
  "js_add a b = round53 (a + b)"

lemma bit_length_lower: "0 < n \<Longrightarrow> 2 ^ (bit_length n - 1) \<le> n"
proof (induction n rule: bit_length.induct)
  case (1 n)
  show ?case
  proof (cases "n div 2 = 0")
    case True
    with "1.prems" show ?thesis by (simp add: bit_length.simps [of n] bit_length.simps [of 0])
  next
    case False
    with 1 have "2 ^ (bit_length (n div 2) - 1) \<le> n div 2" by simp
    then have "2 * 2 ^ (bit_length (n div 2) - 1) \<le> n" by linarith
    moreover have "0 < bit_length (n div 2)" using False by (simp add: bit_length.simps [of "n div 2"])
    ultimately show ?thesis using "1.prems"
      by (simp add: bit_length.simps [of n] power_eq_if)
  qed
qed

lemma bit_length_upper: "n < 2 ^ bit_length n"
proof (induction n rule: bit_length.induct)
  case (1 n)
  then show ?case
    by (cases "n = 0") (auto simp: bit_length.simps [of n])
qed

lemma round53_exact: "n \<le> 2 ^ 53 \<Longrightarrow> round53 n = n"
  by (simp add: round53_def)

lemma round53_large: "2 ^ 53 \<le> n \<Longrightarrow> 2 ^ 53 \<le> round53 n"
proof (cases "n \<le> 2 ^ 53")
  case True
  then show "2 ^ 53 \<le> n \<Longrightarrow> ?thesis" by (simp add: round53_def)
next
  case False
  define e where "e = bit_length n - 53"
  have "(2::nat) ^ 53 < 2 ^ bit_length n" using False bit_length_upper [of n] by linarith
  then have b: "53 < bit_length n" by (rule power_less_imp_less_exp [rotated]) simp
  have "2 ^ (bit_length n - 1) \<le> n" using False by (intro bit_length_lower) auto
  then have "2 ^ (52 + e) \<le> n" using b by (simp add: e_def)
  then have q: "2 ^ 52 \<le> n div 2 ^ e"
    by (simp add: less_eq_div_iff_mult_less_eq power_add)
  have "53 \<le> 52 + e" using b by (simp add: e_def)
  then have "(2::nat) ^ 53 \<le> 2 ^ (52 + e)" by (rule power_increasing) simp
  also have "\<dots> = 2 ^ 52 * 2 ^ e" by (rule power_add)
  also have "\<dots> \<le> (if n mod 2 ^ e < 2 ^ (e - 1) \<or> n mod 2 ^ e = 2 ^ (e - 1) \<and> even (n div 2 ^ e)
      then n div 2 ^ e else n div 2 ^ e + 1) * 2 ^ e"
    using q by (intro mult_right_mono) auto
  also have "\<dots> = round53 n" using False by (simp add: round53_def e_def Let_def)
  finally show ?thesis .
qed

text \<open>
  The double-precision running sum agrees with the exact one up to \<open>2 ^ 53\<close> and stays
  at or above it from there on, so a comparison with a safe integer has the exact result.
\<close>

lemma js_add_agrees:
  assumes "s \<le> 2 ^ 53 \<and> f = s \<or> 2 ^ 53 < s \<and> 2 ^ 53 \<le> f"
  shows "s + x \<le> 2 ^ 53 \<and> js_add f x = s + x \<or> 2 ^ 53 < s + x \<and> 2 ^ 53 \<le> js_add f x"
  using assms
proof
  assume h: "s \<le> 2 ^ 53 \<and> f = s"
  show ?thesis
  proof (cases "s + x \<le> 2 ^ 53")
    case True
    with h show ?thesis by (simp add: js_add_def round53_exact)
  next
    case False
    with h round53_large [of "s + x"] show ?thesis by (simp add: js_add_def)
  qed
next
  assume h: "2 ^ 53 < s \<and> 2 ^ 53 \<le> f"
  then have "2 ^ 53 \<le> js_add f x" unfolding js_add_def by (intro round53_large) linarith
  with h show ?thesis by auto
qed

lemma js_sum_agrees:
  "sum_list xs \<le> 2 ^ 53 \<and> foldl js_add 0 xs = sum_list xs \<or>
   2 ^ 53 < sum_list xs \<and> 2 ^ 53 \<le> foldl js_add 0 xs"
proof (induction xs rule: rev_induct)
  case Nil
  then show ?case by simp
next
  case (snoc x xs)
  from js_add_agrees [OF snoc, of x] show ?case by simp
qed

lemma js_sum_compare:
  assumes "limit \<le> MAX_SAFE_INTEGER"
  shows "limit < js_add (foldl js_add 0 xs) c \<longleftrightarrow> limit < sum_list xs + c"
  using js_add_agrees [OF js_sum_agrees, of xs c] assms
  by (auto simp: MAX_SAFE_INTEGER_def)

end
