(* ===== verification/Validators.thy ===== *)
theory Validators
  imports Secrets Sha256 Iso_Time Js_Number
begin

text \<open>
  The leaf validators every store of the program carries in its own copy
  (\<open>object\<close>, \<open>array\<close>, \<open>exactKeys\<close>, \<open>unique\<close>,
  \<open>identifier\<close>, \<open>hash\<close>, \<open>timestamp\<close>, \<open>text\<close>,
  \<open>positive\<close>, \<open>nonNegative\<close>).  The copies differ in the class of the
  error they throw, which is the parameter \<open>mk\<close> here.  Each has the set of values
  it admits as a predicate (\<open>ok_ident\<close>, \<open>ok_text\<close>, \<dots>): admitted values are
  returned unchanged, and what is returned is admitted.
\<close>

named_theorems validator_simps \<open>what a leaf validator returns\<close>

section \<open>Strings\<close>

definition IDENTIFIER :: rx where
  "IDENTIFIER =
     Seq (Cls (\<lambda>c. is_lower c \<or> is_digit c))
       (UpTo 127 (Cls (\<lambda>c. is_lower c \<or> is_digit c \<or> c = CHR ''.'' \<or> c = CHR ''_'' \<or> c = CHR ''-'')))"

definition HASH :: rx where
  "HASH = Times 64 (Cls is_hex)"

definition ok_ident :: "string \<Rightarrow> bool" where
  "ok_ident s = (test_full IDENTIFIER s \<and> sanitizeSecretString s = s)"

definition ok_hash :: "string \<Rightarrow> bool" where
  "ok_hash s = test_full HASH s"

definition v_identifier :: "(string \<Rightarrow> 'e) \<Rightarrow> string \<Rightarrow> json \<Rightarrow> ('e, string) res" where
  "v_identifier mk label value =
     (case value of
        JStr s \<Rightarrow> if \<not> test_full IDENTIFIER s \<or> sanitizeSecretString s \<noteq> s
                  then Inl (mk (label @ '' must be a safe identifier.'')) else Inr s
      | _ \<Rightarrow> Inl (mk (label @ '' must be a safe identifier.'')))"

definition v_hash :: "(string \<Rightarrow> 'e) \<Rightarrow> string \<Rightarrow> json \<Rightarrow> ('e, string) res" where
  "v_hash mk label value =
     (case value of
        JStr s \<Rightarrow> if \<not> test_full HASH s then Inl (mk (label @ '' must be a SHA-256 hash.'')) else Inr s
      | _ \<Rightarrow> Inl (mk (label @ '' must be a SHA-256 hash.'')))"

definition v_timestamp :: "(string \<Rightarrow> 'e) \<Rightarrow> string \<Rightarrow> json \<Rightarrow> ('e, string) res" where
  "v_timestamp mk label value =
     (case value of
        JStr s \<Rightarrow> if iso_fields s = None \<or> date_parse s = None
                  then Inl (mk (label @ '' must be an ISO UTC timestamp.'')) else Inr s
      | _ \<Rightarrow> Inl (mk (label @ '' must be an ISO UTC timestamp.'')))"

definition v_text :: "(string \<Rightarrow> 'e) \<Rightarrow> string \<Rightarrow> nat \<Rightarrow> json \<Rightarrow> ('e, string) res" where
  "v_text mk label maximum value =
     (case value of
        JStr s \<Rightarrow>
          if trim s = [] \<or> length s > maximum \<or> list_ex is_control s \<or> sanitizeSecretString s \<noteq> s
          then Inl (mk (label @ '' is invalid.'')) else Inr (trim s)
      | _ \<Rightarrow> Inl (mk (label @ '' is invalid.'')))"

definition ok_text :: "nat \<Rightarrow> string \<Rightarrow> bool" where
  "ok_text maximum s =
     (s \<noteq> [] \<and> trim s = s \<and> length s \<le> maximum \<and> \<not> list_ex is_control s \<and> sanitizeSecretString s = s)"

lemma IDENTIFIER_iff:
  "test_full IDENTIFIER s \<longleftrightarrow>
     (case s of [] \<Rightarrow> False
      | c # cs \<Rightarrow> (is_lower c \<or> is_digit c) \<and> length cs \<le> 127 \<and>
          list_all (\<lambda>c. is_lower c \<or> is_digit c \<or> c = CHR ''.'' \<or> c = CHR ''_'' \<or> c = CHR ''-'') cs)"
  by (simp add: IDENTIFIER_def test_full_Cls_Seq test_full_UpTo split: list.splits)

lemma ok_hash_iff: "ok_hash s \<longleftrightarrow> length s = 64 \<and> list_all is_hex s"
  by (simp add: ok_hash_def HASH_def test_full_Times)

lemma ok_hash_sha256 [simp]: "ok_hash (sha256 s)"
  by (simp add: ok_hash_iff sha256_hex)

lemma ok_ident_length: "ok_ident s \<Longrightarrow> length s \<le> 128 \<and> s \<noteq> []"
  by (auto simp: ok_ident_def IDENTIFIER_iff split: list.splits)

lemma v_identifier_eq [validator_simps]:
  "v_identifier mk label value = Inr s \<longleftrightarrow> value = JStr s \<and> ok_ident s"
  by (auto simp: v_identifier_def ok_ident_def split: json.splits)

lemma v_hash_eq [validator_simps]: "v_hash mk label value = Inr s \<longleftrightarrow> value = JStr s \<and> ok_hash s"
  by (auto simp: v_hash_def ok_hash_def split: json.splits)

lemma v_timestamp_eq [validator_simps]:
  "v_timestamp mk label value = Inr s \<longleftrightarrow> value = JStr s \<and> is_iso s"
  by (auto simp: v_timestamp_def is_iso_def split: json.splits)

lemma v_text_ok: "v_text mk label n value = Inr s \<Longrightarrow> ok_text n s"
proof -
  assume "v_text mk label n value = Inr s"
  then obtain t where t: "trim t \<noteq> []" "length t \<le> n" "\<not> list_ex is_control t"
    "sanitizeSecretString t = t" "s = trim t"
    by (auto simp: v_text_def split: json.splits if_splits)
  have "length (trim t) \<le> n" using length_trim [of t] t(2) by linarith
  moreover have "\<not> list_ex is_control (trim t)"
    using t(3) set_trim [of t] by (auto simp: list_ex_iff)
  ultimately show ?thesis
    using t sanitizeSecretString_trim [OF t(4)] by (simp add: ok_text_def)
qed

lemma v_text_accepts [validator_simps]: "ok_text n s \<Longrightarrow> v_text mk label n (JStr s) = Inr s"
  by (simp add: v_text_def ok_text_def)

lemma v_text_JStr:
  "v_text mk label n (JStr t) = Inr s \<longleftrightarrow>
     trim t \<noteq> [] \<and> length t \<le> n \<and> \<not> list_ex is_control t \<and> sanitizeSecretString t = t \<and> s = trim t"
  by (auto simp: v_text_def)

section \<open>Numbers\<close>

definition v_positive :: "(string \<Rightarrow> 'e) \<Rightarrow> string \<Rightarrow> nat \<Rightarrow> json \<Rightarrow> ('e, nat) res" where
  "v_positive mk label maximum value =
     (case value of
        JInt i \<Rightarrow> if i < 1 \<or> i > int maximum then Inl (mk (label @ '' is invalid.'')) else Inr (nat i)
      | _ \<Rightarrow> Inl (mk (label @ '' is invalid.'')))"

definition v_nonNegative :: "(string \<Rightarrow> 'e) \<Rightarrow> string \<Rightarrow> nat \<Rightarrow> json \<Rightarrow> ('e, nat) res" where
  "v_nonNegative mk label maximum value =
     (case value of
        JInt i \<Rightarrow> if i < 0 \<or> i > int maximum then Inl (mk (label @ '' is invalid.'')) else Inr (nat i)
      | _ \<Rightarrow> Inl (mk (label @ '' is invalid.'')))"

abbreviation JNat :: "nat \<Rightarrow> json" where "JNat n \<equiv> JInt (int n)"

lemma v_positive_eq [validator_simps]:
  "v_positive mk label m value = Inr n \<longleftrightarrow> value = JNat n \<and> 1 \<le> n \<and> n \<le> m"
  by (auto simp: v_positive_def split: json.splits)

lemma v_nonNegative_eq [validator_simps]:
  "v_nonNegative mk label m value = Inr n \<longleftrightarrow> value = JNat n \<and> n \<le> m"
  by (auto simp: v_nonNegative_def split: json.splits)

section \<open>Objects and arrays\<close>

definition v_object :: "(string \<Rightarrow> 'e) \<Rightarrow> string \<Rightarrow> json \<Rightarrow> ('e, fields) res" where
  "v_object mk message value = (case value of JObj ob \<Rightarrow> Inr ob | _ \<Rightarrow> Inl (mk message))"

definition v_array :: "(string \<Rightarrow> 'e) \<Rightarrow> string \<Rightarrow> nat \<Rightarrow> json \<Rightarrow> ('e, json list) res" where
  "v_array mk label maximum value =
     (case value of
        JArr vs \<Rightarrow> if length vs > maximum then Inl (mk (label @ '' is invalid.'')) else Inr vs
      | _ \<Rightarrow> Inl (mk (label @ '' is invalid.'')))"

fun v_exactKeys :: "(string \<Rightarrow> 'e) \<Rightarrow> string \<Rightarrow> string list \<Rightarrow> string list \<Rightarrow> fields \<Rightarrow> ('e, unit) res" where
  "v_exactKeys mk label keys optional [] = Inr ()"
| "v_exactKeys mk label keys optional ((key, v) # ob) =
     (if key \<notin> set keys \<or> v = JUndef \<and> key \<notin> set optional
      then Inl (mk (label @ '' contains unsupported field: '' @ key))
      else v_exactKeys mk label keys optional ob)"

definition v_unique :: "(string \<Rightarrow> 'e) \<Rightarrow> string \<Rightarrow> string list \<Rightarrow> ('e, unit) res" where
  "v_unique mk label values =
     throwIf (card (set values) \<noteq> length values) (mk (label @ '' must be unique.''))"

lemma v_object_eq [validator_simps]: "v_object mk msg value = Inr ob \<longleftrightarrow> value = JObj ob"
  by (auto simp: v_object_def split: json.splits)

lemma v_array_eq [validator_simps]:
  "v_array mk label m value = Inr vs \<longleftrightarrow> value = JArr vs \<and> length vs \<le> m"
  by (auto simp: v_array_def split: json.splits)

lemma v_unique_eq [validator_simps]: "v_unique mk label xs = Inr u \<longleftrightarrow> distinct xs"
  by (auto simp: v_unique_def throwIf_eq_Inr card_set_eq_length)

lemma v_object_JObj [simp]: "v_object mk msg (JObj ob) = Inr ob"
  by (simp add: v_object_def)

lemma v_array_JArr [simp]: "length vs \<le> m \<Longrightarrow> v_array mk label m (JArr vs) = Inr vs"
  by (simp add: v_array_def)

lemma v_unique_distinct [simp]: "distinct xs \<Longrightarrow> v_unique mk label xs = Inr ()"
  by (simp add: v_unique_eq)

lemma v_leaf_accepts [simp]:
  "ok_ident s \<Longrightarrow> v_identifier mk label (JStr s) = Inr s"
  "ok_hash s \<Longrightarrow> v_hash mk label (JStr s) = Inr s"
  "is_iso s \<Longrightarrow> v_timestamp mk label (JStr s) = Inr s"
  "ok_text m s \<Longrightarrow> v_text mk label m (JStr s) = Inr s"
  "1 \<le> n \<Longrightarrow> n \<le> m \<Longrightarrow> v_positive mk label m (JNat n) = Inr n"
  "n \<le> m \<Longrightarrow> v_nonNegative mk label m (JNat n) = Inr n"
  by (simp_all add: validator_simps)

end
