(* ===== verification/Canonical.thy ===== *)
theory Canonical
  imports Js_Value
begin

text \<open>
  The canonical text determines what it is the text of.  \<open>json_string\<close> is a prefix
  code: a quoted string followed by anything splits in one way, and so does a number
  followed by something that is no digit.  The audit chains rest on this: equal texts are
  equal records.
\<close>

section \<open>Quoted strings\<close>

lemma code_inj: "code c = code d \<longleftrightarrow> c = d"
  by (simp add: code_def)

lemma code_hex_digit: "k < 16 \<Longrightarrow> code (hex_digit k) = (if k < 10 then 48 + k else 87 + k)"
  by (simp add: hex_digit_def)

lemma hex_digit_inj:
  assumes "hex_digit m = hex_digit n" and "m < 16" and "n < 16"
  shows "m = n"
proof -
  have "(if m < 10 then 48 + m else 87 + m) = (if n < 10 then 48 + n else 87 + n)"
    using code_hex_digit [OF assms(2)] code_hex_digit [OF assms(3)] assms(1) by metis
  then show ?thesis using assms(2,3) by (simp split: if_splits)
qed

definition u_escape :: "nat \<Rightarrow> string" where
  "u_escape n = [CHR 0x5C, CHR ''u'', CHR ''0'', CHR ''0'', hex_digit (n div 16), hex_digit (n mod 16)]"

lemma u_escape_prefix: "u_escape m @ x = u_escape n @ y \<Longrightarrow> m < 32 \<Longrightarrow> n < 32 \<Longrightarrow> m = n \<and> x = y"
proof -
  assume h: "u_escape m @ x = u_escape n @ y" "m < 32" "n < 32"
  then have "m div 16 = n div 16" "m mod 16 = n mod 16" "x = y"
    by (auto simp: u_escape_def dest!: hex_digit_inj)
  then show ?thesis by (metis div_mult_mod_eq)
qed

lemma escape_short:
  "json_escape_char (CHR 0x22) = [CHR 0x5C, CHR 0x22]" "json_escape_char (CHR 0x5C) = [CHR 0x5C, CHR 0x5C]"
  "json_escape_char (CHR 0x08) = [CHR 0x5C, CHR ''b'']" "json_escape_char (CHR 0x09) = [CHR 0x5C, CHR ''t'']"
  "json_escape_char (CHR 0x0A) = [CHR 0x5C, CHR ''n'']" "json_escape_char (CHR 0x0C) = [CHR 0x5C, CHR ''f'']"
  "json_escape_char (CHR 0x0D) = [CHR 0x5C, CHR ''r'']"
  by code_simp+

definition short_escapes :: "(char \<times> char) list" where
  "short_escapes = [(CHR 0x22, CHR 0x22), (CHR 0x5C, CHR 0x5C), (CHR 0x08, CHR ''b''), (CHR 0x09, CHR ''t''),
     (CHR 0x0A, CHR ''n''), (CHR 0x0C, CHR ''f''), (CHR 0x0D, CHR ''r'')]"

lemma escape_cases:
  obtains (plain) "json_escape_char c = [c]" "c \<noteq> CHR 0x22" "c \<noteq> CHR 0x5C"
  | (short) d where "json_escape_char c = [CHR 0x5C, d]" "(c, d) \<in> set short_escapes"
  | (long) "json_escape_char c = u_escape (code c)" "code c < 32"
proof (cases "c \<in> fst ` set short_escapes")
  case True
  then show ?thesis using short escape_short by (auto simp: short_escapes_def)
next
  case False
  then have n: "c \<noteq> CHR 0x22" "c \<noteq> CHR 0x5C" "c \<noteq> CHR 0x08" "c \<noteq> CHR 0x09" "c \<noteq> CHR 0x0A" "c \<noteq> CHR 0x0C" "c \<noteq> CHR 0x0D"
    by (auto simp: short_escapes_def)
  have k: "code (CHR 0x08) = 8" "code (CHR 0x09) = 9" "code (CHR 0x0A) = 10" "code (CHR 0x0C) = 12" "code (CHR 0x0D) = 13"
    by code_simp+
  have m: "code c \<noteq> 8" "code c \<noteq> 9" "code c \<noteq> 10" "code c \<noteq> 12" "code c \<noteq> 13"
    using n k code_inj by metis+
  show ?thesis
  proof (cases "code c < 32")
    case True
    then show ?thesis using n m long by (simp add: json_escape_char_def u_escape_def Let_def)
  next
    case False
    then show ?thesis using n m plain by (simp add: json_escape_char_def Let_def)
  qed
qed

lemma short_escapes_inj: "(c, k) \<in> set short_escapes \<Longrightarrow> (d, k) \<in> set short_escapes \<Longrightarrow> c = d"
  by (auto simp: short_escapes_def)

lemma short_escapes_not_u: "(c, CHR ''u'') \<notin> set short_escapes"
  by (simp add: short_escapes_def)

lemma escape_prefix:
  assumes "json_escape_char c @ x = json_escape_char d @ y"
  shows "c = d \<and> x = y"
proof (cases c rule: escape_cases)
  case plain
  then show ?thesis using assms by (cases d rule: escape_cases) (auto simp: u_escape_def)
next
  case (short k)
  note c = short
  show ?thesis
  proof (cases d rule: escape_cases)
    case (short k')
    then show ?thesis using assms c short_escapes_inj by auto
  next
    case long
    then show ?thesis using assms c short_escapes_not_u by (simp add: u_escape_def)
  qed (use assms c in auto)
next
  case long
  note c = long
  show ?thesis
  proof (cases d rule: escape_cases)
    case (short k)
    then show ?thesis using assms c short_escapes_not_u by (auto simp: u_escape_def)
  next
    case long
    with assms c have "u_escape (code c) @ x = u_escape (code d) @ y" by simp
    from u_escape_prefix [OF this c(2) long(2)] show ?thesis by (simp add: code_inj)
  qed (use assms c in \<open>auto simp: u_escape_def\<close>)
qed

lemma escape_no_quote: "\<exists>k ks. json_escape_char c = k # ks \<and> k \<noteq> CHR 0x22"
  by (cases c rule: escape_cases) (auto simp: u_escape_def)

lemma escaped_prefix:
  "concat (map json_escape_char s) @ CHR 0x22 # x = concat (map json_escape_char t) @ CHR 0x22 # y \<Longrightarrow>
   s = t \<and> x = y"
proof (induction s arbitrary: t)
  case Nil
  then show ?case
  proof (cases t)
    case (Cons d t')
    with Nil escape_no_quote [of d] show ?thesis by auto
  qed simp
next
  case (Cons c s)
  show ?case
  proof (cases t)
    case Nil
    with Cons.prems escape_no_quote [of c] show ?thesis by auto
  next
    case (Cons d t')
    with Cons.prems have "c = d \<and> concat (map json_escape_char s) @ CHR 0x22 # x = concat (map json_escape_char t') @ CHR 0x22 # y"
      by (intro escape_prefix) simp
    with Cons.IH Cons show ?thesis by auto
  qed
qed

lemma json_string_prefix: "json_string s @ x = json_string t @ y \<Longrightarrow> s = t \<and> x = y"
  using escaped_prefix [of s x t y] by (simp add: json_string_def)

lemma json_string_inj [simp]: "json_string s = json_string t \<longleftrightarrow> s = t"
  using json_string_prefix [of s "[]" t "[]"] by auto

section \<open>Numbers\<close>

fun digits_value :: "nat \<Rightarrow> string \<Rightarrow> nat" where
  "digits_value v [] = v"
| "digits_value v (c # cs) = digits_value (10 * v + (code c - 48)) cs"

lemma digits_value_snoc: "digits_value v (s @ [c]) = 10 * digits_value v s + (code c - 48)"
  by (induction v s rule: digits_value.induct) auto

lemma digits_value_nat_digits: "digits_value 0 (nat_digits n) = n"
proof (induction n rule: nat_digits.induct)
  case (1 n)
  then show ?case
    by (subst nat_digits.simps) (auto simp: digits_value_snoc)
qed

lemma digit_char: "k < 10 \<Longrightarrow> is_digit (char_of (48 + k :: nat))"
proof -
  have "code (CHR ''0'') = 48" "code (CHR ''9'') = 57" by code_simp+
  then show "k < 10 \<Longrightarrow> is_digit (char_of (48 + k :: nat))" by (simp add: is_digit_def between_def)
qed

lemma nat_digits_digits: "list_all is_digit (nat_digits n)"
proof (induction n rule: nat_digits.induct)
  case (1 n)
  then show ?case by (subst nat_digits.simps) (simp add: digit_char)
qed

lemma nat_digits_inj: "nat_digits m = nat_digits n \<Longrightarrow> m = n"
  using digits_value_nat_digits by metis

lemma nat_digits_prefix:
  assumes "nat_digits m @ c # x = nat_digits n @ c # y" and "\<not> is_digit c"
  shows "m = n \<and> x = y"
proof -
  have tw: "takeWhile is_digit (nat_digits k @ c # z) = nat_digits k" for k z
    using nat_digits_digits [of k] assms(2) by (simp add: list_all_iff takeWhile_append2)
  have "nat_digits m = nat_digits n" using assms(1) tw by metis
  with assms(1) show ?thesis by (auto dest: nat_digits_inj)
qed

end
