(* ===== verification/Core_Props.thy ===== *)
theory Core_Props
  imports Validators Canonical
begin

text \<open>
  The properties of the shared leaves: secret masking, the leaf validators and the time
  stamps every store depends on.
\<close>

section \<open>Secret masking\<close>


text \<open>A text without any of the fixed markers of the token shapes, and without the word
  bearer in any case, is returned unchanged: the masking has no false positives among them.\<close>

theorem unmarked_text_unchanged:
  assumes "\<not> has_marker s" and "\<not> has_bearer s"
  shows "sanitizeSecretString s = s"
  using assms by (rule sanitizeSecretString_unmarked)

theorem unmarked_text_unchanged_witness: "sanitizeSecretString ''refund for order 17'' = ''refund for order 17''"
  by (rule unmarked_text_unchanged; code_simp)



section \<open>The leaf validators\<close>

text \<open>A validated text is stable.  What the text validator returns is trimmed, within the
  limit, free of control characters, unchanged by the secret masking, and accepted again as it
  is: storing and re-reading it does not change it.\<close>

theorem validated_text_stable:
  assumes "v_text mk label n value = Inr s"
  shows "s \<noteq> [] \<and> trim s = s \<and> length s \<le> n \<and> \<not> list_ex is_control s \<and> sanitizeSecretString s = s \<and>
    v_text mk label n (JStr s) = Inr s"
  using v_text_ok [OF assms] by (simp add: v_text_accepts) (simp add: ok_text_def)

theorem validated_text_stable_witness:
  "v_text (\<lambda>m. m) ''Reason'' 20 (JStr ''  stop all '') = Inr ''stop all'' \<and> trim ''stop all'' = ''stop all''"
proof -
  have "sanitizeSecretString ''  stop all '' = ''  stop all ''"
    by (rule sanitizeSecretString_unmarked; code_simp)
  moreover have "trim ''  stop all '' = ''stop all''" "\<not> list_ex is_control ''  stop all ''" by code_simp+
  ultimately have "v_text (\<lambda>m. m) ''Reason'' 20 (JStr ''  stop all '') = Inr ''stop all''" by (simp add: v_text_JStr)
  with validated_text_stable [OF this] show ?thesis by blast
qed

section \<open>Time stamps\<close>

text \<open>Time stamps round-trip.  For every clock value whose year has four digits,
  \<open>Date.parse\<close> of the ISO text a store writes gives the clock value back, and the text
  passes the time stamp validator.\<close>

theorem timestamp_roundtrip:
  assumes "clock_ok ms"
  shows "date_parse (toISOString ms) = Some ms \<and> v_timestamp mk label (JStr (toISOString ms)) = Inr (toISOString ms)"
  using date_parse_toISOString [OF assms] is_iso_toISOString [OF assms] by simp

theorem timestamp_roundtrip_witness: "date_parse (toISOString 1700000000123) = Some 1700000000123"
proof -
  have "clock_ok 1700000000123" by code_simp
  from timestamp_roundtrip [OF this, of "\<lambda>m. m" "[]"] show ?thesis by blast
qed

text \<open>Sums of costs compare exactly.  Adding non-negative integers in double precision, one
  after the other, and comparing the total plus one more with a safe-integer limit gives the
  answer of exact arithmetic, even when the double sum has been rounded.\<close>

theorem double_sum_compares_exactly:
  assumes "limit \<le> MAX_SAFE_INTEGER"
  shows "limit < js_add (foldl js_add 0 ns) c \<longleftrightarrow> limit < sum_list ns + c"
  using assms by (rule js_sum_compare)

theorem double_sum_compares_exactly_witness:
  "(9007199254740991 < js_add (foldl js_add 0 [9007199254740991, 1, 1]) 1) = (9007199254740991 < sum_list [9007199254740991, 1, 1] + (1::nat))"
  by (rule double_sum_compares_exactly) (simp add: MAX_SAFE_INTEGER_def)

end
