(* ===== verification/Store.thy ===== *)
theory Store
  imports Validators
begin

text \<open>
  The JSON file stores: one file, read through a validator and rewritten as a whole
  under the file lock (\<open>read\<close>, \<open>mutate\<close> and \<open>timestamp\<close> of the
  store classes, \<open>atomicWriteJson\<close> of \<open>src/storage/fileStore.ts\<close>).  A
  regular file is represented by the value \<open>JSON.parse\<close> gives of its text
  (\<open>None\<close>: not JSON) and by the length of the text in bytes.  The store classes
  differ in their state, validator, limits and error messages: the record \<open>store\<close>.
  The locale \<open>validated_store\<close> is the contract between a validator and its store;
  its lemmas hold of every store that interprets it.
\<close>

datatype store_file =
    NoFile
  | NotRegular
  | Regular "json option" nat

record ('s, 'e) store =
  emptyStore :: 's
  validateStore :: "json \<Rightarrow> ('e, 's) res"
  encodeStore :: "'s \<Rightarrow> json"
  maxStoreBytes :: nat
  notRegularError :: 'e
  sizeError :: 'e
  notJsonError :: 'e
  clockError :: 'e

text \<open>A clock reading: the time value of the \<open>Date\<close>, \<open>None\<close> for an invalid one.\<close>

type_synonym clock = "int option"

definition timestamp_now :: "('s, 'e) store \<Rightarrow> clock \<Rightarrow> ('e, string) res" where
  "timestamp_now cfg now = (case now of None \<Rightarrow> Inl (clockError cfg) | Some ms \<Rightarrow> Inr (toISOString ms))"

definition read_store :: "('s, 'e) store \<Rightarrow> store_file \<Rightarrow> ('e, 's) res" where
  "read_store cfg f =
     (case f of
        NoFile \<Rightarrow> Inr (emptyStore cfg)
      | NotRegular \<Rightarrow> Inl (notRegularError cfg)
      | Regular content bytes \<Rightarrow>
          if bytes > maxStoreBytes cfg then Inl (sizeError cfg)
          else (case content of
                  None \<Rightarrow> Inl (notJsonError cfg)
                | Some j \<Rightarrow> validateStore cfg j))"

definition atomicWriteJson :: "json \<Rightarrow> store_file" where
  "atomicWriteJson v =
     Regular (Some v) ((case pretty 0 v of None \<Rightarrow> 9 | Some t \<Rightarrow> utf8_length t) + 1)"

definition mutate_store ::
  "('s, 'e) store \<Rightarrow> (string \<Rightarrow> ('s, 'e, 'a) prog) \<Rightarrow> clock \<Rightarrow> store_file \<Rightarrow> ('e, 'a) res \<times> store_file" where
  "mutate_store cfg operation now f =
     (case read_store cfg f of
        Inl e \<Rightarrow> (Inl e, f)
      | Inr state \<Rightarrow>
          (case timestamp_now cfg now of
             Inl e \<Rightarrow> (Inl e, f)
           | Inr t \<Rightarrow>
               (case operation t state of
                  (Inl e, _) \<Rightarrow> (Inl e, f)
                | (Inr result, state') \<Rightarrow>
                    (case validateStore cfg (encodeStore cfg state') of
                       Inl e \<Rightarrow> (Inl e, f)
                     | Inr state'' \<Rightarrow> (Inr result, atomicWriteJson (encodeStore cfg state''))))))"

section \<open>Facts of every store\<close>

lemma mutate_throw_unchanged: "mutate_store cfg op now f = (Inl e, f') \<Longrightarrow> f' = f"
  by (auto simp: mutate_store_def split: sum.splits prod.splits)

lemma mutate_storeE:
  assumes "mutate_store cfg op now f = (Inr x, f')"
  obtains ms s s' s'' where "now = Some ms" "read_store cfg f = Inr s"
    "op (toISOString ms) s = (Inr x, s')" "validateStore cfg (encodeStore cfg s') = Inr s''"
    "f' = atomicWriteJson (encodeStore cfg s'')"
  using assms
  by (auto simp: mutate_store_def timestamp_now_def split: sum.splits prod.splits option.splits)

lemma mutate_store_Inr:
  "read_store cfg f = Inr s \<Longrightarrow> op (toISOString ms) s = (Inr x, s') \<Longrightarrow>
   validateStore cfg (encodeStore cfg s') = Inr s'' \<Longrightarrow>
   mutate_store cfg op (Some ms) f = (Inr x, atomicWriteJson (encodeStore cfg s''))"
  by (simp add: mutate_store_def timestamp_now_def)

lemma mutate_store_throws:
  "read_store cfg f = Inr s \<Longrightarrow> op (toISOString ms) s = (Inl e, s') \<Longrightarrow>
   mutate_store cfg op (Some ms) f = (Inl e, f)"
  by (simp add: mutate_store_def timestamp_now_def)

definition store_bytes :: "json \<Rightarrow> nat" where
  "store_bytes v = (case pretty 0 v of None \<Rightarrow> 9 | Some t \<Rightarrow> utf8_length t) + 1"

lemma read_written:
  "store_bytes j \<le> maxStoreBytes cfg \<Longrightarrow> read_store cfg (atomicWriteJson j) = validateStore cfg j"
  by (simp add: read_store_def atomicWriteJson_def store_bytes_def)

lemma read_written_too_large:
  "store_bytes j > maxStoreBytes cfg \<Longrightarrow> read_store cfg (atomicWriteJson j) = Inl (sizeError cfg)"
  by (simp add: read_store_def atomicWriteJson_def store_bytes_def)

section \<open>The contract of a validator\<close>

locale validated_store =
  fixes cfg :: "('s, 'e) store"
    and inv :: "'s \<Rightarrow> bool"
  assumes inv_empty: "inv (emptyStore cfg)"
    and inv_validate: "validateStore cfg j = Inr s \<Longrightarrow> inv s"
    and validate_encode: "inv s \<Longrightarrow> validateStore cfg (encodeStore cfg s) = Inr s"
begin

lemma read_inv: "read_store cfg f = Inr s \<Longrightarrow> inv s"
  using inv_empty inv_validate
  by (auto simp: read_store_def split: store_file.splits if_splits option.splits)

text \<open>What a successful mutation writes satisfies the invariant and reads back as written.\<close>

lemma mutate_writes:
  assumes "mutate_store cfg op now f = (Inr x, f')"
  shows "\<exists>s''. inv s'' \<and> f' = atomicWriteJson (encodeStore cfg s'') \<and>
           (store_bytes (encodeStore cfg s'') \<le> maxStoreBytes cfg \<longrightarrow> read_store cfg f' = Inr s'')"
  using assms by (elim mutate_storeE) (metis inv_validate read_written validate_encode)

text \<open>An operation that keeps the invariant is written exactly as it left the state.\<close>

lemma mutate_exact:
  assumes "read_store cfg f = Inr s" and "op (toISOString ms) s = (Inr x, s')" and "inv s'"
  shows "mutate_store cfg op (Some ms) f = (Inr x, atomicWriteJson (encodeStore cfg s'))"
  using assms by (intro mutate_store_Inr) (auto simp: validate_encode)

lemma mutate_reads_back:
  assumes "mutate_store cfg op now f = (Inr x, f')" and "read_store cfg f' = Inr s''"
  shows "\<exists>ms s s'. now = Some ms \<and> read_store cfg f = Inr s \<and>
           op (toISOString ms) s = (Inr x, s') \<and>
           validateStore cfg (encodeStore cfg s') = Inr s''"
proof -
  obtain ms s s' t where h: "now = Some ms" "read_store cfg f = Inr s"
    "op (toISOString ms) s = (Inr x, s')" "validateStore cfg (encodeStore cfg s') = Inr t"
    "f' = atomicWriteJson (encodeStore cfg t)"
    using assms(1) by (rule mutate_storeE)
  have "validateStore cfg (encodeStore cfg t) = Inr t"
    using h(4) inv_validate validate_encode by blast
  then have "t = s''"
    using assms(2) h(5) read_written [of "encodeStore cfg t" cfg]
      read_written_too_large [of cfg "encodeStore cfg t"]
    by (cases "store_bytes (encodeStore cfg t) \<le> maxStoreBytes cfg") auto
  with h show ?thesis by blast
qed

end

end
