(* ===== verification/Safety_Types.thy ===== *)
theory Safety_Types
  imports Store
begin

text \<open>
  The data of \<open>src/safety/safetyController.ts\<close>: scopes, actions, budgets,
  circuits, the lease ledger, the queue and its dead letters, the audit records and
  the state, with the JSON value of each (\<open>enc_*\<close>, the properties in the order
  the validators build them), and the pure helpers on them.
\<close>

section \<open>Errors and limits\<close>

datatype safety_error =
    SafetyControllerError (message: string) (errCode: "string option")
  | AuthorizerError string

abbreviation SCE :: "string \<Rightarrow> safety_error" where
  "SCE m \<equiv> SafetyControllerError m None"

definition SCHEMA_VERSION :: nat where "SCHEMA_VERSION = 1"
definition MAX_STORE_BYTES :: nat where "MAX_STORE_BYTES = 1024 * 1024"
definition MAX_CONTROLS :: nat where "MAX_CONTROLS = 1000"
definition MAX_LEDGER :: nat where "MAX_LEDGER = 10000"
definition MAX_QUEUE :: nat where "MAX_QUEUE = 100"
definition MAX_DEAD_LETTERS :: nat where "MAX_DEAD_LETTERS = 1000"
definition MAX_AUDIT :: nat where "MAX_AUDIT = 10000"
definition DEFAULT_LEASE_TTL_MS :: int where "DEFAULT_LEASE_TTL_MS = 60000"
definition KILL_SWITCH_ERROR_CODE :: string where "KILL_SWITCH_ERROR_CODE = ''SAFETY_KILL_SWITCH''"
definition DAY_MS :: nat where "DAY_MS = 24 * 60 * 60 * 1000"
definition MONTH_MS :: nat where "MONTH_MS = 30 * 24 * 60 * 60 * 1000"

section \<open>Scopes and actions\<close>

datatype SafetyScopeKind =
    Global | Organization | Project | Environment | Agent | Workload | Provider | Operation | Risk_class

record SafetyScope =
  scope_kind :: SafetyScopeKind
  scope_id :: "string option"

datatype RiskClass = Read | Write | Money_movement | External_communication | Delete | Deploy

record SafetyCosts =
  monetaryAmountMinor :: nat
  requests :: nat
  messages :: nat
  mutations :: nat
  deletes :: nat
  tokenCost :: nat

record SafetyAction =
  organizationId :: string
  projectId :: string
  environment :: string
  actorId :: string
  workloadId :: string
  provider :: string
  operation :: string
  riskClass :: RiskClass
  idempotencyKey :: string
  actionHash :: string
  costs :: SafetyCosts

definition SAFETY_SCOPE_KINDS :: "SafetyScopeKind list" where
  "SAFETY_SCOPE_KINDS =
     [Global, Organization, Project, Environment, Agent, Workload, Provider, Operation, Risk_class]"

fun kind_name :: "SafetyScopeKind \<Rightarrow> string" where
  "kind_name Global = ''global''"
| "kind_name Organization = ''organization''"
| "kind_name Project = ''project''"
| "kind_name Environment = ''environment''"
| "kind_name Agent = ''agent''"
| "kind_name Workload = ''workload''"
| "kind_name Provider = ''provider''"
| "kind_name Operation = ''operation''"
| "kind_name Risk_class = ''risk_class''"

fun risk_name :: "RiskClass \<Rightarrow> string" where
  "risk_name Read = ''read''"
| "risk_name Write = ''write''"
| "risk_name Money_movement = ''money_movement''"
| "risk_name External_communication = ''external_communication''"
| "risk_name Delete = ''delete''"
| "risk_name Deploy = ''deploy''"

fun scopeValue :: "SafetyScopeKind \<Rightarrow> SafetyAction \<Rightarrow> string option" where
  "scopeValue Organization a = Some (organizationId a)"
| "scopeValue Project a = Some (projectId a)"
| "scopeValue Environment a = Some (environment a)"
| "scopeValue Agent a = Some (actorId a)"
| "scopeValue Workload a = Some (workloadId a)"
| "scopeValue Provider a = Some (provider a)"
| "scopeValue Operation a = Some (operation a)"
| "scopeValue Risk_class a = Some (risk_name (riskClass a))"
| "scopeValue Global a = None"

definition scopeMatches :: "SafetyScope \<Rightarrow> SafetyAction \<Rightarrow> bool" where
  "scopeMatches scope action =
     (scope_kind scope = Global \<or> scope_id scope = scopeValue (scope_kind scope) action)"

definition scopeKey :: "SafetyScope \<Rightarrow> string" where
  "scopeKey scope =
     (if scope_kind scope = Global then ''global''
      else kind_name (scope_kind scope) @ '':'' @
        (case scope_id scope of None \<Rightarrow> ''undefined'' | Some i \<Rightarrow> i))"

definition sameScope :: "SafetyScope \<Rightarrow> SafetyScope \<Rightarrow> bool" where
  "sameScope left right = (scope_kind left = scope_kind right \<and> scope_id left = scope_id right)"

definition ledgerKey :: "SafetyAction \<Rightarrow> string" where
  "ledgerKey action = idempotencyKey action @ '':'' @ actionHash action"

definition addCosts :: "SafetyCosts \<Rightarrow> SafetyCosts \<Rightarrow> SafetyCosts" where
  "addCosts tot v =
     \<lparr>monetaryAmountMinor = js_add (monetaryAmountMinor tot) (monetaryAmountMinor v),
      requests = js_add (requests tot) (requests v),
      messages = js_add (messages tot) (messages v),
      mutations = js_add (mutations tot) (mutations v),
      deletes = js_add (deletes tot) (deletes v),
      tokenCost = js_add (tokenCost tot) (tokenCost v)\<rparr>"

definition sumCosts :: "SafetyCosts list \<Rightarrow> SafetyCosts" where
  "sumCosts values =
     foldl addCosts
       \<lparr>monetaryAmountMinor = 0, requests = 0, messages = 0, mutations = 0, deletes = 0, tokenCost = 0\<rparr>
       values"

text \<open>\<open>Math.floor((count * 10_000) / total)\<close>; the counts are at most \<open>MAX_LEDGER\<close>,
  where the floor of the double-precision quotient is the integer quotient.\<close>

definition rateBps :: "nat \<Rightarrow> nat \<Rightarrow> nat" where
  "rateBps count tot = (if tot = 0 then 0 else (count * 10000) div tot)"

section \<open>Controls, ledger, queue, audit\<close>

record SafetyBudgetLimits =
  lim_monetaryAmountMinor :: "nat option"
  lim_requests :: "nat option"
  lim_messages :: "nat option"
  lim_mutations :: "nat option"
  lim_deletes :: "nat option"
  lim_tokenCost :: "nat option"
  lim_concurrency :: "nat option"
  lim_velocity :: "nat option"

record SafetyBudget =
  budget_id :: string
  budget_scope :: SafetyScope
  budget_windowMs :: nat
  velocityWindowMs :: nat
  limits :: SafetyBudgetLimits

datatype CircuitState = Closed | Open

record SafetyCircuit =
  circuit_id :: string
  circuit_scope :: SafetyScope
  circuit_windowMs :: nat
  minimumSamples :: nat
  maxFailureRateBps :: nat
  maxPolicyViolations :: nat
  maxLatencyMs :: nat
  maxReconciliationMismatches :: nat
  circuit_state :: CircuitState
  openedAt :: "string option"
  circuit_reason :: "string option"

datatype SafetyOperatorPermission =
    Safety_stop | Safety_reenable | Safety_configure | Safety_inspect

record SafetyOperator =
  operator_id :: string
  principalId :: string
  permissions :: "SafetyOperatorPermission list"

record SafetySwitch =
  switch_scope :: SafetyScope
  enabled :: bool
  changedAt :: string
  switch_reason :: string
  changedBy :: string

record SafetyOutcome =
  success :: bool
  policyViolation :: bool
  reconciliationMismatch :: bool
  latencyMs :: nat
  outcome_reason :: "string option"

datatype LedgerStatus = Reserved | Completed

record LedgerEntry =
  ledger_key :: string
  ledger_action :: SafetyAction
  ledger_status :: LedgerStatus
  admittedAt :: string
  completedAt :: "string option"
  outcome :: "SafetyOutcome option"

record SafetyQueueItem =
  queue_id :: string
  queue_action :: SafetyAction
  queuedAt :: string

record SafetyDeadLetter =
  dead_item :: SafetyQueueItem
  dead_reason :: string
  deadLetteredAt :: string

record SafetyAuditRecord =
  sequence :: nat
  event :: string
  subject :: string
  audit_reason :: string
  actorPrincipalId :: "string option"
  audit_timestamp :: string
  previousHash :: string
  recordHash :: string

record SafetyControllerState =
  switches :: "SafetySwitch list"
  budgets :: "SafetyBudget list"
  circuits :: "SafetyCircuit list"
  ledger :: "LedgerEntry list"
  queue :: "SafetyQueueItem list"
  deadLetters :: "SafetyDeadLetter list"
  auditAnchor :: string
  audit :: "SafetyAuditRecord list"

section \<open>The JSON values\<close>

definition opt_prop :: "string \<Rightarrow> ('a \<Rightarrow> json) \<Rightarrow> 'a option \<Rightarrow> fields" where
  "opt_prop k enc v = (case v of None \<Rightarrow> [] | Some x \<Rightarrow> [(k, enc x)])"

definition enc_scope :: "SafetyScope \<Rightarrow> json" where
  "enc_scope s = JObj ((''kind'', JStr (kind_name (scope_kind s))) # opt_prop ''id'' JStr (scope_id s))"

definition enc_costs :: "SafetyCosts \<Rightarrow> json" where
  "enc_costs c = JObj [
     (''monetaryAmountMinor'', JNat (monetaryAmountMinor c)), (''requests'', JNat (requests c)),
     (''messages'', JNat (messages c)), (''mutations'', JNat (mutations c)),
     (''deletes'', JNat (deletes c)), (''tokenCost'', JNat (tokenCost c))]"

definition enc_action :: "SafetyAction \<Rightarrow> json" where
  "enc_action a = JObj [
     (''organizationId'', JStr (organizationId a)), (''projectId'', JStr (projectId a)),
     (''environment'', JStr (environment a)), (''actorId'', JStr (actorId a)),
     (''workloadId'', JStr (workloadId a)), (''provider'', JStr (provider a)),
     (''operation'', JStr (operation a)), (''riskClass'', JStr (risk_name (riskClass a))),
     (''idempotencyKey'', JStr (idempotencyKey a)), (''actionHash'', JStr (actionHash a)),
     (''costs'', enc_costs (costs a))]"

definition enc_limits :: "SafetyBudgetLimits \<Rightarrow> json" where
  "enc_limits l = JObj (
     opt_prop ''monetaryAmountMinor'' JNat (lim_monetaryAmountMinor l) @
     opt_prop ''requests'' JNat (lim_requests l) @ opt_prop ''messages'' JNat (lim_messages l) @
     opt_prop ''mutations'' JNat (lim_mutations l) @ opt_prop ''deletes'' JNat (lim_deletes l) @
     opt_prop ''tokenCost'' JNat (lim_tokenCost l) @
     opt_prop ''concurrency'' JNat (lim_concurrency l) @ opt_prop ''velocity'' JNat (lim_velocity l))"

definition enc_budget :: "SafetyBudget \<Rightarrow> json" where
  "enc_budget b = JObj [
     (''id'', JStr (budget_id b)), (''scope'', enc_scope (budget_scope b)),
     (''windowMs'', JNat (budget_windowMs b)), (''velocityWindowMs'', JNat (velocityWindowMs b)),
     (''limits'', enc_limits (limits b))]"

fun enc_circuit_state :: "CircuitState \<Rightarrow> json" where
  "enc_circuit_state Closed = JStr ''closed''"
| "enc_circuit_state Open = JStr ''open''"

definition enc_circuit :: "SafetyCircuit \<Rightarrow> json" where
  "enc_circuit c = JObj ([
     (''id'', JStr (circuit_id c)), (''scope'', enc_scope (circuit_scope c)),
     (''windowMs'', JNat (circuit_windowMs c)), (''minimumSamples'', JNat (minimumSamples c)),
     (''maxFailureRateBps'', JNat (maxFailureRateBps c)),
     (''maxPolicyViolations'', JNat (maxPolicyViolations c)), (''maxLatencyMs'', JNat (maxLatencyMs c)),
     (''maxReconciliationMismatches'', JNat (maxReconciliationMismatches c)),
     (''state'', enc_circuit_state (circuit_state c))] @
     opt_prop ''openedAt'' JStr (openedAt c) @ opt_prop ''reason'' JStr (circuit_reason c))"

definition enc_switch :: "SafetySwitch \<Rightarrow> json" where
  "enc_switch w = JObj [
     (''scope'', enc_scope (switch_scope w)), (''enabled'', JBool (enabled w)),
     (''changedAt'', JStr (changedAt w)), (''reason'', JStr (switch_reason w)),
     (''changedBy'', JStr (changedBy w))]"

definition enc_outcome :: "SafetyOutcome \<Rightarrow> json" where
  "enc_outcome r = JObj ([
     (''success'', JBool (success r)), (''policyViolation'', JBool (policyViolation r)),
     (''reconciliationMismatch'', JBool (reconciliationMismatch r)),
     (''latencyMs'', JNat (latencyMs r))] @ opt_prop ''reason'' JStr (outcome_reason r))"

fun enc_status :: "LedgerStatus \<Rightarrow> json" where
  "enc_status Reserved = JStr ''reserved''"
| "enc_status Completed = JStr ''completed''"

definition enc_ledger :: "LedgerEntry \<Rightarrow> json" where
  "enc_ledger e = JObj ([
     (''key'', JStr (ledger_key e)), (''action'', enc_action (ledger_action e)),
     (''status'', enc_status (ledger_status e)), (''admittedAt'', JStr (admittedAt e))] @
     opt_prop ''completedAt'' JStr (completedAt e) @ opt_prop ''outcome'' enc_outcome (outcome e))"

definition enc_queue_item :: "SafetyQueueItem \<Rightarrow> json" where
  "enc_queue_item q = JObj [
     (''id'', JStr (queue_id q)), (''action'', enc_action (queue_action q)),
     (''queuedAt'', JStr (queuedAt q))]"

definition enc_dead_letter :: "SafetyDeadLetter \<Rightarrow> json" where
  "enc_dead_letter d = JObj [
     (''id'', JStr (queue_id (dead_item d))), (''action'', enc_action (queue_action (dead_item d))),
     (''queuedAt'', JStr (queuedAt (dead_item d))), (''reason'', JStr (dead_reason d)),
     (''deadLetteredAt'', JStr (deadLetteredAt d))]"

text \<open>The part of an audit record its hash covers.\<close>

definition audit_base :: "nat \<Rightarrow> string \<Rightarrow> string \<Rightarrow> string \<Rightarrow> string option \<Rightarrow> string \<Rightarrow> string \<Rightarrow> fields" where
  "audit_base sq ev sb rs ac ts ph =
     [(''sequence'', JNat sq), (''event'', JStr ev), (''subject'', JStr sb), (''reason'', JStr rs)] @
     opt_prop ''actorPrincipalId'' JStr ac @ [(''timestamp'', JStr ts), (''previousHash'', JStr ph)]"

definition enc_audit :: "SafetyAuditRecord \<Rightarrow> json" where
  "enc_audit r = JObj (
     audit_base (sequence r) (event r) (subject r) (audit_reason r) (actorPrincipalId r)
       (audit_timestamp r) (previousHash r) @ [(''recordHash'', JStr (recordHash r))])"

definition enc_state :: "SafetyControllerState \<Rightarrow> json" where
  "enc_state st = JObj [
     (''schemaVersion'', JNat SCHEMA_VERSION),
     (''switches'', JArr (map enc_switch (switches st))),
     (''budgets'', JArr (map enc_budget (budgets st))),
     (''circuits'', JArr (map enc_circuit (circuits st))),
     (''ledger'', JArr (map enc_ledger (ledger st))),
     (''queue'', JArr (map enc_queue_item (queue st))),
     (''deadLetters'', JArr (map enc_dead_letter (deadLetters st))),
     (''auditAnchor'', JStr (auditAnchor st)),
     (''audit'', JArr (map enc_audit (audit st)))]"

definition emptyState :: SafetyControllerState where
  "emptyState =
     \<lparr>switches = [], budgets = [], circuits = [], ledger = [], queue = [], deadLetters = [],
      auditAnchor = sha256 ''ghostapi.safety.audit.v1'', audit = []\<rparr>"

text \<open>\<open>Date.parse(a) >= Date.parse(b) - ms\<close>: false when a side is \<open>NaN\<close>.\<close>

definition within_window :: "string \<Rightarrow> string \<Rightarrow> int \<Rightarrow> bool" where
  "within_window a now ms =
     (case (date_parse a, date_parse now) of (Some x, Some n) \<Rightarrow> x \<ge> n - ms | _ \<Rightarrow> False)"

text \<open>\<open>Date.parse(now) - Date.parse(a) > ms\<close>.\<close>

definition older_than :: "string \<Rightarrow> string \<Rightarrow> int \<Rightarrow> bool" where
  "older_than a now ms =
     (case (date_parse a, date_parse now) of (Some x, Some n) \<Rightarrow> n - x > ms | _ \<Rightarrow> False)"

section \<open>Sums of costs\<close>

definition cost_fields :: "(SafetyCosts \<Rightarrow> nat) list" where
  "cost_fields = [monetaryAmountMinor, requests, messages, mutations, deletes, tokenCost]"

lemma sumCosts_fields:
  "monetaryAmountMinor (sumCosts cs) = foldl js_add 0 (map monetaryAmountMinor cs)"
  "requests (sumCosts cs) = foldl js_add 0 (map requests cs)"
  "messages (sumCosts cs) = foldl js_add 0 (map messages cs)"
  "mutations (sumCosts cs) = foldl js_add 0 (map mutations cs)"
  "deletes (sumCosts cs) = foldl js_add 0 (map deletes cs)"
  "tokenCost (sumCosts cs) = foldl js_add 0 (map tokenCost cs)"
  by (induction cs rule: rev_induct) (simp_all add: sumCosts_def addCosts_def)

text \<open>The double-precision comparison of a total with a limit is the exact one.\<close>

lemma sumCosts_compare:
  assumes "g \<in> set cost_fields" and "limit \<le> MAX_SAFE_INTEGER"
  shows "limit < js_add (g (sumCosts cs)) c \<longleftrightarrow> limit < sum_list (map g cs) + c"
  using assms js_sum_compare [OF assms(2), of "map g cs" c]
  by (auto simp: cost_fields_def sumCosts_fields)

end
