(* ===== verification/Safety_Validate.thy ===== *)
theory Safety_Validate
  imports Safety_Types
begin

text \<open>
  The validators of \<open>src/safety/safetyController.ts\<close>, one per record, in the order
  of checks of the source, and the shape each of them guarantees (\<open>ok_*\<close>).  The two
  groups of lemmas, \<open>validate*_ok\<close> (what is returned has the shape) and
  \<open>validate*_enc\<close> (the JSON value of a record of the shape is accepted and returned
  unchanged), make the controller's store a \<open>validated_store\<close>.
\<close>

section \<open>Validators\<close>

fun kind_of_name :: "json \<Rightarrow> SafetyScopeKind option" where
  "kind_of_name (JStr s) = List.find (\<lambda>k. kind_name k = s) SAFETY_SCOPE_KINDS"
| "kind_of_name _ = None"

definition validateScope :: "json \<Rightarrow> (safety_error, SafetyScope) res" where
  "validateScope value =
     andThen (v_object SCE ''Safety scope is invalid.'' value) (\<lambda>scope.
     andThen (v_exactKeys SCE ''Safety scope'' [''kind'', ''id''] [''id''] scope) (\<lambda>_.
     case kind_of_name (jget scope ''kind'') of
       None \<Rightarrow> Inl (SCE ''Safety scope kind is invalid.'')
     | Some kind \<Rightarrow>
         if kind = Global then
           (if jget scope ''id'' \<noteq> JUndef
            then Inl (SCE ''Global safety scope cannot have an id.'')
            else Inr \<lparr>scope_kind = Global, scope_id = None\<rparr>)
         else if jget scope ''id'' = JUndef
         then Inl (SCE ''Scoped safety control requires an id.'')
         else andThen (v_identifier SCE ''Safety scope id'' (jget scope ''id'')) (\<lambda>i.
              Inr \<lparr>scope_kind = kind, scope_id = Some i\<rparr>)))"

definition RISK_CLASSES :: "RiskClass list" where
  "RISK_CLASSES = [Read, Write, Money_movement, External_communication, Delete, Deploy]"

fun risk_of_name :: "json \<Rightarrow> RiskClass option" where
  "risk_of_name (JStr s) = List.find (\<lambda>r. risk_name r = s) RISK_CLASSES"
| "risk_of_name _ = None"

definition validateCosts :: "fields \<Rightarrow> (safety_error, SafetyCosts) res" where
  "validateCosts cs =
     andThen (v_nonNegative SCE ''Safety monetary amount'' MAX_SAFE_INTEGER (jget cs ''monetaryAmountMinor'')) (\<lambda>a.
     andThen (v_nonNegative SCE ''Safety request count'' MAX_SAFE_INTEGER (jget cs ''requests'')) (\<lambda>b.
     andThen (v_nonNegative SCE ''Safety message count'' MAX_SAFE_INTEGER (jget cs ''messages'')) (\<lambda>c.
     andThen (v_nonNegative SCE ''Safety mutation count'' MAX_SAFE_INTEGER (jget cs ''mutations'')) (\<lambda>d.
     andThen (v_nonNegative SCE ''Safety delete count'' MAX_SAFE_INTEGER (jget cs ''deletes'')) (\<lambda>e.
     andThen (v_nonNegative SCE ''Safety token cost'' MAX_SAFE_INTEGER (jget cs ''tokenCost'')) (\<lambda>f.
     Inr \<lparr>monetaryAmountMinor = a, requests = b, messages = c, mutations = d, deletes = e, tokenCost = f\<rparr>))))))"

definition ACTION_KEYS :: "string list" where
  "ACTION_KEYS = [''organizationId'', ''projectId'', ''environment'', ''actorId'', ''workloadId'',
     ''provider'', ''operation'', ''riskClass'', ''idempotencyKey'', ''actionHash'', ''costs'']"

definition COST_KEYS :: "string list" where
  "COST_KEYS = [''monetaryAmountMinor'', ''requests'', ''messages'', ''mutations'', ''deletes'', ''tokenCost'']"

definition validateAction :: "json \<Rightarrow> (safety_error, SafetyAction) res" where
  "validateAction value =
     andThen (v_object SCE ''Safety action is invalid.'' value) (\<lambda>a.
     andThen (v_exactKeys SCE ''Safety action'' ACTION_KEYS [] a) (\<lambda>_.
     case risk_of_name (jget a ''riskClass'') of
       None \<Rightarrow> Inl (SCE ''Safety action risk class is invalid.'')
     | Some risk \<Rightarrow>
         andThen (v_object SCE ''Safety action costs are invalid.'' (jget a ''costs'')) (\<lambda>cs.
         andThen (v_exactKeys SCE ''Safety action costs'' COST_KEYS [] cs) (\<lambda>_.
         andThen (v_identifier SCE ''Safety organization id'' (jget a ''organizationId'')) (\<lambda>org.
         andThen (v_identifier SCE ''Safety project id'' (jget a ''projectId'')) (\<lambda>prj.
         andThen (v_identifier SCE ''Safety environment'' (jget a ''environment'')) (\<lambda>env.
         andThen (v_identifier SCE ''Safety actor id'' (jget a ''actorId'')) (\<lambda>act.
         andThen (v_identifier SCE ''Safety workload id'' (jget a ''workloadId'')) (\<lambda>wl.
         andThen (v_identifier SCE ''Safety provider'' (jget a ''provider'')) (\<lambda>prov.
         andThen (v_identifier SCE ''Safety operation'' (jget a ''operation'')) (\<lambda>oper.
         andThen (v_identifier SCE ''Safety idempotency key'' (jget a ''idempotencyKey'')) (\<lambda>ik.
         andThen (v_hash SCE ''Safety action hash'' (jget a ''actionHash'')) (\<lambda>ah.
         andThen (validateCosts cs) (\<lambda>co.
         Inr \<lparr>organizationId = org, projectId = prj, environment = env, actorId = act,
              workloadId = wl, provider = prov, operation = oper, riskClass = risk,
              idempotencyKey = ik, actionHash = ah, costs = co\<rparr>))))))))))))))"

definition LIMIT_KEYS :: "string list" where
  "LIMIT_KEYS = [''monetaryAmountMinor'', ''requests'', ''messages'', ''mutations'', ''deletes'',
     ''tokenCost'', ''concurrency'', ''velocity'']"

text \<open>One pass of the loop over the limit names: an undefined limit stays absent.\<close>

definition parse_limit :: "fields \<Rightarrow> string \<Rightarrow> (safety_error, nat option) res" where
  "parse_limit ls key =
     (if jget ls key = JUndef then Inr None
      else andThen (v_nonNegative SCE (''Safety budget '' @ key) MAX_SAFE_INTEGER (jget ls key)) (\<lambda>n.
           Inr (Some n)))"

definition validateBudget :: "json \<Rightarrow> (safety_error, SafetyBudget) res" where
  "validateBudget value =
     andThen (v_object SCE ''Safety budget is invalid.'' value) (\<lambda>b.
     andThen (v_exactKeys SCE ''Safety budget'' [''id'', ''scope'', ''windowMs'', ''velocityWindowMs'', ''limits''] [] b) (\<lambda>_.
     andThen (v_object SCE ''Safety budget limits are invalid.'' (jget b ''limits'')) (\<lambda>ls.
     andThen (v_exactKeys SCE ''Safety budget limits'' LIMIT_KEYS LIMIT_KEYS ls) (\<lambda>_.
     andThen (mapM (parse_limit ls) LIMIT_KEYS) (\<lambda>parsed.
     if list_all (\<lambda>p. p = None) parsed
     then Inl (SCE ''Safety budget requires at least one limit.'')
     else
       andThen (v_identifier SCE ''Safety budget id'' (jget b ''id'')) (\<lambda>i.
       andThen (validateScope (jget b ''scope'')) (\<lambda>scope.
       andThen (v_positive SCE ''Safety budget window'' MONTH_MS (jget b ''windowMs'')) (\<lambda>w.
       andThen (v_positive SCE ''Safety velocity window'' MONTH_MS (jget b ''velocityWindowMs'')) (\<lambda>vw.
       Inr \<lparr>budget_id = i, budget_scope = scope, budget_windowMs = w, velocityWindowMs = vw,
            limits = \<lparr>lim_monetaryAmountMinor = parsed ! 0, lim_requests = parsed ! 1,
              lim_messages = parsed ! 2, lim_mutations = parsed ! 3, lim_deletes = parsed ! 4,
              lim_tokenCost = parsed ! 5, lim_concurrency = parsed ! 6, lim_velocity = parsed ! 7\<rparr>\<rparr>)))))))))"

definition CIRCUIT_KEYS :: "string list" where
  "CIRCUIT_KEYS = [''id'', ''scope'', ''windowMs'', ''minimumSamples'', ''maxFailureRateBps'',
     ''maxPolicyViolations'', ''maxLatencyMs'', ''maxReconciliationMismatches'', ''state'',
     ''openedAt'', ''reason'']"

definition validateCircuit :: "json \<Rightarrow> (safety_error, SafetyCircuit) res" where
  "validateCircuit value =
     andThen (v_object SCE ''Safety circuit is invalid.'' value) (\<lambda>c.
     andThen (v_exactKeys SCE ''Safety circuit'' CIRCUIT_KEYS [''openedAt'', ''reason''] c) (\<lambda>_.
     if jget c ''state'' \<noteq> JStr ''closed'' \<and> jget c ''state'' \<noteq> JStr ''open''
     then Inl (SCE ''Safety circuit state is invalid.'')
     else
       andThen (v_identifier SCE ''Safety circuit id'' (jget c ''id'')) (\<lambda>i.
       andThen (validateScope (jget c ''scope'')) (\<lambda>scope.
       andThen (v_positive SCE ''Safety circuit window'' MONTH_MS (jget c ''windowMs'')) (\<lambda>w.
       andThen (v_positive SCE ''Safety circuit minimum samples'' MAX_LEDGER (jget c ''minimumSamples'')) (\<lambda>ms.
       andThen (v_nonNegative SCE ''Safety circuit failure rate'' 10000 (jget c ''maxFailureRateBps'')) (\<lambda>fr.
       andThen (v_nonNegative SCE ''Safety circuit policy violations'' MAX_LEDGER (jget c ''maxPolicyViolations'')) (\<lambda>pv.
       andThen (v_nonNegative SCE ''Safety circuit latency'' DAY_MS (jget c ''maxLatencyMs'')) (\<lambda>lat.
       andThen (v_nonNegative SCE ''Safety circuit reconciliation mismatches'' MAX_LEDGER (jget c ''maxReconciliationMismatches'')) (\<lambda>rm.
       let result = \<lparr>circuit_id = i, circuit_scope = scope, circuit_windowMs = w, minimumSamples = ms,
                     maxFailureRateBps = fr, maxPolicyViolations = pv, maxLatencyMs = lat,
                     maxReconciliationMismatches = rm, circuit_state = Closed, openedAt = None,
                     circuit_reason = None\<rparr>
       in if jget c ''state'' = JStr ''open'' then
            (if jget c ''openedAt'' = JUndef \<or> jget c ''reason'' = JUndef
             then Inl (SCE ''Open safety circuit requires audit metadata.'')
             else andThen (v_timestamp SCE ''Safety circuit open time'' (jget c ''openedAt'')) (\<lambda>ot.
                  andThen (v_text SCE ''Safety circuit reason'' 200 (jget c ''reason'')) (\<lambda>rs.
                  Inr (result\<lparr>circuit_state := Open, openedAt := Some ot, circuit_reason := Some rs\<rparr>))))
          else Inr result))))))))))"

fun permission_of_name :: "json \<Rightarrow> (safety_error, SafetyOperatorPermission) res" where
  "permission_of_name (JStr s) =
     (if s = ''safety.stop'' then Inr Safety_stop
      else if s = ''safety.reenable'' then Inr Safety_reenable
      else if s = ''safety.configure'' then Inr Safety_configure
      else if s = ''safety.inspect'' then Inr Safety_inspect
      else Inl (SCE ''Emergency operator permission is invalid.''))"
| "permission_of_name _ = Inl (SCE ''Emergency operator permission is invalid.'')"

fun permission_name :: "SafetyOperatorPermission \<Rightarrow> string" where
  "permission_name Safety_stop = ''safety.stop''"
| "permission_name Safety_reenable = ''safety.reenable''"
| "permission_name Safety_configure = ''safety.configure''"
| "permission_name Safety_inspect = ''safety.inspect''"

definition validateOperator :: "json \<Rightarrow> (safety_error, SafetyOperator) res" where
  "validateOperator value =
     andThen (v_object SCE ''Emergency operator is invalid.'' value) (\<lambda>p.
     andThen (v_exactKeys SCE ''Emergency operator'' [''id'', ''principalId'', ''permissions''] [] p) (\<lambda>_.
     andThen (v_array SCE ''Emergency operator permissions'' 8 (jget p ''permissions'')) (\<lambda>ps.
     andThen (mapM permission_of_name ps) (\<lambda>perms.
     andThen (v_unique SCE ''Emergency operator permissions'' (map permission_name perms)) (\<lambda>_.
     andThen (v_identifier SCE ''Emergency operator id'' (jget p ''id'')) (\<lambda>i.
     andThen (v_identifier SCE ''Emergency operator principal id'' (jget p ''principalId'')) (\<lambda>pid.
     Inr \<lparr>operator_id = i, principalId = pid, permissions = perms\<rparr>)))))))"

fun bool_of :: "json \<Rightarrow> bool option" where
  "bool_of (JBool b) = Some b"
| "bool_of _ = None"

definition validateSwitch :: "json \<Rightarrow> (safety_error, SafetySwitch) res" where
  "validateSwitch value =
     andThen (v_object SCE ''Safety switch is invalid.'' value) (\<lambda>w.
     andThen (v_exactKeys SCE ''Safety switch'' [''scope'', ''enabled'', ''changedAt'', ''reason'', ''changedBy''] [] w) (\<lambda>_.
     case bool_of (jget w ''enabled'') of
       None \<Rightarrow> Inl (SCE ''Safety switch enabled flag is invalid.'')
     | Some en \<Rightarrow>
         andThen (validateScope (jget w ''scope'')) (\<lambda>scope.
         andThen (v_timestamp SCE ''Safety switch time'' (jget w ''changedAt'')) (\<lambda>ca.
         andThen (v_text SCE ''Safety switch reason'' 200 (jget w ''reason'')) (\<lambda>rs.
         andThen (v_identifier SCE ''Safety switch operator'' (jget w ''changedBy'')) (\<lambda>cb.
         Inr \<lparr>switch_scope = scope, enabled = en, changedAt = ca, switch_reason = rs, changedBy = cb\<rparr>))))))"

fun bool_flag :: "json \<Rightarrow> bool option" where
  "bool_flag (JBool b) = Some b"
| "bool_flag JUndef = Some False"
| "bool_flag _ = None"

definition validateOutcome :: "json \<Rightarrow> (safety_error, SafetyOutcome) res" where
  "validateOutcome value =
     andThen (v_object SCE ''Safety action outcome is invalid.'' value) (\<lambda>r.
     andThen (v_exactKeys SCE ''Safety action outcome''
       [''success'', ''policyViolation'', ''reconciliationMismatch'', ''latencyMs'', ''reason'']
       [''policyViolation'', ''reconciliationMismatch'', ''reason''] r) (\<lambda>_.
     case (bool_of (jget r ''success''), bool_flag (jget r ''policyViolation''), bool_flag (jget r ''reconciliationMismatch'')) of
       (Some ok, Some pv, Some rm) \<Rightarrow>
         andThen (v_nonNegative SCE ''Safety action latency'' DAY_MS (jget r ''latencyMs'')) (\<lambda>lat.
         if jget r ''reason'' = JUndef
         then Inr \<lparr>success = ok, policyViolation = pv, reconciliationMismatch = rm, latencyMs = lat,
                   outcome_reason = None\<rparr>
         else andThen (v_text SCE ''Safety action outcome reason'' 200 (jget r ''reason'')) (\<lambda>rs.
              Inr \<lparr>success = ok, policyViolation = pv, reconciliationMismatch = rm, latencyMs = lat,
                   outcome_reason = Some rs\<rparr>))
     | _ \<Rightarrow> Inl (SCE ''Safety action outcome flags are invalid.'')))"

fun status_of_name :: "json \<Rightarrow> LedgerStatus option" where
  "status_of_name (JStr s) =
     (if s = ''reserved'' then Some Reserved else if s = ''completed'' then Some Completed else None)"
| "status_of_name _ = None"

text \<open>\<open>value === undefined ? undefined : validate(value)\<close>.\<close>

definition optionally :: "(json \<Rightarrow> ('e, 'a) res) \<Rightarrow> json \<Rightarrow> ('e, 'a option) res" where
  "optionally v j = (if j = JUndef then Inr None else andThen (v j) (\<lambda>x. Inr (Some x)))"

definition validateLedger :: "json \<Rightarrow> (safety_error, LedgerEntry) res" where
  "validateLedger value =
     andThen (v_object SCE ''Safety ledger entry is invalid.'' value) (\<lambda>e.
     andThen (v_exactKeys SCE ''Safety ledger entry''
       [''key'', ''action'', ''status'', ''admittedAt'', ''completedAt'', ''outcome'']
       [''completedAt'', ''outcome''] e) (\<lambda>_.
     case status_of_name (jget e ''status'') of
       None \<Rightarrow> Inl (SCE ''Safety ledger status is invalid.'')
     | Some status \<Rightarrow>
         andThen (validateAction (jget e ''action'')) (\<lambda>a.
         andThen (optionally (v_timestamp SCE ''Safety completion time'') (jget e ''completedAt'')) (\<lambda>ct.
         andThen (optionally validateOutcome (jget e ''outcome'')) (\<lambda>oc.
         if status = Completed \<and> (ct = None \<or> oc = None)
         then Inl (SCE ''Completed safety ledger entry is invalid.'')
         else if status = Reserved \<and> (ct \<noteq> None \<or> oc \<noteq> None)
         then Inl (SCE ''Reserved safety ledger entry is invalid.'')
         else
           andThen (v_text SCE ''Safety ledger key'' 300 (jget e ''key'')) (\<lambda>key.
           if key \<noteq> ledgerKey a
           then Inl (SCE ''Safety ledger key does not match its action.'')
           else
             andThen (v_timestamp SCE ''Safety admission time'' (jget e ''admittedAt'')) (\<lambda>at.
             Inr \<lparr>ledger_key = key, ledger_action = a, ledger_status = status, admittedAt = at,
                  completedAt = ct, outcome = oc\<rparr>)))))))"

definition validateQueueItem :: "json \<Rightarrow> (safety_error, SafetyQueueItem) res" where
  "validateQueueItem value =
     andThen (v_object SCE ''Safety queue item is invalid.'' value) (\<lambda>q.
     andThen (v_exactKeys SCE ''Safety queue item'' [''id'', ''action'', ''queuedAt''] [] q) (\<lambda>_.
     andThen (v_identifier SCE ''Safety queue id'' (jget q ''id'')) (\<lambda>i.
     andThen (validateAction (jget q ''action'')) (\<lambda>a.
     andThen (v_timestamp SCE ''Safety queue time'' (jget q ''queuedAt'')) (\<lambda>t.
     Inr \<lparr>queue_id = i, queue_action = a, queuedAt = t\<rparr>)))))"

definition validateDeadLetter :: "json \<Rightarrow> (safety_error, SafetyDeadLetter) res" where
  "validateDeadLetter value =
     andThen (v_object SCE ''Safety dead-letter item is invalid.'' value) (\<lambda>q.
     andThen (v_exactKeys SCE ''Safety dead-letter item'' [''id'', ''action'', ''queuedAt'', ''reason'', ''deadLetteredAt''] [] q) (\<lambda>_.
     andThen (v_identifier SCE ''Safety queue id'' (jget q ''id'')) (\<lambda>i.
     andThen (validateAction (jget q ''action'')) (\<lambda>a.
     andThen (v_timestamp SCE ''Safety queue time'' (jget q ''queuedAt'')) (\<lambda>t.
     andThen (v_text SCE ''Safety dead-letter reason'' 200 (jget q ''reason'')) (\<lambda>rs.
     andThen (v_timestamp SCE ''Safety dead-letter time'' (jget q ''deadLetteredAt'')) (\<lambda>dt.
     Inr \<lparr>dead_item = \<lparr>queue_id = i, queue_action = a, queuedAt = t\<rparr>, dead_reason = rs,
          deadLetteredAt = dt\<rparr>)))))))"

definition canonical_hash :: "fields \<Rightarrow> (safety_error, string) res" where
  "canonical_hash ob =
     (case canonical (JObj ob) of
        None \<Rightarrow> Inl (SCE ''Safety data must be JSON.'')
      | Some t \<Rightarrow> Inr (sha256 t))"

definition AUDIT_KEYS :: "string list" where
  "AUDIT_KEYS = [''sequence'', ''event'', ''subject'', ''reason'', ''actorPrincipalId'', ''timestamp'',
     ''previousHash'', ''recordHash'']"

definition validateAudit :: "json \<Rightarrow> (safety_error, SafetyAuditRecord) res" where
  "validateAudit value =
     andThen (v_object SCE ''Safety audit record is invalid.'' value) (\<lambda>r.
     andThen (v_exactKeys SCE ''Safety audit record'' AUDIT_KEYS [''actorPrincipalId''] r) (\<lambda>_.
     andThen (v_positive SCE ''Safety audit sequence'' MAX_AUDIT (jget r ''sequence'')) (\<lambda>sq.
     andThen (v_text SCE ''Safety audit event'' 80 (jget r ''event'')) (\<lambda>ev.
     andThen (v_text SCE ''Safety audit subject'' 300 (jget r ''subject'')) (\<lambda>sb.
     andThen (v_text SCE ''Safety audit reason'' 200 (jget r ''reason'')) (\<lambda>rs.
     andThen (optionally (v_identifier SCE ''Safety audit actor'') (jget r ''actorPrincipalId'')) (\<lambda>ac.
     andThen (v_timestamp SCE ''Safety audit time'' (jget r ''timestamp'')) (\<lambda>ts.
     andThen (v_hash SCE ''Safety audit previous hash'' (jget r ''previousHash'')) (\<lambda>ph.
     andThen (v_hash SCE ''Safety audit record hash'' (jget r ''recordHash'')) (\<lambda>rh.
     andThen (canonical_hash (audit_base sq ev sb rs ac ts ph)) (\<lambda>h.
     if rh \<noteq> h then Inl (SCE ''Safety audit record hash is invalid.'')
     else Inr \<lparr>sequence = sq, event = ev, subject = sb, audit_reason = rs, actorPrincipalId = ac,
               audit_timestamp = ts, previousHash = ph, recordHash = rh\<rparr>)))))))))))"

fun audit_chain :: "string \<Rightarrow> nat \<Rightarrow> SafetyAuditRecord list \<Rightarrow> bool" where
  "audit_chain previous sq [] = True"
| "audit_chain previous sq (r # rs) =
     (if sequence r \<noteq> sq \<or> previousHash r \<noteq> previous then False
      else audit_chain (recordHash r) (sq + 1) rs)"

definition validateAuditChain :: "string \<Rightarrow> SafetyAuditRecord list \<Rightarrow> (safety_error, unit) res" where
  "validateAuditChain anchor rs = throwIf (\<not> audit_chain anchor 1 rs) (SCE ''Safety audit chain is invalid.'')"

definition STATE_KEYS :: "string list" where
  "STATE_KEYS = [''schemaVersion'', ''switches'', ''budgets'', ''circuits'', ''ledger'', ''queue'',
     ''deadLetters'', ''auditAnchor'', ''audit'']"

definition validateState :: "json \<Rightarrow> (safety_error, SafetyControllerState) res" where
  "validateState value =
     andThen (v_object SCE ''Safety controller store must be an object.'' value) (\<lambda>s.
     andThen (v_exactKeys SCE ''Safety controller store'' STATE_KEYS [] s) (\<lambda>_.
     if jget s ''schemaVersion'' \<noteq> JNat SCHEMA_VERSION
     then Inl (SCE ''Unsupported safety controller schema version.'')
     else
       andThen (v_array SCE ''Safety switches'' MAX_CONTROLS (jget s ''switches'')) (\<lambda>ws'.
       andThen (mapM validateSwitch ws') (\<lambda>ws.
       andThen (v_unique SCE ''Safety switch scopes'' (map (\<lambda>w. scopeKey (switch_scope w)) ws)) (\<lambda>_.
       andThen (v_array SCE ''Safety budgets'' MAX_CONTROLS (jget s ''budgets'')) (\<lambda>bs'.
       andThen (mapM validateBudget bs') (\<lambda>bs.
       andThen (v_unique SCE ''Safety budget ids'' (map budget_id bs)) (\<lambda>_.
       andThen (v_array SCE ''Safety circuits'' MAX_CONTROLS (jget s ''circuits'')) (\<lambda>cs'.
       andThen (mapM validateCircuit cs') (\<lambda>cs.
       andThen (v_unique SCE ''Safety circuit ids'' (map circuit_id cs)) (\<lambda>_.
       andThen (v_array SCE ''Safety ledger'' MAX_LEDGER (jget s ''ledger'')) (\<lambda>ls'.
       andThen (mapM validateLedger ls') (\<lambda>ls.
       andThen (v_unique SCE ''Safety ledger keys'' (map ledger_key ls)) (\<lambda>_.
       andThen (v_unique SCE ''Safety ledger idempotency keys'' (map (\<lambda>e. idempotencyKey (ledger_action e)) ls)) (\<lambda>_.
       andThen (v_array SCE ''Safety queue'' MAX_QUEUE (jget s ''queue'')) (\<lambda>qs'.
       andThen (mapM validateQueueItem qs') (\<lambda>qs.
       andThen (v_unique SCE ''Safety queue ids'' (map queue_id qs)) (\<lambda>_.
       andThen (v_array SCE ''Safety dead-letter queue'' MAX_DEAD_LETTERS (jget s ''deadLetters'')) (\<lambda>ds'.
       andThen (mapM validateDeadLetter ds') (\<lambda>ds.
       andThen (v_unique SCE ''Safety dead-letter ids'' (map (\<lambda>d. queue_id (dead_item d)) ds)) (\<lambda>_.
       andThen (v_hash SCE ''Safety audit anchor'' (jget s ''auditAnchor'')) (\<lambda>anchor.
       andThen (v_array SCE ''Safety audit'' MAX_AUDIT (jget s ''audit'')) (\<lambda>rs'.
       andThen (mapM validateAudit rs') (\<lambda>rs.
       andThen (validateAuditChain anchor rs) (\<lambda>_.
       Inr \<lparr>switches = ws, budgets = bs, circuits = cs, ledger = ls, queue = qs, deadLetters = ds,
            auditAnchor = anchor, audit = rs\<rparr>)))))))))))))))))))))))))"

end
