(* ===== verification/Safety_Shape.thy ===== *)
theory Safety_Shape
  imports Safety_Validate
begin

text \<open>
  The shape of the safety controller's records and of its state, and the two directions
  of the validators' contract.  The last section interprets \<open>validated_store\<close>: the
  controller's file always reads back as the state that was written.
\<close>

section \<open>Shapes\<close>

definition ok_scope :: "SafetyScope \<Rightarrow> bool" where
  "ok_scope s =
     (if scope_kind s = Global then scope_id s = None
      else (case scope_id s of None \<Rightarrow> False | Some i \<Rightarrow> ok_ident i))"

definition ok_costs :: "SafetyCosts \<Rightarrow> bool" where
  "ok_costs c =
     (monetaryAmountMinor c \<le> MAX_SAFE_INTEGER \<and> requests c \<le> MAX_SAFE_INTEGER \<and>
      messages c \<le> MAX_SAFE_INTEGER \<and> mutations c \<le> MAX_SAFE_INTEGER \<and>
      deletes c \<le> MAX_SAFE_INTEGER \<and> tokenCost c \<le> MAX_SAFE_INTEGER)"

definition ok_action :: "SafetyAction \<Rightarrow> bool" where
  "ok_action a =
     (ok_ident (organizationId a) \<and> ok_ident (projectId a) \<and> ok_ident (environment a) \<and>
      ok_ident (actorId a) \<and> ok_ident (workloadId a) \<and> ok_ident (provider a) \<and>
      ok_ident (operation a) \<and> ok_ident (idempotencyKey a) \<and> ok_hash (actionHash a) \<and>
      ok_costs (costs a))"

fun ok_limit :: "nat option \<Rightarrow> bool" where
  "ok_limit None = True"
| "ok_limit (Some n) = (n \<le> MAX_SAFE_INTEGER)"

definition limit_list :: "SafetyBudgetLimits \<Rightarrow> nat option list" where
  "limit_list l =
     [lim_monetaryAmountMinor l, lim_requests l, lim_messages l, lim_mutations l, lim_deletes l,
      lim_tokenCost l, lim_concurrency l, lim_velocity l]"

definition ok_budget :: "SafetyBudget \<Rightarrow> bool" where
  "ok_budget b =
     (ok_ident (budget_id b) \<and> ok_scope (budget_scope b) \<and>
      1 \<le> budget_windowMs b \<and> budget_windowMs b \<le> MONTH_MS \<and>
      1 \<le> velocityWindowMs b \<and> velocityWindowMs b \<le> MONTH_MS \<and>
      list_all ok_limit (limit_list (limits b)) \<and> \<not> list_all (\<lambda>p. p = None) (limit_list (limits b)))"

definition ok_circuit :: "SafetyCircuit \<Rightarrow> bool" where
  "ok_circuit c =
     (ok_ident (circuit_id c) \<and> ok_scope (circuit_scope c) \<and>
      1 \<le> circuit_windowMs c \<and> circuit_windowMs c \<le> MONTH_MS \<and>
      1 \<le> minimumSamples c \<and> minimumSamples c \<le> MAX_LEDGER \<and>
      maxFailureRateBps c \<le> 10000 \<and> maxPolicyViolations c \<le> MAX_LEDGER \<and>
      maxLatencyMs c \<le> DAY_MS \<and> maxReconciliationMismatches c \<le> MAX_LEDGER \<and>
      (case circuit_state c of
         Closed \<Rightarrow> openedAt c = None \<and> circuit_reason c = None
       | Open \<Rightarrow> (case (openedAt c, circuit_reason c) of
                    (Some t, Some r) \<Rightarrow> is_iso t \<and> ok_text 200 r | _ \<Rightarrow> False)))"

definition ok_switch :: "SafetySwitch \<Rightarrow> bool" where
  "ok_switch w =
     (ok_scope (switch_scope w) \<and> is_iso (changedAt w) \<and> ok_text 200 (switch_reason w) \<and>
      ok_ident (changedBy w))"

definition ok_outcome :: "SafetyOutcome \<Rightarrow> bool" where
  "ok_outcome r =
     (latencyMs r \<le> DAY_MS \<and>
      (case outcome_reason r of None \<Rightarrow> True | Some t \<Rightarrow> ok_text 200 t))"

definition ok_ledger :: "LedgerEntry \<Rightarrow> bool" where
  "ok_ledger e =
     (ok_action (ledger_action e) \<and> is_iso (admittedAt e) \<and> ledger_key e = ledgerKey (ledger_action e) \<and>
      ok_text 300 (ledger_key e) \<and>
      (case ledger_status e of
         Reserved \<Rightarrow> completedAt e = None \<and> outcome e = None
       | Completed \<Rightarrow> (case (completedAt e, outcome e) of
                         (Some t, Some r) \<Rightarrow> is_iso t \<and> ok_outcome r | _ \<Rightarrow> False)))"

definition ok_queue_item :: "SafetyQueueItem \<Rightarrow> bool" where
  "ok_queue_item q = (ok_ident (queue_id q) \<and> ok_action (queue_action q) \<and> is_iso (queuedAt q))"

definition ok_dead_letter :: "SafetyDeadLetter \<Rightarrow> bool" where
  "ok_dead_letter d =
     (ok_queue_item (dead_item d) \<and> ok_text 200 (dead_reason d) \<and> is_iso (deadLetteredAt d))"

definition audit_hash :: "SafetyAuditRecord \<Rightarrow> (safety_error, string) res" where
  "audit_hash r =
     canonical_hash (audit_base (sequence r) (event r) (subject r) (audit_reason r)
       (actorPrincipalId r) (audit_timestamp r) (previousHash r))"

definition ok_audit :: "SafetyAuditRecord \<Rightarrow> bool" where
  "ok_audit r =
     (1 \<le> sequence r \<and> sequence r \<le> MAX_AUDIT \<and> ok_text 80 (event r) \<and> ok_text 300 (subject r) \<and>
      ok_text 200 (audit_reason r) \<and>
      (case actorPrincipalId r of None \<Rightarrow> True | Some p \<Rightarrow> ok_ident p) \<and>
      is_iso (audit_timestamp r) \<and> ok_hash (previousHash r) \<and> audit_hash r = Inr (recordHash r))"

definition safety_inv :: "SafetyControllerState \<Rightarrow> bool" where
  "safety_inv st =
     (length (switches st) \<le> MAX_CONTROLS \<and> list_all ok_switch (switches st) \<and>
        distinct (map (\<lambda>w. scopeKey (switch_scope w)) (switches st)) \<and>
      length (budgets st) \<le> MAX_CONTROLS \<and> list_all ok_budget (budgets st) \<and>
        distinct (map budget_id (budgets st)) \<and>
      length (circuits st) \<le> MAX_CONTROLS \<and> list_all ok_circuit (circuits st) \<and>
        distinct (map circuit_id (circuits st)) \<and>
      length (ledger st) \<le> MAX_LEDGER \<and> list_all ok_ledger (ledger st) \<and>
        distinct (map ledger_key (ledger st)) \<and>
        distinct (map (\<lambda>e. idempotencyKey (ledger_action e)) (ledger st)) \<and>
      length (queue st) \<le> MAX_QUEUE \<and> list_all ok_queue_item (queue st) \<and>
        distinct (map queue_id (queue st)) \<and>
      length (deadLetters st) \<le> MAX_DEAD_LETTERS \<and> list_all ok_dead_letter (deadLetters st) \<and>
        distinct (map (\<lambda>d. queue_id (dead_item d)) (deadLetters st)) \<and>
      ok_hash (auditAnchor st) \<and> length (audit st) \<le> MAX_AUDIT \<and> list_all ok_audit (audit st) \<and>
        audit_chain (auditAnchor st) 1 (audit st))"

section \<open>What the validators return has the shape\<close>

lemma kind_of_name_Some: "kind_of_name j = Some k \<Longrightarrow> j = JStr (kind_name k)"
  by (cases j) (auto dest: find_SomeD)

lemma risk_of_name_Some: "risk_of_name j = Some r \<Longrightarrow> j = JStr (risk_name r)"
  by (cases j) (auto dest: find_SomeD)

lemma optionally_eq [validator_simps]:
  "optionally v j = Inr x \<longleftrightarrow> (case x of None \<Rightarrow> j = JUndef | Some y \<Rightarrow> j \<noteq> JUndef \<and> v j = Inr y)"
  by (auto simp: optionally_def res_simps split: option.splits)

lemma validateScope_ok: "validateScope j = Inr s \<Longrightarrow> ok_scope s"
  unfolding validateScope_def
  by (elim andThenE) (auto elim!: andThenE simp: ok_scope_def validator_simps split: option.splits if_splits)

lemma validateCosts_ok: "validateCosts cs = Inr c \<Longrightarrow> ok_costs c"
  unfolding validateCosts_def
  by (elim andThenE) (auto simp: ok_costs_def validator_simps)

lemma validateAction_ok: "validateAction j = Inr a \<Longrightarrow> ok_action a"
  unfolding validateAction_def
  by (elim andThenE)
    (auto elim!: andThenE simp: ok_action_def validator_simps dest: validateCosts_ok split: option.splits)

lemma parse_limit_ok: "parse_limit ls k = Inr p \<Longrightarrow> ok_limit p"
  by (auto elim!: andThenE simp: parse_limit_def validator_simps split: if_splits)

lemma mapM_parse_limit:
  assumes "mapM (parse_limit ls) LIMIT_KEYS = Inr p"
  shows "list_all ok_limit p \<and> p = [p ! 0, p ! 1, p ! 2, p ! 3, p ! 4, p ! 5, p ! 6, p ! 7]"
proof -
  have l: "length p = 8" using mapM_Inr_length [OF assms] by (simp add: LIMIT_KEYS_def)
  have "list_all ok_limit p"
    using mapM_Inr_all [OF assms, of ok_limit] parse_limit_ok by (auto simp: list_all_iff)
  moreover from l have "p = [p ! 0, p ! 1, p ! 2, p ! 3, p ! 4, p ! 5, p ! 6, p ! 7]"
    by (simp add: list_eq_iff_nth_eq less_Suc_eq numeral_eq_Suc)
  ultimately show ?thesis by simp
qed

lemma validateBudget_ok:
  assumes "validateBudget j = Inr b"
  shows "ok_budget b"
proof -
  from assms obtain ls p i sc w vw where h: "mapM (parse_limit ls) LIMIT_KEYS = Inr p"
    "\<not> list_all (\<lambda>p. p = None) p" "ok_ident i" "validateScope sc = Inr (budget_scope b)"
    "1 \<le> w" "w \<le> MONTH_MS" "1 \<le> vw" "vw \<le> MONTH_MS"
    "budget_id b = i" "budget_windowMs b = w" "velocityWindowMs b = vw"
    "limits b = \<lparr>lim_monetaryAmountMinor = p ! 0, lim_requests = p ! 1,
              lim_messages = p ! 2, lim_mutations = p ! 3, lim_deletes = p ! 4,
              lim_tokenCost = p ! 5, lim_concurrency = p ! 6, lim_velocity = p ! 7\<rparr>"
    unfolding validateBudget_def
    by (elim andThenE) (auto elim!: andThenE simp: validator_simps split: if_splits)
  then have "limit_list (limits b) = p" using mapM_parse_limit [OF h(1)] by (simp add: limit_list_def)
  with h mapM_parse_limit [OF h(1)] validateScope_ok [OF h(4)] show ?thesis by (simp add: ok_budget_def)
qed

lemma validateCircuit_ok: "validateCircuit j = Inr c \<Longrightarrow> ok_circuit c"
  unfolding validateCircuit_def Let_def
  by (elim andThenE)
    (auto elim!: andThenE simp: ok_circuit_def validator_simps dest!: validateScope_ok v_text_ok split: if_splits)

lemma validateSwitch_ok: "validateSwitch j = Inr w \<Longrightarrow> ok_switch w"
  unfolding validateSwitch_def
  by (elim andThenE)
    (auto elim!: andThenE simp: ok_switch_def validator_simps dest!: validateScope_ok v_text_ok split: option.splits)

lemma validateOutcome_ok: "validateOutcome j = Inr r \<Longrightarrow> ok_outcome r"
  unfolding validateOutcome_def
  by (elim andThenE)
    (auto elim!: andThenE simp: ok_outcome_def v_nonNegative_eq dest!: v_text_ok split: option.splits if_splits)

lemma validateLedger_ok:
  assumes "validateLedger j = Inr e"
  shows "ok_ledger e"
proof -
  from assms obtain jo st ja jc jt jk lb a ct oc key at where h:
    "validateAction ja = Inr a" "optionally (v_timestamp SCE lb) jc = Inr ct"
    "optionally validateOutcome jo = Inr oc" "\<not> (st = Completed \<and> (ct = None \<or> oc = None))"
    "\<not> (st = Reserved \<and> (ct \<noteq> None \<or> oc \<noteq> None))" "ok_text 300 key" "key = ledgerKey a" "is_iso at"
    "e = \<lparr>ledger_key = key, ledger_action = a, ledger_status = st, admittedAt = at,
          completedAt = ct, outcome = oc\<rparr>"
    unfolding validateLedger_def
    apply (elim andThenE)
    apply (simp only: split: option.splits)
     apply simp
    apply (elim andThenE exE conjE)
    apply (simp only: split: if_splits)
      apply (simp_all)
    apply (elim andThenE)
    apply (simp only: split: if_splits)
     apply simp
    apply (elim andThenE)
    apply (drule v_text_ok)
    apply (simp add: v_timestamp_eq)
    apply blast
    done
  have "is_iso t" if "ct = Some t" for t using h(2) that by (simp add: validator_simps)
  moreover have "ok_outcome r" if "oc = Some r" for r
    using h(3) that validateOutcome_ok by (auto simp: optionally_eq)
  ultimately show ?thesis
    using h validateAction_ok [OF h(1)]
    by (cases st; cases ct; cases oc) (simp_all add: ok_ledger_def)
qed

lemma validateQueueItem_ok: "validateQueueItem j = Inr q \<Longrightarrow> ok_queue_item q"
  unfolding validateQueueItem_def
  by (elim andThenE) (auto simp: ok_queue_item_def validator_simps dest: validateAction_ok)

lemma validateDeadLetter_ok: "validateDeadLetter j = Inr d \<Longrightarrow> ok_dead_letter d"
  unfolding validateDeadLetter_def
  by (elim andThenE)
    (auto simp: ok_dead_letter_def ok_queue_item_def validator_simps dest: validateAction_ok v_text_ok)

lemma validateAudit_ok: "validateAudit j = Inr r \<Longrightarrow> ok_audit r"
  unfolding validateAudit_def
  by (elim andThenE)
    (auto simp: ok_audit_def audit_hash_def validator_simps dest: v_text_ok split: if_splits option.splits)

lemma validated_array:
  assumes "v_array mk label m j = Inr vs" and "mapM f vs = Inr xs" and "\<And>x y. f x = Inr y \<Longrightarrow> P y"
  shows "length xs \<le> m \<and> list_all P xs"
  using assms mapM_Inr_length [OF assms(2)] mapM_Inr_all [OF assms(2), of P]
  by (auto simp: validator_simps list_all_iff)

lemmas validated_arrays =
  validated_array [where f = validateSwitch, OF _ _ validateSwitch_ok]
  validated_array [where f = validateBudget, OF _ _ validateBudget_ok]
  validated_array [where f = validateCircuit, OF _ _ validateCircuit_ok]
  validated_array [where f = validateLedger, OF _ _ validateLedger_ok]
  validated_array [where f = validateQueueItem, OF _ _ validateQueueItem_ok]
  validated_array [where f = validateDeadLetter, OF _ _ validateDeadLetter_ok]
  validated_array [where f = validateAudit, OF _ _ validateAudit_ok]

lemma validateState_inv:
  assumes "validateState j = Inr st"
  shows "safety_inv st"
  using assms unfolding validateState_def
  apply (elim andThenE)
  apply (simp only: split: if_splits)
   apply simp
  apply (elim andThenE)
  apply (simp only: v_unique_eq v_hash_eq validateAuditChain_def throwIf_eq_Inr not_not sum.inject)
  apply (elim conjE)
  apply (clarsimp simp: safety_inv_def)
  apply (intro conjI; (rule validated_arrays [THEN conjunct1] validated_arrays [THEN conjunct2]; assumption))
  done

section \<open>The JSON value of a record of the shape is accepted\<close>

lemma kind_of_name_enc [simp]: "kind_of_name (JStr (kind_name k)) = Some k"
  by (cases k) (simp_all add: SAFETY_SCOPE_KINDS_def)

lemma risk_of_name_enc [simp]: "risk_of_name (JStr (risk_name r)) = Some r"
  by (cases r) (simp_all add: RISK_CLASSES_def)

lemma opt_prop_simps [simp]: "opt_prop k f None = []" "opt_prop k f (Some x) = [(k, f x)]"
  by (simp_all add: opt_prop_def)

lemma optionally_simps [simp]: "optionally v JUndef = Inr None"
  "j \<noteq> JUndef \<Longrightarrow> optionally v j = andThen (v j) (\<lambda>x. Inr (Some x))"
  by (simp_all add: optionally_def)

lemma validateScope_enc [simp]: "ok_scope s \<Longrightarrow> validateScope (enc_scope s) = Inr s"
  by (cases s) (auto simp: ok_scope_def validateScope_def enc_scope_def simp del: kind_of_name.simps
      split: option.splits if_splits)

lemma validateCosts_enc:
  "ok_costs c \<Longrightarrow> enc_costs c = JObj ob \<Longrightarrow> validateCosts ob = Inr c \<and> v_exactKeys SCE l COST_KEYS [] ob = Inr ()"
  by (cases c) (auto simp: ok_costs_def validateCosts_def enc_costs_def COST_KEYS_def)

lemma validateAction_enc [simp]:
  assumes "ok_action a"
  shows "validateAction (enc_action a) = Inr a"
proof -
  obtain ob where ob: "enc_costs (costs a) = JObj ob" by (simp add: enc_costs_def)
  from assms have "ok_costs (costs a)" by (simp add: ok_action_def)
  note c = validateCosts_enc [OF this ob]
  show ?thesis
    using assms c ob
    by (cases a) (simp add: ok_action_def validateAction_def enc_action_def ACTION_KEYS_def del: risk_of_name.simps)
qed

lemma parse_limit_enc:
  "ok_limit p \<Longrightarrow> jget ls k = (case p of None \<Rightarrow> JUndef | Some n \<Rightarrow> JNat n) \<Longrightarrow> parse_limit ls k = Inr p"
  by (cases p) (auto simp: parse_limit_def)

lemma jget_opt_prop: "jget (opt_prop k f v @ ys) k' =
    (if k' = k then (case v of None \<Rightarrow> jget ys k' | Some x \<Rightarrow> f x) else jget ys k')"
  by (cases v) auto

lemma v_exactKeys_append:
  "v_exactKeys mk l ks os (xs @ ys) = andThen (v_exactKeys mk l ks os xs) (\<lambda>_. v_exactKeys mk l ks os ys)"
  by (induction mk l ks os xs rule: v_exactKeys.induct) auto

lemma v_exactKeys_opt_prop:
  "k \<in> set ks \<Longrightarrow> (\<And>x. f x \<noteq> JUndef) \<Longrightarrow> v_exactKeys mk l ks os (opt_prop k f v) = Inr ()"
  by (cases v) auto

definition limit_json :: "nat option \<Rightarrow> json" where
  "limit_json p = (case p of None \<Rightarrow> JUndef | Some n \<Rightarrow> JNat n)"

lemma enc_limits_fields:
  assumes "enc_limits l = JObj ob"
  shows "ob = opt_prop ''monetaryAmountMinor'' JNat (lim_monetaryAmountMinor l) @
     opt_prop ''requests'' JNat (lim_requests l) @ opt_prop ''messages'' JNat (lim_messages l) @
     opt_prop ''mutations'' JNat (lim_mutations l) @ opt_prop ''deletes'' JNat (lim_deletes l) @
     opt_prop ''tokenCost'' JNat (lim_tokenCost l) @
     opt_prop ''concurrency'' JNat (lim_concurrency l) @ opt_prop ''velocity'' JNat (lim_velocity l) @ []"
  using assms by (simp add: enc_limits_def)

lemma limit_jget:
  assumes "enc_limits l = JObj ob"
  shows "map (jget ob) LIMIT_KEYS = map limit_json (limit_list l)"
  unfolding enc_limits_fields [OF assms] LIMIT_KEYS_def limit_list_def limit_json_def
  by (simp add: jget_opt_prop jget_opt_prop [where ys = "[]", simplified] split: option.split)

lemma mapM_limits:
  assumes "map (jget ls) ks = map limit_json ps" and "\<And>k p. jget ls k = limit_json p \<Longrightarrow> p \<in> set ps \<Longrightarrow> parse_limit ls k = Inr p"
  shows "mapM (parse_limit ls) ks = Inr ps"
  using assms by (induction ks arbitrary: ps) auto

lemma validateLimits_enc:
  assumes "list_all ok_limit (limit_list l)" and "enc_limits l = JObj ob"
  shows "mapM (parse_limit ob) LIMIT_KEYS = Inr (limit_list l)"
    and "v_exactKeys SCE lb LIMIT_KEYS LIMIT_KEYS ob = Inr ()"
proof -
  show "v_exactKeys SCE lb LIMIT_KEYS LIMIT_KEYS ob = Inr ()"
    unfolding enc_limits_fields [OF assms(2)]
    by (simp add: v_exactKeys_append v_exactKeys_opt_prop LIMIT_KEYS_def)
  show "mapM (parse_limit ob) LIMIT_KEYS = Inr (limit_list l)"
    using assms(1) by (intro mapM_limits limit_jget assms(2) parse_limit_enc) (auto simp: list_all_iff limit_json_def)
qed

lemma validateBudget_enc [simp]:
  assumes "ok_budget b"
  shows "validateBudget (enc_budget b) = Inr b"
proof -
  obtain ob where ob: "enc_limits (limits b) = JObj ob" by (simp add: enc_limits_def)
  from assms have l: "list_all ok_limit (limit_list (limits b))" by (simp add: ok_budget_def)
  have enc: "enc_limits (limits b) \<noteq> JUndef" "enc_scope (budget_scope b) \<noteq> JUndef"
    by (simp_all add: enc_limits_def enc_scope_def)
  have "\<not> list_all (\<lambda>p. p = None) (limit_list (limits b))" using assms by (simp add: ok_budget_def)
  moreover have "\<lparr>lim_monetaryAmountMinor = limit_list (limits b) ! 0, lim_requests = limit_list (limits b) ! 1,
      lim_messages = limit_list (limits b) ! 2, lim_mutations = limit_list (limits b) ! 3,
      lim_deletes = limit_list (limits b) ! 4, lim_tokenCost = limit_list (limits b) ! 5,
      lim_concurrency = limit_list (limits b) ! 6, lim_velocity = limit_list (limits b) ! 7\<rparr> = limits b"
    by (cases "limits b") (simp add: limit_list_def)
  ultimately show ?thesis
    using assms enc
    by (simp add: validateBudget_def enc_budget_def ob validateLimits_enc [OF l ob] ok_budget_def)
qed

lemma validateCircuit_enc [simp]:
  assumes "ok_circuit c"
  shows "validateCircuit (enc_circuit c) = Inr c"
proof -
  have enc: "enc_scope (circuit_scope c) \<noteq> JUndef" by (simp add: enc_scope_def)
  show ?thesis
  proof (cases "circuit_state c")
    case Closed
    then show ?thesis
      using assms enc by (cases c) (simp add: validateCircuit_def enc_circuit_def ok_circuit_def CIRCUIT_KEYS_def)
  next
    case Open
    then obtain t r where "openedAt c = Some t" "circuit_reason c = Some r" "is_iso t" "ok_text 200 r"
      using assms by (auto simp: ok_circuit_def split: option.splits)
    then show ?thesis
      using assms enc Open
      by (cases c) (simp add: validateCircuit_def enc_circuit_def ok_circuit_def CIRCUIT_KEYS_def)
  qed
qed

lemma validateSwitch_enc [simp]: "ok_switch w \<Longrightarrow> validateSwitch (enc_switch w) = Inr w"
  by (cases w) (simp add: validateSwitch_def enc_switch_def ok_switch_def, simp add: enc_scope_def)

lemma validateOutcome_enc [simp]: "ok_outcome r \<Longrightarrow> validateOutcome (enc_outcome r) = Inr r"
  by (cases r; cases "outcome_reason r") (simp_all add: validateOutcome_def enc_outcome_def ok_outcome_def)

lemma enc_not_undef [simp]: "enc_outcome r \<noteq> JUndef" "enc_action a \<noteq> JUndef" "enc_scope s \<noteq> JUndef"
  by (simp_all add: enc_outcome_def enc_action_def enc_scope_def)

lemma validateLedger_enc [simp]:
  assumes "ok_ledger e"
  shows "validateLedger (enc_ledger e) = Inr e"
proof (cases "ledger_status e")
  case Reserved
  then show ?thesis
    using assms by (cases e) (simp add: validateLedger_def enc_ledger_def ok_ledger_def)
next
  case Completed
  then obtain t r where "completedAt e = Some t" "outcome e = Some r" "is_iso t" "ok_outcome r"
    using assms by (auto simp: ok_ledger_def split: option.splits)
  then show ?thesis
    using assms Completed by (cases e) (simp add: validateLedger_def enc_ledger_def ok_ledger_def)
qed

lemma validateQueueItem_enc [simp]: "ok_queue_item q \<Longrightarrow> validateQueueItem (enc_queue_item q) = Inr q"
  by (cases q) (simp add: validateQueueItem_def enc_queue_item_def ok_queue_item_def)

lemma validateDeadLetter_enc [simp]: "ok_dead_letter d \<Longrightarrow> validateDeadLetter (enc_dead_letter d) = Inr d"
  by (cases d; cases "dead_item d")
    (simp add: validateDeadLetter_def enc_dead_letter_def ok_dead_letter_def ok_queue_item_def)

lemma canonical_hash_hash: "canonical_hash ob = Inr h \<Longrightarrow> ok_hash h"
  by (auto simp: canonical_hash_def split: option.splits)

lemma validateAudit_enc [simp]:
  assumes "ok_audit r"
  shows "validateAudit (enc_audit r) = Inr r"
proof -
  have h: "canonical_hash (audit_base (sequence r) (event r) (subject r) (audit_reason r)
       (actorPrincipalId r) (audit_timestamp r) (previousHash r)) = Inr (recordHash r)"
    using assms by (simp add: ok_audit_def audit_hash_def)
  have enc: "enc_audit r = JObj ([(''sequence'', JNat (sequence r)), (''event'', JStr (event r)),
      (''subject'', JStr (subject r)), (''reason'', JStr (audit_reason r))] @
      opt_prop ''actorPrincipalId'' JStr (actorPrincipalId r) @
      [(''timestamp'', JStr (audit_timestamp r)), (''previousHash'', JStr (previousHash r)),
       (''recordHash'', JStr (recordHash r))])"
    by (simp add: enc_audit_def audit_base_def)
  show ?thesis
    unfolding enc validateAudit_def
    using assms h canonical_hash_hash [OF h]
    by (cases "actorPrincipalId r") (simp_all add: ok_audit_def AUDIT_KEYS_def)
qed

lemma mapM_enc: "list_all P xs \<Longrightarrow> (\<And>x. P x \<Longrightarrow> f (g x) = Inr x) \<Longrightarrow> mapM f (map g xs) = Inr xs"
  by (rule mapM_roundtrip) (auto simp: list_all_iff)

lemma validateState_enc:
  assumes "safety_inv st"
  shows "validateState (enc_state st) = Inr st"
proof -
  note i = assms [unfolded safety_inv_def]
  have m: "mapM validateSwitch (map enc_switch (switches st)) = Inr (switches st)"
    "mapM validateBudget (map enc_budget (budgets st)) = Inr (budgets st)"
    "mapM validateCircuit (map enc_circuit (circuits st)) = Inr (circuits st)"
    "mapM validateLedger (map enc_ledger (ledger st)) = Inr (ledger st)"
    "mapM validateQueueItem (map enc_queue_item (queue st)) = Inr (queue st)"
    "mapM validateDeadLetter (map enc_dead_letter (deadLetters st)) = Inr (deadLetters st)"
    "mapM validateAudit (map enc_audit (audit st)) = Inr (audit st)"
    using i
    by (simp_all add: mapM_enc [of ok_switch] mapM_enc [of ok_budget] mapM_enc [of ok_circuit]
        mapM_enc [of ok_ledger] mapM_enc [of ok_queue_item] mapM_enc [of ok_dead_letter] mapM_enc [of ok_audit])
  have "validateAuditChain (auditAnchor st) (audit st) = Inr ()"
    using i by (simp add: validateAuditChain_def)
  then show ?thesis
    unfolding validateState_def enc_state_def STATE_KEYS_def
    using i m by simp
qed

section \<open>The controller's store\<close>

definition safety_store :: "(SafetyControllerState, safety_error) store" where
  "safety_store =
     \<lparr>emptyStore = emptyState, validateStore = validateState, encodeStore = enc_state,
      maxStoreBytes = MAX_STORE_BYTES,
      notRegularError = SCE ''Safety controller store must be a regular non-symlink file.'',
      sizeError = SCE ''Safety controller store exceeds its size limit.'',
      notJsonError = SCE ''Safety controller store is not valid JSON.'',
      clockError = SCE ''Safety controller clock is invalid.''\<rparr>"

lemma safety_store_simps [simp]:
  "emptyStore safety_store = emptyState" "validateStore safety_store = validateState"
  "encodeStore safety_store = enc_state" "maxStoreBytes safety_store = MAX_STORE_BYTES"
  by (simp_all add: safety_store_def)

lemma safety_inv_empty: "safety_inv emptyState"
  by (simp add: safety_inv_def emptyState_def)

interpretation safety_file: validated_store safety_store safety_inv
proof
  show "safety_inv (emptyStore safety_store)" by (simp add: safety_inv_empty)
qed (use validateState_inv validateState_enc in auto)

end
