(* ===== verification/Safety_Controller.thy ===== *)
theory Safety_Controller
  imports Safety_Shape
begin

text \<open>
  The operations of \<open>LocalSafetyController\<close> (\<open>src/safety/safetyController.ts\<close>).
  The helpers that mutate the state are programs on \<^typ>\<open>SafetyControllerState\<close>; the
  public methods are programs on the store file, each one \<open>mutate\<close> under the file
  lock.  The emergency authorizer is injected into the controller and is a parameter; the
  clock reading of each \<open>mutate\<close> and the lease time to live are arguments.
\<close>

type_synonym 'a safety_prog = "(SafetyControllerState, safety_error, 'a) prog"
type_synonym 'a file_prog = "(store_file, safety_error, 'a) prog"

fun error_message :: "safety_error \<Rightarrow> string" where
  "error_message (SafetyControllerError m c) = m"
| "error_message (AuthorizerError m) = m"

section \<open>The audit chain\<close>

definition lastHash :: "SafetyControllerState \<Rightarrow> string" where
  "lastHash st = (if audit st = [] then auditAnchor st else recordHash (last (audit st)))"

definition auditRecord ::
  "SafetyControllerState \<Rightarrow> string \<Rightarrow> string \<Rightarrow> string \<Rightarrow> string \<Rightarrow> string option \<Rightarrow>
   (safety_error, SafetyAuditRecord) res" where
  "auditRecord st ev sb rs ts actor =
     andThen (v_text SCE ''Safety audit event'' 80 (JStr ev)) (\<lambda>ev'.
     andThen (v_text SCE ''Safety audit subject'' 300 (JStr sb)) (\<lambda>sb'.
     andThen (v_text SCE ''Safety audit reason'' 200 (JStr rs)) (\<lambda>rs'.
     andThen (case actor of
                None \<Rightarrow> Inr None
              | Some p \<Rightarrow> andThen (v_identifier SCE ''Safety audit actor'' (JStr p)) (\<lambda>q. Inr (Some q))) (\<lambda>ac.
     andThen (canonical_hash (audit_base (length (audit st) + 1) ev' sb' rs' ac ts (lastHash st))) (\<lambda>h.
     Inr \<lparr>sequence = length (audit st) + 1, event = ev', subject = sb', audit_reason = rs',
          actorPrincipalId = ac, audit_timestamp = ts, previousHash = lastHash st, recordHash = h\<rparr>)))))"

definition appendAudit :: "string \<Rightarrow> string \<Rightarrow> string \<Rightarrow> string \<Rightarrow> string option \<Rightarrow> unit safety_prog" where
  "appendAudit ev sb rs ts actor = (\<lambda>st.
     if length (audit st) \<ge> MAX_AUDIT
     then (Inl (SCE ''Safety audit limit was reached.''), st)
     else (case auditRecord st ev sb rs ts actor of
             Inl e \<Rightarrow> (Inl e, st)
           | Inr r \<Rightarrow> (Inr (), st\<lparr>audit := audit st @ [r]\<rparr>)))"

section \<open>Kill switches, circuits and budgets\<close>

definition setSwitch :: "SafetyScope \<Rightarrow> bool \<Rightarrow> string \<Rightarrow> string \<Rightarrow> string \<Rightarrow> unit safety_prog" where
  "setSwitch scope en reason princ now = (\<lambda>st.
     (case List.find (\<lambda>w. sameScope (switch_scope w) scope) (switches st) of
        None \<Rightarrow>
          if length (switches st) \<ge> MAX_CONTROLS
          then (Inl (SCE ''Safety switch limit was reached.''), st)
          else (Inr (), st\<lparr>switches := switches st @
                  [\<lparr>switch_scope = scope, enabled = en, changedAt = now, switch_reason = reason,
                    changedBy = princ\<rparr>]\<rparr>)
      | Some _ \<Rightarrow>
          (Inr (), st\<lparr>switches := updateFirst (\<lambda>w. sameScope (switch_scope w) scope)
             (\<lambda>w. w\<lparr>enabled := en, switch_reason := reason, changedBy := princ, changedAt := now\<rparr>)
             (switches st)\<rparr>)))"

text \<open>The ledger entries a circuit judges.\<close>

definition circuitEntries :: "SafetyControllerState \<Rightarrow> SafetyCircuit \<Rightarrow> string \<Rightarrow> LedgerEntry list" where
  "circuitEntries st c now =
     filter (\<lambda>e. ledger_status e = Completed \<and> completedAt e \<noteq> None \<and> outcome e \<noteq> None \<and>
                 scopeMatches (circuit_scope c) (ledger_action e) \<and>
                 within_window (the (completedAt e)) now (int (circuit_windowMs c))) (ledger st)"

definition outcome_count :: "(SafetyOutcome \<Rightarrow> bool) \<Rightarrow> LedgerEntry list \<Rightarrow> nat" where
  "outcome_count p es = length (filter (\<lambda>e. p (the (outcome e))) es)"

definition circuitReason :: "SafetyControllerState \<Rightarrow> SafetyCircuit \<Rightarrow> string \<Rightarrow> string option" where
  "circuitReason st c now =
     (let es = circuitEntries st c now in
      if length es < minimumSamples c then None
      else if rateBps (outcome_count (\<lambda>r. \<not> success r) es) (length es) > maxFailureRateBps c
      then Some ''failure rate exceeded''
      else if outcome_count policyViolation es > maxPolicyViolations c
      then Some ''policy violation threshold exceeded''
      else if outcome_count reconciliationMismatch es > maxReconciliationMismatches c
      then Some ''reconciliation mismatch threshold exceeded''
      else if list_ex (\<lambda>e. latencyMs (the (outcome e)) > maxLatencyMs c) es
      then Some ''latency threshold exceeded''
      else None)"

text \<open>The circuit object is an element of \<open>state.circuits\<close>: it is named by its index.\<close>

definition evaluateCircuit :: "nat \<Rightarrow> string \<Rightarrow> unit safety_prog" where
  "evaluateCircuit i now = (\<lambda>st.
     (case circuitReason st (circuits st ! i) now of
        None \<Rightarrow> (Inr (), st)
      | Some reason \<Rightarrow>
          appendAudit ''circuit.opened'' (circuit_id (circuits st ! i)) reason now None
            (st\<lparr>circuits := (circuits st)[i := (circuits st ! i)
                 \<lparr>circuit_state := Open, openedAt := Some now, circuit_reason := Some reason\<rparr>]\<rparr>)))"

definition evaluateCircuits :: "SafetyAction \<Rightarrow> string \<Rightarrow> unit safety_prog" where
  "evaluateCircuits a now =
     getp (\<lambda>st0. forp [0..<length (circuits st0)] (\<lambda>i.
       getp (\<lambda>st. if circuit_state (circuits st ! i) = Closed \<and> scopeMatches (circuit_scope (circuits st ! i)) a
                   then evaluateCircuit i now else ret ())))"

definition openCircuit :: "SafetyControllerState \<Rightarrow> SafetyAction \<Rightarrow> SafetyCircuit option" where
  "openCircuit st a =
     List.find (\<lambda>c. circuit_state c = Open \<and> scopeMatches (circuit_scope c) a) (circuits st)"

definition activeSwitch :: "SafetyControllerState \<Rightarrow> SafetyAction \<Rightarrow> SafetySwitch option" where
  "activeSwitch st a = List.find (\<lambda>w. enabled w \<and> scopeMatches (switch_scope w) a) (switches st)"

definition killSwitchError :: "SafetySwitch \<Rightarrow> safety_error" where
  "killSwitchError w =
     SafetyControllerError (''Kill switch is active for '' @ scopeKey (switch_scope w) @ ''.'')
       (Some KILL_SWITCH_ERROR_CODE)"

definition openCircuitError :: "SafetyCircuit \<Rightarrow> safety_error" where
  "openCircuitError c = SCE (''Safety circuit breaker is open: '' @ circuit_id c @ ''.'')"

definition assertNoOpenCircuit :: "SafetyAction \<Rightarrow> unit safety_prog" where
  "assertNoOpenCircuit a =
     getp (\<lambda>st. case openCircuit st a of None \<Rightarrow> ret () | Some c \<Rightarrow> throw (openCircuitError c))"

definition assertActionAllowed :: "SafetyAction \<Rightarrow> string \<Rightarrow> unit safety_prog" where
  "assertActionAllowed a now =
     getp (\<lambda>st. case activeSwitch st a of
                  Some w \<Rightarrow> throw (killSwitchError w)
                | None \<Rightarrow>
                    seqp (assertNoOpenCircuit a) (\<lambda>_.
                    seqp (evaluateCircuits a now) (\<lambda>_.
                    assertNoOpenCircuit a)))"

definition windowEntries :: "SafetyControllerState \<Rightarrow> SafetyScope \<Rightarrow> string \<Rightarrow> nat \<Rightarrow> LedgerEntry list" where
  "windowEntries st scope now ms =
     filter (\<lambda>e. scopeMatches scope (ledger_action e) \<and> within_window (admittedAt e) now (int ms)) (ledger st)"

definition checkLimit :: "SafetyBudget \<Rightarrow> string \<Rightarrow> nat option \<Rightarrow> nat \<Rightarrow> nat \<Rightarrow> (safety_error, unit) res" where
  "checkLimit b key lim used cost =
     (case lim of
        None \<Rightarrow> Inr ()
      | Some l \<Rightarrow> throwIf (js_add used cost > l)
                   (SCE (''Safety budget exceeded: '' @ budget_id b @ '' '' @ key @ ''.'')))"

definition assertBudget :: "SafetyControllerState \<Rightarrow> SafetyAction \<Rightarrow> string \<Rightarrow> SafetyBudget \<Rightarrow> (safety_error, unit) res" where
  "assertBudget st a now b =
     (if \<not> scopeMatches (budget_scope b) a then Inr ()
      else
        (let entries = windowEntries st (budget_scope b) now (budget_windowMs b);
             fast = windowEntries st (budget_scope b) now (velocityWindowMs b);
             totals = sumCosts (map (\<lambda>e. costs (ledger_action e)) entries);
             vel = requests (sumCosts (map (\<lambda>e. costs (ledger_action e)) fast));
             concurrent = length (filter (\<lambda>e. ledger_status e = Reserved) entries);
             l = limits b; c = costs a
         in andThen (checkLimit b ''monetaryAmountMinor'' (lim_monetaryAmountMinor l) (monetaryAmountMinor totals) (monetaryAmountMinor c)) (\<lambda>_.
            andThen (checkLimit b ''requests'' (lim_requests l) (requests totals) (requests c)) (\<lambda>_.
            andThen (checkLimit b ''messages'' (lim_messages l) (messages totals) (messages c)) (\<lambda>_.
            andThen (checkLimit b ''mutations'' (lim_mutations l) (mutations totals) (mutations c)) (\<lambda>_.
            andThen (checkLimit b ''deletes'' (lim_deletes l) (deletes totals) (deletes c)) (\<lambda>_.
            andThen (checkLimit b ''tokenCost'' (lim_tokenCost l) (tokenCost totals) (tokenCost c)) (\<lambda>_.
            andThen (case lim_concurrency l of
                       None \<Rightarrow> Inr ()
                     | Some n \<Rightarrow> throwIf (concurrent + 1 > n)
                         (SCE (''Safety budget exceeded: '' @ budget_id b @ '' concurrency.''))) (\<lambda>_.
            case lim_velocity l of
              None \<Rightarrow> Inr ()
            | Some n \<Rightarrow> throwIf (js_add vel (requests c) > n)
                (SCE (''Safety velocity limit exceeded: '' @ budget_id b @ ''.'')))))))))))"

definition assertBudgets :: "SafetyControllerState \<Rightarrow> SafetyAction \<Rightarrow> string \<Rightarrow> (safety_error, unit) res" where
  "assertBudgets st a now = andThen (mapM (assertBudget st a now) (budgets st)) (\<lambda>_. Inr ())"

section \<open>Leases and the queue\<close>

definition pruneExpiredLeases :: "string \<Rightarrow> int \<Rightarrow> SafetyControllerState \<Rightarrow> SafetyControllerState" where
  "pruneExpiredLeases now ttl st =
     st\<lparr>ledger := filter (\<lambda>e. ledger_status e = Completed \<or> within_window (admittedAt e) now ttl) (ledger st)\<rparr>"

definition findLedger :: "SafetyControllerState \<Rightarrow> string \<Rightarrow> (safety_error, LedgerEntry) res" where
  "findLedger st key =
     (case List.find (\<lambda>e. ledger_key e = key) (ledger st) of
        None \<Rightarrow> Inl (SCE ''Safety lease was not found.'')
      | Some e \<Rightarrow> Inr e)"

definition leaseExpired :: "LedgerEntry \<Rightarrow> string \<Rightarrow> int \<Rightarrow> bool" where
  "leaseExpired e now ttl = (ledger_status e = Reserved \<and> older_than (admittedAt e) now ttl)"

definition addDeadLetter :: "SafetyQueueItem \<Rightarrow> string \<Rightarrow> string \<Rightarrow> unit safety_prog" where
  "addDeadLetter item reason now =
     seqp (modifyp (\<lambda>st. if length (deadLetters st) \<ge> MAX_DEAD_LETTERS
                          then st\<lparr>deadLetters := tl (deadLetters st)\<rparr> else st)) (\<lambda>_.
     seqp (liftp (v_text SCE ''Safety dead-letter reason'' 200 (JStr reason))) (\<lambda>r.
     modifyp (\<lambda>st. st\<lparr>deadLetters := deadLetters st @
       [\<lparr>dead_item = item, dead_reason = r, deadLetteredAt = now\<rparr>]\<rparr>)))"

definition deadLetterMatchingQueued :: "SafetyScope \<Rightarrow> string \<Rightarrow> string \<Rightarrow> unit safety_prog" where
  "deadLetterMatchingQueued scope reason now =
     getp (\<lambda>st0.
       seqp (forp (filter (\<lambda>q. scopeMatches scope (queue_action q)) (queue st0)) (\<lambda>item.
               seqp (addDeadLetter item (''kill switch: '' @ reason) now) (\<lambda>_.
               appendAudit ''queue.dead_lettered'' (queue_id item) ''kill switch stopped queued action'' now None))) (\<lambda>_.
       modifyp (\<lambda>st. st\<lparr>queue := filter (\<lambda>q. \<not> scopeMatches scope (queue_action q)) (queue st0)\<rparr>)))"

section \<open>The methods\<close>

text \<open>The bodies of the \<open>mutate\<close> calls, on the state and the time of the call.\<close>

definition configureBudget_op :: "SafetyOperator \<Rightarrow> SafetyBudget \<Rightarrow> string \<Rightarrow> SafetyBudget safety_prog" where
  "configureBudget_op oper b now =
     getp (\<lambda>st.
       seqp (case List.find (\<lambda>x. budget_id x = budget_id b) (budgets st) of
               None \<Rightarrow>
                 if length (budgets st) \<ge> MAX_CONTROLS
                 then throw (SCE ''Safety budget limit was reached.'')
                 else modifyp (\<lambda>s. s\<lparr>budgets := budgets s @ [b]\<rparr>)
             | Some _ \<Rightarrow>
                 modifyp (\<lambda>s. s\<lparr>budgets := updateFirst (\<lambda>x. budget_id x = budget_id b) (\<lambda>_. b) (budgets s)\<rparr>)) (\<lambda>_.
       seqp (appendAudit ''budget.configured'' (budget_id b)
               (''configured '' @ scopeKey (budget_scope b)) now (Some (principalId oper))) (\<lambda>_.
       ret b)))"

text \<open>\<open>Object.assign(existing, circuit)\<close>: an absent optional property of the new circuit
  leaves the old one in place (the validator drops it again when the circuit is closed).\<close>

definition assignCircuit :: "SafetyCircuit \<Rightarrow> SafetyCircuit \<Rightarrow> SafetyCircuit" where
  "assignCircuit new old =
     new\<lparr>openedAt := (case openedAt new of None \<Rightarrow> openedAt old | Some t \<Rightarrow> Some t),
         circuit_reason := (case circuit_reason new of None \<Rightarrow> circuit_reason old | Some r \<Rightarrow> Some r)\<rparr>"

definition configureCircuit_op :: "SafetyOperator \<Rightarrow> SafetyCircuit \<Rightarrow> string \<Rightarrow> SafetyCircuit safety_prog" where
  "configureCircuit_op oper c now =
     getp (\<lambda>st.
       seqp (case List.find (\<lambda>x. circuit_id x = circuit_id c) (circuits st) of
               None \<Rightarrow>
                 if length (circuits st) \<ge> MAX_CONTROLS
                 then throw (SCE ''Safety circuit limit was reached.'')
                 else modifyp (\<lambda>s. s\<lparr>circuits := circuits s @ [c]\<rparr>)
             | Some _ \<Rightarrow>
                 modifyp (\<lambda>s. s\<lparr>circuits := updateFirst (\<lambda>x. circuit_id x = circuit_id c) (assignCircuit c) (circuits s)\<rparr>)) (\<lambda>_.
       seqp (appendAudit ''circuit.configured'' (circuit_id c)
               (''configured '' @ scopeKey (circuit_scope c)) now (Some (principalId oper))) (\<lambda>_.
       ret c)))"

definition stop_op :: "SafetyOperator \<Rightarrow> SafetyScope \<Rightarrow> string \<Rightarrow> string \<Rightarrow> unit safety_prog" where
  "stop_op oper scope reason now =
     seqp (setSwitch scope True reason (principalId oper) now) (\<lambda>_.
     seqp (deadLetterMatchingQueued scope reason now) (\<lambda>_.
     appendAudit ''kill_switch.stopped'' (scopeKey scope) reason now (Some (principalId oper))))"

definition reenable_op :: "SafetyOperator \<Rightarrow> SafetyScope \<Rightarrow> string \<Rightarrow> string \<Rightarrow> unit safety_prog" where
  "reenable_op oper scope reason now =
     getp (\<lambda>st.
       case List.find (\<lambda>w. sameScope (switch_scope w) scope) (switches st) of
         None \<Rightarrow> throw (SCE ''Kill switch is not active for this scope.'')
       | Some control \<Rightarrow>
           if \<not> enabled control then throw (SCE ''Kill switch is not active for this scope.'')
           else
             seqp (modifyp (\<lambda>s. s\<lparr>switches := updateFirst (\<lambda>w. sameScope (switch_scope w) scope)
                     (\<lambda>w. w\<lparr>enabled := False, changedAt := now, changedBy := principalId oper, switch_reason := reason\<rparr>)
                     (switches s)\<rparr>)) (\<lambda>_.
             appendAudit ''kill_switch.reenabled'' (scopeKey scope) reason now (Some (principalId oper))))"

text \<open>The admission: the result tells whether the action was already in the ledger.\<close>

definition admit_op :: "SafetyAction \<Rightarrow> int \<Rightarrow> string \<Rightarrow> bool safety_prog" where
  "admit_op a ttl now =
     seqp (modifyp (pruneExpiredLeases now ttl)) (\<lambda>_.
     getp (\<lambda>st.
       if (case List.find (\<lambda>e. idempotencyKey (ledger_action e) = idempotencyKey a) (ledger st) of
             None \<Rightarrow> False
           | Some e \<Rightarrow> actionHash (ledger_action e) \<noteq> actionHash a)
       then throw (SCE ''Safety idempotency key collides with a different action hash.'')
       else if List.find (\<lambda>e. ledger_key e = ledgerKey a) (ledger st) \<noteq> None then ret True
       else
         seqp (assertActionAllowed a now) (\<lambda>_.
         getp (\<lambda>st1.
           if length (ledger st1) \<ge> MAX_LEDGER then throw (SCE ''Safety ledger limit was reached.'')
           else
             seqp (liftp (assertBudgets st1 a now)) (\<lambda>_.
             seqp (modifyp (\<lambda>s. s\<lparr>ledger := ledger s @
                     [\<lparr>ledger_key = ledgerKey a, ledger_action = a, ledger_status = Reserved,
                       admittedAt = now, completedAt = None, outcome = None\<rparr>]\<rparr>)) (\<lambda>_.
             seqp (appendAudit ''action.admitted'' (ledgerKey a) ''budget reservation created'' now None) (\<lambda>_.
             ret False)))))))"

text \<open>The check that opens \<open>assertActive\<close> and both halves of \<open>commit\<close>.\<close>

definition requireActive :: "string \<Rightarrow> int \<Rightarrow> string \<Rightarrow> unit safety_prog" where
  "requireActive key ttl now =
     getp (\<lambda>st.
       seqp (liftp (findLedger st key)) (\<lambda>e.
       if leaseExpired e now ttl then throw (SCE ''Safety lease has expired.'')
       else if ledger_status e \<noteq> Reserved then throw (SCE ''Safety lease is no longer active.'')
       else ret ()))"

definition assertActive_op :: "SafetyAction \<Rightarrow> int \<Rightarrow> string \<Rightarrow> unit safety_prog" where
  "assertActive_op a ttl now =
     seqp (requireActive (ledgerKey a) ttl now) (\<lambda>_.
     seqp (assertActionAllowed a now) (\<lambda>_.
     appendAudit ''action.final_check'' (ledgerKey a) ''kill switch, budgets, and circuits remain active'' now None))"

definition commitBefore_op :: "SafetyAction \<Rightarrow> int \<Rightarrow> string \<Rightarrow> unit safety_prog" where
  "commitBefore_op a ttl now =
     seqp (requireActive (ledgerKey a) ttl now) (\<lambda>_. assertActionAllowed a now)"

definition commitAfter_op :: "SafetyAction \<Rightarrow> int \<Rightarrow> string \<Rightarrow> unit safety_prog" where
  "commitAfter_op a ttl now =
     seqp (requireActive (ledgerKey a) ttl now) (\<lambda>_.
     appendAudit ''action.final_check'' (ledgerKey a)
       ''kill switch, budgets, and circuits remained active through commit'' now None)"

definition complete_op :: "SafetyAction \<Rightarrow> SafetyOutcome \<Rightarrow> string \<Rightarrow> unit safety_prog" where
  "complete_op a r now =
     getp (\<lambda>st.
       let entry = List.find (\<lambda>e. ledger_key e = ledgerKey a) (ledger st);
           finish = appendAudit (if success r then ''action.completed'' else ''action.unknown'') (ledgerKey a)
             (case outcome_reason r of
                Some t \<Rightarrow> t
              | None \<Rightarrow> if success r then ''action completed'' else ''action outcome is unknown'') now None
       in case entry of
            None \<Rightarrow> finish
          | Some e \<Rightarrow>
              if ledger_status e = Completed then ret ()
              else
                seqp (modifyp (\<lambda>s. s\<lparr>ledger := updateFirst (\<lambda>x. ledger_key x = ledgerKey a)
                        (\<lambda>x. x\<lparr>ledger_status := Completed, completedAt := Some now, outcome := Some r\<rparr>)
                        (ledger s)\<rparr>)) (\<lambda>_.
                seqp finish (\<lambda>_.
                evaluateCircuits (ledger_action e) now)))"

definition enqueue_op :: "SafetyAction \<Rightarrow> string \<Rightarrow> SafetyQueueItem safety_prog" where
  "enqueue_op a now =
     seqp (assertActionAllowed a now) (\<lambda>_.
     getp (\<lambda>st.
       case List.find (\<lambda>q. ledgerKey (queue_action q) = ledgerKey a) (queue st) of
         Some q \<Rightarrow> ret q
       | None \<Rightarrow>
           if length (queue st) \<ge> MAX_QUEUE
           then throw (SCE ''Safety queue is full; backpressure is active.'')
           else
             (let item = \<lparr>queue_id = ''queue-'' @ take 32 (sha256 (ledgerKey a @ '':'' @ now)),
                          queue_action = a, queuedAt = now\<rparr>
              in seqp (modifyp (\<lambda>s. s\<lparr>queue := queue s @ [item]\<rparr>)) (\<lambda>_.
                 seqp (appendAudit ''queue.enqueued'' (queue_id item) ''action is queued without execution'' now None) (\<lambda>_.
                 ret item)))))"

definition dequeue_op :: "string \<Rightarrow> SafetyQueueItem option safety_prog" where
  "dequeue_op now = (\<lambda>st.
     case queue st of
       [] \<Rightarrow> (Inr None, st)
     | item # rest \<Rightarrow>
         (case assertActionAllowed (queue_action item) now (st\<lparr>queue := rest\<rparr>) of
            (Inl e, st') \<Rightarrow>
              seqp (addDeadLetter item (error_message e) now) (\<lambda>_.
              seqp (appendAudit ''queue.dead_lettered'' (queue_id item) (error_message e) now None) (\<lambda>_.
              ret None)) st'
          | (Inr _, st') \<Rightarrow>
              seqp (appendAudit ''queue.dequeued'' (queue_id item) ''dequeued for separate re-admission'' now None) (\<lambda>_.
              ret (Some item)) st'))"

subsection \<open>On the store file\<close>

definition authorize ::
  "('i \<Rightarrow> (safety_error, json) res) \<Rightarrow> 'i \<Rightarrow> SafetyOperatorPermission \<Rightarrow> (safety_error, SafetyOperator) res" where
  "authorize authenticate identity permission =
     andThen (authenticate identity) (\<lambda>v.
     andThen (validateOperator v) (\<lambda>oper.
     if permission \<notin> set (permissions oper)
     then Inl (SCE (''Emergency operator lacks required permission: '' @ permission_name permission @ ''.''))
     else Inr oper))"

definition createDisabledSafetyEmergencyAuthorizer :: "'i \<Rightarrow> (safety_error, json) res" where
  "createDisabledSafetyEmergencyAuthorizer identity = Inl (SCE ''Emergency authorization is not configured.'')"

definition configureBudget ::
  "('i \<Rightarrow> (safety_error, json) res) \<Rightarrow> 'i \<Rightarrow> json \<Rightarrow> clock \<Rightarrow> SafetyBudget file_prog" where
  "configureBudget auth identity budget now =
     seqp (liftp (authorize auth identity Safety_configure)) (\<lambda>oper.
     seqp (liftp (validateBudget budget)) (\<lambda>b.
     mutate_store safety_store (configureBudget_op oper b) now))"

definition configureCircuit ::
  "('i \<Rightarrow> (safety_error, json) res) \<Rightarrow> 'i \<Rightarrow> json \<Rightarrow> clock \<Rightarrow> SafetyCircuit file_prog" where
  "configureCircuit auth identity circuit now =
     seqp (liftp (authorize auth identity Safety_configure)) (\<lambda>oper.
     seqp (liftp (validateCircuit circuit)) (\<lambda>c.
     mutate_store safety_store (configureCircuit_op oper c) now))"

definition stop ::
  "('i \<Rightarrow> (safety_error, json) res) \<Rightarrow> 'i \<Rightarrow> json \<Rightarrow> json \<Rightarrow> clock \<Rightarrow> unit file_prog" where
  "stop auth identity scope reason now =
     seqp (liftp (authorize auth identity Safety_stop)) (\<lambda>oper.
     seqp (liftp (validateScope scope)) (\<lambda>sc.
     seqp (liftp (v_text SCE ''Kill-switch reason'' 200 reason)) (\<lambda>r.
     mutate_store safety_store (stop_op oper sc r) now)))"

definition reenable ::
  "('i \<Rightarrow> (safety_error, json) res) \<Rightarrow> 'i \<Rightarrow> json \<Rightarrow> json \<Rightarrow> clock \<Rightarrow> unit file_prog" where
  "reenable auth identity scope reason now =
     seqp (liftp (authorize auth identity Safety_reenable)) (\<lambda>oper.
     seqp (liftp (validateScope scope)) (\<lambda>sc.
     seqp (liftp (v_text SCE ''Kill-switch re-enable reason'' 200 reason)) (\<lambda>r.
     mutate_store safety_store (reenable_op oper sc r) now)))"

record SafetyLease =
  replay :: bool
  lease_action :: SafetyAction

definition admit :: "json \<Rightarrow> int \<Rightarrow> clock \<Rightarrow> SafetyLease file_prog" where
  "admit actionValue ttl now =
     seqp (liftp (validateAction actionValue)) (\<lambda>a.
     seqp (mutate_store safety_store (admit_op a ttl) now) (\<lambda>rep.
     ret \<lparr>replay = rep, lease_action = a\<rparr>))"

definition assertActive :: "SafetyLease \<Rightarrow> int \<Rightarrow> clock \<Rightarrow> unit file_prog" where
  "assertActive lease ttl now =
     (if replay lease then ret () else mutate_store safety_store (assertActive_op (lease_action lease) ttl) now)"

text \<open>\<open>commit\<close>: the check, the caller's operation (which may itself take the lock, so it
  runs on the file), and the second check.\<close>

definition commit :: "SafetyLease \<Rightarrow> int \<Rightarrow> clock \<Rightarrow> 't file_prog \<Rightarrow> clock \<Rightarrow> 't file_prog" where
  "commit lease ttl now1 oper now2 =
     (if replay lease then throw (SCE ''Safety replay lease cannot commit a side effect.'')
      else
        seqp (mutate_store safety_store (commitBefore_op (lease_action lease) ttl) now1) (\<lambda>_.
        seqp oper (\<lambda>result.
        seqp (mutate_store safety_store (commitAfter_op (lease_action lease) ttl) now2) (\<lambda>_.
        ret result))))"

definition complete :: "SafetyLease \<Rightarrow> json \<Rightarrow> clock \<Rightarrow> unit file_prog" where
  "complete lease outcomeValue now =
     (if replay lease then ret ()
      else
        seqp (liftp (validateOutcome outcomeValue)) (\<lambda>r.
        mutate_store safety_store (complete_op (lease_action lease) r) now))"

definition enqueue :: "json \<Rightarrow> clock \<Rightarrow> SafetyQueueItem file_prog" where
  "enqueue actionValue now =
     seqp (liftp (validateAction actionValue)) (\<lambda>a. mutate_store safety_store (enqueue_op a) now)"

definition dequeue :: "clock \<Rightarrow> SafetyQueueItem option file_prog" where
  "dequeue now = mutate_store safety_store dequeue_op now"

definition inspect :: "SafetyControllerState file_prog" where
  "inspect = getp (\<lambda>f. liftp (read_store safety_store f))"

definition globalScope :: SafetyScope where
  "globalScope = \<lparr>scope_kind = Global, scope_id = None\<rparr>"

text \<open>The drill: the clock readings of its five lock acquisitions and two time stamps.\<close>

record game_clocks =
  clk_stop :: clock
  clk_stopped :: clock
  clk_admit :: clock
  clk_reenable :: clock
  clk_reenabled :: clock
  clk_final :: clock

definition admitMustFail :: "SafetyAction \<Rightarrow> int \<Rightarrow> clock \<Rightarrow> unit file_prog" where
  "admitMustFail a ttl now = (\<lambda>f.
     case admit (enc_action a) ttl now f of
       (Inr _, f') \<Rightarrow> (Inl (SCE ''Game-day kill switch did not block the action.''), f')
     | (Inl (SafetyControllerError m c), f') \<Rightarrow>
         if c \<noteq> Some KILL_SWITCH_ERROR_CODE then (Inl (SafetyControllerError m c), f') else (Inr (), f')
     | (Inl e, f') \<Rightarrow> (Inl e, f'))"

definition runScheduledGameDay ::
  "('i \<Rightarrow> (safety_error, json) res) \<Rightarrow> 'i \<Rightarrow> 'i \<Rightarrow> json \<Rightarrow> json \<Rightarrow> int \<Rightarrow> game_clocks \<Rightarrow> (string \<times> string) file_prog" where
  "runScheduledGameDay auth stopIdentity reenableIdentity actionValue reason ttl clk =
     seqp (liftp (validateAction actionValue)) (\<lambda>a.
     seqp (liftp (v_text SCE ''Game-day reason'' 200 reason)) (\<lambda>r.
     seqp inspect (\<lambda>before.
     if list_ex (\<lambda>w. sameScope (switch_scope w) globalScope \<and> enabled w) (switches before)
     then throw (SCE ''Game-day test requires an inactive global kill switch.'')
     else
       seqp (stop auth stopIdentity (enc_scope globalScope) (JStr (r @ '' stop drill'')) (clk_stop clk)) (\<lambda>_.
       seqp (liftp (timestamp_now safety_store (clk_stopped clk))) (\<lambda>stoppedAt.
       seqp (admitMustFail a ttl (clk_admit clk)) (\<lambda>_.
       seqp (reenable auth reenableIdentity (enc_scope globalScope) (JStr (r @ '' recovery drill'')) (clk_reenable clk)) (\<lambda>_.
       seqp (liftp (timestamp_now safety_store (clk_reenabled clk))) (\<lambda>reenabledAt.
       seqp (mutate_store safety_store (\<lambda>now. appendAudit ''game_day.passed'' (ledgerKey a) r now None) (clk_final clk)) (\<lambda>_.
       ret (stoppedAt, reenabledAt))))))))))"

end
