(* ===== verification/Safety_Frame.thy ===== *)
theory Safety_Frame
  imports Safety_Controller
begin

text \<open>
  What the write of a state keeps of it.  Every \<open>mutate\<close> writes
  \<open>validateState(state)\<close>, and a state the validators accept is written as it is but
  for trimmed texts and the dropped metadata of closed circuits: \<open>norm_state\<close>.  The
  lemma \<open>safety_mutateE\<close> inverts a successful call to the state read and the state
  written; the frames at the end (locale \<open>frame\<close>) say what no operation touches.
\<close>

section \<open>The written form of a record\<close>

definition norm_switch :: "SafetySwitch \<Rightarrow> SafetySwitch" where
  "norm_switch w = w\<lparr>switch_reason := trim (switch_reason w)\<rparr>"

definition norm_circuit :: "SafetyCircuit \<Rightarrow> SafetyCircuit" where
  "norm_circuit c =
     (case circuit_state c of
        Closed \<Rightarrow> c\<lparr>openedAt := None, circuit_reason := None\<rparr>
      | Open \<Rightarrow> c\<lparr>circuit_reason := map_option trim (circuit_reason c)\<rparr>)"

definition norm_outcome :: "SafetyOutcome \<Rightarrow> SafetyOutcome" where
  "norm_outcome r = r\<lparr>outcome_reason := map_option trim (outcome_reason r)\<rparr>"

definition norm_ledger :: "LedgerEntry \<Rightarrow> LedgerEntry" where
  "norm_ledger e = e\<lparr>ledger_key := trim (ledger_key e), outcome := map_option norm_outcome (outcome e)\<rparr>"

definition norm_dead_letter :: "SafetyDeadLetter \<Rightarrow> SafetyDeadLetter" where
  "norm_dead_letter d = d\<lparr>dead_reason := trim (dead_reason d)\<rparr>"

definition norm_audit :: "SafetyAuditRecord \<Rightarrow> SafetyAuditRecord" where
  "norm_audit r = r\<lparr>event := trim (event r), subject := trim (subject r), audit_reason := trim (audit_reason r)\<rparr>"

definition norm_state :: "SafetyControllerState \<Rightarrow> SafetyControllerState" where
  "norm_state st =
     st\<lparr>switches := map norm_switch (switches st), circuits := map norm_circuit (circuits st),
        ledger := map norm_ledger (ledger st), deadLetters := map norm_dead_letter (deadLetters st),
        audit := map norm_audit (audit st)\<rparr>"

lemma v_text_trim: "v_text mk label n (JStr t) = Inr s \<Longrightarrow> s = trim t"
  by (simp add: v_text_JStr)

lemma validateScope_norm: "validateScope (enc_scope s) = Inr s' \<Longrightarrow> s' = s"
  unfolding validateScope_def enc_scope_def
  by (cases s; cases "scope_id s"; cases "scope_kind s")
    (auto elim!: andThenE simp: v_identifier_eq v_object_eq simp del: kind_of_name.simps split: if_splits)

lemma validateCosts_norm: "enc_costs c = JObj ob \<Longrightarrow> validateCosts ob = Inr c' \<Longrightarrow> c' = c"
  unfolding validateCosts_def enc_costs_def
  by (cases c) (auto elim!: andThenE simp: v_nonNegative_eq)

lemma validateAction_norm: "validateAction (enc_action a) = Inr a' \<Longrightarrow> a' = a"
  unfolding validateAction_def enc_action_def
  by (cases a)
    (auto elim!: andThenE simp: v_identifier_eq v_hash_eq v_object_eq dest: validateCosts_norm
      simp del: risk_of_name.simps)

lemma validateSwitch_norm: "validateSwitch (enc_switch w) = Inr w' \<Longrightarrow> w' = norm_switch w"
  unfolding validateSwitch_def enc_switch_def norm_switch_def
  by (cases w) (auto elim!: andThenE simp: v_identifier_eq v_timestamp_eq v_object_eq
      dest!: validateScope_norm v_text_trim)


lemma validateCircuit_norm: "validateCircuit (enc_circuit c) = Inr c' \<Longrightarrow> c' = norm_circuit c"
  unfolding validateCircuit_def enc_circuit_def norm_circuit_def Let_def
  by (cases c; cases "circuit_state c"; cases "openedAt c"; cases "circuit_reason c")
    (auto elim!: andThenE simp: v_identifier_eq v_timestamp_eq v_object_eq v_positive_eq v_nonNegative_eq
      dest!: validateScope_norm v_text_trim split: if_splits)

lemma validateOutcome_norm: "validateOutcome (enc_outcome r) = Inr r' \<Longrightarrow> r' = norm_outcome r"
  unfolding validateOutcome_def enc_outcome_def norm_outcome_def
  by (cases r; cases "outcome_reason r")
    (auto elim!: andThenE simp: v_object_eq v_nonNegative_eq dest!: v_text_trim split: if_splits)

lemma status_of_enc [simp]: "status_of_name (enc_status s) = Some s"
  by (cases s) auto

lemma validateLedger_norm: "validateLedger (enc_ledger e) = Inr e' \<Longrightarrow> e' = norm_ledger e"
  unfolding validateLedger_def enc_ledger_def norm_ledger_def
  by (cases e; cases "completedAt e"; cases "outcome e")
    (auto elim!: andThenE simp: v_timestamp_eq v_object_eq
      dest!: validateAction_norm validateOutcome_norm v_text_trim split: if_splits)

lemma validateQueueItem_norm: "validateQueueItem (enc_queue_item q) = Inr q' \<Longrightarrow> q' = q"
  unfolding validateQueueItem_def enc_queue_item_def
  by (cases q) (auto elim!: andThenE simp: v_identifier_eq v_timestamp_eq v_object_eq dest!: validateAction_norm)

lemma validateDeadLetter_norm: "validateDeadLetter (enc_dead_letter d) = Inr d' \<Longrightarrow> d' = norm_dead_letter d"
  unfolding validateDeadLetter_def enc_dead_letter_def norm_dead_letter_def
  by (cases d; cases "dead_item d")
    (auto elim!: andThenE simp: v_identifier_eq v_timestamp_eq v_object_eq dest!: validateAction_norm v_text_trim)

lemma validateAudit_norm: "validateAudit (enc_audit r) = Inr r' \<Longrightarrow> r' = norm_audit r"
  unfolding validateAudit_def enc_audit_def audit_base_def norm_audit_def
  by (cases r; cases "actorPrincipalId r")
    (auto elim!: andThenE simp: v_identifier_eq v_timestamp_eq v_object_eq v_hash_eq v_positive_eq
      dest!: v_text_trim split: if_splits)

lemma parse_limit_norm: "jget ls k = limit_json p \<Longrightarrow> parse_limit ls k = Inr q \<Longrightarrow> q = p"
  by (cases p) (auto simp: parse_limit_def limit_json_def v_nonNegative_eq elim!: andThenE)

lemma mapM_limits_norm:
  "map (jget ls) ks = map limit_json ps \<Longrightarrow> mapM (parse_limit ls) ks = Inr qs \<Longrightarrow> qs = ps"
  by (induction ks arbitrary: ps qs) (auto elim!: andThenE dest: parse_limit_norm)

lemma mapM_norm:
  assumes "mapM f (map g xs) = Inr ys" and "\<And>x y. f (g x) = Inr y \<Longrightarrow> y = h x"
  shows "ys = map h xs"
  using assms(1) by (induction xs arbitrary: ys) (auto elim!: andThenE dest: assms(2))

lemma validateBudget_norm:
  assumes "validateBudget (enc_budget b) = Inr b'"
  shows "b' = b"
proof -
  obtain ob where ob: "enc_limits (limits b) = JObj ob" by (simp add: enc_limits_def)
  obtain p where p: "mapM (parse_limit ob) LIMIT_KEYS = Inr p"
    "b' = b\<lparr>limits := \<lparr>lim_monetaryAmountMinor = p ! 0, lim_requests = p ! 1,
       lim_messages = p ! 2, lim_mutations = p ! 3, lim_deletes = p ! 4,
       lim_tokenCost = p ! 5, lim_concurrency = p ! 6, lim_velocity = p ! 7\<rparr>\<rparr>"
    using assms unfolding validateBudget_def enc_budget_def ob
    by (cases b) (auto elim!: andThenE simp: v_identifier_eq v_object_eq v_positive_eq
        dest!: validateScope_norm split: if_splits)
  have "p = limit_list (limits b)" using limit_jget [OF ob] p(1) by (rule mapM_limits_norm)
  then show ?thesis using p(2) by (cases b; cases "limits b") (simp add: limit_list_def)
qed


section \<open>The written form of a state\<close>

lemma validateState_norm:
  assumes "validateState (enc_state st) = Inr st'"
  shows "st' = norm_state st"
  using assms unfolding validateState_def enc_state_def norm_state_def
  apply (elim andThenE)
  apply (simp only: split: if_splits)
   apply simp
  apply (elim andThenE)
  apply (simp add: v_object_eq v_array_eq v_hash_eq)
  apply (elim conjE)
  apply (clarsimp)
  apply (drule mapM_norm [OF _ validateSwitch_norm] mapM_norm [OF _ validateBudget_norm]
      mapM_norm [OF _ validateCircuit_norm] mapM_norm [OF _ validateLedger_norm]
      mapM_norm [OF _ validateQueueItem_norm] mapM_norm [OF _ validateDeadLetter_norm]
      mapM_norm [OF _ validateAudit_norm], assumption?)+
  apply simp
  done


text \<open>A successful call: the state it read, the state its body left, the state it wrote.\<close>

lemma safety_mutateE:
  assumes "mutate_store safety_store op now f = (Inr x, f')"
  obtains ms s s' where "now = Some ms" "read_store safety_store f = Inr s" "safety_inv s"
    "op (toISOString ms) s = (Inr x, s')" "safety_inv (norm_state s')"
    "f' = atomicWriteJson (enc_state (norm_state s'))"
  using assms safety_file.read_inv validateState_norm validateState_inv
  by (elim mutate_storeE) (metis safety_store_simps(2,3))

text \<open>What the file holds afterwards, if it can be read at all: the size limit applies to
  reading only.\<close>

lemma read_norm_state:
  assumes "safety_inv (norm_state s)"
    and "read_store safety_store (atomicWriteJson (enc_state (norm_state s))) = Inr t"
  shows "t = norm_state s"
  using assms safety_file.validate_encode [OF assms(1)]
    read_written [of "enc_state (norm_state s)" safety_store]
    read_written_too_large [of safety_store "enc_state (norm_state s)"]
  by (cases "store_bytes (enc_state (norm_state s)) \<le> maxStoreBytes safety_store") auto

section \<open>What the operations leave alone\<close>

definition switches_kept :: "SafetyControllerState \<Rightarrow> SafetyControllerState \<Rightarrow> bool" where
  "switches_kept st st' = (switches st' = switches st)"

definition audit_grows :: "SafetyControllerState \<Rightarrow> SafetyControllerState \<Rightarrow> bool" where
  "audit_grows st st' =
     (auditAnchor st' = auditAnchor st \<and>
      (\<exists>new. audit st' = audit st @ new \<and> list_all (\<lambda>r. norm_audit r = r) new))"

definition ledger_kept :: "SafetyControllerState \<Rightarrow> SafetyControllerState \<Rightarrow> bool" where
  "ledger_kept st st' = (ledger st' = ledger st \<and> budgets st' = budgets st \<and> queue st' = queue st \<and>
     deadLetters st' = deadLetters st)"

interpretation switch_frame: frame switches_kept
  by unfold_locales (simp_all add: switches_kept_def)

interpretation audit_frame: frame audit_grows
  by unfold_locales (auto simp: audit_grows_def)

interpretation ledger_frame: frame ledger_kept
  by unfold_locales (simp_all add: ledger_kept_def)

end
