(* ===== verification/Safety_Laws.thy ===== *)
theory Safety_Laws
  imports Safety_Frame
begin

text \<open>
  The laws of the safety controller's operations on its state: what each keeps of the
  switches, the ledger and the audit chain, and what each does on every branch.
\<close>

section \<open>The audit chain\<close>

lemma trim_trim_text: "v_text mk label n (JStr t) = Inr s \<Longrightarrow> trim s = s"
  using v_text_ok by (fastforce simp: ok_text_def)

lemma auditRecord_norm: "auditRecord st ev sb rs ts ac = Inr r \<Longrightarrow> norm_audit r = r"
  unfolding auditRecord_def norm_audit_def
  by (elim andThenE) (auto dest!: trim_trim_text)

lemma auditRecord_links:
  "auditRecord st ev sb rs ts ac = Inr r \<Longrightarrow>
     sequence r = length (audit st) + 1 \<and> previousHash r = lastHash st \<and> audit_hash r = Inr (recordHash r)"
  unfolding auditRecord_def audit_hash_def by (elim andThenE) auto

lemma auditRecord_fields:
  "auditRecord st ev sb rs ts ac = Inr r \<Longrightarrow>
     event r = trim ev \<and> subject r = trim sb \<and> audit_reason r = trim rs \<and> audit_timestamp r = ts \<and>
     actorPrincipalId r = ac"
  unfolding auditRecord_def
  by (cases ac) (auto elim!: andThenE simp: v_identifier_eq dest!: v_text_trim)

lemma appendAudit_cases:
  assumes "appendAudit ev sb rs ts ac st = (res, st')"
  obtains e where "res = Inl e" "st' = st"
  | r where "res = Inr ()" "st' = st\<lparr>audit := audit st @ [r]\<rparr>" "auditRecord st ev sb rs ts ac = Inr r"
      "length (audit st) < MAX_AUDIT"
  using assms by (auto simp: appendAudit_def split: if_splits sum.splits)

lemma appendAudit_Inr:
  "appendAudit ev sb rs ts ac st = (Inr u, st') \<longleftrightarrow>
     (\<exists>r. auditRecord st ev sb rs ts ac = Inr r \<and> length (audit st) < MAX_AUDIT \<and>
          st' = st\<lparr>audit := audit st @ [r]\<rparr>)"
  by (auto simp: appendAudit_def split: sum.splits)

lemma audit_chain_append:
  "audit_chain p n (xs @ ys) \<longleftrightarrow>
     audit_chain p n xs \<and> audit_chain (if xs = [] then p else recordHash (last xs)) (n + length xs) ys"
  by (induction p n xs rule: audit_chain.induct) auto

lemma appendAudit_chain:
  assumes "appendAudit ev sb rs ts ac st = (res, st')" and "audit_chain (auditAnchor st) 1 (audit st)"
  shows "audit_chain (auditAnchor st') 1 (audit st')"
  using assms(1)
proof (cases rule: appendAudit_cases)
  case (2 r)
  then show ?thesis
    using assms(2) auditRecord_links [OF 2(3)] by (simp add: audit_chain_append lastHash_def)
qed (use assms in simp)

lemma appendAudit_grows: "keeps audit_grows (appendAudit ev sb rs ts ac)"
  by (rule keepsI, erule appendAudit_cases) (auto simp: audit_grows_def auditRecord_norm)

lemma appendAudit_switches: "keeps switches_kept (appendAudit ev sb rs ts ac)"
  by (rule keepsI, erule appendAudit_cases) (auto simp: switches_kept_def)

lemma appendAudit_ledger: "keeps ledger_kept (appendAudit ev sb rs ts ac)"
  by (rule keepsI, erule appendAudit_cases) (auto simp: ledger_kept_def)

section \<open>Circuits\<close>

lemma evaluateCircuit_grows: "keeps audit_grows (evaluateCircuit i now)"
  by (rule keepsI)
    (auto simp: evaluateCircuit_def audit_frame.frame_refl split: option.splits
      dest!: keepsD [OF appendAudit_grows], auto simp: audit_grows_def)

lemma evaluateCircuit_switches: "keeps switches_kept (evaluateCircuit i now)"
  by (rule keepsI)
    (auto simp: evaluateCircuit_def switch_frame.frame_refl split: option.splits
      dest!: keepsD [OF appendAudit_switches], auto simp: switches_kept_def)

lemma evaluateCircuit_ledger: "keeps ledger_kept (evaluateCircuit i now)"
  by (rule keepsI)
    (auto simp: evaluateCircuit_def ledger_frame.frame_refl split: option.splits
      dest!: keepsD [OF appendAudit_ledger], auto simp: ledger_kept_def)

lemma assertActionAllowed_grows: "keeps audit_grows (assertActionAllowed a now)"
  unfolding assertActionAllowed_def assertNoOpenCircuit_def evaluateCircuits_def
  by (intro audit_frame.keeps_intros evaluateCircuit_grows)

lemma assertActionAllowed_switches: "keeps switches_kept (assertActionAllowed a now)"
  unfolding assertActionAllowed_def assertNoOpenCircuit_def evaluateCircuits_def
  by (intro switch_frame.keeps_intros evaluateCircuit_switches)

lemma assertActionAllowed_ledger: "keeps ledger_kept (assertActionAllowed a now)"
  unfolding assertActionAllowed_def assertNoOpenCircuit_def evaluateCircuits_def
  by (intro ledger_frame.keeps_intros evaluateCircuit_ledger)

lemma evaluateCircuits_grows: "keeps audit_grows (evaluateCircuits a now)"
  unfolding evaluateCircuits_def by (intro audit_frame.keeps_intros evaluateCircuit_grows)

lemma evaluateCircuits_switches: "keeps switches_kept (evaluateCircuits a now)"
  unfolding evaluateCircuits_def by (intro switch_frame.keeps_intros evaluateCircuit_switches)

lemma evaluateCircuits_ledger: "keeps ledger_kept (evaluateCircuits a now)"
  unfolding evaluateCircuits_def by (intro ledger_frame.keeps_intros evaluateCircuit_ledger)


section \<open>Every operation only appends to the audit\<close>

lemma audit_growsI [simp]: "auditAnchor st' = auditAnchor st \<Longrightarrow> audit st' = audit st \<Longrightarrow> audit_grows st st'"
  by (simp add: audit_grows_def)

lemma setSwitch_grows: "keeps audit_grows (setSwitch sc en rs p now)"
  by (rule keepsI) (auto simp: setSwitch_def split: option.splits if_splits)

lemma addDeadLetter_grows: "keeps audit_grows (addDeadLetter item rs now)"
  unfolding addDeadLetter_def by (intro audit_frame.keeps_intros) auto

lemma addDeadLetter_switches: "keeps switches_kept (addDeadLetter item rs now)"
  unfolding addDeadLetter_def by (intro switch_frame.keeps_intros) (auto simp: switches_kept_def)

lemma deadLetterMatchingQueued_grows: "keeps audit_grows (deadLetterMatchingQueued sc rs now)"
  unfolding deadLetterMatchingQueued_def
  by (intro audit_frame.keeps_intros addDeadLetter_grows appendAudit_grows) auto

lemma deadLetterMatchingQueued_switches: "keeps switches_kept (deadLetterMatchingQueued sc rs now)"
  unfolding deadLetterMatchingQueued_def
  by (intro switch_frame.keeps_intros addDeadLetter_switches appendAudit_switches) (auto simp: switches_kept_def)

text \<open>\<open>dequeue\<close> catches the error of the check: the state the check left goes on.\<close>

lemma keeps_catch:
  assumes "keeps R p" and "\<And>e. keeps R (h e)" and "\<And>x. keeps R (f x)" and "\<And>s t u. R s t \<Longrightarrow> R t u \<Longrightarrow> R s u"
  shows "keeps R (\<lambda>st. case p st of (Inl e, st') \<Rightarrow> h e st' | (Inr x, st') \<Rightarrow> f x st')"
proof (rule keepsI)
  fix s r s'
  assume h: "(case p s of (Inl e, st') \<Rightarrow> h e st' | (Inr x, st') \<Rightarrow> f x st') = (r, s')"
  obtain r1 s1 where p: "p s = (r1, s1)" by (cases "p s")
  with assms(1) have "R s s1" by (rule keepsD)
  with h p show "R s s'"
    by (cases r1) (auto dest!: keepsD [OF assms(2)] keepsD [OF assms(3)] intro: assms(4))
qed

definition dequeue_item :: "SafetyQueueItem \<Rightarrow> string \<Rightarrow> SafetyQueueItem option safety_prog" where
  "dequeue_item item now = (\<lambda>st.
     case assertActionAllowed (queue_action item) now st of
       (Inl e, st') \<Rightarrow>
         seqp (addDeadLetter item (error_message e) now) (\<lambda>_.
         seqp (appendAudit ''queue.dead_lettered'' (queue_id item) (error_message e) now None) (\<lambda>_.
         ret None)) st'
     | (Inr _, st') \<Rightarrow>
         seqp (appendAudit ''queue.dequeued'' (queue_id item) ''dequeued for separate re-admission'' now None) (\<lambda>_.
         ret (Some item)) st')"

lemma dequeue_op_eq:
  "dequeue_op now st =
     (case queue st of [] \<Rightarrow> (Inr None, st) | item # rest \<Rightarrow> dequeue_item item now (st\<lparr>queue := rest\<rparr>))"
  by (auto simp: dequeue_op_def dequeue_item_def split: list.split)

lemma dequeue_item_grows: "keeps audit_grows (dequeue_item item now)"
  unfolding dequeue_item_def
  by (intro keeps_catch audit_frame.keeps_intros assertActionAllowed_grows addDeadLetter_grows appendAudit_grows)
    (rule audit_frame.frame_trans)

lemma dequeue_item_switches: "keeps switches_kept (dequeue_item item now)"
  unfolding dequeue_item_def
  by (intro keeps_catch switch_frame.keeps_intros assertActionAllowed_switches addDeadLetter_switches appendAudit_switches)
    (rule switch_frame.frame_trans)

lemma dequeue_op_grows: "keeps audit_grows (dequeue_op now)"
  by (rule keepsI)
    (auto simp: dequeue_op_eq split: list.splits dest!: keepsD [OF dequeue_item_grows], auto simp: audit_grows_def)

lemma dequeue_op_switches: "keeps switches_kept (dequeue_op now)"
  by (rule keepsI)
    (auto simp: dequeue_op_eq split: list.splits dest!: keepsD [OF dequeue_item_switches], auto simp: switches_kept_def)

lemmas grows_intros =
  audit_frame.keeps_intros appendAudit_grows setSwitch_grows deadLetterMatchingQueued_grows
  assertActionAllowed_grows evaluateCircuits_grows

lemmas switches_intros =
  switch_frame.keeps_intros appendAudit_switches deadLetterMatchingQueued_switches
  assertActionAllowed_switches evaluateCircuits_switches

lemma configureBudget_grows: "keeps audit_grows (configureBudget_op oper b now)"
  unfolding configureBudget_op_def by (intro grows_intros) auto

lemma configureCircuit_grows: "keeps audit_grows (configureCircuit_op oper c now)"
  unfolding configureCircuit_op_def by (intro grows_intros) auto

lemma stop_grows: "keeps audit_grows (stop_op oper sc rs now)"
  unfolding stop_op_def by (intro grows_intros)

lemma reenable_grows: "keeps audit_grows (reenable_op oper sc rs now)"
  unfolding reenable_op_def by (intro grows_intros) auto

lemma admit_grows: "keeps audit_grows (admit_op a ttl now)"
  unfolding admit_op_def by (intro grows_intros) (auto simp: pruneExpiredLeases_def)

lemma requireActive_grows: "keeps audit_grows (requireActive key ttl now)"
  unfolding requireActive_def by (intro grows_intros)

lemma assertActive_grows: "keeps audit_grows (assertActive_op a ttl now)"
  unfolding assertActive_op_def by (intro grows_intros requireActive_grows)

lemma commitBefore_grows: "keeps audit_grows (commitBefore_op a ttl now)"
  unfolding commitBefore_op_def by (intro grows_intros requireActive_grows)

lemma commitAfter_grows: "keeps audit_grows (commitAfter_op a ttl now)"
  unfolding commitAfter_op_def by (intro grows_intros requireActive_grows)

lemma complete_grows: "keeps audit_grows (complete_op a r now)"
  unfolding complete_op_def Let_def by (intro grows_intros) auto

lemma enqueue_grows: "keeps audit_grows (enqueue_op a now)"
  unfolding enqueue_op_def Let_def by (intro grows_intros) auto

section \<open>Only \<open>stop\<close> and \<open>reenable\<close> change a switch\<close>

lemma configureBudget_switches: "keeps switches_kept (configureBudget_op oper b now)"
  unfolding configureBudget_op_def by (intro switches_intros) (auto simp: switches_kept_def)

lemma configureCircuit_switches: "keeps switches_kept (configureCircuit_op oper c now)"
  unfolding configureCircuit_op_def by (intro switches_intros) (auto simp: switches_kept_def)

lemma admit_switches: "keeps switches_kept (admit_op a ttl now)"
  unfolding admit_op_def by (intro switches_intros) (auto simp: switches_kept_def pruneExpiredLeases_def)

lemma requireActive_switches: "keeps switches_kept (requireActive key ttl now)"
  unfolding requireActive_def by (intro switches_intros)

lemma assertActive_switches: "keeps switches_kept (assertActive_op a ttl now)"
  unfolding assertActive_op_def by (intro switches_intros requireActive_switches)

lemma commitBefore_switches: "keeps switches_kept (commitBefore_op a ttl now)"
  unfolding commitBefore_op_def by (intro switches_intros requireActive_switches)

lemma commitAfter_switches: "keeps switches_kept (commitAfter_op a ttl now)"
  unfolding commitAfter_op_def by (intro switches_intros requireActive_switches)

lemma complete_switches: "keeps switches_kept (complete_op a r now)"
  unfolding complete_op_def Let_def by (intro switches_intros) (auto simp: switches_kept_def)

lemma enqueue_switches: "keeps switches_kept (enqueue_op a now)"
  unfolding enqueue_op_def Let_def by (intro switches_intros) (auto simp: switches_kept_def)

end
