(* ===== verification/Safety_Machine.thy ===== *)
theory Safety_Machine
  imports Safety_Laws
begin

text \<open>
  The safety controller as a state machine on its store file.  Every public method runs
  its body under the file lock, so what several processes do to one file is a sequence
  of these calls; \<open>commit\<close> releases the lock while the caller's operation runs and is
  two calls.  \<open>safety_trace\<close> is any such sequence, failing calls included, and the
  invariants are proved by rule induction on it.
\<close>

datatype 'i safety_call =
    CConfigureBudget 'i json clock
  | CConfigureCircuit 'i json clock
  | CStop 'i json json clock
  | CReenable 'i json json clock
  | CAdmit json clock
  | CAssertActive SafetyLease clock
  | CCommitBefore SafetyLease clock
  | CCommitAfter SafetyLease clock
  | CComplete SafetyLease json clock
  | CEnqueue json clock
  | CDequeue clock
  | CGameDayPassed SafetyAction string clock

inductive safety_step ::
  "('i \<Rightarrow> (safety_error, json) res) \<Rightarrow> int \<Rightarrow> store_file \<Rightarrow> 'i safety_call \<Rightarrow> store_file \<Rightarrow> bool"
  for auth :: "'i \<Rightarrow> (safety_error, json) res" and ttl :: int where
  step_configureBudget: "configureBudget auth i b now f = (r, f') \<Longrightarrow> safety_step auth ttl f (CConfigureBudget i b now) f'"
| step_configureCircuit: "configureCircuit auth i c now f = (r, f') \<Longrightarrow> safety_step auth ttl f (CConfigureCircuit i c now) f'"
| step_stop: "stop auth i sc rs now f = (r, f') \<Longrightarrow> safety_step auth ttl f (CStop i sc rs now) f'"
| step_reenable: "reenable auth i sc rs now f = (r, f') \<Longrightarrow> safety_step auth ttl f (CReenable i sc rs now) f'"
| step_admit: "admit j ttl now f = (r, f') \<Longrightarrow> safety_step auth ttl f (CAdmit j now) f'"
| step_assertActive: "assertActive l ttl now f = (r, f') \<Longrightarrow> safety_step auth ttl f (CAssertActive l now) f'"
| step_commitBefore:
    "mutate_store safety_store (commitBefore_op (lease_action l) ttl) now f = (r, f') \<Longrightarrow>
     safety_step auth ttl f (CCommitBefore l now) f'"
| step_commitAfter:
    "mutate_store safety_store (commitAfter_op (lease_action l) ttl) now f = (r, f') \<Longrightarrow>
     safety_step auth ttl f (CCommitAfter l now) f'"
| step_complete: "complete l j now f = (r, f') \<Longrightarrow> safety_step auth ttl f (CComplete l j now) f'"
| step_enqueue: "enqueue j now f = (r, f') \<Longrightarrow> safety_step auth ttl f (CEnqueue j now) f'"
| step_dequeue: "dequeue now f = (r, f') \<Longrightarrow> safety_step auth ttl f (CDequeue now) f'"
| step_gameDayPassed:
    "mutate_store safety_store (\<lambda>t. appendAudit ''game_day.passed'' (ledgerKey a) rs t None) now f = (r, f') \<Longrightarrow>
     safety_step auth ttl f (CGameDayPassed a rs now) f'"

inductive safety_trace ::
  "('i \<Rightarrow> (safety_error, json) res) \<Rightarrow> int \<Rightarrow> store_file \<Rightarrow> 'i safety_call list \<Rightarrow> store_file \<Rightarrow> bool"
  for auth :: "'i \<Rightarrow> (safety_error, json) res" and ttl :: int where
  trace_nil: "safety_trace auth ttl f [] f"
| trace_snoc: "safety_trace auth ttl f cs f' \<Longrightarrow> safety_step auth ttl f' c f'' \<Longrightarrow> safety_trace auth ttl f (cs @ [c]) f''"

inductive_cases safety_stepE: "safety_step auth ttl f c f'"

section \<open>Invariants of the file\<close>

text \<open>A property of the state the file holds, whenever it can be read.\<close>

definition holds :: "(SafetyControllerState \<Rightarrow> bool) \<Rightarrow> store_file \<Rightarrow> bool" where
  "holds P f = (\<forall>st. read_store safety_store f = Inr st \<longrightarrow> P st)"

lemma mutate_holds:
  assumes "mutate_store safety_store op now f = (r, f')" and "holds P f"
    and "\<And>t st x st'. op t st = (Inr x, st') \<Longrightarrow> safety_inv st \<Longrightarrow> P st \<Longrightarrow> P (norm_state st')"
  shows "holds P f'"
proof (cases r)
  case (Inl e)
  with assms(1,2) show ?thesis by (auto dest: mutate_throw_unchanged)
next
  case (Inr x)
  with assms(1) have "mutate_store safety_store op now f = (Inr x, f')" by simp
  then obtain ms s s' where h: "read_store safety_store f = Inr s" "safety_inv s"
    "op (toISOString ms) s = (Inr x, s')" "safety_inv (norm_state s')"
    "f' = atomicWriteJson (enc_state (norm_state s'))"
    by (rule safety_mutateE)
  then have "P (norm_state s')" using assms(2,3) by (auto simp: holds_def)
  then show ?thesis using h read_norm_state by (auto simp: holds_def)
qed

text \<open>The steps that go through one body: the file is untouched or the body is applied.\<close>

lemma step_holds:
  assumes "safety_step auth ttl f c f'" and "holds P f"
    and "\<And>oper b t st x st'. configureBudget_op oper b t st = (Inr x, st') \<Longrightarrow> safety_inv st \<Longrightarrow> P st \<Longrightarrow> P (norm_state st')"
    and "\<And>oper k t st x st'. configureCircuit_op oper k t st = (Inr x, st') \<Longrightarrow> safety_inv st \<Longrightarrow> P st \<Longrightarrow> P (norm_state st')"
    and "\<And>oper sc rs t st x st'. stop_op oper sc rs t st = (Inr x, st') \<Longrightarrow> safety_inv st \<Longrightarrow> P st \<Longrightarrow> P (norm_state st')"
    and "\<And>i j sc r n oper rs t st x st'. c = CReenable i j r n \<Longrightarrow> validateScope j = Inr sc \<Longrightarrow>
           reenable_op oper sc rs t st = (Inr x, st') \<Longrightarrow> safety_inv st \<Longrightarrow> P st \<Longrightarrow> P (norm_state st')"
    and "\<And>a t st x st'. admit_op a ttl t st = (Inr x, st') \<Longrightarrow> safety_inv st \<Longrightarrow> P st \<Longrightarrow> P (norm_state st')"
    and "\<And>a t st x st'. assertActive_op a ttl t st = (Inr x, st') \<Longrightarrow> safety_inv st \<Longrightarrow> P st \<Longrightarrow> P (norm_state st')"
    and "\<And>a t st x st'. commitBefore_op a ttl t st = (Inr x, st') \<Longrightarrow> safety_inv st \<Longrightarrow> P st \<Longrightarrow> P (norm_state st')"
    and "\<And>a t st x st'. commitAfter_op a ttl t st = (Inr x, st') \<Longrightarrow> safety_inv st \<Longrightarrow> P st \<Longrightarrow> P (norm_state st')"
    and "\<And>a r t st x st'. complete_op a r t st = (Inr x, st') \<Longrightarrow> safety_inv st \<Longrightarrow> P st \<Longrightarrow> P (norm_state st')"
    and "\<And>a t st x st'. enqueue_op a t st = (Inr x, st') \<Longrightarrow> safety_inv st \<Longrightarrow> P st \<Longrightarrow> P (norm_state st')"
    and "\<And>t st x st'. dequeue_op t st = (Inr x, st') \<Longrightarrow> safety_inv st \<Longrightarrow> P st \<Longrightarrow> P (norm_state st')"
    and "\<And>ev sb rs ac t st x st'. appendAudit ev sb rs t ac st = (Inr x, st') \<Longrightarrow> safety_inv st \<Longrightarrow> P st \<Longrightarrow> P (norm_state st')"
  shows "holds P f'"
  using assms(1)
proof (cases rule: safety_step.cases)
  case (step_configureBudget i b now r)
  then show ?thesis using assms(2,3)
    by (auto simp: configureBudget_def liftp_seqp split: sum.splits intro: mutate_holds)
next
  case (step_configureCircuit i k now r)
  then show ?thesis using assms(2,4)
    by (auto simp: configureCircuit_def liftp_seqp split: sum.splits intro: mutate_holds)
next
  case (step_stop i sc rs now r)
  then show ?thesis using assms(2,5)
    by (auto simp: stop_def liftp_seqp split: sum.splits intro: mutate_holds)
next
  case (step_reenable i sc rs now r)
  then show ?thesis using assms(2,6)
    by (auto simp: reenable_def liftp_seqp split: sum.splits intro: mutate_holds)
next
  case (step_admit j now r)
  then show ?thesis using assms(2,7)
    by (auto simp: admit_def liftp_def seqp_def ret_def split: sum.splits prod.splits intro: mutate_holds)
next
  case (step_assertActive l now r)
  then show ?thesis using assms(2,8)
    by (auto simp: assertActive_def ret_def split: if_splits intro: mutate_holds)
next
  case (step_commitBefore l now r)
  then show ?thesis using assms(2,9) by (auto intro: mutate_holds)
next
  case (step_commitAfter l now r)
  then show ?thesis using assms(2,10) by (auto intro: mutate_holds)
next
  case (step_complete l j now r)
  then show ?thesis using assms(2,11)
    by (auto simp: complete_def ret_def liftp_seqp split: sum.splits if_splits intro: mutate_holds)
next
  case (step_enqueue j now r)
  then show ?thesis using assms(2,12)
    by (auto simp: enqueue_def liftp_seqp split: sum.splits intro: mutate_holds)
next
  case (step_dequeue now r)
  then show ?thesis using assms(2,13) by (auto simp: dequeue_def intro: mutate_holds)
next
  case (step_gameDayPassed a rs now r)
  then show ?thesis using assms(2,14) by (auto intro: mutate_holds)
qed

lemma trace_holds:
  assumes "safety_trace auth ttl f cs f'" and "holds P f"
    and "\<And>g c g'. c \<in> set cs \<Longrightarrow> safety_step auth ttl g c g' \<Longrightarrow> holds P g \<Longrightarrow> holds P g'"
  shows "holds P f'"
  using assms by (induction rule: safety_trace.induct) auto


section \<open>The audit only grows\<close>

lemma norm_audit_ok: "ok_audit r \<Longrightarrow> norm_audit r = r"
  by (cases r) (simp add: norm_audit_def ok_audit_def ok_text_def)

lemma audit_grows_norm:
  assumes "audit_grows st0 st" and "audit_grows st st'" and "safety_inv st0"
  shows "audit_grows st0 (norm_state st')"
proof -
  have g: "audit_grows st0 st'" using assms(1,2) by (rule audit_frame.frame_trans)
  moreover have "map norm_audit (audit st0) = audit st0"
    using assms(3) by (intro map_idI) (auto simp: safety_inv_def list_all_iff norm_audit_ok)
  ultimately show ?thesis
    by (auto simp: audit_grows_def norm_state_def list_all_iff intro: map_idI)
qed

lemma grows_step:
  "keeps audit_grows p \<Longrightarrow> safety_inv st0 \<Longrightarrow> p st = (r, st') \<Longrightarrow> audit_grows st0 st \<Longrightarrow> audit_grows st0 (norm_state st')"
  by (blast intro: audit_grows_norm keepsD)

lemma step_grows:
  assumes "safety_step auth ttl f c f'" and "holds (audit_grows st0) f" and "safety_inv st0"
  shows "holds (audit_grows st0) f'"
  using assms(1,2)
  by (rule step_holds)
    (erule (1) grows_step [OF configureBudget_grows assms(3)] grows_step [OF configureCircuit_grows assms(3)]
       grows_step [OF stop_grows assms(3)] grows_step [OF reenable_grows assms(3)]
       grows_step [OF admit_grows assms(3)] grows_step [OF assertActive_grows assms(3)]
       grows_step [OF commitBefore_grows assms(3)] grows_step [OF commitAfter_grows assms(3)]
       grows_step [OF complete_grows assms(3)] grows_step [OF enqueue_grows assms(3)]
       grows_step [OF dequeue_op_grows assms(3)] grows_step [OF appendAudit_grows assms(3)])+

section \<open>A stopped scope stays stopped\<close>

definition stopped :: "SafetyScope \<Rightarrow> SafetyControllerState \<Rightarrow> bool" where
  "stopped sc st = (\<exists>w \<in> set (switches st). switch_scope w = sc \<and> enabled w)"

lemma sameScope_eq [simp]: "sameScope s t \<longleftrightarrow> s = t"
  by (cases s; cases t) (simp add: sameScope_def)

lemma stopped_norm [simp]: "stopped sc (norm_state st) = stopped sc st"
  by (auto simp: stopped_def norm_state_def norm_switch_def)

lemma stopped_frame: "switches_kept st st' \<Longrightarrow> stopped sc st' = stopped sc st"
  by (simp add: stopped_def switches_kept_def)

lemma setSwitch_stopped:
  assumes "setSwitch sc' True rs pr now st = (Inr u, st')"
  shows "stopped sc' st'" and "stopped sc st \<Longrightarrow> stopped sc st'"
proof -
  show "stopped sc' st'"
  proof (cases "List.find (\<lambda>w. sameScope (switch_scope w) sc') (switches st)")
    case None
    show ?thesis using assms unfolding setSwitch_def None by (auto simp: stopped_def split: if_splits)
  next
    case (Some w)
    show ?thesis using assms unfolding setSwitch_def Some stopped_def
      by (auto intro!: updateFirst_hit [OF Some [unfolded sameScope_eq]])
  qed
  show "stopped sc st \<Longrightarrow> stopped sc st'"
    using assms unfolding setSwitch_def stopped_def
    by (auto split: option.splits if_splits intro!: updateFirst_keep)
qed

lemma stop_op_stopped:
  assumes "stop_op oper sc' rs now st = (Inr u, st')"
  shows "stopped sc' st'" and "stopped sc st \<Longrightarrow> stopped sc st'"
proof -
  obtain s1 s2 where h: "setSwitch sc' True rs (principalId oper) now st = (Inr (), s1)"
    "deadLetterMatchingQueued sc' rs now s1 = (Inr (), s2)"
    "appendAudit ''kill_switch.stopped'' (scopeKey sc') rs now (Some (principalId oper)) s2 = (Inr u, st')"
    using assms by (auto simp: stop_op_def seqp_eq_Inr)
  have "stopped q st' = stopped q s1" for q
    using stopped_frame keepsD [OF deadLetterMatchingQueued_switches h(2)] keepsD [OF appendAudit_switches h(3)]
    by metis
  then show "stopped sc' st'" and "stopped sc st \<Longrightarrow> stopped sc st'"
    using setSwitch_stopped [OF h(1)] by auto
qed

lemma reenable_op_Inr:
  assumes "reenable_op oper sc rs now st = (Inr u, st')"
  obtains w where "List.find (\<lambda>w. sameScope (switch_scope w) sc) (switches st) = Some w" "enabled w"
    "switches st' = updateFirst (\<lambda>w. sameScope (switch_scope w) sc)
       (\<lambda>w. w\<lparr>enabled := False, changedAt := now, changedBy := principalId oper, switch_reason := rs\<rparr>) (switches st)"
proof (cases "List.find (\<lambda>w. sameScope (switch_scope w) sc) (switches st)")
  case None
  then show ?thesis using assms unfolding reenable_op_def getp_def None by (simp add: throw_def)
next
  case (Some w)
  then show ?thesis using assms that unfolding reenable_op_def getp_def Some
    by (auto simp: throw_def modifyp_def res_simps appendAudit_Inr split: if_splits)
qed

lemma reenable_op_stopped:
  assumes "reenable_op oper sc' rs now st = (Inr u, st')" and "sc' \<noteq> sc" and "stopped sc st"
  shows "stopped sc st'"
  using assms unfolding stopped_def
  by (elim reenable_op_Inr) (auto intro!: updateFirst_keep)

lemma stopped_step:
  "keeps switches_kept p \<Longrightarrow> p st = (r, st') \<Longrightarrow> stopped sc st \<Longrightarrow> stopped sc (norm_state st')"
  using stopped_frame [of st st' sc] keepsD [of switches_kept p st r st'] by simp

lemma step_stopped:
  assumes "safety_step auth ttl f c f'" and "holds (stopped sc) f"
    and "\<And>i j r n. c = CReenable i j r n \<Longrightarrow> validateScope j \<noteq> Inr sc"
  shows "holds (stopped sc) f'"
  using assms(1,2)
proof (rule step_holds)
  fix i j sc' r n oper rs t st st' and x :: unit
  assume "c = CReenable i j r n" "validateScope j = Inr sc'" "reenable_op oper sc' rs t st = (Inr x, st')" "stopped sc st"
  then show "stopped sc (norm_state st')" using assms(3) reenable_op_stopped by fastforce
next
  fix oper sc' rs t st st' and x :: unit
  assume "stop_op oper sc' rs t st = (Inr x, st')" "stopped sc st"
  then show "stopped sc (norm_state st')" by (simp add: stop_op_stopped)
qed (erule (1) stopped_step [OF configureBudget_switches] stopped_step [OF configureCircuit_switches]
      stopped_step [OF admit_switches] stopped_step [OF assertActive_switches]
      stopped_step [OF commitBefore_switches] stopped_step [OF commitAfter_switches]
      stopped_step [OF complete_switches] stopped_step [OF enqueue_switches]
      stopped_step [OF dequeue_op_switches] stopped_step [OF appendAudit_switches])+

end
