(* ===== verification/Safety_Admit.thy ===== *)
theory Safety_Admit
  imports Safety_Machine
begin

text \<open>
  The checks an admission goes through, each against its specification: the kill
  switches and circuit breakers (\<open>assertActionAllowed\<close> passes exactly when no
  matching control is tripped, and then changes nothing), the budgets (the
  double-precision sums compare as exact ones: \<open>within_budget\<close>), and the admission
  itself, branch by branch.
\<close>

section \<open>Switches and circuits\<close>

lemma assertActionAllowed_stopped:
  "activeSwitch st a = Some w \<Longrightarrow> assertActionAllowed a now st = (Inl (killSwitchError w), st)"
  by (simp add: assertActionAllowed_def getp_def throw_def)

lemma stopped_activeSwitch:
  assumes "stopped sc st" and "scopeMatches sc a"
  shows "\<exists>w. activeSwitch st a = Some w \<and> enabled w \<and> scopeMatches (switch_scope w) a"
proof -
  have "activeSwitch st a \<noteq> None" using assms by (auto simp: activeSwitch_def stopped_def)
  then obtain w where "activeSwitch st a = Some w" by blast
  then show ?thesis using find_SomeD by (fastforce simp: activeSwitch_def)
qed

text \<open>No matching circuit is open or has tripped.\<close>

definition circuits_quiet :: "SafetyControllerState \<Rightarrow> SafetyAction \<Rightarrow> string \<Rightarrow> bool" where
  "circuits_quiet st a now =
     (\<forall>c \<in> set (circuits st). scopeMatches (circuit_scope c) a \<longrightarrow>
        circuit_state c = Closed \<and> circuitReason st c now = None)"

definition open_at :: "SafetyAction \<Rightarrow> nat \<Rightarrow> SafetyControllerState \<Rightarrow> bool" where
  "open_at a i st =
     (i < length (circuits st) \<and> circuit_state (circuits st ! i) = Open \<and>
      scopeMatches (circuit_scope (circuits st ! i)) a)"

lemma appendAudit_circuits: "appendAudit ev sb rs ts ac st = (r, st') \<Longrightarrow> circuits st' = circuits st"
  by (auto elim: appendAudit_cases)

lemma evaluateCircuit_open:
  "evaluateCircuit i now st = (r, st') \<Longrightarrow> open_at a k st \<Longrightarrow> open_at a k st'"
  by (cases "k = i")
    (auto simp: evaluateCircuit_def open_at_def split: option.splits dest!: appendAudit_circuits)

definition check_one :: "SafetyAction \<Rightarrow> string \<Rightarrow> nat \<Rightarrow> unit safety_prog" where
  "check_one a now i =
     getp (\<lambda>st. if circuit_state (circuits st ! i) = Closed \<and> scopeMatches (circuit_scope (circuits st ! i)) a
                 then evaluateCircuit i now else ret ())"

lemma evaluateCircuits_check_one:
  "evaluateCircuits a now st = forp [0..<length (circuits st)] (check_one a now) st"
  unfolding evaluateCircuits_def check_one_def getp_def [where f = "\<lambda>s. forp _ _"] by (simp add: getp_def)

lemma check_one_open: "check_one a now i st = (r, st') \<Longrightarrow> open_at a k st \<Longrightarrow> open_at a k st'"
  by (auto simp: check_one_def getp_def ret_def split: if_splits dest: evaluateCircuit_open)

lemma check_one_result:
  assumes "check_one a now i st = (Inr u, st')" and "i < length (circuits st)"
  shows "open_at a i st' \<or>
    st' = st \<and> (scopeMatches (circuit_scope (circuits st ! i)) a \<longrightarrow>
      circuit_state (circuits st ! i) = Closed \<and> circuitReason st (circuits st ! i) now = None)"
  using assms
  by (cases "circuit_state (circuits st ! i)")
    (auto simp: check_one_def getp_def ret_def evaluateCircuit_def open_at_def
      split: if_splits option.splits dest!: appendAudit_circuits)

lemma check_all_result:
  assumes "forp is (check_one a now) st = (Inr u, st')" and "\<forall>i \<in> set is. i < length (circuits st)"
  shows "(\<exists>k. open_at a k st') \<or>
    st' = st \<and> (\<forall>i \<in> set is. scopeMatches (circuit_scope (circuits st ! i)) a \<longrightarrow>
      circuit_state (circuits st ! i) = Closed \<and> circuitReason st (circuits st ! i) now = None)"
  using assms
proof (induction "is" arbitrary: st)
  case (Cons i "is")
  then obtain v s1 where s1: "check_one a now i st = (Inr v, s1)" "forp is (check_one a now) s1 = (Inr u, st')"
    by (auto simp: res_simps)
  have keep: "open_at a k s1 \<Longrightarrow> open_at a k st'" for k
    using s1(2) by (rule forp_preserves [where I = "open_at a k", rotated 2]) (auto intro: check_one_open)
  from check_one_result [OF s1(1)] Cons.prems(2) consider "open_at a i s1"
    | "s1 = st" "scopeMatches (circuit_scope (circuits st ! i)) a \<longrightarrow>
      circuit_state (circuits st ! i) = Closed \<and> circuitReason st (circuits st ! i) now = None"
    by auto
  then show ?case
  proof cases
    case 2
    then show ?thesis using Cons.IH [of s1] s1(2) Cons.prems(2) by auto
  qed (use keep in blast)
qed (simp add: ret_def)

lemma open_at_openCircuit: "open_at a k st \<Longrightarrow> openCircuit st a \<noteq> None"
  by (auto simp: open_at_def openCircuit_def)

lemma openCircuit_None:
  "openCircuit st a = None \<longleftrightarrow>
     (\<forall>c \<in> set (circuits st). scopeMatches (circuit_scope c) a \<longrightarrow> circuit_state c = Closed)"
  by (auto simp: openCircuit_def intro: CircuitState.exhaust)

text \<open>The check passes only when no control is tripped, and then leaves the state alone.\<close>

lemma assertActionAllowed_Inr:
  assumes "assertActionAllowed a now st = (Inr u, st')"
  shows "st' = st \<and> activeSwitch st a = None \<and> circuits_quiet st a now"
proof -
  from assms have sw: "activeSwitch st a = None"
    by (cases "activeSwitch st a") (auto simp: assertActionAllowed_def getp_def throw_def)
  from assms sw obtain s1 where h: "openCircuit st a = None" "evaluateCircuits a now st = (Inr (), s1)"
    "openCircuit s1 a = None" "st' = s1"
    by (auto simp: assertActionAllowed_def assertNoOpenCircuit_def getp_def throw_def ret_def res_simps
        split: option.splits)
  have "(\<exists>k. open_at a k s1) \<or>
    s1 = st \<and> (\<forall>i \<in> set [0..<length (circuits st)]. scopeMatches (circuit_scope (circuits st ! i)) a \<longrightarrow>
      circuit_state (circuits st ! i) = Closed \<and> circuitReason st (circuits st ! i) now = None)"
    using h(2) unfolding evaluateCircuits_check_one by (rule check_all_result) simp
  then show ?thesis
    using h(3,4) sw open_at_openCircuit by (fastforce simp: circuits_quiet_def in_set_conv_nth)
qed

lemma check_one_quiet:
  assumes "circuits_quiet st a now" and "i < length (circuits st)"
  shows "check_one a now i st = (Inr (), st)"
  using assms
  by (auto simp: check_one_def getp_def ret_def evaluateCircuit_def circuits_quiet_def)

lemma check_all_quiet:
  "circuits_quiet st a now \<Longrightarrow> \<forall>i \<in> set is. i < length (circuits st) \<Longrightarrow>
   forp is (check_one a now) st = (Inr (), st)"
  by (induction "is") (auto simp: ret_def check_one_quiet)

lemma assertActionAllowed_quiet:
  assumes "activeSwitch st a = None" and "circuits_quiet st a now"
  shows "assertActionAllowed a now st = (Inr (), st)"
proof -
  have "openCircuit st a = None" using assms(2) by (auto simp: openCircuit_None circuits_quiet_def)
  moreover have "evaluateCircuits a now st = (Inr (), st)"
    using assms(2) unfolding evaluateCircuits_check_one by (intro check_all_quiet) auto
  ultimately show ?thesis
    using assms(1) by (simp add: assertActionAllowed_def assertNoOpenCircuit_def getp_def ret_def)
qed


section \<open>Budgets\<close>

text \<open>What a budget promises, in exact arithmetic.\<close>

fun under_limit :: "nat option \<Rightarrow> nat \<Rightarrow> bool" where
  "under_limit None n = True"
| "under_limit (Some l) n = (n \<le> l)"

definition spent :: "(SafetyCosts \<Rightarrow> nat) \<Rightarrow> LedgerEntry list \<Rightarrow> nat" where
  "spent g es = sum_list (map (\<lambda>e. g (costs (ledger_action e))) es)"

definition within_budget :: "SafetyControllerState \<Rightarrow> SafetyAction \<Rightarrow> string \<Rightarrow> SafetyBudget \<Rightarrow> bool" where
  "within_budget st a now b =
     (let es = windowEntries st (budget_scope b) now (budget_windowMs b);
          fast = windowEntries st (budget_scope b) now (velocityWindowMs b);
          l = limits b
      in under_limit (lim_monetaryAmountMinor l) (spent monetaryAmountMinor es + monetaryAmountMinor (costs a)) \<and>
         under_limit (lim_requests l) (spent requests es + requests (costs a)) \<and>
         under_limit (lim_messages l) (spent messages es + messages (costs a)) \<and>
         under_limit (lim_mutations l) (spent mutations es + mutations (costs a)) \<and>
         under_limit (lim_deletes l) (spent deletes es + deletes (costs a)) \<and>
         under_limit (lim_tokenCost l) (spent tokenCost es + tokenCost (costs a)) \<and>
         under_limit (lim_concurrency l) (length (filter (\<lambda>e. ledger_status e = Reserved) es) + 1) \<and>
         under_limit (lim_velocity l) (spent requests fast + requests (costs a)))"

lemma checkLimit_exact:
  assumes "g \<in> set cost_fields" and "ok_limit lim"
  shows "checkLimit b key lim (g (sumCosts (map (\<lambda>e. costs (ledger_action e)) es))) c = Inr u \<longleftrightarrow>
    under_limit lim (spent g es + c)"
  using assms sumCosts_compare [OF assms(1), of _ "map (\<lambda>e. costs (ledger_action e)) es" c]
  by (cases lim) (auto simp: checkLimit_def res_simps spent_def comp_def not_less)

lemma cost_fields_mem [simp]:
  "monetaryAmountMinor \<in> set cost_fields" "requests \<in> set cost_fields" "messages \<in> set cost_fields"
  "mutations \<in> set cost_fields" "deletes \<in> set cost_fields" "tokenCost \<in> set cost_fields"
  by (simp_all add: cost_fields_def)

lemma checkVelocity_exact:
  assumes "ok_limit lim"
  shows "(case lim of None \<Rightarrow> Inr () | Some n \<Rightarrow>
      throwIf (js_add (requests (sumCosts (map (\<lambda>e. costs (ledger_action e)) es))) c > n) err) = Inr u \<longleftrightarrow>
    under_limit lim (spent requests es + c)"
  using assms sumCosts_compare [OF cost_fields_mem(2), of _ "map (\<lambda>e. costs (ledger_action e)) es" c]
  by (cases lim) (auto simp: res_simps spent_def comp_def not_less)

lemma checkConcurrency_exact:
  "(case lim of None \<Rightarrow> Inr () | Some n \<Rightarrow> throwIf (k + 1 > n) err) = Inr u \<longleftrightarrow> under_limit lim (k + 1)"
  by (cases lim) (auto simp: res_simps)

lemma assertBudget_exact:
  assumes "ok_budget b"
  shows "assertBudget st a now b = Inr u \<longleftrightarrow> (scopeMatches (budget_scope b) a \<longrightarrow> within_budget st a now b)"
proof -
  have l: "ok_limit (lim_monetaryAmountMinor (limits b))" "ok_limit (lim_requests (limits b))"
    "ok_limit (lim_messages (limits b))" "ok_limit (lim_mutations (limits b))" "ok_limit (lim_deletes (limits b))"
    "ok_limit (lim_tokenCost (limits b))" "ok_limit (lim_velocity (limits b))"
    using assms by (simp_all add: ok_budget_def limit_list_def)
  show ?thesis
    by (auto simp: assertBudget_def within_budget_def Let_def andThen_eq_Inr checkLimit_exact
        checkVelocity_exact checkConcurrency_exact l)
qed

definition budgets_allow :: "SafetyControllerState \<Rightarrow> SafetyAction \<Rightarrow> string \<Rightarrow> bool" where
  "budgets_allow st a now =
     (\<forall>b \<in> set (budgets st). scopeMatches (budget_scope b) a \<longrightarrow> within_budget st a now b)"

lemma mapM_unit_Inr: "(\<exists>ys. mapM f xs = Inr ys) \<longleftrightarrow> (\<forall>x \<in> set xs. \<exists>y. f x = Inr y)"
  by (induction xs) (auto simp: andThen_eq_Inr)

lemma assertBudgets_exact:
  assumes "list_all ok_budget (budgets st)"
  shows "assertBudgets st a now = Inr u \<longleftrightarrow> budgets_allow st a now"
  using assms mapM_unit_Inr [of "assertBudget st a now" "budgets st"]
  by (auto simp: assertBudgets_def budgets_allow_def andThen_eq_Inr assertBudget_exact list_all_iff)

section \<open>Admission\<close>

definition reservation :: "SafetyAction \<Rightarrow> string \<Rightarrow> LedgerEntry" where
  "reservation a now =
     \<lparr>ledger_key = ledgerKey a, ledger_action = a, ledger_status = Reserved, admittedAt = now,
      completedAt = None, outcome = None\<rparr>"

definition collides :: "SafetyControllerState \<Rightarrow> SafetyAction \<Rightarrow> bool" where
  "collides st a =
     (\<exists>e. List.find (\<lambda>e. idempotencyKey (ledger_action e) = idempotencyKey a) (ledger st) = Some e \<and>
          actionHash (ledger_action e) \<noteq> actionHash a)"

definition recorded :: "SafetyControllerState \<Rightarrow> SafetyAction \<Rightarrow> bool" where
  "recorded st a = (\<exists>e \<in> set (ledger st). ledger_key e = ledgerKey a)"

lemma admit_op_collides:
  "collides (pruneExpiredLeases now ttl st) a \<Longrightarrow>
   fst (admit_op a ttl now st) = Inl (SCE ''Safety idempotency key collides with a different action hash.'')"
  by (auto simp: admit_op_def collides_def prog_defs seqp_def)

lemma admit_op_replay:
  assumes "\<not> collides (pruneExpiredLeases now ttl st) a" and "recorded (pruneExpiredLeases now ttl st) a"
  shows "admit_op a ttl now st = (Inr True, pruneExpiredLeases now ttl st)"
  using assms by (auto simp: admit_op_def collides_def recorded_def prog_defs seqp_def split: option.splits)

lemma admit_op_fresh:
  assumes "\<not> collides (pruneExpiredLeases now ttl st) a" and "\<not> recorded (pruneExpiredLeases now ttl st) a"
  shows "admit_op a ttl now st =
    seqp (assertActionAllowed a now) (\<lambda>_.
    getp (\<lambda>st1.
      if length (ledger st1) \<ge> MAX_LEDGER then throw (SCE ''Safety ledger limit was reached.'')
      else
        seqp (liftp (assertBudgets st1 a now)) (\<lambda>_.
        seqp (modifyp (\<lambda>s. s\<lparr>ledger := ledger s @ [reservation a now]\<rparr>)) (\<lambda>_.
        seqp (appendAudit ''action.admitted'' (ledgerKey a) ''budget reservation created'' now None) (\<lambda>_.
        ret False))))) (pruneExpiredLeases now ttl st)"
proof -
  have "List.find (\<lambda>e. ledger_key e = ledgerKey a) (ledger (pruneExpiredLeases now ttl st)) = None"
    using assms(2) by (auto simp: recorded_def)
  with assms(1) show ?thesis
    unfolding admit_op_def reservation_def
    by (auto simp: collides_def modifyp_def [of "pruneExpiredLeases now ttl"] getp_def split: option.splits)
qed

lemma trim_admitted: "trim ''action.admitted'' = ''action.admitted''"
  by code_simp

lemma admit_op_Inr_False:
  assumes "admit_op a ttl now st = (Inr False, st')" and "list_all ok_budget (budgets st)"
  defines "st1 \<equiv> pruneExpiredLeases now ttl st"
  shows "\<not> collides st1 a" and "\<not> recorded st1 a" and "activeSwitch st a = None"
    and "circuits_quiet st1 a now" and "budgets_allow st1 a now" and "length (ledger st1) < MAX_LEDGER"
    and "\<exists>r. st' = st1\<lparr>ledger := ledger st1 @ [reservation a now], audit := audit st @ [r]\<rparr> \<and>
             event r = ''action.admitted'' \<and> norm_audit r = r"
proof -
  show c: "\<not> collides st1 a"
    using admit_op_collides [of now ttl st a] assms(1) by (auto simp: st1_def)
  show n: "\<not> recorded st1 a"
    using admit_op_replay [of now ttl st a] assms(1) c by (auto simp: st1_def)
  have b: "list_all ok_budget (budgets st1)" using assms(2) by (simp add: st1_def pruneExpiredLeases_def)
  obtain s2 r where h: "assertActionAllowed a now st1 = (Inr (), s2)" "length (ledger s2) < MAX_LEDGER"
    "assertBudgets s2 a now = Inr ()"
    "auditRecord (s2\<lparr>ledger := ledger s2 @ [reservation a now]\<rparr>) ''action.admitted'' (ledgerKey a)
       ''budget reservation created'' now None = Inr r"
    "st' = s2\<lparr>ledger := ledger s2 @ [reservation a now], audit := audit s2 @ [r]\<rparr>"
    using assms(1) admit_op_fresh [of now ttl st a] c n unfolding st1_def
    by (auto simp: res_simps prog_defs appendAudit_Inr split: if_splits)
  note allowed = assertActionAllowed_Inr [OF h(1)]
  then show "activeSwitch st a = None" "circuits_quiet st1 a now" "length (ledger st1) < MAX_LEDGER"
    using h(2) by (auto simp: st1_def pruneExpiredLeases_def activeSwitch_def)
  show "budgets_allow st1 a now" using h(3) allowed assertBudgets_exact [OF b] by simp
  have "audit st1 = audit st" by (simp add: st1_def pruneExpiredLeases_def)
  then show "\<exists>r. st' = st1\<lparr>ledger := ledger st1 @ [reservation a now], audit := audit st @ [r]\<rparr> \<and>
             event r = ''action.admitted'' \<and> norm_audit r = r"
    using h(4,5) allowed auditRecord_fields [OF h(4)] auditRecord_norm [OF h(4)] trim_admitted by auto
qed

end
