(* ===== verification/Safety_Live.thy ===== *)
theory Safety_Live
  imports Safety_Admit
begin

text \<open>
  When the operations succeed.  The validation at the end of \<open>mutate\<close> can refuse a
  state, so that an operation has the effect it means to have is a theorem about the
  invariant: here for the audit append, the kill switch and the admission.
\<close>

section \<open>The audit append\<close>

lemma canonical_audit_base: "\<exists>t. canonical (JObj (audit_base sq ev sb rs ac ts ph)) = Some t"
  by (cases ac) (simp_all add: audit_base_def)

lemma canonical_hash_audit: "\<exists>h. canonical_hash (audit_base sq ev sb rs ac ts ph) = Inr h \<and> ok_hash h"
  using canonical_audit_base [of sq ev sb rs ac ts ph] by (auto simp: canonical_hash_def)

lemma lastHash_ok: "safety_inv st \<Longrightarrow> ok_hash (lastHash st)"
proof -
  assume i: "safety_inv st"
  show ?thesis
  proof (cases "audit st" rule: rev_cases)
    case (snoc rs r)
    then have "ok_audit r" using i by (simp add: safety_inv_def)
    then have "ok_hash (recordHash r)" by (auto simp: ok_audit_def audit_hash_def intro: canonical_hash_hash)
    then show ?thesis using snoc by (simp add: lastHash_def)
  qed (use i in \<open>simp add: lastHash_def safety_inv_def\<close>)
qed

lemma appendAudit_succeeds:
  assumes "safety_inv st" and "length (audit st) < MAX_AUDIT" and "ok_text 80 ev" and "ok_text 300 sb"
    and "ok_text 200 rs" and "is_iso ts" and "case ac of None \<Rightarrow> True | Some p \<Rightarrow> ok_ident p"
  obtains r where "appendAudit ev sb rs ts ac st = (Inr (), st\<lparr>audit := audit st @ [r]\<rparr>)"
    "safety_inv (st\<lparr>audit := audit st @ [r]\<rparr>)"
proof -
  obtain h where h: "canonical_hash (audit_base (length (audit st) + 1) ev sb rs ac ts (lastHash st)) = Inr h"
    using canonical_hash_audit by blast
  define r where "r = \<lparr>sequence = length (audit st) + 1, event = ev, subject = sb, audit_reason = rs,
    actorPrincipalId = ac, audit_timestamp = ts, previousHash = lastHash st, recordHash = h\<rparr>"
  have rec: "auditRecord st ev sb rs ts ac = Inr r"
    using assms h unfolding auditRecord_def r_def by (cases ac) (simp_all add: validator_simps)
  have ok: "ok_audit r"
    using assms h lastHash_ok [OF assms(1)] by (simp add: r_def ok_audit_def audit_hash_def)
  have "audit_chain (auditAnchor st) 1 (audit st @ [r])"
    using assms(1) by (simp add: audit_chain_append safety_inv_def r_def lastHash_def)
  then have "safety_inv (st\<lparr>audit := audit st @ [r]\<rparr>)"
    using assms(1,2) ok by (simp add: safety_inv_def)
  then show ?thesis using that rec assms(2) by (simp add: appendAudit_def)
qed

section \<open>The kill switch\<close>

lemma scopeKey_inj:
  assumes "ok_scope s" and "ok_scope t" and "scopeKey s = scopeKey t"
  shows "s = t"
  using assms
  by (cases s; cases t; cases "scope_kind s"; cases "scope_kind t")
    (auto simp: scopeKey_def ok_scope_def split: option.splits)

lemma setSwitch_succeeds:
  assumes "safety_inv st" and "ok_scope sc" and "ok_text 200 rs" and "ok_ident pr" and "is_iso now"
    and "(\<exists>w \<in> set (switches st). switch_scope w = sc) \<or> length (switches st) < MAX_CONTROLS"
  obtains ws where "setSwitch sc en rs pr now st = (Inr (), st\<lparr>switches := ws\<rparr>)"
    "safety_inv (st\<lparr>switches := ws\<rparr>)"
proof (cases "List.find (\<lambda>w. sameScope (switch_scope w) sc) (switches st)")
  case None
  let ?w = "\<lparr>switch_scope = sc, enabled = en, changedAt = now, switch_reason = rs, changedBy = pr\<rparr>"
  from None have n: "\<forall>w \<in> set (switches st). switch_scope w \<noteq> sc" by simp
  then have l: "length (switches st) < MAX_CONTROLS" using assms(6) by auto
  have "scopeKey sc \<notin> (\<lambda>w. scopeKey (switch_scope w)) ` set (switches st)"
    using n assms(1,2) scopeKey_inj by (fastforce simp: safety_inv_def list_all_iff ok_switch_def)
  then have "safety_inv (st\<lparr>switches := switches st @ [?w]\<rparr>)"
    using assms l by (simp add: safety_inv_def ok_switch_def)
  moreover have "setSwitch sc en rs pr now st = (Inr (), st\<lparr>switches := switches st @ [?w]\<rparr>)"
    using l unfolding setSwitch_def None by simp
  ultimately show ?thesis using that by blast
next
  case (Some w)
  let ?f = "\<lambda>w. w\<lparr>enabled := en, switch_reason := rs, changedBy := pr, changedAt := now\<rparr>"
  let ?ws = "updateFirst (\<lambda>w. sameScope (switch_scope w) sc) ?f (switches st)"
  have "map (\<lambda>w. scopeKey (switch_scope w)) ?ws = map (\<lambda>w. scopeKey (switch_scope w)) (switches st)"
    by (rule map_updateFirst) simp
  moreover have "list_all ok_switch ?ws"
    using assms(1,3,4,5) by (auto simp: safety_inv_def list_all_iff ok_switch_def dest!: set_updateFirst)
  ultimately have "safety_inv (st\<lparr>switches := ?ws\<rparr>)" using assms(1) by (simp add: safety_inv_def)
  moreover have "setSwitch sc en rs pr now st = (Inr (), st\<lparr>switches := ?ws\<rparr>)"
    unfolding setSwitch_def Some by simp
  ultimately show ?thesis using that by blast
qed

lemma ok_text_event: "ok_text 80 ''kill_switch.stopped''" "ok_text 80 ''action.admitted''"
  "ok_text 200 ''budget reservation created''"
proof -
  have f: "\<not> has_marker ''kill_switch.stopped''" "\<not> has_bearer ''kill_switch.stopped''"
    "\<not> has_marker ''action.admitted''" "\<not> has_bearer ''action.admitted''"
    "\<not> has_marker ''budget reservation created''" "\<not> has_bearer ''budget reservation created''"
    by code_simp+
  have g: "trim ''kill_switch.stopped'' = ''kill_switch.stopped''" "trim ''action.admitted'' = ''action.admitted''"
    "trim ''budget reservation created'' = ''budget reservation created''"
    "\<not> list_ex is_control ''kill_switch.stopped''" "\<not> list_ex is_control ''action.admitted''"
    "\<not> list_ex is_control ''budget reservation created''"
    by code_simp+
  show "ok_text 80 ''kill_switch.stopped''" "ok_text 80 ''action.admitted''" "ok_text 200 ''budget reservation created''"
    unfolding ok_text_def using g
    by (simp_all only: sanitizeSecretString_unmarked f g) simp_all
qed

text \<open>The switch is engaged whenever there is room for it and nothing is queued under it.\<close>

lemma stop_op_succeeds:
  assumes "safety_inv st" and "ok_scope sc" and "ok_text 300 (scopeKey sc)" and "ok_text 200 rs"
    and "ok_ident (principalId oper)" and "is_iso now" and "length (audit st) < MAX_AUDIT"
    and "(\<exists>w \<in> set (switches st). switch_scope w = sc) \<or> length (switches st) < MAX_CONTROLS"
    and "\<forall>q \<in> set (queue st). \<not> scopeMatches sc (queue_action q)"
  obtains st' where "stop_op oper sc rs now st = (Inr (), st')" "safety_inv st'"
proof -
  obtain ws where ws: "setSwitch sc True rs (principalId oper) now st = (Inr (), st\<lparr>switches := ws\<rparr>)"
    "safety_inv (st\<lparr>switches := ws\<rparr>)"
    using setSwitch_succeeds [OF assms(1,2,4,5,6,8)] by blast
  obtain r where r: "appendAudit ''kill_switch.stopped'' (scopeKey sc) rs now (Some (principalId oper)) (st\<lparr>switches := ws\<rparr>) =
    (Inr (), st\<lparr>switches := ws, audit := audit st @ [r]\<rparr>)" "safety_inv (st\<lparr>switches := ws, audit := audit st @ [r]\<rparr>)"
    using appendAudit_succeeds [OF ws(2) _ ok_text_event(1) assms(3,4,6), of "Some (principalId oper)"] assms(5,7)
    by (auto simp del: SafetyControllerState.update_convs)
  have f: "filter (\<lambda>q. scopeMatches sc (queue_action q)) (queue st) = []"
    "filter (\<lambda>q. \<not> scopeMatches sc (queue_action q)) (queue st) = queue st"
    using assms(9) by (auto simp: filter_empty_conv)
  have "deadLetterMatchingQueued sc rs now (st\<lparr>switches := ws\<rparr>) = (Inr (), st\<lparr>switches := ws\<rparr>)"
    by (simp add: deadLetterMatchingQueued_def getp_def f ret_def modifyp_def)
  with ws r show ?thesis using that by (simp add: stop_op_def)
qed


section \<open>The admission\<close>

lemma prune_inv: "safety_inv st \<Longrightarrow> safety_inv (pruneExpiredLeases now ttl st)"
  by (auto simp: safety_inv_def pruneExpiredLeases_def list_all_iff distinct_map_filter
      intro: order_trans [OF length_filter_le])

lemma no_same_idempotency:
  assumes "safety_inv st" and "\<not> collides st a" and "\<not> recorded st a" and "e \<in> set (ledger st)"
  shows "idempotencyKey (ledger_action e) \<noteq> idempotencyKey a"
proof
  assume same: "idempotencyKey (ledger_action e) = idempotencyKey a"
  then have "List.find (\<lambda>e. idempotencyKey (ledger_action e) = idempotencyKey a) (ledger st) \<noteq> None"
    using assms(4) by auto
  then obtain d where d: "List.find (\<lambda>e. idempotencyKey (ledger_action e) = idempotencyKey a) (ledger st) = Some d"
    by blast
  have "d \<in> set (ledger st)" "idempotencyKey (ledger_action d) = idempotencyKey a"
    using find_SomeD [OF d] by auto
  moreover from this have "ledger_key d = ledgerKey (ledger_action d)"
    using assms(1) by (auto simp: safety_inv_def list_all_iff ok_ledger_def)
  moreover have "actionHash (ledger_action d) = actionHash a" using d assms(2) by (auto simp: collides_def)
  ultimately show False using assms(3) by (auto simp: recorded_def ledgerKey_def)
qed

lemma reserve_inv:
  assumes "safety_inv st" and "\<not> collides st a" and "\<not> recorded st a" and "length (ledger st) < MAX_LEDGER"
    and "ok_action a" and "ok_text 300 (ledgerKey a)" and "is_iso now"
  shows "safety_inv (st\<lparr>ledger := ledger st @ [reservation a now]\<rparr>)"
proof -
  have "\<forall>e \<in> set (ledger st). idempotencyKey (ledger_action e) \<noteq> idempotencyKey a"
    using no_same_idempotency [OF assms(1-3)] by blast
  then show ?thesis using assms by (auto simp: safety_inv_def reservation_def ok_ledger_def recorded_def)
qed

lemma admit_op_succeeds:
  assumes "safety_inv st" and "ok_action a" and "ok_text 300 (ledgerKey a)" and "is_iso now"
    and "length (audit st) < MAX_AUDIT"
    and st1_def: "st1 = pruneExpiredLeases now ttl st"
    and "\<not> collides st1 a" and "\<not> recorded st1 a" and "activeSwitch st a = None"
    and "circuits_quiet st1 a now" and "budgets_allow st1 a now" and "length (ledger st1) < MAX_LEDGER"
  obtains st' where "admit_op a ttl now st = (Inr False, st')" "safety_inv st'"
proof -
  have inv: "safety_inv st1" using assms(1) prune_inv by (simp add: st1_def)
  have same: "audit st1 = audit st" "switches st1 = switches st" by (simp_all add: st1_def pruneExpiredLeases_def)
  have allowed: "assertActionAllowed a now st1 = (Inr (), st1)"
    using assms(9,10) same by (intro assertActionAllowed_quiet) (simp_all add: activeSwitch_def)
  have budgets: "assertBudgets st1 a now = Inr ()"
    using assms(11) inv assertBudgets_exact [of st1 a now "()"] by (simp add: safety_inv_def)
  define st2 where "st2 = st1\<lparr>ledger := ledger st1 @ [reservation a now]\<rparr>"
  have "safety_inv st2"
    using reserve_inv [OF inv assms(7,8,12) assms(2,3,4)] by (simp add: st2_def)
  moreover have "length (audit st2) < MAX_AUDIT" using assms(5) same by (simp add: st2_def)
  ultimately obtain r where r: "appendAudit ''action.admitted'' (ledgerKey a) ''budget reservation created'' now None st2 =
    (Inr (), st2\<lparr>audit := audit st2 @ [r]\<rparr>)" "safety_inv (st2\<lparr>audit := audit st2 @ [r]\<rparr>)"
    using appendAudit_succeeds [OF _ _ ok_text_event(2) assms(3) ok_text_event(3) assms(4), of st2 None] by auto
  have "admit_op a ttl now st = (Inr False, st2\<lparr>audit := audit st2 @ [r]\<rparr>)"
    using assms(7,8,12) allowed budgets r(1)
    by (simp add: admit_op_fresh st1_def [symmetric] st2_def [symmetric] getp_def liftp_def modifyp_def ret_def
        seqp_def)
  with r(2) show ?thesis using that by blast
qed

end
