(* ===== verification/Safety_Kill_Props.thy ===== *)
theory Safety_Kill_Props
  imports Safety_Live
begin

text \<open>
  The kill switch at the public methods, on the store file and
  over sequences of calls.  The witnesses run the controller on an empty store with one
  operator and one action.
\<close>

section \<open>An example operator, scope and action\<close>

definition demo_operator :: json where
  "demo_operator = JObj [(''id'', JStr ''op1''), (''principalId'', JStr ''alice''),
     (''permissions'', JArr [JStr ''safety.stop'', JStr ''safety.configure''])]"

definition demo_auth :: "unit \<Rightarrow> (safety_error, json) res" where
  "demo_auth u = Inr demo_operator"

definition demo_action :: SafetyAction where
  "demo_action =
     \<lparr>organizationId = ''acme'', projectId = ''shop'', environment = ''prod'', actorId = ''agent1'',
      workloadId = ''job1'', provider = ''stripe'', operation = ''refund'', riskClass = Money_movement,
      idempotencyKey = ''k1'', actionHash = replicate 64 (CHR ''0''),
      costs = \<lparr>monetaryAmountMinor = 500, requests = 1, messages = 0, mutations = 1, deletes = 0, tokenCost = 0\<rparr>\<rparr>"

lemma ok_ident_unmarked:
  "test_full IDENTIFIER s \<Longrightarrow> \<not> has_marker s \<Longrightarrow> \<not> has_bearer s \<Longrightarrow> ok_ident s"
  by (simp add: ok_ident_def sanitizeSecretString_unmarked)

lemma ok_text_unmarked:
  "s \<noteq> [] \<Longrightarrow> trim s = s \<Longrightarrow> length s \<le> n \<Longrightarrow> \<not> list_ex is_control s \<Longrightarrow> \<not> has_marker s \<Longrightarrow>
   \<not> has_bearer s \<Longrightarrow> ok_text n s"
  by (simp add: ok_text_def sanitizeSecretString_unmarked)

lemma demo_idents: "ok_ident ''acme''" "ok_ident ''shop''" "ok_ident ''prod''" "ok_ident ''agent1''"
  "ok_ident ''job1''" "ok_ident ''stripe''" "ok_ident ''refund''" "ok_ident ''k1''" "ok_ident ''op1''" "ok_ident ''alice''"
  by (rule ok_ident_unmarked; (unfold IDENTIFIER_iff)?; code_simp)+

lemma demo_action_ok [simp]: "ok_action demo_action"
  by (simp add: ok_action_def demo_action_def demo_idents ok_hash_iff ok_costs_def MAX_SAFE_INTEGER_def)
    code_simp

lemma demo_texts: "ok_text 200 ''drill''" "ok_text 300 ''global''" "ok_text 300 (ledgerKey demo_action)"
  by (rule ok_text_unmarked; code_simp)+

lemma demo_authorize: "authorize demo_auth () Safety_stop =
  Inr \<lparr>operator_id = ''op1'', principalId = ''alice'', permissions = [Safety_stop, Safety_configure]\<rparr>"
  by (simp add: authorize_def demo_auth_def demo_operator_def validateOperator_def demo_idents)


text \<open>The stopped store: the kill switch for everything, engaged on an empty store.\<close>

definition demo_stopped :: store_file where
  "demo_stopped = snd (stop demo_auth () (enc_scope globalScope) (JStr ''drill'') (Some 0) NoFile)"

lemma globalScope_ok [simp]: "ok_scope globalScope" "scopeMatches globalScope a"
  by (simp_all add: globalScope_def ok_scope_def scopeMatches_def)

lemma scopeKey_global: "scopeKey globalScope = ''global''"
  by (simp add: scopeKey_def globalScope_def)

lemma demo_iso: "is_iso (toISOString 0)" "is_iso (toISOString 1)"
  by (rule is_iso_toISOString; code_simp)+

lemma stop_file_succeeds:
  assumes "authorize auth i Safety_stop = Inr oper" and "validateScope jsc = Inr sc"
    and "v_text SCE ''Kill-switch reason'' 200 jrs = Inr rs"
    and "read_store safety_store f = Inr st" and "stop_op oper sc rs (toISOString ms) st = (Inr (), st')" and "safety_inv st'"
  shows "stop auth i jsc jrs (Some ms) f = (Inr (), atomicWriteJson (enc_state st'))"
  using assms safety_file.mutate_exact [OF assms(4), of "stop_op oper sc rs" ms "()" st']
  by (simp add: stop_def liftp_seqp)

lemma demo_stop: "stop demo_auth () (enc_scope globalScope) (JStr ''drill'') (Some 0) NoFile = (Inr (), demo_stopped)"
proof -
  define oper where "oper = \<lparr>operator_id = ''op1'', principalId = ''alice'', permissions = [Safety_stop, Safety_configure]\<rparr>"
  obtain st' where "stop_op oper globalScope ''drill'' (toISOString 0) emptyState = (Inr (), st')" "safety_inv st'"
    by (rule stop_op_succeeds [OF safety_inv_empty globalScope_ok(1) _ demo_texts(1), where oper = oper and now = "toISOString 0"])
      (auto simp: scopeKey_global demo_texts oper_def demo_idents demo_iso emptyState_def MAX_AUDIT_def MAX_CONTROLS_def)
  then have "stop demo_auth () (enc_scope globalScope) (JStr ''drill'') (Some 0) NoFile = (Inr (), atomicWriteJson (enc_state st'))"
    by (intro stop_file_succeeds [where oper = oper and sc = globalScope and rs = "''drill''"])
      (auto simp: demo_authorize oper_def demo_texts read_store_def)
  then show ?thesis by (simp add: demo_stopped_def)
qed

section \<open>The kill switch\<close>

lemma stop_Inr_stopped:
  assumes "stop auth i jsc rs now f = (Inr (), f')" and "validateScope jsc = Inr sc"
  shows "holds (stopped sc) f'"
proof -
  obtain oper r where m: "mutate_store safety_store (stop_op oper sc r) now f = (Inr (), f')"
    using assms by (auto simp: stop_def liftp_seqp split: sum.splits)
  then obtain ms s s' where h: "stop_op oper sc r (toISOString ms) s = (Inr (), s')" "safety_inv (norm_state s')"
    "f' = atomicWriteJson (enc_state (norm_state s'))"
    by (rule safety_mutateE)
  show ?thesis using stop_op_stopped(1) [OF h(1)] read_norm_state [OF h(2)] h(3) by (auto simp: holds_def)
qed

lemma mutate_result:
  "mutate_store safety_store op now f = (Inr x, f') \<Longrightarrow>
   (\<And>ms st st'. read_store safety_store f = Inr st \<Longrightarrow> op (toISOString ms) st = (Inr x, st') \<Longrightarrow> P) \<Longrightarrow> P"
  by (erule safety_mutateE) blast

lemma admit_stopped_replay:
  assumes "holds (stopped sc) f" and "scopeMatches sc a" and "validateAction j = Inr a"
    and "admit j ttl now f = (Inr lease, f')"
  shows "replay lease"
proof (rule ccontr)
  assume "\<not> replay lease"
  with assms(3,4) have "mutate_store safety_store (admit_op a ttl) now f = (Inr False, f')"
    by (auto simp: admit_def liftp_def ret_def res_simps)
  then obtain ms st st' where h: "read_store safety_store f = Inr st" "safety_inv st"
    "admit_op a ttl (toISOString ms) st = (Inr False, st')"
    by (rule safety_mutateE)
  from h(2) have "list_all ok_budget (budgets st)" by (simp add: safety_inv_def)
  from admit_op_Inr_False(3) [OF h(3) this] have "activeSwitch st a = None" .
  with stopped_activeSwitch [OF _ assms(2)] h(1) assms(1) show False by (fastforce simp: holds_def)
qed

lemma mutate_refuses:
  assumes "holds P f" and "\<And>t st. P st \<Longrightarrow> \<exists>e st'. op t st = (Inl e, st')"
  shows "\<exists>e. mutate_store safety_store op now f = (Inl e, f)"
proof (cases "mutate_store safety_store op now f")
  case (Pair r f')
  show ?thesis
  proof (cases r)
    case (Inl e)
    with Pair show ?thesis using mutate_throw_unchanged [of safety_store op now f e f'] by simp
  next
    case (Inr x)
    with Pair obtain ms st st' where "read_store safety_store f = Inr st" "op (toISOString ms) st = (Inr x, st')"
      by (metis mutate_result)
    moreover from this(1) assms(1) have "P st" by (simp add: holds_def)
    ultimately show ?thesis using assms(2) [of st "toISOString ms"] by auto
  qed
qed

lemma enqueue_stopped:
  assumes "holds (stopped sc) f" and "scopeMatches sc a"
  shows "\<exists>e. mutate_store safety_store (enqueue_op a) now f = (Inl e, f)"
  using assms stopped_activeSwitch
  by (intro mutate_refuses [OF assms(1)]) (fastforce simp: enqueue_op_def assertActionAllowed_stopped)

lemma requireActive_state: "requireActive key ttl now st = (r, st') \<Longrightarrow> st' = st"
  by (auto simp: requireActive_def prog_defs seqp_def split: sum.splits if_splits)

lemma commitBefore_stopped:
  assumes "holds (stopped sc) f" and "scopeMatches sc a"
  shows "\<exists>e. mutate_store safety_store (commitBefore_op a ttl) now f = (Inl e, f)"
proof (rule mutate_refuses [OF assms(1)])
  fix t st
  assume "stopped sc st"
  then obtain w where w: "activeSwitch st a = Some w" using stopped_activeSwitch assms(2) by blast
  obtain r st' where q: "requireActive (ledgerKey a) ttl t st = (r, st')" by (cases "requireActive (ledgerKey a) ttl t st")
  then have "st' = st" by (rule requireActive_state)
  with q w show "\<exists>e st'. commitBefore_op a ttl t st = (Inl e, st')"
    by (cases r) (auto simp: commitBefore_op_def assertActionAllowed_stopped)
qed


lemma commit_stopped:
  assumes "holds (stopped sc) f" and "scopeMatches sc (lease_action lease)"
  shows "\<exists>e. \<forall>oper. commit lease ttl now oper now2 f = (Inl e, f)"
proof (cases "replay lease")
  case False
  obtain e where "mutate_store safety_store (commitBefore_op (lease_action lease) ttl) now f = (Inl e, f)"
    using commitBefore_stopped [OF assms] by blast
  with False show ?thesis by (auto simp: commit_def)
qed (simp add: commit_def throw_def)

lemma trace_stopped:
  assumes "safety_trace auth ttl f cs f'" and "holds (stopped sc) f"
    and "\<forall>i j r n. CReenable i j r n \<in> set cs \<longrightarrow> validateScope j \<noteq> Inr sc"
  shows "holds (stopped sc) f'"
  using assms(1,2) by (rule trace_holds) (use assms(3) in \<open>blast intro: step_stopped\<close>)

text \<open>C1: The kill switch holds.  Once \<open>stop\<close> has returned for a scope, then whatever calls
  follow (by any process, failing or not) as long as none of them re-enables that scope, an
  action of the scope gets no fresh lease, cannot be queued, and no lease on it runs its side
  effect: \<open>commit\<close> fails before the operation, with the same error whatever the
  operation is, and leaves the store alone.\<close>

theorem kill_switch_holds:
  assumes "stop auth i jsc rs now f0 = (Inr (), f1)" and "validateScope jsc = Inr sc"
    and "safety_trace auth ttl f1 cs f2"
    and "\<forall>i j r n. CReenable i j r n \<in> set cs \<longrightarrow> validateScope j \<noteq> Inr sc"
    and "validateAction j = Inr a" and "scopeMatches sc a"
  shows "(\<forall>t lease f3. admit j ttl t f2 = (Inr lease, f3) \<longrightarrow> replay lease) \<and>
    (\<forall>t. \<exists>e. enqueue j t f2 = (Inl e, f2)) \<and>
    (\<forall>t t2 lease. lease_action lease = a \<longrightarrow> (\<exists>e. \<forall>oper. commit lease ttl t oper t2 f2 = (Inl e, f2)))"
proof -
  have st: "holds (stopped sc) f2"
    using assms(3) stop_Inr_stopped [OF assms(1,2)] assms(4) by (rule trace_stopped)
  then show ?thesis
    using admit_stopped_replay [OF st assms(6,5)] enqueue_stopped [OF st assms(6)] assms(5,6)
      commit_stopped [OF st]
    by (auto simp: enqueue_def liftp_seqp)
qed

lemma validateScope_global [simp]: "validateScope (enc_scope globalScope) = Inr globalScope"
  by simp

theorem kill_switch_holds_witness:
  "stop demo_auth () (enc_scope globalScope) (JStr ''drill'') (Some 0) NoFile = (Inr (), demo_stopped) \<and>
   (\<forall>t. \<exists>e. enqueue (enc_action demo_action) t demo_stopped = (Inl e, demo_stopped))"
  using kill_switch_holds [OF demo_stop validateScope_global trace_nil [of demo_auth DEFAULT_LEASE_TTL_MS], of "enc_action demo_action" demo_action]
    demo_stop by auto

text \<open>An engaged kill switch answers a new action with the kill-switch error, the code
  the game day looks for, and leaves the store as it was.\<close>

theorem admit_under_kill_switch:
  assumes "read_store safety_store f = Inr st" and "validateAction j = Inr a"
    and "activeSwitch st a = Some w"
    and "\<not> collides (pruneExpiredLeases (toISOString ms) ttl st) a"
    and "\<not> recorded (pruneExpiredLeases (toISOString ms) ttl st) a"
  shows "admit j ttl (Some ms) f =
    (Inl (SafetyControllerError (''Kill switch is active for '' @ scopeKey (switch_scope w) @ ''.'')
      (Some ''SAFETY_KILL_SWITCH'')), f)"
proof -
  have "activeSwitch (pruneExpiredLeases (toISOString ms) ttl st) a = Some w"
    using assms(3) by (simp add: activeSwitch_def pruneExpiredLeases_def)
  then have "admit_op a ttl (toISOString ms) st = (Inl (killSwitchError w), pruneExpiredLeases (toISOString ms) ttl st)"
    using assms(4,5) by (simp add: admit_op_fresh assertActionAllowed_stopped)
  then have "mutate_store safety_store (admit_op a ttl) (Some ms) f = (Inl (killSwitchError w), f)"
    by (rule mutate_store_throws [OF assms(1)])
  then show ?thesis
    using assms(2) by (simp add: admit_def liftp_seqp killSwitchError_def KILL_SWITCH_ERROR_CODE_def)
qed


definition demo_switch :: SafetySwitch where
  "demo_switch = \<lparr>switch_scope = globalScope, enabled = True, changedAt = toISOString 0,
     switch_reason = ''drill'', changedBy = ''alice''\<rparr>"

text \<open>A store file that holds a given state.\<close>

definition demo_file :: "SafetyControllerState \<Rightarrow> store_file" where
  "demo_file st = Regular (Some (enc_state st)) 4096"

lemma read_demo_file: "safety_inv st \<Longrightarrow> read_store safety_store (demo_file st) = Inr st"
  by (simp add: read_store_def demo_file_def MAX_STORE_BYTES_def validateState_enc)

lemma demo_switch_inv: "safety_inv (emptyState\<lparr>switches := [demo_switch]\<rparr>)"
  using safety_inv_empty
  by (simp add: safety_inv_def emptyState_def ok_switch_def demo_switch_def demo_iso demo_texts demo_idents MAX_CONTROLS_def)

theorem admit_under_kill_switch_witness:
  "admit (enc_action demo_action) DEFAULT_LEASE_TTL_MS (Some 1) (demo_file (emptyState\<lparr>switches := [demo_switch]\<rparr>)) =
    (Inl (SafetyControllerError ''Kill switch is active for global.'' (Some ''SAFETY_KILL_SWITCH'')),
     demo_file (emptyState\<lparr>switches := [demo_switch]\<rparr>))"
  using admit_under_kill_switch [OF read_demo_file [OF demo_switch_inv] validateAction_enc [OF demo_action_ok],
      of demo_switch 1 DEFAULT_LEASE_TTL_MS]
  by (simp add: activeSwitch_def collides_def recorded_def pruneExpiredLeases_def emptyState_def
      demo_switch_def scopeKey_global)

text \<open>C7: The kill switch can be engaged.  An authorized operator's \<open>stop\<close> with a valid
  scope and reason succeeds on a readable store that has room for the switch and its audit
  record and no queued action in the scope, and the state written has the scope stopped.\<close>

theorem stop_engages:
  assumes "authorize auth i Safety_stop = Inr oper" and "validateScope jsc = Inr sc"
    and "v_text SCE ''Kill-switch reason'' 200 jrs = Inr rs"
    and "read_store safety_store f = Inr st" and "clock_ok ms" and "ok_text 300 (scopeKey sc)"
    and "length (audit st) < MAX_AUDIT" and "length (switches st) < MAX_CONTROLS"
    and "\<forall>q \<in> set (queue st). \<not> scopeMatches sc (queue_action q)"
  shows "\<exists>st'. stop auth i jsc jrs (Some ms) f = (Inr (), atomicWriteJson (enc_state st')) \<and>
    safety_inv st' \<and> stopped sc st'"
proof -
  have inv: "safety_inv st" using assms(4) by (rule safety_file.read_inv)
  have "ok_ident (principalId oper)"
    using assms(1) by (auto simp: authorize_def validateOperator_def validator_simps elim!: andThenE split: if_splits)
  then obtain st' where st': "stop_op oper sc rs (toISOString ms) st = (Inr (), st')" "safety_inv st'"
    using stop_op_succeeds [OF inv validateScope_ok [OF assms(2)] assms(6) v_text_ok [OF assms(3)] _
        is_iso_toISOString [OF assms(5)] assms(7) _ assms(9)] assms(8) by blast
  then show ?thesis
    using stop_file_succeeds [OF assms(1-4) st'] stop_op_stopped(1) [OF st'(1)] by blast
qed

theorem stop_engages_witness:
  "\<exists>st'. stop demo_auth () (enc_scope globalScope) (JStr ''drill'') (Some 0) NoFile =
     (Inr (), atomicWriteJson (enc_state st')) \<and> safety_inv st' \<and> stopped globalScope st'"
proof (rule stop_engages [OF demo_authorize validateScope_global])
  show "v_text SCE ''Kill-switch reason'' 200 (JStr ''drill'') = Inr ''drill''" by (simp add: demo_texts)
  show "read_store safety_store NoFile = Inr emptyState" by (simp add: read_store_def)
  show "clock_ok 0" by code_simp
qed (simp_all add: scopeKey_global demo_texts emptyState_def MAX_AUDIT_def MAX_CONTROLS_def)

end
