(* ===== verification/Safety_Lease_Props.thy ===== *)
theory Safety_Lease_Props
  imports Safety_Kill_Props
begin

text \<open>
  Admission and leases at the public methods: what a granted lease guarantees, when one
  is granted, replays, expiry, completion and the circuit breakers.
\<close>

section \<open>What a granted lease guarantees\<close>

lemma norm_ledger_ok: "ok_ledger e \<Longrightarrow> norm_ledger e = e"
  by (cases e; cases "outcome e"; cases "ledger_status e"; cases "completedAt e")
    (auto simp: ok_ledger_def norm_ledger_def ok_text_def norm_outcome_def ok_outcome_def split: option.splits)

lemma norm_outcome_id: "ok_outcome r \<Longrightarrow> norm_outcome r = r"
  by (cases r; cases "outcome_reason r") (auto simp: norm_outcome_def ok_outcome_def ok_text_def)

text \<open>The written form of a state whose parts all have their shape is the state.\<close>

lemma norm_switch_ok: "ok_switch w \<Longrightarrow> norm_switch w = w"
  by (cases w) (simp add: norm_switch_def ok_switch_def ok_text_def)

lemma norm_circuit_ok: "ok_circuit c \<Longrightarrow> norm_circuit c = c"
  by (cases c; cases "circuit_state c") (auto simp: norm_circuit_def ok_circuit_def ok_text_def split: option.splits)

lemma norm_dead_letter_ok: "ok_dead_letter d \<Longrightarrow> norm_dead_letter d = d"
  by (cases d) (simp add: norm_dead_letter_def ok_dead_letter_def ok_text_def)

lemma norm_state_ok:
  assumes "safety_inv st"
  shows "norm_state st = st"
  using assms
  by (cases st) (auto simp: norm_state_def safety_inv_def list_all_iff norm_switch_ok norm_circuit_ok
      norm_ledger_ok norm_dead_letter_ok norm_audit_ok intro!: map_idI)

lemma admit_fresh_mutate:
  assumes "admit j ttl now f = (Inr lease, f')" and "\<not> replay lease"
  shows "validateAction j = Inr (lease_action lease) \<and>
    mutate_store safety_store (admit_op (lease_action lease) ttl) now f = (Inr False, f')"
  using assms by (auto simp: admit_def liftp_def ret_def res_simps)

text \<open>The reservation of a validated action is written as it is.\<close>

lemma fresh_written:
  assumes "safety_inv st" and "admit_op a ttl now st = (Inr False, st')" and "safety_inv (norm_state st')"
  shows "ledger (norm_state st') = ledger (pruneExpiredLeases now ttl st) @ [reservation a now]"
    and "audit_grows st (norm_state st')"
proof -
  have b: "list_all ok_budget (budgets st)" using assms(1) by (simp add: safety_inv_def)
  obtain r where r: "st' = (pruneExpiredLeases now ttl st)
      \<lparr>ledger := ledger (pruneExpiredLeases now ttl st) @ [reservation a now], audit := audit st @ [r]\<rparr>"
    using admit_op_Inr_False(7) [OF assms(2) b] by blast
  have "list_all ok_ledger (ledger (norm_state st'))" using assms(3) by (simp add: safety_inv_def)
  then have "ok_ledger (norm_ledger (reservation a now))" using r by (simp add: norm_state_def)
  then have "norm_ledger (reservation a now) = reservation a now"
    by (simp add: ok_ledger_def norm_ledger_def reservation_def)
  moreover have "map norm_ledger (ledger (pruneExpiredLeases now ttl st)) = ledger (pruneExpiredLeases now ttl st)"
    using prune_inv [OF assms(1), of now ttl]
    by (intro map_idI) (auto simp: safety_inv_def list_all_iff norm_ledger_ok)
  ultimately show "ledger (norm_state st') = ledger (pruneExpiredLeases now ttl st) @ [reservation a now]"
    using r by (simp add: norm_state_def)
  show "audit_grows st (norm_state st')"
    using grows_step [OF admit_grows assms(1) assms(2)] by simp
qed

text \<open>C2: A fresh lease is granted only within every limit.  When \<open>admit\<close> grants a lease
  that is no replay, the state it read (with the expired leases pruned) had no engaged switch
  and no open or tripped circuit for the action, and for every budget whose scope matches, the
  exact sum of each kind of cost over the budget's window plus the action's cost, the number
  of concurrent reservations plus one, and the request velocity are within the limits; the
  state written has the reservation appended to the ledger.  The sums are double-precision in
  the code and exact here.\<close>

theorem admit_within_limits:
  assumes "admit j ttl (Some ms) f = (Inr lease, f')" and "\<not> replay lease"
  shows "\<exists>st st'. read_store safety_store f = Inr st \<and> f' = atomicWriteJson (enc_state st') \<and> safety_inv st' \<and>
    (let st1 = pruneExpiredLeases (toISOString ms) ttl st; a = lease_action lease in
      activeSwitch st a = None \<and> circuits_quiet st1 a (toISOString ms) \<and>
      budgets_allow st1 a (toISOString ms) \<and>
      ledger st' = ledger st1 @ [reservation a (toISOString ms)])"
proof -
  obtain ms' st st' where h: "Some ms = Some ms'" "read_store safety_store f = Inr st" "safety_inv st"
    "admit_op (lease_action lease) ttl (toISOString ms') st = (Inr False, st')" "safety_inv (norm_state st')"
    "f' = atomicWriteJson (enc_state (norm_state st'))"
    using admit_fresh_mutate [OF assms] by (auto elim: safety_mutateE)
  have b: "list_all ok_budget (budgets st)" using h(3) by (simp add: safety_inv_def)
  note d = admit_op_Inr_False [OF h(4) b]
  show ?thesis
    using h d(3,4,5) fresh_written(1) [OF h(3,4,5)] by (auto simp: Let_def)
qed


text \<open>C8: An action within every limit is admitted.  With no engaged switch, quiet circuits,
  budgets that allow the cost, room in the ledger and the audit, and no ledger entry under the
  action's idempotency key, \<open>admit\<close> grants a fresh lease.\<close>

theorem admit_grants:
  assumes "validateAction j = Inr a" and "read_store safety_store f = Inr st" and "clock_ok ms"
    and "ok_text 300 (ledgerKey a)" and "length (audit st) < MAX_AUDIT"
    and "st1 = pruneExpiredLeases (toISOString ms) ttl st"
    and "\<not> collides st1 a" and "\<not> recorded st1 a" and "activeSwitch st a = None"
    and "circuits_quiet st1 a (toISOString ms)" and "budgets_allow st1 a (toISOString ms)"
    and "length (ledger st1) < MAX_LEDGER"
  shows "\<exists>st'. admit j ttl (Some ms) f =
    (Inr \<lparr>replay = False, lease_action = a\<rparr>, atomicWriteJson (enc_state st')) \<and> safety_inv st'"
proof -
  obtain st' where "admit_op a ttl (toISOString ms) st = (Inr False, st')" "safety_inv st'"
    by (rule admit_op_succeeds [OF safety_file.read_inv [OF assms(2)] validateAction_ok [OF assms(1)]
          assms(4) is_iso_toISOString [OF assms(3)] assms(5-12)])
  then show ?thesis
    using assms(1) safety_file.mutate_exact [OF assms(2), of "admit_op a ttl" ms False st']
    by (intro exI [of _ st']) (simp add: admit_def liftp_def seqp_def ret_def)
qed

theorem admit_grants_witness:
  "\<exists>st'. admit (enc_action demo_action) DEFAULT_LEASE_TTL_MS (Some 0) NoFile =
    (Inr \<lparr>replay = False, lease_action = demo_action\<rparr>, atomicWriteJson (enc_state st')) \<and> safety_inv st'"
proof (rule admit_grants [where ?st1.0 = emptyState])
  show "read_store safety_store NoFile = Inr emptyState" by (simp add: read_store_def)
  show "clock_ok 0" by code_simp
qed (simp_all add: demo_texts emptyState_def MAX_AUDIT_def MAX_LEDGER_def pruneExpiredLeases_def collides_def
    recorded_def activeSwitch_def circuits_quiet_def budgets_allow_def)

lemma demo_admit: "\<exists>f. admit (enc_action demo_action) DEFAULT_LEASE_TTL_MS (Some 0) NoFile =
    (Inr \<lparr>replay = False, lease_action = demo_action\<rparr>, f)"
proof -
  obtain st' where "admit_op demo_action DEFAULT_LEASE_TTL_MS (toISOString 0) emptyState = (Inr False, st')" "safety_inv st'"
    by (rule admit_op_succeeds [OF safety_inv_empty demo_action_ok demo_texts(3) demo_iso(1), where ?st1.0 = emptyState])
      (simp_all add: emptyState_def MAX_AUDIT_def MAX_LEDGER_def pruneExpiredLeases_def collides_def
        recorded_def activeSwitch_def circuits_quiet_def budgets_allow_def)
  then have "mutate_store safety_store (admit_op demo_action DEFAULT_LEASE_TTL_MS) (Some 0) NoFile =
      (Inr False, atomicWriteJson (enc_state st'))"
    using safety_file.mutate_exact [of NoFile emptyState "admit_op demo_action DEFAULT_LEASE_TTL_MS" 0 False st']
    by (simp add: read_store_def)
  then show ?thesis by (simp add: admit_def liftp_def seqp_def ret_def)
qed

theorem admit_within_limits_witness:
  "\<exists>f lease. admit (enc_action demo_action) DEFAULT_LEASE_TTL_MS (Some 0) NoFile = (Inr lease, f) \<and>
     \<not> replay lease \<and>
     (\<exists>st st'. read_store safety_store NoFile = Inr st \<and> f = atomicWriteJson (enc_state st') \<and> safety_inv st' \<and>
       (let st1 = pruneExpiredLeases (toISOString 0) DEFAULT_LEASE_TTL_MS st; a = lease_action lease in
        activeSwitch st a = None \<and> circuits_quiet st1 a (toISOString 0) \<and> budgets_allow st1 a (toISOString 0) \<and>
        ledger st' = ledger st1 @ [reservation a (toISOString 0)]))"
proof -
  obtain f where f: "admit (enc_action demo_action) DEFAULT_LEASE_TTL_MS (Some 0) NoFile =
      (Inr \<lparr>replay = False, lease_action = demo_action\<rparr>, f)"
    using demo_admit by blast
  show ?thesis using f admit_within_limits [OF f] by auto
qed

section \<open>Replays\<close>

text \<open>An action whose ledger entry has not expired is answered with a replay lease: the
  call succeeds, writes the pruned state and nothing else, and no replay lease can run a side
  effect.\<close>

theorem admit_replays:
  assumes "validateAction j = Inr a" and "read_store safety_store f = Inr st"
    and "\<not> collides (pruneExpiredLeases (toISOString ms) ttl st) a"
    and "recorded (pruneExpiredLeases (toISOString ms) ttl st) a"
  shows "admit j ttl (Some ms) f =
      (Inr \<lparr>replay = True, lease_action = a\<rparr>, atomicWriteJson (enc_state (pruneExpiredLeases (toISOString ms) ttl st))) \<and>
    (\<forall>t t2 oper g. commit \<lparr>replay = True, lease_action = a\<rparr> ttl t oper t2 g =
      (Inl (SafetyControllerError ''Safety replay lease cannot commit a side effect.'' None), g))"
proof -
  have "safety_inv (pruneExpiredLeases (toISOString ms) ttl st)"
    using prune_inv safety_file.read_inv [OF assms(2)] by blast
  then have "mutate_store safety_store (admit_op a ttl) (Some ms) f =
      (Inr True, atomicWriteJson (enc_state (pruneExpiredLeases (toISOString ms) ttl st)))"
    using safety_file.mutate_exact [OF assms(2), of "admit_op a ttl" ms True] admit_op_replay [OF assms(3,4)] by simp
  then show ?thesis using assms(1) by (simp add: admit_def liftp_def seqp_def ret_def commit_def throw_def)
qed

definition demo_done :: SafetyControllerState where
  "demo_done = emptyState\<lparr>ledger := [(reservation demo_action (toISOString 0))
     \<lparr>ledger_status := Completed, completedAt := Some (toISOString 1),
      outcome := Some \<lparr>success = True, policyViolation = False, reconciliationMismatch = False, latencyMs = 1,
        outcome_reason = None\<rparr>\<rparr>]\<rparr>"

lemma demo_done_inv: "safety_inv demo_done"
  using safety_inv_empty
  by (simp add: safety_inv_def emptyState_def demo_done_def ok_ledger_def reservation_def demo_iso demo_texts
      ok_outcome_def DAY_MS_def MAX_LEDGER_def)

lemma demo_done_prune: "pruneExpiredLeases now ttl demo_done = demo_done"
  by (simp add: demo_done_def pruneExpiredLeases_def emptyState_def)

lemma demo_done_found: "\<not> collides demo_done demo_action" "recorded demo_done demo_action"
  by (simp_all add: collides_def recorded_def demo_done_def reservation_def)

theorem admit_replays_witness:
  "fst (admit (enc_action demo_action) DEFAULT_LEASE_TTL_MS (Some 5) (demo_file demo_done)) =
     Inr \<lparr>replay = True, lease_action = demo_action\<rparr>"
  using admit_replays [OF validateAction_enc [OF demo_action_ok] read_demo_file [OF demo_done_inv], of 5 DEFAULT_LEASE_TTL_MS]
    demo_done_found demo_done_prune by (metis fst_conv)


section \<open>A completed action is never admitted again\<close>

definition completed_kept :: "SafetyControllerState \<Rightarrow> SafetyControllerState \<Rightarrow> bool" where
  "completed_kept st st' =
     (\<forall>e \<in> set (ledger st). ledger_status e = Completed \<longrightarrow> e \<in> set (ledger st'))"

interpretation completed_frame: frame completed_kept
  by unfold_locales (auto simp: completed_kept_def)

lemma completed_kept_ledger: "ledger_kept st st' \<Longrightarrow> completed_kept st st'"
  by (simp add: completed_kept_def ledger_kept_def)

lemma keeps_completed: "keeps ledger_kept p \<Longrightarrow> keeps completed_kept p"
  by (auto simp: keeps_def completed_kept_ledger)

lemma completed_keptI [simp]: "ledger st' = ledger st \<Longrightarrow> completed_kept st st'"
  by (simp add: completed_kept_def)

lemma addDeadLetter_completed: "keeps completed_kept (addDeadLetter item rs now)"
  unfolding addDeadLetter_def by (intro completed_frame.keeps_intros) auto

lemmas completed_intros =
  completed_frame.keeps_intros addDeadLetter_completed keeps_completed [OF appendAudit_ledger]
  keeps_completed [OF assertActionAllowed_ledger] keeps_completed [OF evaluateCircuits_ledger]

lemma setSwitch_completed: "keeps completed_kept (setSwitch sc en rs p now)"
  by (rule keepsI) (auto simp: setSwitch_def split: option.splits if_splits)

lemma configureBudget_completed: "keeps completed_kept (configureBudget_op oper b now)"
  unfolding configureBudget_op_def by (intro completed_intros) auto

lemma configureCircuit_completed: "keeps completed_kept (configureCircuit_op oper c now)"
  unfolding configureCircuit_op_def by (intro completed_intros) auto

lemma stop_completed: "keeps completed_kept (stop_op oper sc rs now)"
  unfolding stop_op_def deadLetterMatchingQueued_def by (intro completed_intros setSwitch_completed) auto

lemma reenable_completed: "keeps completed_kept (reenable_op oper sc rs now)"
  unfolding reenable_op_def by (intro completed_intros) auto

lemma admit_completed: "keeps completed_kept (admit_op a ttl now)"
  unfolding admit_op_def
  by (intro completed_intros) (auto simp: completed_kept_def pruneExpiredLeases_def)

lemma requireActive_completed: "keeps completed_kept (requireActive key ttl now)"
  unfolding requireActive_def by (intro completed_intros)

lemma assertActive_completed: "keeps completed_kept (assertActive_op a ttl now)"
  unfolding assertActive_op_def by (intro completed_intros requireActive_completed)

lemma commitBefore_completed: "keeps completed_kept (commitBefore_op a ttl now)"
  unfolding commitBefore_op_def by (intro completed_intros requireActive_completed)

lemma commitAfter_completed: "keeps completed_kept (commitAfter_op a ttl now)"
  unfolding commitAfter_op_def by (intro completed_intros requireActive_completed)

lemma updateFirst_others:
  "List.find p xs = Some y \<Longrightarrow> \<not> Q y \<Longrightarrow> x \<in> set xs \<Longrightarrow> Q x \<Longrightarrow> x \<in> set (updateFirst p f xs)"
  by (induction xs) (auto split: if_splits)

text \<open>\<open>complete\<close> changes the entry it found, which was not completed.\<close>

lemma complete_completed: "keeps completed_kept (complete_op a r now)"
proof (rule keepsI)
  fix st res st'
  assume h: "complete_op a r now st = (res, st')"
  let ?p = "\<lambda>x. ledger_key x = ledgerKey a"
  let ?fin = "appendAudit (if success r then ''action.completed'' else ''action.unknown'') (ledgerKey a)
             (case outcome_reason r of
                Some t \<Rightarrow> t
              | None \<Rightarrow> if success r then ''action completed'' else ''action outcome is unknown'') now None"
  show "completed_kept st st'"
  proof (cases "List.find ?p (ledger st)")
    case None
    then have "?fin st = (res, st')" using h unfolding complete_op_def getp_def Let_def None by simp
    then show ?thesis using keepsD [OF appendAudit_ledger] completed_kept_ledger by blast
  next
    case (Some e)
    show ?thesis
    proof (cases "ledger_status e = Completed")
      case True
      then show ?thesis using h unfolding complete_op_def getp_def Let_def Some by (simp add: ret_def)
    next
      case False
      let ?f = "\<lambda>x. x\<lparr>ledger_status := Completed, completedAt := Some now, outcome := Some r\<rparr>"
      let ?st1 = "st\<lparr>ledger := updateFirst ?p ?f (ledger st)\<rparr>"
      have "completed_kept st ?st1"
        using updateFirst_others [OF Some, of "\<lambda>x. ledger_status x = Completed"] False
        by (auto simp: completed_kept_def)
      moreover have "seqp ?fin (\<lambda>_. evaluateCircuits (ledger_action e) now) ?st1 = (res, st')"
        using h False unfolding complete_op_def getp_def Let_def Some by (simp add: modifyp_def seqp_def)
      then have "completed_kept ?st1 st'"
        by (rule keepsD [rotated]) (intro completed_intros)
      ultimately show ?thesis by (rule completed_frame.frame_trans)
    qed
  qed
qed

lemma enqueue_completed: "keeps completed_kept (enqueue_op a now)"
  unfolding enqueue_op_def Let_def by (intro completed_intros) auto

lemma dequeue_item_completed: "keeps completed_kept (dequeue_item item now)"
  unfolding dequeue_item_def
  by (intro keeps_catch completed_intros) (rule completed_frame.frame_trans)

lemma dequeue_op_completed: "keeps completed_kept (dequeue_op now)"
  by (rule keepsI)
    (auto simp: dequeue_op_eq split: list.splits dest!: keepsD [OF dequeue_item_completed], auto simp: completed_kept_def)

definition has_completed :: "LedgerEntry \<Rightarrow> SafetyControllerState \<Rightarrow> bool" where
  "has_completed e st = (e \<in> set (ledger st))"

lemma completed_step:
  assumes "keeps completed_kept p" and "ok_ledger e" and "ledger_status e = Completed"
    and "p st = (r, st')" and "has_completed e st"
  shows "has_completed e (norm_state st')"
proof -
  have "e \<in> set (ledger st')"
    using keepsD [OF assms(1,4)] assms(3,5) by (simp add: completed_kept_def has_completed_def)
  then show ?thesis
    using norm_ledger_ok [OF assms(2)] by (force simp: has_completed_def norm_state_def)
qed

lemma step_completed:
  assumes "safety_step auth ttl f c f'" and "holds (has_completed e) f" and "ok_ledger e"
    and "ledger_status e = Completed"
  shows "holds (has_completed e) f'"
  using assms(1,2)
  by (rule step_holds)
    (erule (1) completed_step [OF configureBudget_completed assms(3,4)] completed_step [OF configureCircuit_completed assms(3,4)]
       completed_step [OF stop_completed assms(3,4)] completed_step [OF reenable_completed assms(3,4)]
       completed_step [OF admit_completed assms(3,4)] completed_step [OF assertActive_completed assms(3,4)]
       completed_step [OF commitBefore_completed assms(3,4)] completed_step [OF commitAfter_completed assms(3,4)]
       completed_step [OF complete_completed assms(3,4)] completed_step [OF enqueue_completed assms(3,4)]
       completed_step [OF dequeue_op_completed assms(3,4)]
       completed_step [OF keeps_completed [OF appendAudit_ledger] assms(3,4)])+

text \<open>C3: Exactly once.  After an action has been completed in the ledger, no later call,
  whatever happens in between, grants a fresh lease under its idempotency key: the same
  action is a replay, and another action under the same key is refused.\<close>

theorem completed_never_readmitted:
  assumes "read_store safety_store f = Inr st" and "e \<in> set (ledger st)" and "ledger_status e = Completed"
    and "safety_trace auth ttl f cs f2" and "validateAction j = Inr a"
    and "idempotencyKey a = idempotencyKey (ledger_action e)"
    and "admit j ttl now f2 = (Inr lease, f3)"
  shows "replay lease \<and> actionHash a = actionHash (ledger_action e)"
proof -
  have ok: "ok_ledger e"
    using safety_file.read_inv [OF assms(1)] assms(2) by (auto simp: safety_inv_def list_all_iff)
  have "holds (has_completed e) f" using assms(1,2) by (simp add: holds_def has_completed_def)
  with assms(4) have h2: "holds (has_completed e) f2"
    by (rule trace_holds) (rule step_completed [OF _ _ ok assms(3)])
  obtain b where b: "mutate_store safety_store (admit_op a ttl) now f2 = (Inr b, f3)" "replay lease = b"
    using assms(5,7) by (auto simp: admit_def liftp_def ret_def res_simps)
  then obtain ms s s' where s: "read_store safety_store f2 = Inr s" "safety_inv s"
    "admit_op a ttl (toISOString ms) s = (Inr b, s')"
    by (elim safety_mutateE)
  let ?p = "pruneExpiredLeases (toISOString ms) ttl s"
  have e: "e \<in> set (ledger ?p)" using h2 s(1) assms(3) by (auto simp: holds_def has_completed_def pruneExpiredLeases_def)
  have "distinct (map (\<lambda>e. idempotencyKey (ledger_action e)) (ledger ?p))"
    using prune_inv [OF s(2)] by (simp add: safety_inv_def)
  from find_unique [OF this e] assms(6)
  have found: "List.find (\<lambda>x. idempotencyKey (ledger_action x) = idempotencyKey a) (ledger ?p) = Some e" by simp
  have hash: "actionHash a = actionHash (ledger_action e)"
    using admit_op_collides [of "toISOString ms" ttl s a] s(3) found by (fastforce simp: collides_def)
  then have "ledger_key e = ledgerKey a" using ok assms(6) by (simp add: ok_ledger_def ledgerKey_def)
  then have "recorded ?p a" "\<not> collides ?p a" using e found hash by (auto simp: recorded_def collides_def)
  then show ?thesis using admit_op_replay s(3) b(2) hash by auto
qed

theorem completed_never_readmitted_witness:
  "\<exists>lease f3. admit (enc_action demo_action) DEFAULT_LEASE_TTL_MS (Some 5) (demo_file demo_done) = (Inr lease, f3) \<and>
     replay lease"
proof -
  let ?e = "hd (ledger demo_done)"
  have e: "?e \<in> set (ledger demo_done)" "ledger_status ?e = Completed" "idempotencyKey demo_action = idempotencyKey (ledger_action ?e)"
    by (simp_all add: demo_done_def reservation_def)
  have "admit_op demo_action DEFAULT_LEASE_TTL_MS (toISOString 5) demo_done = (Inr True, demo_done)"
    using admit_op_replay [of "toISOString 5" DEFAULT_LEASE_TTL_MS demo_done demo_action] demo_done_found
    by (simp add: demo_done_prune)
  then have "mutate_store safety_store (admit_op demo_action DEFAULT_LEASE_TTL_MS) (Some 5) (demo_file demo_done) =
      (Inr True, atomicWriteJson (enc_state demo_done))"
    using safety_file.mutate_exact [OF read_demo_file [OF demo_done_inv]] demo_done_inv by simp
  then have a: "admit (enc_action demo_action) DEFAULT_LEASE_TTL_MS (Some 5) (demo_file demo_done) =
      (Inr \<lparr>replay = True, lease_action = demo_action\<rparr>, atomicWriteJson (enc_state demo_done))"
    by (simp add: admit_def liftp_def seqp_def ret_def)
  show ?thesis
    using a completed_never_readmitted [OF read_demo_file [OF demo_done_inv] e(1,2) trace_nil [of demo_auth]
        validateAction_enc [OF demo_action_ok] e(3) a] by blast
qed

end
