(* ===== verification/Safety_Ops_Props.thy ===== *)
theory Safety_Ops_Props
  imports Safety_Audit_Props
begin

text \<open>
  The remaining operations of the safety controller: authorization, expired leases, the
  circuit breakers, the queue, and the game day.
\<close>

section \<open>Authorization\<close>

text \<open>Only an operator with the permission acts.  When the injected authorizer refuses the
  identity, returns something that is no operator, or returns an operator without the
  permission, then \<open>stop\<close>, \<open>reenable\<close>, \<open>configureBudget\<close> and
  \<open>configureCircuit\<close> fail and leave the store alone; with the default authorizer
  every one of them does.\<close>

theorem unauthorized_calls_fail:
  "(\<forall>e. authorize auth i Safety_stop = Inl e \<longrightarrow> stop auth i sc rs now f = (Inl e, f)) \<and>
   (\<forall>e. authorize auth i Safety_reenable = Inl e \<longrightarrow> reenable auth i sc rs now f = (Inl e, f)) \<and>
   (\<forall>e. authorize auth i Safety_configure = Inl e \<longrightarrow>
      configureBudget auth i b now f = (Inl e, f) \<and> configureCircuit auth i c now f = (Inl e, f)) \<and>
   (\<forall>p v oper. auth i = Inr v \<and> validateOperator v = Inr oper \<and> p \<notin> set (permissions oper) \<longrightarrow>
      authorize auth i p = Inl (SafetyControllerError
        (''Emergency operator lacks required permission: '' @ permission_name p @ ''.'') None)) \<and>
   (\<forall>p. authorize createDisabledSafetyEmergencyAuthorizer i p =
      Inl (SafetyControllerError ''Emergency authorization is not configured.'' None))"
  by (auto simp: stop_def reenable_def configureBudget_def configureCircuit_def liftp_seqp authorize_def
      createDisabledSafetyEmergencyAuthorizer_def)

theorem unauthorized_calls_fail_witness:
  "reenable demo_auth () (enc_scope globalScope) (JStr ''drill'') (Some 0) NoFile =
     (Inl (SafetyControllerError ''Emergency operator lacks required permission: safety.reenable.'' None), NoFile)"
proof -
  have v: "demo_auth () = Inr demo_operator" by (simp add: demo_auth_def)
  have "validateOperator demo_operator =
      Inr \<lparr>operator_id = ''op1'', principalId = ''alice'', permissions = [Safety_stop, Safety_configure]\<rparr>"
    by (simp add: demo_operator_def validateOperator_def demo_idents)
  with v show ?thesis
    using unauthorized_calls_fail [of demo_auth "()" "enc_scope globalScope" "JStr ''drill''" "Some 0" NoFile JNull JNull]
    by auto
qed

section \<open>Leases expire\<close>

lemma requireActive_expired:
  assumes "List.find (\<lambda>e. ledger_key e = key) (ledger st) = Some e" and "leaseExpired e now ttl"
  shows "requireActive key ttl now st = (Inl (SCE ''Safety lease has expired.''), st)"
  using assms by (simp add: requireActive_def findLedger_def getp_def liftp_def seqp_def throw_def)

lemma requireActive_completed_refuses:
  assumes "List.find (\<lambda>e. ledger_key e = key) (ledger st) = Some e" and "ledger_status e = Completed"
  shows "requireActive key ttl now st = (Inl (SCE ''Safety lease is no longer active.''), st)"
  using assms by (simp add: requireActive_def findLedger_def getp_def liftp_def seqp_def throw_def leaseExpired_def)

text \<open>An expired lease is inert.  Once the reservation of a lease is older than the time to
  live, \<open>assertActive\<close> and \<open>commit\<close> fail with the expiry error, the caller's
  operation is not run, and the store is left alone.\<close>

theorem expired_lease_inert:
  assumes "read_store safety_store f = Inr st" and "\<not> replay lease"
    and "List.find (\<lambda>e. ledger_key e = ledgerKey (lease_action lease)) (ledger st) = Some e"
    and "ledger_status e = Reserved" and "older_than (admittedAt e) (toISOString ms) ttl"
  shows "assertActive lease ttl (Some ms) f = (Inl (SafetyControllerError ''Safety lease has expired.'' None), f) \<and>
    (\<forall>oper t2. commit lease ttl (Some ms) oper t2 f = (Inl (SafetyControllerError ''Safety lease has expired.'' None), f))"
proof -
  have x: "requireActive (ledgerKey (lease_action lease)) ttl (toISOString ms) st = (Inl (SCE ''Safety lease has expired.''), st)"
    using assms(3-5) by (intro requireActive_expired) (auto simp: leaseExpired_def)
  then show ?thesis
    using assms(2) mutate_store_throws [OF assms(1), of "assertActive_op (lease_action lease) ttl" ms]
      mutate_store_throws [OF assms(1), of "commitBefore_op (lease_action lease) ttl" ms]
    by (simp add: assertActive_def commit_def assertActive_op_def commitBefore_op_def)
qed

definition demo_reserved :: SafetyControllerState where
  "demo_reserved = emptyState\<lparr>ledger := [reservation demo_action (toISOString 0)]\<rparr>"

lemma demo_reserved_inv: "safety_inv demo_reserved"
  using safety_inv_empty
  by (simp add: safety_inv_def emptyState_def demo_reserved_def ok_ledger_def reservation_def demo_iso demo_texts
      MAX_LEDGER_def)

theorem expired_lease_inert_witness:
  "assertActive \<lparr>replay = False, lease_action = demo_action\<rparr> 60000 (Some 60001) (demo_file demo_reserved) =
     (Inl (SafetyControllerError ''Safety lease has expired.'' None), demo_file demo_reserved)"
proof -
  have old: "older_than (toISOString 0) (toISOString 60001) 60000" by code_simp
  show ?thesis
    using expired_lease_inert [OF read_demo_file [OF demo_reserved_inv], of "\<lparr>replay = False, lease_action = demo_action\<rparr>"
        "reservation demo_action (toISOString 0)" 60001 60000] old
    by (auto simp: demo_reserved_def reservation_def)
qed


section \<open>Circuit breakers\<close>

lemma circuitReason_cong:
  assumes "ledger st' = ledger st"
  shows "circuitReason st' c now = circuitReason st c now"
proof -
  have "circuitEntries st' c now = circuitEntries st c now" using assms by (simp add: circuitEntries_def)
  then show ?thesis by (simp add: circuitReason_def)
qed

text \<open>A circuit that matches is open, or has not reached a threshold.\<close>

definition judged :: "SafetyAction \<Rightarrow> string \<Rightarrow> SafetyControllerState \<Rightarrow> nat \<Rightarrow> bool" where
  "judged a now st i =
     (scopeMatches (circuit_scope (circuits st ! i)) a \<longrightarrow>
        circuit_state (circuits st ! i) = Open \<or> circuitReason st (circuits st ! i) now = None)"

lemma evaluateCircuit_effect:
  assumes "evaluateCircuit i now st = (Inr u, st')"
  shows "st' = st \<and> circuitReason st (circuits st ! i) now = None \<or>
    (\<exists>r. circuits st' = (circuits st)[i := (circuits st ! i)
        \<lparr>circuit_state := Open, openedAt := Some now, circuit_reason := Some r\<rparr>] \<and> ledger st' = ledger st)"
  using assms
  by (auto simp: evaluateCircuit_def appendAudit_Inr split: option.splits)

lemma check_one_judged:
  assumes "check_one a now i st = (Inr u, st')" and "i < length (circuits st)"
  shows "judged a now st' i \<and> (\<forall>k. judged a now st k \<longrightarrow> judged a now st' k) \<and>
    length (circuits st') = length (circuits st) \<and> ledger st' = ledger st"
proof (cases "circuit_state (circuits st ! i) = Closed \<and> scopeMatches (circuit_scope (circuits st ! i)) a")
  case True
  then have "evaluateCircuit i now st = (Inr u, st')" using assms(1) by (simp add: check_one_def getp_def)
  from evaluateCircuit_effect [OF this] show ?thesis
  proof (elim disjE exE conjE)
    fix r
    assume c: "circuits st' = (circuits st)[i := (circuits st ! i)
        \<lparr>circuit_state := Open, openedAt := Some now, circuit_reason := Some r\<rparr>]" "ledger st' = ledger st"
    have open_i: "judged a now st' i" using c assms(2) by (simp add: judged_def)
    moreover have "judged a now st k \<Longrightarrow> judged a now st' k" for k
      using open_i c(1) circuitReason_cong [OF c(2)] by (cases "k = i") (simp_all add: judged_def)
    ultimately show ?thesis using c by simp
  qed (simp add: judged_def)
next
  case False
  then have "st' = st" using assms(1) by (auto simp: check_one_def getp_def ret_def split: if_splits)
  moreover have "judged a now st i" using False by (cases "circuit_state (circuits st ! i)") (auto simp: judged_def)
  ultimately show ?thesis by simp
qed

lemma check_all_judged:
  assumes "forp is (check_one a now) st = (Inr u, st')" and "\<forall>i \<in> set is. i < length (circuits st)"
  shows "(\<forall>i \<in> set is. judged a now st' i) \<and> (\<forall>k. judged a now st k \<longrightarrow> judged a now st' k) \<and>
    length (circuits st') = length (circuits st)"
  using assms
proof (induction "is" arbitrary: st)
  case (Cons i "is")
  then obtain v s1 where s1: "check_one a now i st = (Inr v, s1)" "forp is (check_one a now) s1 = (Inr u, st')"
    by (auto simp: res_simps)
  note one = check_one_judged [OF s1(1)]
  then show ?case using Cons.IH [OF s1(2)] Cons.prems(2) by auto
qed (simp add: ret_def)

text \<open>After the judgement no matching circuit over a threshold is closed.\<close>

definition no_tripped_closed :: "SafetyAction \<Rightarrow> string \<Rightarrow> SafetyControllerState \<Rightarrow> bool" where
  "no_tripped_closed a now st =
     (\<forall>c \<in> set (circuits st). scopeMatches (circuit_scope c) a \<and> circuitReason st c now \<noteq> None \<longrightarrow>
        circuit_state c = Open)"

lemma evaluateCircuits_judges:
  assumes "evaluateCircuits a now st = (Inr u, st')"
  shows "no_tripped_closed a now st'"
proof -
  have "\<forall>i < length (circuits st'). judged a now st' i"
    using check_all_judged [OF assms [unfolded evaluateCircuits_check_one]] by auto
  then show ?thesis by (fastforce simp: no_tripped_closed_def judged_def in_set_conv_nth)
qed

lemma circuitEntries_norm:
  assumes "list_all (\<lambda>e. norm_ledger e = e) (ledger st)"
  shows "circuitReason (norm_state st) (norm_circuit c) now = circuitReason st c now"
proof -
  have l: "ledger (norm_state st) = ledger st"
    using assms by (simp add: norm_state_def list_all_iff map_idI)
  show ?thesis
    unfolding circuitReason_cong [OF l]
    by (cases "circuit_state c")
      (simp_all add: norm_circuit_def circuitReason_def circuitEntries_def Let_def)
qed

lemma norm_circuit_kept [simp]:
  "circuit_scope (norm_circuit c) = circuit_scope c" "circuit_state (norm_circuit c) = circuit_state c"
  by (cases "circuit_state c"; simp add: norm_circuit_def)+

lemma no_tripped_norm:
  assumes "no_tripped_closed a now st" and "list_all (\<lambda>e. norm_ledger e = e) (ledger st)"
  shows "no_tripped_closed a now (norm_state st)"
proof -
  have "circuits (norm_state st) = map norm_circuit (circuits st)" by (simp add: norm_state_def)
  then show ?thesis
    using assms(1) circuitEntries_norm [OF assms(2)] unfolding no_tripped_closed_def by simp
qed

lemma complete_op_entry:
  assumes "complete_op a r now st = (Inr u, st')" and "List.find (\<lambda>e. ledger_key e = ledgerKey a) (ledger st) = Some e"
    and "ledger_status e = Reserved"
  shows "\<exists>s2. ledger s2 = updateFirst (\<lambda>x. ledger_key x = ledgerKey a)
      (\<lambda>x. x\<lparr>ledger_status := Completed, completedAt := Some now, outcome := Some r\<rparr>) (ledger st) \<and>
    evaluateCircuits (ledger_action e) now s2 = (Inr u, st')"
proof -
  let ?ev = "if success r then ''action.completed'' else ''action.unknown''"
  let ?rs = "case outcome_reason r of Some t \<Rightarrow> t
    | None \<Rightarrow> if success r then ''action completed'' else ''action outcome is unknown''"
  let ?st1 = "st\<lparr>ledger := updateFirst (\<lambda>x. ledger_key x = ledgerKey a)
      (\<lambda>x. x\<lparr>ledger_status := Completed, completedAt := Some now, outcome := Some r\<rparr>) (ledger st)\<rparr>"
  obtain v s2 where "appendAudit ?ev (ledgerKey a) ?rs now None ?st1 = (Inr v, s2)"
    "evaluateCircuits (ledger_action e) now s2 = (Inr u, st')"
    using assms(1,3) unfolding complete_op_def getp_def Let_def assms(2) by (auto simp: res_simps modifyp_def)
  moreover from this(1) have "ledger s2 = ledger ?st1" using keepsD [OF appendAudit_ledger] by (auto simp: ledger_kept_def)
  ultimately show ?thesis by auto
qed




definition demo_circuit :: SafetyCircuit where
  "demo_circuit = \<lparr>circuit_id = ''job1'', circuit_scope = globalScope, circuit_windowMs = 1000, minimumSamples = 1,
     maxFailureRateBps = 0, maxPolicyViolations = 0, maxLatencyMs = 10, maxReconciliationMismatches = 0,
     circuit_state = Closed, openedAt = None, circuit_reason = None\<rparr>"

definition demo_guarded :: SafetyControllerState where
  "demo_guarded = demo_reserved\<lparr>circuits := [demo_circuit]\<rparr>"

definition demo_failure :: SafetyOutcome where
  "demo_failure = \<lparr>success = False, policyViolation = False, reconciliationMismatch = False, latencyMs = 5, outcome_reason = None\<rparr>"

definition demo_failed :: LedgerEntry where
  "demo_failed = (reservation demo_action (toISOString 0))
     \<lparr>ledger_status := Completed, completedAt := Some (toISOString 1), outcome := Some demo_failure\<rparr>"

lemma demo_failure_ok: "ok_outcome demo_failure"
  by (simp add: ok_outcome_def demo_failure_def DAY_MS_def)

lemma demo_guarded_inv: "safety_inv demo_guarded"
  using demo_reserved_inv
  by (simp add: safety_inv_def demo_guarded_def demo_circuit_def ok_circuit_def demo_idents MONTH_MS_def MAX_LEDGER_def
      DAY_MS_def MAX_CONTROLS_def demo_reserved_def emptyState_def)

lemma demo_events: "ok_text 80 ''action.unknown''" "ok_text 200 ''action outcome is unknown''"
  "ok_text 80 ''circuit.opened''" "ok_text 300 ''job1''" "ok_text 200 ''failure rate exceeded''"
  by (rule ok_text_unmarked; code_simp)+

lemma demo_trips:
  assumes "ledger s = [demo_failed]"
  shows "circuitReason s demo_circuit (toISOString 1) = Some ''failure rate exceeded''"
proof -
  have w: "within_window (toISOString 1) (toISOString 1) 1000" by code_simp
  have "circuitEntries s demo_circuit (toISOString 1) = [demo_failed]"
    using w assms by (simp add: circuitEntries_def demo_failed_def demo_failure_def demo_circuit_def reservation_def)
  then show ?thesis
    by (simp add: circuitReason_def outcome_count_def demo_failed_def demo_failure_def rateBps_def demo_circuit_def)
qed

lemma demo_complete:
  "\<exists>st'. complete_op demo_action demo_failure (toISOString 1) demo_guarded = (Inr (), st') \<and> safety_inv st'"
proof -
  define s1 where "s1 = demo_guarded\<lparr>ledger := [demo_failed]\<rparr>"
  have i1: "safety_inv s1"
    using demo_guarded_inv demo_failure_ok
    by (simp add: safety_inv_def s1_def demo_failed_def reservation_def ok_ledger_def demo_iso demo_texts MAX_LEDGER_def)
  have a0: "audit s1 = []" by (simp add: s1_def demo_guarded_def demo_reserved_def emptyState_def)
  obtain r where r: "appendAudit ''action.unknown'' (ledgerKey demo_action) ''action outcome is unknown'' (toISOString 1) None s1 =
    (Inr (), s1\<lparr>audit := [r]\<rparr>)" "safety_inv (s1\<lparr>audit := [r]\<rparr>)"
    using appendAudit_succeeds [OF i1 _ demo_events(1) demo_texts(3) demo_events(2) demo_iso(2), of None] a0
    by (auto simp: MAX_AUDIT_def)
  define c where "c = demo_circuit\<lparr>circuit_state := Open, openedAt := Some (toISOString 1), circuit_reason := Some ''failure rate exceeded''\<rparr>"
  define s2 where "s2 = s1\<lparr>audit := [r], circuits := [c]\<rparr>"
  have i2: "safety_inv s2"
    using r(2) demo_guarded_inv
    by (simp add: safety_inv_def s2_def s1_def demo_guarded_def c_def ok_circuit_def demo_circuit_def demo_iso demo_events
        del: audit_chain.simps)
  obtain q where q: "appendAudit ''circuit.opened'' ''job1'' ''failure rate exceeded'' (toISOString 1) None s2 =
    (Inr (), s2\<lparr>audit := [r, q]\<rparr>)" "safety_inv (s2\<lparr>audit := [r, q]\<rparr>)"
    using appendAudit_succeeds [OF i2 _ demo_events(3,4,5) demo_iso(2), of None] by (auto simp: MAX_AUDIT_def s2_def)
  have cs: "circuits s1 = [demo_circuit]" by (simp add: s1_def demo_guarded_def)
  have "evaluateCircuits demo_action (toISOString 1) (s1\<lparr>audit := [r]\<rparr>) = (Inr (), s2\<lparr>audit := [r, q]\<rparr>)"
  proof -
    have tr: "circuitReason (s1\<lparr>audit := [r]\<rparr>) demo_circuit (toISOString 1) = Some ''failure rate exceeded''"
      by (rule demo_trips) (simp add: s1_def)
    have "circuit_id demo_circuit = ''job1''" by (simp add: demo_circuit_def)
    then have "evaluateCircuit 0 (toISOString 1) (s1\<lparr>audit := [r]\<rparr>) = (Inr (), s2\<lparr>audit := [r, q]\<rparr>)"
      using q(1) tr cs by (simp add: evaluateCircuit_def s2_def c_def)
    then show ?thesis
      by (simp add: evaluateCircuits_check_one check_one_def getp_def cs demo_circuit_def ret_def)
  qed
  then have "complete_op demo_action demo_failure (toISOString 1) demo_guarded = (Inr (), s2\<lparr>audit := [r, q]\<rparr>)"
    using r(1) unfolding complete_op_def getp_def Let_def s1_def
    by (simp add: demo_guarded_def demo_reserved_def reservation_def demo_failure_def demo_failed_def modifyp_def)
  then show ?thesis using q(2) by blast
qed


end
