(* ===== verification/Safety_Queue_Props.thy ===== *)
theory Safety_Queue_Props
  imports Safety_Ops_Props
begin

text \<open>
  The queue of the safety controller: what \<open>stop\<close> does to it, the order of
  \<open>dequeue\<close>, and the scheduled game day, which drives the kill switch through a drill.
\<close>

section \<open>Stopping drains the queue\<close>

definition dead :: "string \<Rightarrow> string \<Rightarrow> SafetyQueueItem \<Rightarrow> SafetyDeadLetter" where
  "dead reason now item = \<lparr>dead_item = item, dead_reason = reason, deadLetteredAt = now\<rparr>"

lemma addDeadLetter_Inr:
  assumes "addDeadLetter item reason now st = (Inr u, st')"
  shows "deadLetters st' = (if length (deadLetters st) \<ge> MAX_DEAD_LETTERS then tl (deadLetters st) else deadLetters st) @
      [dead (trim reason) now item] \<and> length reason \<le> 200 \<and> queue st' = queue st"
  using assms
  by (auto simp: addDeadLetter_def modifyp_def liftp_def res_simps v_text_JStr dead_def)

lemma dead_letter_loop:
  assumes "forp items (\<lambda>item. seqp (addDeadLetter item reason now) (\<lambda>_. appendAudit ev (queue_id item) rs now None)) st = (Inr u, st')"
    and "length items < MAX_DEAD_LETTERS"
  shows "\<exists>k. deadLetters st' = drop k (deadLetters st) @ map (dead (trim reason) now) items"
  using assms
proof (induction items arbitrary: st' u rule: rev_induct)
  case Nil
  then show ?case by (auto simp: ret_def intro: exI [of _ 0])
next
  case (snoc item items)
  let ?f = "\<lambda>item. seqp (addDeadLetter item reason now) (\<lambda>_. appendAudit ev (queue_id item) rs now None)"
  obtain v s1 where s1: "forp items ?f st = (Inr v, s1)" "?f item s1 = (Inr u, st')"
    using snoc.prems(1) by (auto simp: forp_append res_simps ret_def)
  obtain k where k: "deadLetters s1 = drop k (deadLetters st) @ map (dead (trim reason) now) items"
    using snoc.IH [OF s1(1)] snoc.prems(2) by auto
  obtain w s2 where s2: "addDeadLetter item reason now s1 = (Inr w, s2)" "appendAudit ev (queue_id item) rs now None s2 = (Inr u, st')"
    using s1(2) by (auto simp: res_simps)
  have d: "deadLetters st' = deadLetters s2"
    using keepsD [OF appendAudit_ledger s2(2)] by (simp add: ledger_kept_def)
  show ?case
  proof (cases "length (deadLetters s1) \<ge> MAX_DEAD_LETTERS")
    case True
    then have "drop k (deadLetters st) \<noteq> []" using k snoc.prems(2) by auto
    then have "tl (deadLetters s1) = drop (Suc k) (deadLetters st) @ map (dead (trim reason) now) items"
      using k by (simp add: drop_Suc tl_drop)
    then show ?thesis using addDeadLetter_Inr [OF s2(1)] d True by auto
  next
    case False
    then show ?thesis using addDeadLetter_Inr [OF s2(1)] d k by auto
  qed
qed


lemma setSwitch_frame:
  "setSwitch sc en rs pr now st = (r, st') \<Longrightarrow>
   queue st' = queue st \<and> deadLetters st' = deadLetters st \<and> ledger st' = ledger st \<and> audit st' = audit st"
  by (auto simp: setSwitch_def split: option.splits if_splits)

lemma stop_op_queue:
  assumes "stop_op oper sc rs now st = (Inr u, st')" and "length (queue st) < MAX_DEAD_LETTERS"
  shows "queue st' = filter (\<lambda>q. \<not> scopeMatches sc (queue_action q)) (queue st)"
    and "\<exists>k. deadLetters st' = drop k (deadLetters st) @
      map (dead (trim (''kill switch: '' @ rs)) now) (filter (\<lambda>q. scopeMatches sc (queue_action q)) (queue st))"
proof -
  obtain s1 s2 where h: "setSwitch sc True rs (principalId oper) now st = (Inr (), s1)"
    "deadLetterMatchingQueued sc rs now s1 = (Inr (), s2)"
    "appendAudit ''kill_switch.stopped'' (scopeKey sc) rs now (Some (principalId oper)) s2 = (Inr u, st')"
    using assms(1) by (auto simp: stop_op_def seqp_eq_Inr)
  note f = setSwitch_frame [OF h(1)]
  let ?items = "filter (\<lambda>q. scopeMatches sc (queue_action q)) (queue st)"
  obtain s3 where s3: "forp ?items (\<lambda>item. seqp (addDeadLetter item (''kill switch: '' @ rs) now)
      (\<lambda>_. appendAudit ''queue.dead_lettered'' (queue_id item) ''kill switch stopped queued action'' now None)) s1 = (Inr (), s3)"
    "s2 = s3\<lparr>queue := filter (\<lambda>q. \<not> scopeMatches sc (queue_action q)) (queue st)\<rparr>"
    using h(2) f by (auto simp: deadLetterMatchingQueued_def getp_def modifyp_def seqp_eq_Inr)
  have e: "queue st' = queue s2" "deadLetters st' = deadLetters s2"
    using keepsD [OF appendAudit_ledger h(3)] by (simp_all add: ledger_kept_def)
  show "queue st' = filter (\<lambda>q. \<not> scopeMatches sc (queue_action q)) (queue st)" using e s3(2) by simp
  have "length ?items < MAX_DEAD_LETTERS" using assms(2) length_filter_le le_less_trans by blast
  from dead_letter_loop [OF s3(1) this] show "\<exists>k. deadLetters st' = drop k (deadLetters st) @
      map (dead (trim (''kill switch: '' @ rs)) now) ?items"
    using e s3(2) f by simp
qed

text \<open>Stopping a scope drains it.  When \<open>stop\<close> succeeds, the state written queues
  exactly the actions outside the scope, in their order, and every action of the scope that was
  queued is a dead letter, the newest ones, in queue order; only older dead letters are dropped
  to keep within the limit.\<close>

theorem stop_drains_queue:
  assumes "stop auth i jsc jrs (Some ms) f = (Inr (), f')" and "validateScope jsc = Inr sc"
    and "read_store safety_store f = Inr st"
  shows "\<exists>st' rs k. f' = atomicWriteJson (enc_state st') \<and> safety_inv st' \<and>
    queue st' = filter (\<lambda>q. \<not> scopeMatches sc (queue_action q)) (queue st) \<and>
    map dead_item (deadLetters st') = map dead_item (drop k (deadLetters st)) @
      filter (\<lambda>q. scopeMatches sc (queue_action q)) (queue st)"
proof -
  obtain oper r where m: "mutate_store safety_store (stop_op oper sc r) (Some ms) f = (Inr (), f')"
    using assms by (auto simp: stop_def liftp_seqp split: sum.splits)
  then obtain s' where h: "safety_inv st" "stop_op oper sc r (toISOString ms) st = (Inr (), s')"
    "safety_inv (norm_state s')" "f' = atomicWriteJson (enc_state (norm_state s'))"
    using assms(3) by (auto elim: safety_mutateE)
  have q: "length (queue st) < MAX_DEAD_LETTERS"
    using h(1) by (simp add: safety_inv_def MAX_QUEUE_def MAX_DEAD_LETTERS_def)
  have n: "queue (norm_state s') = queue s'" "map dead_item (deadLetters (norm_state s')) = map dead_item (deadLetters s')"
    by (simp_all add: norm_state_def norm_dead_letter_def)
  obtain k where "deadLetters s' = drop k (deadLetters st) @
      map (dead (trim (''kill switch: '' @ r)) (toISOString ms)) (filter (\<lambda>q. scopeMatches sc (queue_action q)) (queue st))"
    using stop_op_queue(2) [OF h(2) q] by blast
  then have "map dead_item (deadLetters s') = map dead_item (drop k (deadLetters st)) @
      filter (\<lambda>q. scopeMatches sc (queue_action q)) (queue st)"
    by (simp add: dead_def comp_def)
  then show ?thesis using h(3,4) n stop_op_queue(1) [OF h(2) q] by metis
qed

theorem stop_drains_queue_witness:
  "\<exists>st'. demo_stopped = atomicWriteJson (enc_state st') \<and> safety_inv st' \<and> queue st' = []"
  using stop_drains_queue [OF demo_stop validateScope_global, of emptyState]
  by (auto simp: read_store_def emptyState_def)

lemma addDeadLetter_long:
  assumes "length reason > 200"
  shows "\<exists>e st'. addDeadLetter item reason now st = (Inl e, st')"
  using assms by (simp add: addDeadLetter_def modifyp_def liftp_def v_text_def seqp_def)

lemma stop_op_long_reason:
  assumes "q \<in> set (queue st)" and "scopeMatches sc (queue_action q)" and "length rs > 187"
  shows "\<exists>e st'. stop_op oper sc rs now st = (Inl e, st')"
proof (rule ccontr)
  assume "\<not> ?thesis"
  then obtain u st' where "stop_op oper sc rs now st = (Inr u, st')" by (cases "stop_op oper sc rs now st"; cases "fst (stop_op oper sc rs now st)") auto
  then obtain s1 s2 where h: "setSwitch sc True rs (principalId oper) now st = (Inr (), s1)"
    "deadLetterMatchingQueued sc rs now s1 = (Inr (), s2)"
    by (auto simp: stop_op_def seqp_eq_Inr)
  have "q \<in> set (filter (\<lambda>q. scopeMatches sc (queue_action q)) (queue s1))"
    using assms(1,2) setSwitch_frame [OF h(1)] by simp
  then obtain p ps where ps: "filter (\<lambda>q. scopeMatches sc (queue_action q)) (queue s1) = p # ps"
    by (cases "filter (\<lambda>q. scopeMatches sc (queue_action q)) (queue s1)") auto
  have "length (''kill switch: '' @ rs) > 200" using assms(3) by simp
  then obtain e s where "addDeadLetter p (''kill switch: '' @ rs) now s1 = (Inl e, s)"
    using addDeadLetter_long by blast
  with h(2) ps show False by (auto simp: deadLetterMatchingQueued_def getp_def seqp_def)
qed

text \<open>C26: A defect of the kill switch.  The dead-letter reason is the operator's reason behind
  \<open>kill switch: \<close> and is limited to 200 characters, as the operator's reason is.  With a
  valid reason of 188 to 200 characters and an action of the scope in the queue, \<open>stop\<close>
  therefore throws, the store is left as it was, and the scope is not stopped.\<close>

theorem stop_refused_by_long_reason:
  assumes "read_store safety_store f = Inr st" and "validateScope jsc = Inr sc"
    and "v_text SCE ''Kill-switch reason'' 200 jrs = Inr rs" and "length rs > 187"
    and "q \<in> set (queue st)" and "scopeMatches sc (queue_action q)"
  shows "\<exists>e. stop auth i jsc jrs now f = (Inl e, f)"
proof (cases "authorize auth i Safety_stop")
  case (Inr oper)
  have "holds (\<lambda>s. q \<in> set (queue s)) f" using assms(1,5) by (simp add: holds_def)
  then have "\<exists>e. mutate_store safety_store (stop_op oper sc rs) now f = (Inl e, f)"
    by (rule mutate_refuses) (rule stop_op_long_reason [OF _ assms(6,4)])
  then show ?thesis using assms(2,3) Inr by (simp add: stop_def liftp_seqp)
qed (simp add: stop_def liftp_seqp)


definition demo_item :: SafetyQueueItem where
  "demo_item = \<lparr>queue_id = ''job1'', queue_action = demo_action, queuedAt = toISOString 0\<rparr>"

definition demo_queued :: SafetyControllerState where
  "demo_queued = emptyState\<lparr>queue := [demo_item]\<rparr>"

lemma demo_queued_inv: "safety_inv demo_queued"
  using safety_inv_empty
  by (simp add: safety_inv_def emptyState_def demo_queued_def demo_item_def ok_queue_item_def demo_idents demo_iso MAX_QUEUE_def)

lemma str_includes_set: "str_includes s p \<Longrightarrow> set p \<subseteq> set s"
  by (auto simp: str_includes_iff)

lemma long_text: "0 < n \<Longrightarrow> n \<le> 200 \<Longrightarrow> v_text SCE label 200 (JStr (replicate n (CHR ''x''))) = Inr (replicate n (CHR ''x''))"
proof -
  assume n: "0 < n" "n \<le> 200"
  have "\<not> is_ws (CHR ''x'')" "\<not> is_control (CHR ''x'')" by code_simp+
  moreover have "list_all (\<lambda>p. \<not> set p \<subseteq> {CHR ''x''}) TOKEN_MARKERS" by code_simp
  then have "\<not> has_marker (replicate n (CHR ''x''))"
    using str_includes_set n by (fastforce simp: has_marker_def list_ex_iff list_all_iff)
  moreover have "toLowerCase (replicate n (CHR ''x'')) = replicate n (CHR ''x'')"
  proof -
    have "lower_char (CHR ''x'') = CHR ''x''" by code_simp
    then show ?thesis by (simp add: toLowerCase_def map_replicate)
  qed
  then have "\<not> has_bearer (replicate n (CHR ''x''))"
    using str_includes_set [of "replicate n (CHR ''x'')" "''bearer''"] n by (auto simp: has_bearer_def)
  ultimately have "ok_text 200 (replicate n (CHR ''x''))"
    using n by (intro ok_text_unmarked) (auto simp: trim_def list_ex_iff dropWhile_eq_self_iff)
  then show ?thesis by simp
qed

theorem stop_refused_by_long_reason_witness:
  "\<exists>e. stop demo_auth () (enc_scope globalScope) (JStr (replicate 190 (CHR ''x''))) (Some 1) (demo_file demo_queued) =
     (Inl e, demo_file demo_queued)"
  by (rule stop_refused_by_long_reason [OF read_demo_file [OF demo_queued_inv] validateScope_global long_text, of 190 demo_item])
    (simp_all add: demo_queued_def globalScope_ok)

section \<open>The game day\<close>

text \<open>Under the invariant a re-enabled scope has no engaged switch left.\<close>

lemma reenable_op_off:
  assumes "reenable_op oper sc rs now st = (Inr u, st')" and "safety_inv st"
  shows "\<not> stopped sc st'"
proof -
  obtain w where w: "switches st' = updateFirst (\<lambda>w. sameScope (switch_scope w) sc)
       (\<lambda>w. w\<lparr>enabled := False, changedAt := now, changedBy := principalId oper, switch_reason := rs\<rparr>) (switches st)"
    using assms(1) by (rule reenable_op_Inr)
  have d: "distinct (map (\<lambda>w. scopeKey (switch_scope w)) (switches st))" using assms(2) by (simp add: safety_inv_def)
  have "\<not> enabled x" if x: "x \<in> set (switches st')" "switch_scope x = sc" for x
  proof -
    have "(\<exists>y. sameScope (switch_scope y) sc \<and>
        x = y\<lparr>enabled := False, changedAt := now, changedBy := principalId oper, switch_reason := rs\<rparr>) \<or>
      \<not> sameScope (switch_scope x) sc"
      by (rule updateFirst_unique [OF x(1) [unfolded w] d]) simp
    then show ?thesis using x(2) by (elim disjE exE conjE) simp_all
  qed
  then show ?thesis by (auto simp: stopped_def)
qed

lemma reenable_holds_off:
  assumes "reenable auth i jsc rs now f = (Inr (), f')" and "validateScope jsc = Inr sc"
  shows "holds (\<lambda>st. \<not> stopped sc st) f'"
proof -
  obtain oper r where m: "mutate_store safety_store (reenable_op oper sc r) now f = (Inr (), f')"
    using assms by (auto simp: reenable_def liftp_seqp split: sum.splits)
  then obtain ms s s' where h: "safety_inv s" "reenable_op oper sc r (toISOString ms) s = (Inr (), s')"
    "safety_inv (norm_state s')" "f' = atomicWriteJson (enc_state (norm_state s'))"
    by (rule safety_mutateE)
  show ?thesis using reenable_op_off [OF h(2,1)] read_norm_state [OF h(3)] h(4) by (auto simp: holds_def)
qed


lemma game_day_steps:
  assumes "runScheduledGameDay auth si ri j reason ttl clk f = (Inr stamps, f')"
  shows "\<exists>a r f1 f2 f3. validateAction j = Inr a \<and> v_text SCE ''Game-day reason'' 200 reason = Inr r \<and>
    stop auth si (enc_scope globalScope) (JStr (r @ '' stop drill'')) (clk_stop clk) f = (Inr (), f1) \<and>
    admitMustFail a ttl (clk_admit clk) f1 = (Inr (), f2) \<and>
    reenable auth ri (enc_scope globalScope) (JStr (r @ '' recovery drill'')) (clk_reenable clk) f2 = (Inr (), f3) \<and>
    mutate_store safety_store (\<lambda>now. appendAudit ''game_day.passed'' (ledgerKey a) r now None) (clk_final clk) f3 = (Inr (), f')"
  using assms unfolding runScheduledGameDay_def inspect_def
  by (auto simp: res_simps liftp_def getp_def throw_def ret_def split: if_splits)

text \<open>A game day that passes has tested the switch and put it back.  When the drill
  returns, its \<open>stop\<close> succeeded, the admission of the drill's action failed with the
  kill-switch code, the switch was re-enabled, and the global scope is not stopped in the state
  it leaves.\<close>

lemma game_day_restores:
  assumes "runScheduledGameDay auth si ri j reason ttl clk f = (Inr stamps, f')"
  shows "\<exists>a r f1 f2. validateAction j = Inr a \<and> v_text SCE ''Game-day reason'' 200 reason = Inr r \<and>
      stop auth si (enc_scope globalScope) (JStr (r @ '' stop drill'')) (clk_stop clk) f = (Inr (), f1) \<and>
      (\<exists>m. admit (enc_action a) ttl (clk_admit clk) f1 = (Inl (SafetyControllerError m (Some ''SAFETY_KILL_SWITCH'')), f2)) \<and>
      holds (\<lambda>st. \<not> stopped globalScope st) f'"
proof -
  obtain a r f1 f2 f3 where h: "validateAction j = Inr a" "v_text SCE ''Game-day reason'' 200 reason = Inr r"
    "stop auth si (enc_scope globalScope) (JStr (r @ '' stop drill'')) (clk_stop clk) f = (Inr (), f1)"
    "admitMustFail a ttl (clk_admit clk) f1 = (Inr (), f2)"
    "reenable auth ri (enc_scope globalScope) (JStr (r @ '' recovery drill'')) (clk_reenable clk) f2 = (Inr (), f3)"
    "mutate_store safety_store (\<lambda>now. appendAudit ''game_day.passed'' (ledgerKey a) r now None) (clk_final clk) f3 = (Inr (), f')"
    using game_day_steps [OF assms] by blast
  have "holds (\<lambda>st. \<not> stopped globalScope st) f'"
    using h(6) reenable_holds_off [OF h(5) validateScope_global]
    by (rule mutate_holds) (auto dest!: keepsD [OF appendAudit_switches] simp: stopped_frame)
  moreover have "\<exists>m. admit (enc_action a) ttl (clk_admit clk) f1 = (Inl (SafetyControllerError m (Some ''SAFETY_KILL_SWITCH'')), f2)"
    using h(4) by (auto simp: admitMustFail_def KILL_SWITCH_ERROR_CODE_def split: prod.splits sum.splits safety_error.splits if_splits)
  ultimately show ?thesis using h by blast
qed

text \<open>A defect of the game day.  The recovery reason is the given reason with 15 more
  characters, the stop reason with 11.  A valid reason of more than 185 characters therefore
  never passes: and once the drill has stopped everything and seen the action blocked, the
  re-enabling throws and the global kill switch stays engaged.\<close>

theorem game_day_long_reason:
  assumes "v_text SCE ''Game-day reason'' 200 reason = Inr r" and "length r > 185"
  shows "(\<exists>e f'. runScheduledGameDay auth si ri j reason ttl clk f = (Inl e, f')) \<and>
    (\<forall>a f1 f2 st t. validateAction j = Inr a \<and> read_store safety_store f = Inr st \<and> \<not> stopped globalScope st \<and>
      stop auth si (enc_scope globalScope) (JStr (r @ '' stop drill'')) (clk_stop clk) f = (Inr (), f1) \<and>
      clk_stopped clk = Some t \<and> admitMustFail a ttl (clk_admit clk) f1 = (Inr (), f2) \<longrightarrow>
      (\<exists>e. runScheduledGameDay auth si ri j reason ttl clk f = (Inl e, f2)) \<and> holds (stopped globalScope) f2)"
proof -
  have long: "\<exists>e. reenable auth ri (enc_scope globalScope) (JStr (r @ '' recovery drill'')) now g = (Inl e, g)" for now g
    using assms(2) by (cases "authorize auth ri Safety_reenable") (simp_all add: reenable_def liftp_seqp v_text_def)
  show ?thesis
  proof (intro conjI allI impI)
    show "\<exists>e f'. runScheduledGameDay auth si ri j reason ttl clk f = (Inl e, f')"
    proof (rule ccontr)
      assume "\<not> ?thesis"
      then obtain x f' where "runScheduledGameDay auth si ri j reason ttl clk f = (Inr x, f')"
        by (cases "runScheduledGameDay auth si ri j reason ttl clk f"; cases "fst (runScheduledGameDay auth si ri j reason ttl clk f)") auto
      from game_day_steps [OF this] obtain g g' where
        "reenable auth ri (enc_scope globalScope) (JStr (r @ '' recovery drill'')) (clk_reenable clk) g = (Inr (), g')"
        using assms(1) by auto
      then show False using long [of "clk_reenable clk" g] by auto
    qed
  next
    fix a f1 f2 st t
    assume h: "validateAction j = Inr a \<and> read_store safety_store f = Inr st \<and> \<not> stopped globalScope st \<and>
      stop auth si (enc_scope globalScope) (JStr (r @ '' stop drill'')) (clk_stop clk) f = (Inr (), f1) \<and>
      clk_stopped clk = Some t \<and> admitMustFail a ttl (clk_admit clk) f1 = (Inr (), f2)"
    have off: "\<not> list_ex (\<lambda>w. sameScope (switch_scope w) globalScope \<and> enabled w) (switches st)"
      using h by (auto simp: stopped_def list_ex_iff)
    obtain e where "reenable auth ri (enc_scope globalScope) (JStr (r @ '' recovery drill'')) (clk_reenable clk) f2 = (Inl e, f2)"
      using long by blast
    then show "\<exists>e. runScheduledGameDay auth si ri j reason ttl clk f = (Inl e, f2)"
      using h assms(1) off unfolding runScheduledGameDay_def inspect_def
      by (simp add: liftp_def getp_def timestamp_now_def)
    have "holds (stopped globalScope) f1"
      using stop_Inr_stopped [of auth si "enc_scope globalScope" "JStr (r @ '' stop drill'')" "clk_stop clk" f f1 globalScope] h
      by simp
    moreover have "f2 = f1" using h
      by (auto simp: admitMustFail_def admit_def liftp_def ret_def seqp_def
          split: prod.splits sum.splits safety_error.splits if_splits dest!: mutate_throw_unchanged)
    ultimately show "holds (stopped globalScope) f2" by simp
  qed
qed


theorem game_day_long_reason_witness:
  "\<exists>e f'. runScheduledGameDay demo_auth () () (enc_action demo_action) (JStr (replicate 187 (CHR ''x''))) 60000
     \<lparr>clk_stop = Some 0, clk_stopped = Some 0, clk_admit = Some 0, clk_reenable = Some 0, clk_reenabled = Some 0,
      clk_final = Some 0\<rparr> NoFile = (Inl e, f')"
  by (rule game_day_long_reason [OF long_text, THEN conjunct1]) simp_all

end
