(* ===== verification/Policy.thy ===== *)
theory Policy
  imports Secrets Sha256
begin

text \<open>
  The policy engine: \<open>src/policy/types.ts\<close> and \<open>src/policy/policy.ts\<close>.  A policy
  is parsed from the value the YAML library returns (\<open>parsePolicy\<close>) and decides network,
  credential, scenario, enforcement and report events (\<open>evaluatePolicy\<close>).  The YAML parser
  and the file system are parameters of the functions that call them.
\<close>

section \<open>Data\<close>

datatype NetworkAction = Allow | Deny
datatype EnforcementMode = Linux_network_namespace | Proxy_guidance

record NetworkRule =
  rule_host :: "string option"
  rule_provider :: "string option"

record GhostApiPolicy =
  network_default :: NetworkAction
  network_allow :: "NetworkRule list"
  network_deny :: "NetworkRule list"
  productionHosts :: "string list"
  credentials_forbid :: "string list"
  requiredScenarios :: "string list"
  allowedModes :: "EnforcementMode list"
  maxProductionEgressAttempts :: nat
  maxForbiddenCredentialMatches :: nat
  maxBreakingContractChanges :: nat

datatype PolicyEvent =
    NetworkEvent (event_host: string) (event_provider: "string option")
  | CredentialEvent string
  | ScenarioEvent string "string list"
  | EnforcementEvent EnforcementMode
  | ReportEvent int int "int option"

record PolicyDecision =
  allowed :: bool
  reason :: string
  trace :: "string list"

datatype policy_error =
    PolicyValidationError (err_path: string) (err_message: string)
  | FileSystemError (err_code: string)

abbreviation PVE :: "string \<Rightarrow> string \<Rightarrow> policy_error" where
  "PVE p m \<equiv> PolicyValidationError p m"

definition MAX_POLICY_BYTES :: nat where "MAX_POLICY_BYTES = 128 * 1024"
definition MAX_LIST_ITEMS :: nat where "MAX_LIST_ITEMS = 200"

fun mode_name :: "EnforcementMode \<Rightarrow> string" where
  "mode_name Linux_network_namespace = ''linux-network-namespace''"
| "mode_name Proxy_guidance = ''proxy-guidance''"

definition ENFORCEMENT_MODES :: "EnforcementMode list" where
  "ENFORCEMENT_MODES = [Linux_network_namespace, Proxy_guidance]"

section \<open>Checked access to a parsed value\<close>

text \<open>\<open>${path}[${index}]\<close>.\<close>

definition at_index :: "string \<Rightarrow> nat \<Rightarrow> string" where
  "at_index path i = path @ ''['' @ nat_digits i @ '']''"

definition arrayAt :: "json \<Rightarrow> string \<Rightarrow> (policy_error, json list) res" where
  "arrayAt value path =
     (case value of
        JArr vs \<Rightarrow> if length vs > MAX_LIST_ITEMS then Inl (PVE path ''must contain at most 200 items.'') else Inr vs
      | _ \<Rightarrow> Inl (PVE path ''must be an array.''))"

definition recordAt :: "json \<Rightarrow> string \<Rightarrow> (policy_error, fields) res" where
  "recordAt value path = (case value of JObj ob \<Rightarrow> Inr ob | _ \<Rightarrow> Inl (PVE path ''must be an object.''))"

definition assertKeys :: "fields \<Rightarrow> string \<Rightarrow> string list \<Rightarrow> (policy_error, unit) res" where
  "assertKeys ob path allowedKeys =
     (case List.find (\<lambda>key. key \<notin> set allowedKeys) (jkeys ob) of
        None \<Rightarrow> Inr ()
      | Some key \<Rightarrow> Inl (PVE (path @ ''.'' @ key) ''is not a supported field.''))"

definition enumAt :: "json \<Rightarrow> string \<Rightarrow> string list \<Rightarrow> (policy_error, string) res" where
  "enumAt value path values =
     (case value of
        JStr s \<Rightarrow> if s \<notin> set values then Inl (PVE path (''must be one of: '' @ join '', '' values @ ''.'')) else Inr s
      | _ \<Rightarrow> Inl (PVE path (''must be one of: '' @ join '', '' values @ ''.'')))"

definition nonNegativeIntegerAt :: "json \<Rightarrow> string \<Rightarrow> (policy_error, nat) res" where
  "nonNegativeIntegerAt value path =
     (case value of
        JInt i \<Rightarrow> if i < 0 then Inl (PVE path ''must be a non-negative integer.'') else Inr (nat i)
      | _ \<Rightarrow> Inl (PVE path ''must be a non-negative integer.''))"

text \<open>\<open>array.map((entry, index) => validate(entry, `${path}[${index}]`))\<close>.\<close>

fun map_indexed :: "(json \<Rightarrow> string \<Rightarrow> (policy_error, 'a) res) \<Rightarrow> string \<Rightarrow> nat \<Rightarrow> json list \<Rightarrow> (policy_error, 'a list) res" where
  "map_indexed f path i [] = Inr []"
| "map_indexed f path i (v # vs) =
     andThen (f v (at_index path i)) (\<lambda>x. andThen (map_indexed f path (i + 1) vs) (\<lambda>xs. Inr (x # xs)))"

definition stringsAt ::
  "json \<Rightarrow> string \<Rightarrow> (json \<Rightarrow> string \<Rightarrow> (policy_error, string) res) \<Rightarrow> (policy_error, string list) res" where
  "stringsAt value path validate = andThen (arrayAt value path) (map_indexed validate path 0)"

text \<open>\<open>value ?? []\<close>.\<close>

definition or_else :: "json \<Rightarrow> json \<Rightarrow> json" where
  "or_else v d = (if v = JUndef \<or> v = JNull then d else v)"

section \<open>Leaves\<close>

definition c_label :: "char \<Rightarrow> bool" where "c_label c = (is_lower c \<or> is_digit c)"
definition c_label_mid :: "char \<Rightarrow> bool" where "c_label_mid c = (c_label c \<or> c = CHR ''-'')"

definition DNS_LABEL :: rx where
  "DNS_LABEL = Seq (Cls c_label) (Opt (Seq (UpTo 61 (Cls c_label_mid)) (Cls c_label)))"

definition DIGITS3 :: rx where
  "DIGITS3 = Seq (Cls is_digit) (UpTo 2 (Cls is_digit))"

definition HOST :: rx where
  "HOST =
     Alt (Seq (Opt (lit ''*.''))
            (Seq (Star (Seq DNS_LABEL (ch CHR ''.'')))
              (Seq (Cls c_label) (Seq (UpTo 61 (Cls c_label_mid)) (Cls c_label)))))
         (Seq (Opt (lit ''*.''))
            (Alt (lit ''localhost'')
              (Alt (Seq DIGITS3 (Times 3 (Seq (ch CHR ''.'') DIGITS3))) (lit ''::1''))))"

definition host_ok :: "string \<Rightarrow> bool" where
  "host_ok host = (\<not> str_includes host ''${'' \<and> test_full HOST host)"

definition normalizeHost :: "json \<Rightarrow> string \<Rightarrow> (policy_error, string) res" where
  "normalizeHost value path =
     (case value of
        JStr s \<Rightarrow>
          if s = [] \<or> length s > 253 then Inl (PVE path ''must be a non-empty host up to 253 characters.'')
          else (let host = toLowerCase s in
                if \<not> host_ok host
                then Inl (PVE path ''must be a lowercase DNS host, loopback address, or leading-wildcard DNS suffix.'')
                else Inr host)
      | _ \<Rightarrow> Inl (PVE path ''must be a non-empty host up to 253 characters.''))"

definition PROVIDER_ID :: rx where
  "PROVIDER_ID = Seq (Cls is_lower) (UpTo 63 (Cls c_label_mid))"

definition providerAt :: "json \<Rightarrow> string \<Rightarrow> (policy_error, string) res" where
  "providerAt value path =
     (case value of
        JStr s \<Rightarrow> if \<not> test_full PROVIDER_ID s then Inl (PVE path ''must be a lowercase provider identifier.'') else Inr s
      | _ \<Rightarrow> Inl (PVE path ''must be a lowercase provider identifier.''))"

definition is_newline :: "char \<Rightarrow> bool" where "is_newline c = (code c = 10 \<or> code c = 13)"

definition validateCredentialGlob :: "json \<Rightarrow> string \<Rightarrow> (policy_error, string) res" where
  "validateCredentialGlob value path =
     (case value of
        JStr s \<Rightarrow>
          if s = [] \<or> length s > 128 then Inl (PVE path ''must be a glob string between 1 and 128 characters.'')
          else if str_includes s ''${'' \<or> list_ex is_newline s
          then Inl (PVE path ''must not contain interpolation or newlines.'')
          else Inr s
      | _ \<Rightarrow> Inl (PVE path ''must be a glob string between 1 and 128 characters.''))"

definition SCENARIO_ID :: rx where
  "SCENARIO_ID =
     Seq (Cls c_label) (UpTo 127 (Cls (\<lambda>c. c_label c \<or> c = CHR ''.'' \<or> c = CHR ''_'' \<or> c = CHR ''-'')))"

definition validateScenarioId :: "json \<Rightarrow> string \<Rightarrow> (policy_error, string) res" where
  "validateScenarioId value path =
     (case value of
        JStr s \<Rightarrow> if \<not> test_full SCENARIO_ID s then Inl (PVE path ''must be a lowercase scenario identifier.'') else Inr s
      | _ \<Rightarrow> Inl (PVE path ''must be a lowercase scenario identifier.''))"

definition mode_of_name :: "string \<Rightarrow> EnforcementMode" where
  "mode_of_name s = (if s = mode_name Linux_network_namespace then Linux_network_namespace else Proxy_guidance)"

definition validateEnforcementMode :: "json \<Rightarrow> string \<Rightarrow> (policy_error, EnforcementMode) res" where
  "validateEnforcementMode value path =
     andThen (enumAt value path (map mode_name ENFORCEMENT_MODES)) (\<lambda>s. Inr (mode_of_name s))"

fun rejectInterpolation :: "json \<Rightarrow> string \<Rightarrow> (policy_error, unit) res"
  and rejectInterpolation_elems :: "json list \<Rightarrow> string \<Rightarrow> nat \<Rightarrow> (policy_error, unit) res"
  and rejectInterpolation_props :: "fields \<Rightarrow> string \<Rightarrow> (policy_error, unit) res" where
  "rejectInterpolation (JStr s) path =
     (if str_includes s ''${'' then Inl (PVE path ''environment interpolation is not supported.'') else Inr ())"
| "rejectInterpolation (JArr vs) path = rejectInterpolation_elems vs path 0"
| "rejectInterpolation (JObj ob) path = rejectInterpolation_props ob path"
| "rejectInterpolation _ path = Inr ()"
| "rejectInterpolation_elems [] path i = Inr ()"
| "rejectInterpolation_elems (v # vs) path i =
     andThen (rejectInterpolation v (at_index path i)) (\<lambda>_. rejectInterpolation_elems vs path (i + 1))"
| "rejectInterpolation_props [] path = Inr ()"
| "rejectInterpolation_props ((k, v) # ob) path =
     andThen (rejectInterpolation v (path @ ''.'' @ k)) (\<lambda>_. rejectInterpolation_props ob path)"

definition ruleAt :: "json \<Rightarrow> string \<Rightarrow> (policy_error, NetworkRule) res" where
  "ruleAt entry rulePath =
     andThen (recordAt entry rulePath) (\<lambda>ob.
     andThen (assertKeys ob rulePath [''host'', ''provider'']) (\<lambda>_.
     let hasHost = (jget ob ''host'' \<noteq> JUndef); hasProvider = (jget ob ''provider'' \<noteq> JUndef) in
     if hasHost = hasProvider then Inl (PVE rulePath ''must contain exactly one of host or provider.'')
     else if hasHost
     then andThen (normalizeHost (jget ob ''host'') (rulePath @ ''.host'')) (\<lambda>h. Inr \<lparr>rule_host = Some h, rule_provider = None\<rparr>)
     else andThen (providerAt (jget ob ''provider'') (rulePath @ ''.provider'')) (\<lambda>p.
          Inr \<lparr>rule_host = None, rule_provider = Some p\<rparr>)))"

definition rulesAt :: "json \<Rightarrow> string \<Rightarrow> (policy_error, NetworkRule list) res" where
  "rulesAt value path = andThen (arrayAt value path) (map_indexed ruleAt path 0)"

section \<open>Parsing a policy\<close>

definition parsePolicy :: "json \<Rightarrow> (policy_error, GhostApiPolicy) res" where
  "parsePolicy value =
     andThen (recordAt value ''policy'') (\<lambda>r.
     andThen (assertKeys r ''policy'' [''version'', ''network'', ''credentials'', ''requiredScenarios'', ''enforcement'', ''reports'']) (\<lambda>_.
     andThen (throwIf (jget r ''version'' \<noteq> JInt 1) (PVE ''policy.version'' ''must be the supported schema version 1.'')) (\<lambda>_.
     andThen (recordAt (jget r ''network'') ''policy.network'') (\<lambda>n.
     andThen (assertKeys n ''policy.network'' [''default'', ''allow'', ''deny'', ''productionHosts'']) (\<lambda>_.
     andThen (enumAt (jget n ''default'') ''policy.network.default'' [''allow'', ''deny'']) (\<lambda>d.
     andThen (recordAt (jget r ''credentials'') ''policy.credentials'') (\<lambda>c.
     andThen (assertKeys c ''policy.credentials'' [''forbid'']) (\<lambda>_.
     andThen (recordAt (jget r ''enforcement'') ''policy.enforcement'') (\<lambda>e.
     andThen (assertKeys e ''policy.enforcement'' [''allowedModes'']) (\<lambda>_.
     andThen (recordAt (jget r ''reports'') ''policy.reports'') (\<lambda>q.
     andThen (assertKeys q ''policy.reports''
       [''maxProductionEgressAttempts'', ''maxForbiddenCredentialMatches'', ''maxBreakingContractChanges'']) (\<lambda>_.
     andThen (rulesAt (or_else (jget n ''allow'') (JArr [])) ''policy.network.allow'') (\<lambda>al.
     andThen (rulesAt (or_else (jget n ''deny'') (JArr [])) ''policy.network.deny'') (\<lambda>de.
     andThen (stringsAt (or_else (jget n ''productionHosts'') (JArr [])) ''policy.network.productionHosts'' normalizeHost) (\<lambda>ph.
     andThen (stringsAt (or_else (jget c ''forbid'') (JArr [])) ''policy.credentials.forbid'' validateCredentialGlob) (\<lambda>fo.
     andThen (stringsAt (or_else (jget r ''requiredScenarios'') (JArr [])) ''policy.requiredScenarios'' validateScenarioId) (\<lambda>sc.
     andThen (andThen (arrayAt (or_else (jget e ''allowedModes'') (JArr [])) ''policy.enforcement.allowedModes'')
       (map_indexed validateEnforcementMode ''policy.enforcement.allowedModes'' 0)) (\<lambda>am.
     andThen (nonNegativeIntegerAt (jget q ''maxProductionEgressAttempts'') ''policy.reports.maxProductionEgressAttempts'') (\<lambda>pe.
     andThen (nonNegativeIntegerAt (jget q ''maxForbiddenCredentialMatches'') ''policy.reports.maxForbiddenCredentialMatches'') (\<lambda>fc.
     andThen (nonNegativeIntegerAt (or_else (jget q ''maxBreakingContractChanges'') (JInt 0)) ''policy.reports.maxBreakingContractChanges'') (\<lambda>bc.
     Inr \<lparr>network_default = (if d = ''allow'' then Allow else Deny), network_allow = al, network_deny = de,
          productionHosts = ph, credentials_forbid = fo, requiredScenarios = sc, allowedModes = am,
          maxProductionEgressAttempts = pe, maxForbiddenCredentialMatches = fc,
          maxBreakingContractChanges = bc\<rparr>)))))))))))))))))))))"

text \<open>A document of the YAML library: its errors, warnings and value.\<close>

record yaml_document =
  doc_errors :: "string list"
  doc_warnings :: "string list"
  doc_value :: json

text \<open>\<open>message.replace(/\n.*/s, "")\<close>: the first line.\<close>

definition first_line :: "string \<Rightarrow> string" where
  "first_line s = takeWhile (\<lambda>c. code c \<noteq> 10) s"

definition ANCHOR :: rx where
  "ANCHOR = Seq (Cls (\<lambda>c. c = CHR ''*'' \<or> c = CHR ''&'')) (Plus (Cls c_wdash))"

definition has_anchor :: "string \<Rightarrow> bool" where
  "has_anchor source = (rests ANCHOR source \<noteq> [] \<or> test_any (Seq (Cls is_ws) ANCHOR) source)"

definition parsePolicyYaml :: "(string \<Rightarrow> yaml_document list) \<Rightarrow> string \<Rightarrow> (policy_error, GhostApiPolicy) res" where
  "parsePolicyYaml parseAllDocuments source =
     (if utf8_length source > MAX_POLICY_BYTES
      then Inl (PVE ''policy'' ''exceeds the 131072 byte limit.'')
      else if has_anchor source then Inl (PVE ''policy'' ''YAML anchors and aliases are not allowed.'')
      else (case parseAllDocuments source of
              [doc] \<Rightarrow>
                (if doc_errors doc \<noteq> [] then Inl (PVE ''policy'' (first_line (hd (doc_errors doc))))
                 else if doc_warnings doc \<noteq> [] then Inl (PVE ''policy'' (first_line (hd (doc_warnings doc))))
                 else andThen (rejectInterpolation (doc_value doc) ''policy'') (\<lambda>_. parsePolicy (doc_value doc)))
            | _ \<Rightarrow> Inl (PVE ''policy'' ''must contain exactly one YAML document.'')))"

section \<open>Decisions\<close>

definition allow :: "string \<Rightarrow> string list \<Rightarrow> PolicyDecision" where
  "allow r t = \<lparr>allowed = True, reason = r, trace = t\<rparr>"

definition deny :: "string \<Rightarrow> string list \<Rightarrow> PolicyDecision" where
  "deny r t = \<lparr>allowed = False, reason = r, trace = t\<rparr>"

definition endsWith :: "string \<Rightarrow> string \<Rightarrow> bool" where
  "endsWith s t = (length t \<le> length s \<and> drop (length s - length t) s = t)"

definition hostMatches :: "string \<Rightarrow> string \<Rightarrow> bool" where
  "hostMatches pattern host =
     (if startsWith pattern ''*.'' then endsWith host (drop 1 pattern) \<and> host \<noteq> drop 2 pattern
      else pattern = host)"

definition ruleMatches :: "NetworkRule \<Rightarrow> string \<Rightarrow> string option \<Rightarrow> bool" where
  "ruleMatches rule host provider =
     (case rule_host rule of
        Some h \<Rightarrow> hostMatches h host
      | None \<Rightarrow> rule_provider rule = map_option toLowerCase provider)"

definition matchesAnyHost :: "string list \<Rightarrow> string \<Rightarrow> bool" where
  "matchesAnyHost patterns host = list_ex (\<lambda>p. hostMatches p host) patterns"

definition describeRule :: "NetworkRule \<Rightarrow> string" where
  "describeRule rule =
     (case rule_host rule of
        Some h \<Rightarrow> ''host:'' @ h
      | None \<Rightarrow> ''provider:'' @ (case rule_provider rule of None \<Rightarrow> ''undefined'' | Some p \<Rightarrow> p))"

definition evaluateNetwork :: "GhostApiPolicy \<Rightarrow> string \<Rightarrow> string option \<Rightarrow> (policy_error, PolicyDecision) res" where
  "evaluateNetwork policy hostValue provider =
     andThen (normalizeHost (JStr hostValue) ''event.host'') (\<lambda>host.
       let tr = [''network host: '' @ host,
                 ''production classification: '' @
                   (if matchesAnyHost (productionHosts policy) host then ''production'' else ''non-production'')]
       in Inr (case List.find (\<lambda>rule. ruleMatches rule host provider) (network_deny policy) of
            Some rule \<Rightarrow> deny ''A matching deny rule takes precedence over every allow rule.''
                           (tr @ [''matched network.deny '' @ describeRule rule])
          | None \<Rightarrow>
              (case List.find (\<lambda>rule. ruleMatches rule host provider) (network_allow policy) of
                 Some rule \<Rightarrow> allow ''A matching allow rule permits the network event.''
                                (tr @ [''matched network.allow '' @ describeRule rule])
               | None \<Rightarrow>
                   if network_default policy = Allow
                   then allow ''No network rule matched; network.default is allow.''
                          (tr @ [''no matching allow or deny rule'', ''network.default: allow''])
                   else deny ''No network rule matched; network.default is deny.''
                          (tr @ [''no matching allow or deny rule'', ''network.default: deny'']))))"

text \<open>The glob matcher: \<open>states[i]\<close> tells whether the pattern so far matches the first
  \<open>i\<close> characters; the two inner loops run up and down the array in place.\<close>

definition star_step :: "bool list \<Rightarrow> bool list" where
  "star_step states = foldl (\<lambda>s i. s[i := s ! i \<or> s ! (i - 1)]) states [1..<length states]"

definition char_step :: "string \<Rightarrow> char \<Rightarrow> bool list \<Rightarrow> bool list" where
  "char_step value c states =
     (foldl (\<lambda>s i. s[i := s ! (i - 1) \<and> value ! (i - 1) = c]) states (rev [1..<length value + 1]))[0 := False]"

definition globMatches :: "string \<Rightarrow> string \<Rightarrow> bool" where
  "globMatches pattern value =
     foldl (\<lambda>s c. if c = CHR ''*'' then star_step s else char_step value c s)
       (True # replicate (length value) False) pattern ! length value"

definition evaluateCredential :: "GhostApiPolicy \<Rightarrow> string \<Rightarrow> PolicyDecision" where
  "evaluateCredential policy value =
     (case List.find (\<lambda>p. globMatches p value) (credentials_forbid policy) of
        None \<Rightarrow> allow ''No forbidden credential pattern matched.''
                  [''credential input was checked without interpolation'', ''no policy.credentials.forbid pattern matched'']
      | Some m \<Rightarrow> deny ''A forbidden credential pattern matched.''
                    [''matched policy.credentials.forbid pattern '' @ m])"

definition evaluateScenario :: "GhostApiPolicy \<Rightarrow> string \<Rightarrow> string list \<Rightarrow> PolicyDecision" where
  "evaluateScenario policy scenarioId completed =
     (if scenarioId \<notin> set (requiredScenarios policy)
      then allow ''Scenario is not required by this policy.'' [scenarioId @ '' is not in policy.requiredScenarios'']
      else if scenarioId \<in> set completed
      then allow ''Required scenario is complete.'' [scenarioId @ '' is required and present in completed scenarios'']
      else deny ''Required scenario has not completed.'' [scenarioId @ '' is required but absent from completed scenarios''])"

definition evaluateReport :: "GhostApiPolicy \<Rightarrow> int \<Rightarrow> int \<Rightarrow> int option \<Rightarrow> PolicyDecision" where
  "evaluateReport policy egress creds changes =
     (let ch = (case changes of None \<Rightarrow> 0 | Some n \<Rightarrow> n);
          tr = [''production egress attempts: '' @ int_text egress @ '' <= '' @ nat_digits (maxProductionEgressAttempts policy),
                ''forbidden credential matches: '' @ int_text creds @ '' <= '' @ nat_digits (maxForbiddenCredentialMatches policy),
                ''breaking contract changes: '' @ int_text ch @ '' <= '' @ nat_digits (maxBreakingContractChanges policy)]
      in if egress \<le> int (maxProductionEgressAttempts policy) \<and>
            creds \<le> int (maxForbiddenCredentialMatches policy) \<and>
            ch \<le> int (maxBreakingContractChanges policy)
         then allow ''Report thresholds are satisfied.'' tr
         else deny ''A report threshold is exceeded.'' tr)"

fun evaluatePolicy :: "GhostApiPolicy \<Rightarrow> PolicyEvent \<Rightarrow> (policy_error, PolicyDecision) res" where
  "evaluatePolicy policy (NetworkEvent host provider) = evaluateNetwork policy host provider"
| "evaluatePolicy policy (CredentialEvent v) = Inr (evaluateCredential policy v)"
| "evaluatePolicy policy (ScenarioEvent i completed) = Inr (evaluateScenario policy i completed)"
| "evaluatePolicy policy (EnforcementEvent mode) =
     Inr (if mode \<in> set (allowedModes policy)
          then allow (''Enforcement mode '' @ mode_name mode @ '' is allowed.'')
                 [''enforcement.allowedModes contains '' @ mode_name mode]
          else deny (''Enforcement mode '' @ mode_name mode @ '' is forbidden.'')
                 [''enforcement.allowedModes does not contain '' @ mode_name mode])"
| "evaluatePolicy policy (ReportEvent e c b) = Inr (evaluateReport policy e c b)"

definition formatPolicyDecision :: "PolicyDecision \<Rightarrow> string" where
  "formatPolicyDecision d =
     join [CHR 0x0A]
       ([''Decision: '' @ (if allowed d then ''ALLOW'' else ''DENY''), ''Reason: '' @ reason d, ''Trace:''] @
        map (\<lambda>item. ''  - '' @ item) (trace d))"

section \<open>Loading a policy file\<close>

text \<open>POSIX paths as the node path functions treat them: an absolute path is its list of
  components; \<open>resolve\<close> walks the components of its second argument; \<open>relative\<close>
  climbs from the first path to the common prefix and descends to the second.\<close>

fun walk :: "string list \<Rightarrow> string list \<Rightarrow> string list" where
  "walk at [] = at"
| "walk at (c # cs) =
     (if c = [] \<or> c = ''.'' then walk at cs
      else if c = ''..'' then walk (butlast at) cs
      else walk (at @ [c]) cs)"

definition path_resolve :: "string list \<Rightarrow> string \<Rightarrow> string list" where
  "path_resolve root file = walk root (split_on (CHR ''/'') file)"

definition isAbsolute :: "string \<Rightarrow> bool" where
  "isAbsolute p = startsWith p ''/''"

fun path_relative :: "string list \<Rightarrow> string list \<Rightarrow> string list" where
  "path_relative (a # as) (b # bs) =
     (if a = b then path_relative as bs else map (\<lambda>_. ''..'') (a # as) @ b # bs)"
| "path_relative as bs = map (\<lambda>_. ''..'') as @ bs"

definition assertPathWithinRoot :: "string list \<Rightarrow> string list \<Rightarrow> (policy_error, unit) res" where
  "assertPathWithinRoot root target =
     (let relativePath = join ''/'' (path_relative root target) in
      throwIf (relativePath = ''..'' \<or> startsWith relativePath ''../'' \<or> isAbsolute relativePath)
        (PVE ''policy'' ''path traversal outside the project root is not allowed.''))"

datatype lstat_info = RegularFile | OtherFile

record policy_fs =
  fs_realpath :: "string list \<Rightarrow> (policy_error, string list) res"
  fs_lstat :: "string list \<Rightarrow> (policy_error, lstat_info) res"
  fs_readFile :: "string list \<Rightarrow> (policy_error, string) res"

record LoadedPolicy =
  loaded_policy :: GhostApiPolicy
  loaded_hash :: string
  loaded_path :: "string list"

definition resolvePolicyPath ::
  "policy_fs \<Rightarrow> string \<Rightarrow> string list \<Rightarrow> (policy_error, string list \<times> string list) res" where
  "resolvePolicyPath fs filePath projectRoot =
     (if isAbsolute filePath then Inl (PVE ''policy'' ''must be a relative path inside the project root.'')
      else andThen (fs_realpath fs projectRoot) (\<lambda>root.
           andThen (assertPathWithinRoot root (path_resolve root filePath)) (\<lambda>_.
           Inr (root, path_resolve root filePath))))"

definition loadPolicyFile ::
  "policy_fs \<Rightarrow> (string \<Rightarrow> yaml_document list) \<Rightarrow> string \<Rightarrow> string list \<Rightarrow> bool \<Rightarrow> (policy_error, LoadedPolicy option) res" where
  "loadPolicyFile fs parseAllDocuments filePath projectRoot required =
     andThen (resolvePolicyPath fs filePath projectRoot) (\<lambda>(root, resolvedPath).
       case fs_lstat fs resolvedPath of
         Inl (FileSystemError c) \<Rightarrow>
           if c = ''ENOENT'' \<and> \<not> required then Inr None
           else if c = ''ENOENT'' then Inl (PVE ''policy'' (''file not found: '' @ filePath @ ''.''))
           else Inl (FileSystemError c)
       | Inl e \<Rightarrow> Inl e
       | Inr OtherFile \<Rightarrow> Inl (PVE ''policy'' ''must be a regular non-symlink file.'')
       | Inr RegularFile \<Rightarrow>
           andThen (fs_realpath fs resolvedPath) (\<lambda>realPolicyPath.
           andThen (assertPathWithinRoot root realPolicyPath) (\<lambda>_.
           andThen (fs_readFile fs realPolicyPath) (\<lambda>source.
           andThen (parsePolicyYaml parseAllDocuments source) (\<lambda>policy.
           Inr (Some \<lparr>loaded_policy = policy, loaded_hash = sha256 source, loaded_path = realPolicyPath\<rparr>))))))"

end
