(* ===== verification/Policy_Match.thy ===== *)
theory Policy_Match
  imports Policy
begin

text \<open>
  Matching in the policy engine against reference definitions: credential globs, host
  patterns, and paths.  The glob matcher of the source is a table that is updated in place,
  once per pattern character; the reference is the usual inductive meaning of a glob.
\<close>

section \<open>Globs\<close>

inductive glob :: "string \<Rightarrow> string \<Rightarrow> bool" where
  glob_empty: "glob [] []"
| glob_char: "c \<noteq> CHR ''*'' \<Longrightarrow> glob p v \<Longrightarrow> glob (c # p) (c # v)"
| glob_star: "glob p v \<Longrightarrow> glob (CHR ''*'' # p) (u @ v)"

inductive_simps glob_Nil_iff [simp]: "glob [] v"
inductive_simps glob_Cons_iff: "glob (c # p) v"

lemma glob_one: "c \<noteq> CHR ''*'' \<Longrightarrow> glob [c] v \<longleftrightarrow> v = [c]"
  by (auto simp: glob_Cons_iff)

lemma glob_one_star: "glob [CHR ''*''] v"
  by (simp add: glob_Cons_iff)

lemma glob_append: "glob (p @ q) v \<longleftrightarrow> (\<exists>x y. v = x @ y \<and> glob p x \<and> glob q y)"
proof
  show "glob (p @ q) v \<Longrightarrow> \<exists>x y. v = x @ y \<and> glob p x \<and> glob q y"
  proof (induction p arbitrary: v)
    case (Cons c p)
    from Cons.prems [simplified] show ?case
    proof (cases rule: glob.cases)
      case (glob_char v')
      with Cons.IH obtain x y where "v' = x @ y" "glob p x" "glob q y" by blast
      with glob_char glob.glob_char [of c p x] show ?thesis by (metis append_Cons)
    next
      case (glob_star v' u)
      with Cons.IH obtain x y where "v' = x @ y" "glob p x" "glob q y" by blast
      with glob_star glob.glob_star [of p x u] show ?thesis by (metis append.assoc)
    qed
  qed auto
  show "\<exists>x y. v = x @ y \<and> glob p x \<and> glob q y \<Longrightarrow> glob (p @ q) v"
  proof (elim exE conjE)
    fix x y
    assume "glob p x" "v = x @ y" "glob q y"
    then show ?thesis
      by (induction p x arbitrary: v rule: glob.induct) (auto intro: glob.intros)
  qed
qed

lemma glob_snoc_char:
  "c \<noteq> CHR ''*'' \<Longrightarrow> glob (q @ [c]) (take (Suc i) v) \<longleftrightarrow> glob q (take i v) \<and> v ! i = c"
  if "i < length v"
  using that by (auto simp: glob_append glob_one take_Suc_conv_app_nth)

lemma glob_snoc_char_empty: "c \<noteq> CHR ''*'' \<Longrightarrow> \<not> glob (q @ [c]) []"
  by (auto simp: glob_append glob_one)

lemma glob_snoc_star: "glob (q @ [CHR ''*'']) (take i v) \<longleftrightarrow> (\<exists>k \<le> i. glob q (take k v))"
proof
  assume "glob (q @ [CHR ''*'']) (take i v)"
  then obtain x y where e: "take i v = x @ y" and x: "glob q x" by (auto simp: glob_append)
  from e have "length x \<le> i" by (metis le_add1 length_append length_take min.cobounded2 order_trans)
  moreover have "x = take (length x) v"
    using e \<open>length x \<le> i\<close> by (metis append_eq_conv_conj min.absorb1 take_take)
  ultimately show "\<exists>k \<le> i. glob q (take k v)" using x by metis
next
  assume "\<exists>k \<le> i. glob q (take k v)"
  then obtain k where "k \<le> i" "glob q (take k v)" by blast
  moreover from \<open>k \<le> i\<close> have "take i v = take k v @ drop k (take i v)"
    by (metis append_take_drop_id min.absorb1 take_take)
  ultimately show "glob (q @ [CHR ''*'']) (take i v)" using glob_one_star by (auto simp: glob_append)
qed

text \<open>The two passes over the table.\<close>

lemma star_fold:
  assumes "m \<le> length s"
  shows "foldl (\<lambda>s i. s[i := s ! i \<or> s ! (i - 1)]) s [1..<m] =
         map (\<lambda>i. if i < m then \<exists>k \<le> i. s ! k else s ! i) [0..<length s]"
  using assms
proof (induction m)
  case 0
  then show ?case by (simp add: map_nth)
next
  case (Suc m)
  let ?t = "map (\<lambda>i. if i < m then \<exists>k \<le> i. s ! k else s ! i) [0..<length s]"
  show ?case
  proof (cases "m = 0")
    case True
    then show ?thesis by (intro nth_equalityI) (auto simp del: upt_Suc)
  next
    case False
    with Suc have "foldl (\<lambda>s i. s[i := s ! i \<or> s ! (i - 1)]) s [1..<Suc m] = ?t[m := ?t ! m \<or> ?t ! (m - 1)]"
      by simp
    also have "\<dots> = map (\<lambda>i. if i < Suc m then \<exists>k \<le> i. s ! k else s ! i) [0..<length s]"
    proof (rule nth_equalityI)
      fix i
      assume "i < length (?t[m := ?t ! m \<or> ?t ! (m - 1)])"
      moreover have "(\<exists>k \<le> m. s ! k) \<longleftrightarrow> s ! m \<or> (\<exists>k \<le> m - 1. s ! k)"
        using False by (metis Suc_pred' bot_nat_0.not_eq_extremum le_Suc_eq le_refl)
      ultimately show "?t[m := ?t ! m \<or> ?t ! (m - 1)] ! i =
          map (\<lambda>i. if i < Suc m then \<exists>k \<le> i. s ! k else s ! i) [0..<length s] ! i"
        using Suc.prems False by (cases "i = m") (auto simp: less_Suc_eq)
    qed simp
    finally show ?thesis .
  qed
qed

lemma star_step_nth: "i < length s \<Longrightarrow> star_step s ! i \<longleftrightarrow> (\<exists>k \<le> i. s ! k)"
  unfolding star_step_def by (subst star_fold) auto

lemma length_star_step [simp]: "length (star_step s) = length s"
  unfolding star_step_def by (subst star_fold) auto

lemma char_fold:
  assumes "n < length s"
  shows "foldl (\<lambda>s i. s[i := s ! (i - 1) \<and> v ! (i - 1) = c]) s (rev [1..<n + 1]) =
         map (\<lambda>i. if 1 \<le> i \<and> i \<le> n then s ! (i - 1) \<and> v ! (i - 1) = c else s ! i) [0..<length s]"
  using assms
proof (induction n arbitrary: s)
  case 0
  then show ?case by (auto simp: map_nth intro: nth_equalityI)
next
  case (Suc n)
  let ?s = "s[Suc n := s ! n \<and> v ! n = c]"
  have "rev [1..<Suc n + 1] = Suc n # rev [1..<n + 1]" by simp
  then have "foldl (\<lambda>s i. s[i := s ! (i - 1) \<and> v ! (i - 1) = c]) s (rev [1..<Suc n + 1]) =
      map (\<lambda>i. if 1 \<le> i \<and> i \<le> n then ?s ! (i - 1) \<and> v ! (i - 1) = c else ?s ! i) [0..<length ?s]"
    using Suc.IH [of ?s] Suc.prems by simp
  also have "\<dots> = map (\<lambda>i. if 1 \<le> i \<and> i \<le> Suc n then s ! (i - 1) \<and> v ! (i - 1) = c else s ! i) [0..<length s]"
    by (auto simp: nth_list_update le_Suc_eq)
  finally show ?case .
qed

lemma length_char_step [simp]: "length s = Suc (length v) \<Longrightarrow> length (char_step v c s) = Suc (length v)"
  using char_fold [of "length v" s v c] by (simp add: char_step_def)

lemma char_step_nth:
  assumes "length s = Suc (length v)" and "i \<le> length v"
  shows "char_step v c s ! i \<longleftrightarrow> i \<noteq> 0 \<and> s ! (i - 1) \<and> v ! (i - 1) = c"
proof -
  have "char_step v c s =
      (map (\<lambda>i. if 1 \<le> i \<and> i \<le> length v then s ! (i - 1) \<and> v ! (i - 1) = c else s ! i) [0..<length s])[0 := False]"
    unfolding char_step_def using assms(1) by (subst char_fold) auto
  with assms show ?thesis by (cases i) (simp_all del: upt_Suc)
qed

lemma glob_table:
  "let t = foldl (\<lambda>s c. if c = CHR ''*'' then star_step s else char_step v c s)
             (True # replicate (length v) False) p
   in length t = Suc (length v) \<and> (\<forall>i \<le> length v. t ! i \<longleftrightarrow> glob p (take i v))"
proof (induction p rule: rev_induct)
  case Nil
  show ?case by (auto simp: nth_Cons split: nat.splits)
next
  case (snoc c p)
  then obtain t where t: "t = foldl (\<lambda>s c. if c = CHR ''*'' then star_step s else char_step v c s)
             (True # replicate (length v) False) p"
    and len: "length t = Suc (length v)" and nth: "\<And>i. i \<le> length v \<Longrightarrow> t ! i \<longleftrightarrow> glob p (take i v)"
    by (auto simp: Let_def)
  have "(if c = CHR ''*'' then star_step t else char_step v c t) ! i \<longleftrightarrow> glob (p @ [c]) (take i v)"
    if "i \<le> length v" for i
  proof (cases "c = CHR ''*''")
    case True
    with that len nth show ?thesis by (auto simp: star_step_nth glob_snoc_star)
  next
    case False
    with that len nth show ?thesis
      by (cases i) (auto simp: char_step_nth glob_snoc_char glob_snoc_char_empty)
  qed
  with len show ?case unfolding t by (simp add: Let_def)
qed

lemma globMatches_iff: "globMatches p v \<longleftrightarrow> glob p v"
  using glob_table [of v p] by (simp add: globMatches_def Let_def)

section \<open>Host patterns\<close>

lemma endsWith_iff: "endsWith s t \<longleftrightarrow> (\<exists>u. s = u @ t)"
  unfolding endsWith_def by (metis append_eq_conv_conj append_take_drop_id diff_add_inverse2 le_add2 length_append)

lemma hostMatches_wild: "hostMatches (''*.'' @ d) host \<longleftrightarrow> (\<exists>sub. host = sub @ ''.'' @ d)"
  by (auto simp: hostMatches_def startsWith_def endsWith_iff)

lemma hostMatches_exact: "\<not> startsWith p ''*.'' \<Longrightarrow> hostMatches p host \<longleftrightarrow> p = host"
  by (simp add: hostMatches_def)

lemma Star_label_hd:
  "t \<in> set (rests (Star (Seq DNS_LABEL (ch CHR ''.''))) s) \<Longrightarrow> t = s \<or> (s \<noteq> [] \<and> c_label (hd s))"
  by (subst (asm) in_rests_Star) (auto simp: DNS_LABEL_def split: list.splits if_splits)

lemma DIGITS3_hd: "t \<in> set (rests DIGITS3 s) \<Longrightarrow> s \<noteq> [] \<and> is_digit (hd s)"
  by (auto simp: DIGITS3_def split: list.splits if_splits)

text \<open>A normalized host does not start with a dot.\<close>

lemma host_ok_hd: "host_ok host \<Longrightarrow> hd host \<noteq> CHR ''.''"
proof
  assume h: "host_ok host" and d: "hd host = CHR ''.''"
  have dot: "\<not> c_label CHR ''.''" "\<not> is_digit CHR ''.''" by code_simp+
  have no_opt: "rests (Opt (lit ''*.'')) host = [host]"
    using d by (cases host) (auto simp: Opt_def ch_def)
  from h have "[] \<in> set (rests HOST host)" by (simp add: host_ok_def test_full_def)
  then have "[] \<in> set (rests (Seq (Star (Seq DNS_LABEL (ch CHR ''.'')))
              (Seq (Cls c_label) (Seq (UpTo 61 (Cls c_label_mid)) (Cls c_label)))) host) \<or>
     [] \<in> set (rests (Alt (lit ''localhost'')
              (Alt (Seq DIGITS3 (Times 3 (Seq (ch CHR ''.'') DIGITS3))) (lit ''::1''))) host)"
    unfolding HOST_def by (simp add: no_opt del: UpTo.simps lit.simps Times.simps)
  then show False
  proof
    assume "[] \<in> set (rests (Seq (Star (Seq DNS_LABEL (ch CHR ''.'')))
              (Seq (Cls c_label) (Seq (UpTo 61 (Cls c_label_mid)) (Cls c_label)))) host)"
    then obtain t where t: "t \<in> set (rests (Star (Seq DNS_LABEL (ch CHR ''.''))) host)"
      and r: "[] \<in> set (rests (Seq (Cls c_label) (Seq (UpTo 61 (Cls c_label_mid)) (Cls c_label))) t)"
      by (auto simp del: UpTo.simps)
    from Star_label_hd [OF t] d dot have "t = host" by auto
    with r d dot show False by (cases host) (auto simp del: UpTo.simps split: if_splits)
  next
    assume "[] \<in> set (rests (Alt (lit ''localhost'')
              (Alt (Seq DIGITS3 (Times 3 (Seq (ch CHR ''.'') DIGITS3))) (lit ''::1''))) host)"
    with d show False
      using DIGITS3_hd [of _ host] dot by (cases host) (auto simp: ch_def split: if_splits)
  qed
qed

lemma toLowerCase_Nil [simp]: "toLowerCase s = [] \<longleftrightarrow> s = []" "[] = toLowerCase s \<longleftrightarrow> s = []"
  by (auto simp: toLowerCase_def)

lemma normalizeHost_Inr:
  "normalizeHost v p = Inr h \<longleftrightarrow>
     (\<exists>s. v = JStr s \<and> s \<noteq> [] \<and> length s \<le> 253 \<and> h = toLowerCase s \<and> host_ok h)"
  by (cases v) (auto simp: normalizeHost_def Let_def)

section \<open>Paths\<close>

text \<open>The components of a resolved path: not empty, neither \<open>.\<close> nor \<open>..\<close>, no slash.\<close>

definition clean :: "string \<Rightarrow> bool" where
  "clean c = (c \<noteq> [] \<and> c \<noteq> ''.'' \<and> c \<noteq> ''..'' \<and> CHR ''/'' \<notin> set c)"

lemma split_on_clean: "c \<in> set (split_on d s) \<Longrightarrow> d \<notin> set c"
  by (induction s arbitrary: c) (auto split: list.splits if_splits)

lemma walk_clean: "list_all clean pos \<Longrightarrow> \<forall>c \<in> set cs. CHR ''/'' \<notin> set c \<Longrightarrow> list_all clean (walk pos cs)"
proof (induction pos cs rule: walk.induct)
  case (2 pos c cs)
  have up: "list_all clean (butlast pos)" using "2.prems"(1) by (auto simp: list_all_iff dest: in_set_butlastD)
  consider "c = [] \<or> c = ''.''" | "c \<noteq> []" "c \<noteq> ''.''" "c = ''..''" | "c \<noteq> []" "c \<noteq> ''.''" "c \<noteq> ''..''"
    by blast
  then show ?case
  proof cases
    case 1
    with "2.IH"(1) "2.prems" show ?thesis by simp
  next
    case 2
    with "2.IH"(2) "2.prems" up show ?thesis by simp
  next
    case 3
    with "2.prems" have "clean c" by (simp add: clean_def)
    with 3 "2.IH"(3) "2.prems" show ?thesis by simp
  qed
qed simp

lemma path_resolve_clean: "list_all clean root \<Longrightarrow> list_all clean (path_resolve root file)"
  unfolding path_resolve_def by (rule walk_clean) (auto dest: split_on_clean)

lemma path_relative_prefix: "path_relative root (root @ rest) = rest"
  by (induction root) simp_all

lemma path_relative_climbs:
  "\<not> prefix root target \<Longrightarrow> \<exists>rest. path_relative root target = ''..'' # rest"
  by (induction root target rule: path_relative.induct) (auto simp: neq_Nil_conv)

lemma within_root_climb:
  "p = join ''/'' (''..'' # rest) \<Longrightarrow> p = ''..'' \<or> startsWith p ''../''"
  by (cases rest) (auto simp: startsWith_def)

lemma join_clean_hd:
  "list_all clean (c # cs) \<Longrightarrow> \<exists>r. join ''/'' (c # cs) = c @ r \<and> (r = [] \<or> hd r = CHR ''/'')"
  by (cases cs) auto

lemma within_root_inside:
  assumes "list_all clean cs"
  shows "\<not> (join ''/'' cs = ''..'' \<or> startsWith (join ''/'' cs) ''../'' \<or> isAbsolute (join ''/'' cs))"
proof (cases cs)
  case Nil
  then show ?thesis by (simp add: startsWith_def isAbsolute_def)
next
  case (Cons c ds)
  with assms obtain r where j: "join ''/'' cs = c @ r" and r: "r = [] \<or> hd r = CHR ''/''"
    using join_clean_hd by metis
  from assms Cons have c: "clean c" by simp
  have dots: "c @ r = ''..'' @ w \<Longrightarrow> w = [] \<or> hd w = CHR ''/'' \<Longrightarrow> False" for w
  proof -
    assume e: "c @ r = ''..'' @ w" and w: "w = [] \<or> hd w = CHR ''/''"
    from c have "c \<noteq> []" "c \<noteq> ''.''" "c \<noteq> ''..''" by (auto simp: clean_def)
    then obtain y z where yz: "c = ''..'' @ y # z \<or> (c = [CHR ''.''] \<and> False)"
      using e r by (cases c; cases "tl c"; cases "tl (tl c)") auto
    with e have "w = y # z @ r" by auto
    with w have "y = CHR ''/''" by simp
    with yz c show False by (auto simp: clean_def)
  qed
  have "hd (c @ r) \<noteq> CHR ''/''" using c by (cases c) (auto simp: clean_def)
  then have "\<not> isAbsolute (c @ r)" using c by (auto simp: isAbsolute_def startsWith_iff)
  with dots j show ?thesis by (fastforce simp: startsWith_iff)
qed

lemma assertPathWithinRoot_iff:
  assumes "list_all clean target"
  shows "assertPathWithinRoot root target = Inr () \<longleftrightarrow> prefix root target"
proof (cases "prefix root target")
  case True
  then obtain rest where t: "target = root @ rest" by (auto simp: prefix_def)
  with assms have "list_all clean rest" by simp
  from within_root_inside [OF this] True show ?thesis
    by (simp add: assertPathWithinRoot_def t path_relative_prefix)
next
  case False
  then obtain rest where "path_relative root target = ''..'' # rest" using path_relative_climbs by blast
  with within_root_climb [OF refl, of rest] False show ?thesis
    by (auto simp: assertPathWithinRoot_def Let_def throwIf_eq_Inr)
qed

end
