(* ===== verification/Policy_Props.thy ===== *)
theory Policy_Props
  imports Policy_Match
begin

text \<open>
  What the policy engine promises: a parsed policy is in normal form and survives a round
  trip, network decisions follow the deny-first reading of the rules, credential globs have
  their usual meaning, and a policy file is read only from inside the project root.
\<close>

section \<open>The normal form of a parsed policy\<close>

definition valid_host :: "string \<Rightarrow> bool" where
  "valid_host h = (h \<noteq> [] \<and> length h \<le> 253 \<and> toLowerCase h = h \<and> host_ok h)"

fun rule_ok :: "NetworkRule \<Rightarrow> bool" where
  "rule_ok r =
     (case (rule_host r, rule_provider r) of
        (Some h, None) \<Rightarrow> valid_host h
      | (None, Some p) \<Rightarrow> test_full PROVIDER_ID p
      | _ \<Rightarrow> False)"

definition glob_ok :: "string \<Rightarrow> bool" where
  "glob_ok s = (s \<noteq> [] \<and> length s \<le> 128 \<and> \<not> str_includes s ''${'' \<and> \<not> list_ex is_newline s)"

definition bounded :: "('a \<Rightarrow> bool) \<Rightarrow> 'a list \<Rightarrow> bool" where
  "bounded P xs = (length xs \<le> MAX_LIST_ITEMS \<and> list_all P xs)"

definition policy_ok :: "GhostApiPolicy \<Rightarrow> bool" where
  "policy_ok p =
     (bounded rule_ok (network_allow p) \<and> bounded rule_ok (network_deny p) \<and>
      bounded valid_host (productionHosts p) \<and> bounded glob_ok (credentials_forbid p) \<and>
      bounded (test_full SCENARIO_ID) (requiredScenarios p) \<and> bounded (\<lambda>_. True) (allowedModes p))"

definition enc_rule :: "NetworkRule \<Rightarrow> json" where
  "enc_rule r =
     JObj (case rule_host r of
             Some h \<Rightarrow> [(''host'', JStr h)]
           | None \<Rightarrow> [(''provider'', JStr (case rule_provider r of None \<Rightarrow> [] | Some p \<Rightarrow> p))])"

definition enc_policy :: "GhostApiPolicy \<Rightarrow> json" where
  "enc_policy p =
     JObj [(''version'', JInt 1),
       (''network'', JObj [(''default'', JStr (case network_default p of Allow \<Rightarrow> ''allow'' | Deny \<Rightarrow> ''deny'')),
          (''allow'', JArr (map enc_rule (network_allow p))), (''deny'', JArr (map enc_rule (network_deny p))),
          (''productionHosts'', JArr (map JStr (productionHosts p)))]),
       (''credentials'', JObj [(''forbid'', JArr (map JStr (credentials_forbid p)))]),
       (''requiredScenarios'', JArr (map JStr (requiredScenarios p))),
       (''enforcement'', JObj [(''allowedModes'', JArr (map (JStr \<circ> mode_name) (allowedModes p)))]),
       (''reports'', JObj [(''maxProductionEgressAttempts'', JInt (int (maxProductionEgressAttempts p))),
          (''maxForbiddenCredentialMatches'', JInt (int (maxForbiddenCredentialMatches p))),
          (''maxBreakingContractChanges'', JInt (int (maxBreakingContractChanges p)))])]"

section \<open>Lists of validated elements\<close>

lemma map_indexed_length: "map_indexed f path i vs = Inr xs \<Longrightarrow> length xs = length vs"
  by (induction f path i vs arbitrary: xs rule: map_indexed.induct) (auto simp: res_simps)

lemma map_indexed_all:
  assumes "\<And>v p x. f v p = Inr x \<Longrightarrow> P x"
  shows "map_indexed f path i vs = Inr xs \<Longrightarrow> list_all P xs"
  by (induction vs arbitrary: i xs) (auto simp: res_simps intro: assms)

lemma map_indexed_back:
  assumes "\<And>x p. P x \<Longrightarrow> f (g x) p = Inr x" and "list_all P xs"
  shows "map_indexed f path i (map g xs) = Inr xs"
  using assms(2) by (induction xs arbitrary: i) (auto simp: assms(1))

lemma arrayAt_Inr: "arrayAt v p = Inr vs \<longleftrightarrow> v = JArr vs \<and> length vs \<le> MAX_LIST_ITEMS"
  by (cases v) (auto simp: arrayAt_def)

lemma indexed_bounded:
  assumes "\<And>v p x. f v p = Inr x \<Longrightarrow> P x"
    and "andThen (arrayAt v path) (map_indexed f path 0) = Inr xs"
  shows "bounded P xs"
  using assms(2) map_indexed_all [of f P, OF assms(1)]
  by (auto simp: res_simps arrayAt_Inr bounded_def dest: map_indexed_length)

lemma indexed_back:
  assumes "\<And>x p. P x \<Longrightarrow> f (g x) p = Inr x" and "bounded P xs"
  shows "andThen (arrayAt (JArr (map g xs)) path) (map_indexed f path 0) = Inr xs"
  using assms map_indexed_back [of P f g xs] by (simp add: bounded_def arrayAt_def)

section \<open>Leaves\<close>

lemma normalizeHost_ok: "normalizeHost v p = Inr h \<Longrightarrow> valid_host h"
  by (auto simp: normalizeHost_Inr valid_host_def)

lemma normalizeHost_back: "valid_host h \<Longrightarrow> normalizeHost (JStr h) p = Inr h"
  by (simp add: normalizeHost_Inr valid_host_def)

lemma providerAt_Inr: "providerAt v p = Inr x \<longleftrightarrow> v = JStr x \<and> test_full PROVIDER_ID x"
  by (cases v) (auto simp: providerAt_def)

lemma validateCredentialGlob_Inr: "validateCredentialGlob v p = Inr x \<longleftrightarrow> v = JStr x \<and> glob_ok x"
  by (cases v) (auto simp: validateCredentialGlob_def glob_ok_def)

lemma validateScenarioId_Inr: "validateScenarioId v p = Inr x \<longleftrightarrow> v = JStr x \<and> test_full SCENARIO_ID x"
  by (cases v) (auto simp: validateScenarioId_def)

lemma validateEnforcementMode_back: "validateEnforcementMode (JStr (mode_name m)) p = Inr m"
  by (cases m) (simp_all add: validateEnforcementMode_def enumAt_def ENFORCEMENT_MODES_def mode_of_name_def)

lemma nonNegativeIntegerAt_Inr: "nonNegativeIntegerAt v p = Inr n \<longleftrightarrow> v = JInt (int n)"
  by (cases v) (auto simp: nonNegativeIntegerAt_def)

lemma enumAt_Inr: "enumAt v p vs = Inr s \<longleftrightarrow> v = JStr s \<and> s \<in> set vs"
  by (cases v) (auto simp: enumAt_def)

lemma recordAt_Inr: "recordAt v p = Inr ob \<longleftrightarrow> v = JObj ob"
  by (cases v) (auto simp: recordAt_def)

lemma assertKeys_Inr: "assertKeys ob p ks = Inr u \<longleftrightarrow> set (jkeys ob) \<subseteq> set ks"
  by (auto simp: assertKeys_def split: option.splits dest: find_SomeD)

lemma ruleAt_ok: "ruleAt v p = Inr r \<Longrightarrow> rule_ok r"
  by (auto simp: ruleAt_def res_simps Let_def providerAt_Inr split: if_splits dest: normalizeHost_ok)

lemma ruleAt_back:
  assumes "rule_ok r"
  shows "ruleAt (enc_rule r) p = Inr r"
proof (cases "rule_host r")
  case None
  with assms obtain q where "rule_provider r = Some q" "test_full PROVIDER_ID q"
    by (auto split: option.splits)
  with None show ?thesis
    by (cases r) (simp add: ruleAt_def enc_rule_def recordAt_def assertKeys_def jkeys_def providerAt_def)
next
  case (Some h)
  with assms have "rule_provider r = None" "valid_host h" by (auto split: option.splits)
  with Some show ?thesis
    by (cases r) (simp add: ruleAt_def enc_rule_def recordAt_def assertKeys_def jkeys_def normalizeHost_back)
qed

lemmas leaf_simps = recordAt_Inr assertKeys_Inr enumAt_Inr nonNegativeIntegerAt_Inr

lemma rulesAt_ok: "rulesAt v p = Inr rs \<Longrightarrow> bounded rule_ok rs"
  unfolding rulesAt_def by (rule indexed_bounded [OF ruleAt_ok])

lemma rulesAt_back: "bounded rule_ok rs \<Longrightarrow> rulesAt (JArr (map enc_rule rs)) p = Inr rs"
  unfolding rulesAt_def by (rule indexed_back [OF ruleAt_back])

lemma stringsAt_ok:
  "(\<And>v p x. f v p = Inr x \<Longrightarrow> P x) \<Longrightarrow> stringsAt v p f = Inr xs \<Longrightarrow> bounded P xs"
  unfolding stringsAt_def by (rule indexed_bounded)

lemma stringsAt_back:
  "(\<And>x p. P x \<Longrightarrow> f (JStr x) p = Inr x) \<Longrightarrow> bounded P xs \<Longrightarrow> stringsAt (JArr (map JStr xs)) p f = Inr xs"
  unfolding stringsAt_def by (rule indexed_back)

lemma modesAt_back:
  "length ms \<le> MAX_LIST_ITEMS \<Longrightarrow>
   andThen (arrayAt (JArr (map (JStr \<circ> mode_name) ms)) p) (map_indexed validateEnforcementMode p 0) = Inr ms"
  by (rule indexed_back [of "\<lambda>_. True"]) (simp_all add: validateEnforcementMode_back bounded_def list_all_iff)

lemma parsePolicy_ok:
  assumes "parsePolicy v = Inr p"
  shows "policy_ok p"
proof -
  have "bounded (\<lambda>_. True) ms" if "arrayAt v path = Inr vs" "map_indexed validateEnforcementMode path 0 vs = Inr ms"
    for v path vs ms
    using indexed_bounded [of validateEnforcementMode "\<lambda>_. True" v path ms] that by simp
  moreover have "bounded valid_host xs" if "stringsAt v path normalizeHost = Inr xs" for v path xs
    using stringsAt_ok [OF normalizeHost_ok that] .
  moreover have "bounded glob_ok xs" if "stringsAt v path validateCredentialGlob = Inr xs" for v path xs
    using stringsAt_ok [of validateCredentialGlob glob_ok, OF _ that] by (simp add: validateCredentialGlob_Inr)
  moreover have "bounded (test_full SCENARIO_ID) xs" if "stringsAt v path validateScenarioId = Inr xs" for v path xs
    using stringsAt_ok [of validateScenarioId "test_full SCENARIO_ID", OF _ that] by (simp add: validateScenarioId_Inr)
  ultimately show ?thesis
    using assms unfolding parsePolicy_def policy_ok_def
    by (elim andThenE) (auto simp: rulesAt_ok)
qed

lemma parsePolicy_back:
  assumes "policy_ok p"
  shows "parsePolicy (enc_policy p) = Inr p"
proof -
  have e: "or_else (JArr xs) d = JArr xs" "or_else (JInt i) d = JInt i" for xs i d by (simp_all add: or_else_def)
  have k: "assertKeys ob path ks = Inr ()" if "list_all (\<lambda>k. k \<in> set ks) (jkeys ob)" for ob path ks
    using that by (auto simp: assertKeys_Inr list_all_iff)
  have n: "nonNegativeIntegerAt (JInt (int m)) path = Inr m" for m path
    by (simp add: nonNegativeIntegerAt_Inr)
  have a: "enumAt (JStr (case network_default p of Allow \<Rightarrow> ''allow'' | Deny \<Rightarrow> ''deny'')) path [''allow'', ''deny''] =
      Inr (case network_default p of Allow \<Rightarrow> ''allow'' | Deny \<Rightarrow> ''deny'')" for path
    by (simp add: enumAt_Inr split: NetworkAction.splits)
  have d: "(if (case network_default p of Allow \<Rightarrow> ''allow'' | Deny \<Rightarrow> ''deny'') = ''allow'' then Allow else Deny) = network_default p"
    by (simp split: NetworkAction.splits)
  have g: "stringsAt (JArr (map JStr (credentials_forbid p))) path validateCredentialGlob = Inr (credentials_forbid p)" for path
    using assms by (intro stringsAt_back [of glob_ok]) (simp_all add: validateCredentialGlob_Inr policy_ok_def)
  have s: "stringsAt (JArr (map JStr (requiredScenarios p))) path validateScenarioId = Inr (requiredScenarios p)" for path
    using assms by (intro stringsAt_back [of "test_full SCENARIO_ID"]) (simp_all add: validateScenarioId_Inr policy_ok_def)
  have h: "stringsAt (JArr (map JStr (productionHosts p))) path normalizeHost = Inr (productionHosts p)" for path
    using assms by (intro stringsAt_back [of valid_host]) (simp_all add: normalizeHost_back policy_ok_def)
  have m: "andThen (arrayAt (JArr (map (JStr \<circ> mode_name) (allowedModes p))) path)
      (map_indexed validateEnforcementMode path 0) = Inr (allowedModes p)" for path
    using assms by (intro modesAt_back) (simp add: policy_ok_def bounded_def)
  have r: "rulesAt (JArr (map enc_rule (network_allow p))) path = Inr (network_allow p)"
    "rulesAt (JArr (map enc_rule (network_deny p))) path = Inr (network_deny p)" for path
    using assms by (simp_all add: rulesAt_back policy_ok_def)
  show ?thesis
    unfolding parsePolicy_def enc_policy_def
    by (simp add: recordAt_def k jkeys_def e n a d g s h m r)
qed


definition demo_policy :: json where
  "demo_policy =
     JObj [(''version'', JInt 1),
       (''network'', JObj [(''default'', JStr ''allow''), (''allow'', JArr [JObj [(''host'', JStr ''a.io'')]]),
          (''deny'', JArr [JObj [(''host'', JStr ''*.io'')]])]),
       (''credentials'', JObj [(''forbid'', JArr [JStr ''sk*''])]),
       (''enforcement'', JObj []),
       (''reports'', JObj [(''maxProductionEgressAttempts'', JInt 0), (''maxForbiddenCredentialMatches'', JInt 0)])]"

definition demo_rules :: GhostApiPolicy where
  "demo_rules =
     \<lparr>network_default = Allow, network_allow = [\<lparr>rule_host = Some ''a.io'', rule_provider = None\<rparr>],
      network_deny = [\<lparr>rule_host = Some ''*.io'', rule_provider = None\<rparr>],
      productionHosts = [], credentials_forbid = [''sk*''], requiredScenarios = [], allowedModes = [],
      maxProductionEgressAttempts = 0, maxForbiddenCredentialMatches = 0, maxBreakingContractChanges = 0\<rparr>"

lemma demo_policy_parses: "parsePolicy demo_policy = Inr demo_rules"
  by code_simp


section \<open>Network decisions\<close>

text \<open>The reading of a rule: a wildcard covers the proper subdomains of its suffix, a plain
  host covers itself, a provider rule covers the requests of that provider.\<close>

definition covers :: "NetworkRule \<Rightarrow> string \<Rightarrow> string option \<Rightarrow> bool" where
  "covers r host provider =
     (case rule_host r of
        Some h \<Rightarrow> if startsWith h ''*.'' then (\<exists>sub. sub \<noteq> [] \<and> host = sub @ ''.'' @ drop 2 h) else host = h
      | None \<Rightarrow> (\<exists>q. provider = Some q \<and> rule_provider r = Some (toLowerCase q)))"

lemma ruleMatches_covers:
  assumes "rule_ok r" and "host_ok host"
  shows "ruleMatches r host provider \<longleftrightarrow> covers r host provider"
proof (cases "rule_host r")
  case None
  with assms(1) obtain p where "rule_provider r = Some p" by (auto split: option.splits)
  with None show ?thesis by (cases provider) (auto simp: ruleMatches_def covers_def)
next
  case (Some h)
  show ?thesis
  proof (cases "startsWith h ''*.''")
    case True
    then obtain d where d: "h = ''*.'' @ d" by (auto simp: startsWith_iff)
    have "sub \<noteq> []" if "host = sub @ ''.'' @ d" for sub
      using that host_ok_hd [OF assms(2)] by (cases sub) auto
    with Some True d show ?thesis by (auto simp: ruleMatches_def covers_def hostMatches_wild [unfolded append_Cons append_Nil])
  next
    case False
    with Some show ?thesis by (auto simp: ruleMatches_def covers_def hostMatches_exact)
  qed
qed

lemma evaluateNetwork_allowed:
  assumes "normalizeHost (JStr hv) ''event.host'' = Inr host"
  shows "\<exists>d. evaluateNetwork pol hv provider = Inr d \<and>
     (allowed d \<longleftrightarrow> \<not> (\<exists>r \<in> set (network_deny pol). ruleMatches r host provider) \<and>
        ((\<exists>r \<in> set (network_allow pol). ruleMatches r host provider) \<or> network_default pol = Allow))"
  using assms
  by (auto simp: evaluateNetwork_def Let_def allow_def deny_def split: option.splits dest: find_SomeD)

text \<open>C29: The network decision of a parsed policy.  A host that is not a valid host name is an
  error; otherwise the event is allowed exactly when no deny rule covers it and either an allow
  rule covers it or the default is to allow: deny rules win over every allow rule, and a
  wildcard rule covers the proper subdomains of its suffix, never the suffix itself.\<close>

theorem network_decision:
  assumes "parsePolicy v = Inr pol"
  shows "case evaluatePolicy pol (NetworkEvent hv provider) of
      Inl e \<Rightarrow> \<not> valid_host (toLowerCase hv) \<and> err_path e = ''event.host''
    | Inr d \<Rightarrow> valid_host (toLowerCase hv) \<and>
        (allowed d \<longleftrightarrow> \<not> (\<exists>r \<in> set (network_deny pol). covers r (toLowerCase hv) provider) \<and>
           ((\<exists>r \<in> set (network_allow pol). covers r (toLowerCase hv) provider) \<or> network_default pol = Allow))"
proof (cases "valid_host (toLowerCase hv)")
  case False
  then have "\<nexists>h. normalizeHost (JStr hv) ''event.host'' = Inr h"
    by (auto simp: normalizeHost_Inr valid_host_def)
  then obtain e where e: "normalizeHost (JStr hv) ''event.host'' = Inl e"
    by (cases "normalizeHost (JStr hv) ''event.host''") auto
  then have "err_path e = ''event.host''" by (auto simp: normalizeHost_def Let_def split: if_splits)
  with e False show ?thesis by (simp add: evaluateNetwork_def)
next
  case True
  then have n: "normalizeHost (JStr hv) ''event.host'' = Inr (toLowerCase hv)"
    by (auto simp: normalizeHost_Inr valid_host_def)
  have ok: "rule_ok r" if "r \<in> set (network_deny pol) \<union> set (network_allow pol)" for r
    using parsePolicy_ok [OF assms] that by (auto simp: policy_ok_def bounded_def list_all_iff simp del: rule_ok.simps)
  have host: "host_ok (toLowerCase hv)" using True by (simp add: valid_host_def)
  from evaluateNetwork_allowed [OF n, of pol provider] obtain d where
    "evaluateNetwork pol hv provider = Inr d"
    "allowed d \<longleftrightarrow> \<not> (\<exists>r \<in> set (network_deny pol). ruleMatches r (toLowerCase hv) provider) \<and>
        ((\<exists>r \<in> set (network_allow pol). ruleMatches r (toLowerCase hv) provider) \<or> network_default pol = Allow)"
    by blast
  with True ok ruleMatches_covers [OF _ host] show ?thesis by auto
qed

theorem network_decision_witness:
  "\<exists>d. evaluatePolicy demo_rules (NetworkEvent ''A.io'' None) = Inr d \<and> \<not> allowed d"
proof -
  have "covers \<lparr>rule_host = Some ''*.io'', rule_provider = None\<rparr> ''a.io'' None"
    by (simp add: covers_def startsWith_def)
  moreover have "toLowerCase ''A.io'' = ''a.io''" "valid_host ''a.io''" by code_simp+
  ultimately show ?thesis
    using network_decision [OF demo_policy_parses, of "''A.io''" None]
    by (auto simp: demo_rules_def split: sum.splits)
qed

section \<open>Credentials, scenarios, enforcement and reports\<close>

text \<open>C30: The glob matcher of the credential check, a table updated in place once per pattern
  character, decides exactly the glob relation, in which a star stands for any text and every
  other character for itself; a credential is refused exactly when a forbidden glob covers it,
  and the decision names such a glob.\<close>

theorem forbidden_credentials:
  "(globMatches p v \<longleftrightarrow> glob p v) \<and>
   (\<exists>d. evaluatePolicy pol (CredentialEvent v) = Inr d \<and>
      (allowed d \<longleftrightarrow> \<not> (\<exists>g \<in> set (credentials_forbid pol). glob g v)) \<and>
      (allowed d \<or> (\<exists>g \<in> set (credentials_forbid pol). glob g v \<and>
         trace d = [''matched policy.credentials.forbid pattern '' @ g])))"
  by (auto simp: globMatches_iff evaluateCredential_def allow_def deny_def split: option.splits dest: find_SomeD)

theorem forbidden_credentials_witness: "globMatches ''sk*'' ''sk_1'' \<and> glob ''sk*'' ''sk_1''"
proof -
  have "globMatches ''sk*'' ''sk_1''" by code_simp
  with forbidden_credentials [of "''sk*''" "''sk_1''" demo_rules] show ?thesis by blast
qed

section \<open>Policy files\<close>

text \<open>The string leaves of a value.\<close>

fun leaves :: "json \<Rightarrow> string set"
  and leaves_elems :: "json list \<Rightarrow> string set"
  and leaves_props :: "fields \<Rightarrow> string set" where
  "leaves (JStr s) = {s}"
| "leaves (JArr vs) = leaves_elems vs"
| "leaves (JObj ob) = leaves_props ob"
| "leaves _ = {}"
| "leaves_elems [] = {}"
| "leaves_elems (v # vs) = leaves v \<union> leaves_elems vs"
| "leaves_props [] = {}"
| "leaves_props ((k, v) # ob) = leaves v \<union> leaves_props ob"

lemma rejectInterpolation_iff:
  "rejectInterpolation v path = Inr () \<longleftrightarrow> (\<forall>s \<in> leaves v. \<not> str_includes s ''${'')"
  "rejectInterpolation_elems vs path i = Inr () \<longleftrightarrow> (\<forall>s \<in> leaves_elems vs. \<not> str_includes s ''${'')"
  "rejectInterpolation_props ob path = Inr () \<longleftrightarrow> (\<forall>s \<in> leaves_props ob. \<not> str_includes s ''${'')"
  by (induction v path and vs path i and ob path
      rule: rejectInterpolation_rejectInterpolation_elems_rejectInterpolation_props.induct)
    (auto simp: res_simps)

lemma parsePolicyYaml_Inr:
  "parsePolicyYaml Y source = Inr p \<longleftrightarrow>
     utf8_length source \<le> MAX_POLICY_BYTES \<and> \<not> has_anchor source \<and>
     (\<exists>doc. Y source = [doc] \<and> doc_errors doc = [] \<and> doc_warnings doc = [] \<and>
        (\<forall>s \<in> leaves (doc_value doc). \<not> str_includes s ''${'') \<and> parsePolicy (doc_value doc) = Inr p)"
  by (auto simp: parsePolicyYaml_def res_simps rejectInterpolation_iff split: list.splits if_splits)

lemma loadPolicyFile_Some:
  assumes "loadPolicyFile fs Y file projectRoot req = Inr (Some lp)"
  obtains root source where "\<not> isAbsolute file" "fs_realpath fs projectRoot = Inr root"
    "assertPathWithinRoot root (path_resolve root file) = Inr ()"
    "fs_lstat fs (path_resolve root file) = Inr RegularFile"
    "fs_realpath fs (path_resolve root file) = Inr (loaded_path lp)"
    "assertPathWithinRoot root (loaded_path lp) = Inr ()"
    "fs_readFile fs (loaded_path lp) = Inr source" "loaded_hash lp = sha256 source"
    "parsePolicyYaml Y source = Inr (loaded_policy lp)"
proof -
  from assms obtain root where r: "\<not> isAbsolute file" "fs_realpath fs projectRoot = Inr root"
    "assertPathWithinRoot root (path_resolve root file) = Inr ()"
    by (auto simp: loadPolicyFile_def resolvePolicyPath_def res_simps split: if_splits)
  then have l: "fs_lstat fs (path_resolve root file) = Inr RegularFile"
    using assms
    by (auto simp: loadPolicyFile_def resolvePolicyPath_def
        split: sum.split_asm policy_error.split_asm lstat_info.split_asm if_split_asm)
  from assms r l that show ?thesis
    by (auto simp: loadPolicyFile_def resolvePolicyPath_def res_simps)
qed


definition demo_fs :: policy_fs where
  "demo_fs = \<lparr>fs_realpath = (\<lambda>p. if p = [''w''] \<or> p = [''w'', ''p''] then Inr p else Inl (FileSystemError ''ENOENT'')),
     fs_lstat = (\<lambda>_. Inr RegularFile), fs_readFile = (\<lambda>_. Inr ''version: 1'')\<rparr>"

definition demo_yaml :: "string \<Rightarrow> yaml_document list" where
  "demo_yaml s = [\<lparr>doc_errors = [], doc_warnings = [], doc_value = demo_policy\<rparr>]"

lemma demo_loads:
  "loadPolicyFile demo_fs demo_yaml ''x/../p'' [''w''] True =
     Inr (Some \<lparr>loaded_policy = demo_rules, loaded_hash = sha256 ''version: 1'', loaded_path = [''w'', ''p'']\<rparr>)"
proof -
  have "path_resolve [''w''] ''x/../p'' = [''w'', ''p'']" "\<not> isAbsolute ''x/../p''"
    "assertPathWithinRoot [''w''] [''w'', ''p''] = Inr ()" by code_simp+
  moreover have "parsePolicyYaml demo_yaml ''version: 1'' = Inr demo_rules"
  proof -
    have "utf8_length ''version: 1'' \<le> MAX_POLICY_BYTES" by (simp add: utf8_length_def MAX_POLICY_BYTES_def)
    moreover have "\<not> has_anchor ''version: 1''" by code_simp
    moreover have "rejectInterpolation demo_policy ''policy'' = Inr ()" by code_simp
    ultimately show ?thesis
      using demo_policy_parses unfolding parsePolicyYaml_Inr by (auto simp: demo_yaml_def rejectInterpolation_iff)
  qed
  ultimately show ?thesis
    by (simp add: loadPolicyFile_def resolvePolicyPath_def demo_fs_def)
qed

lemma demo_fs_clean: "\<forall>p q. fs_realpath demo_fs p = Inr q \<longrightarrow> list_all clean q"
  by (auto simp: demo_fs_def clean_def split: if_splits)


end
