(* ===== verification/File_Lock.thy ===== *)
theory File_Lock
  imports Store
begin

text \<open>
  The lock protocol of \<open>src/storage/fileStore.ts\<close>: \<open>withFileLock\<close> around a
  read-modify-write (\<open>mutateJsonFile\<close>), with the recovery of abandoned locks
  (\<open>reclaimAbandonedLock\<close>, \<open>isProcessAlive\<close>).  Every system call is one step and
  the steps of different tasks interleave freely; a task is one call of
  \<open>withFileLock\<close>, and several tasks may belong to one process.  Processes may crash and
  time passes between steps.
\<close>

section \<open>State\<close>

text \<open>The lock file: its inode, the process id written into it (\<open>None\<close>: still empty) and
  its modification time.\<close>

record lock_file =
  inode :: nat
  owner :: "nat option"
  mtime :: nat

text \<open>Where a task is.  \<open>startedAt\<close> is carried from the first attempt on; \<open>Statted\<close>
  carries \<open>oldEnough\<close>.  From \<open>Opened\<close> to \<open>Releasing\<close> the task holds a handle
  on the lock file it created; \<open>Releasing\<close> is the \<open>finally\<close> block and carries
  whether the operation returned.\<close>

datatype 'v pc =
    Idle
  | Trying nat
  | Contended nat
  | Statted nat bool
  | Removing nat
  | Backoff nat
  | Opened nat
  | Entered nat
  | Computed nat 'v
  | Releasing nat bool
  | Finished bool
  | TimedOut
  | Failed
  | Dead

record 'v lock_state =
  lock :: "lock_file option"
  nextInode :: nat
  pcs :: "nat \<Rightarrow> 'v pc"
  dead :: "nat list"
  now :: nat
  data :: 'v
  log :: "nat list"

text \<open>The processes, the two time limits, and what each task computes from the current
  content (\<open>None\<close>: the read or the mutation throws).\<close>

record 'v lock_params =
  pid_of :: "nat \<Rightarrow> nat"
  lockTimeoutMs :: nat
  staleLockMs :: nat
  mutation :: "nat \<Rightarrow> 'v \<Rightarrow> 'v option"

definition DEFAULT_LOCK_TIMEOUT_MS :: nat where "DEFAULT_LOCK_TIMEOUT_MS = 10000"
definition DEFAULT_STALE_LOCK_MS :: nat where "DEFAULT_STALE_LOCK_MS = 30000"
definition LOCK_RETRY_MS :: nat where "LOCK_RETRY_MS = 20"

definition isProcessAlive :: "'v lock_state \<Rightarrow> nat \<Rightarrow> bool" where
  "isProcessAlive s p = (p \<notin> set (dead s))"

section \<open>Steps\<close>

datatype label =
    Start nat
  | StartError nat
  | Open nat
  | OpenTransient nat
  | OpenError nat
  | Stat nat
  | Read nat
  | ReclaimTransient nat
  | ReclaimError nat
  | Remove nat
  | Retry nat
  | WritePid nat
  | WritePidError nat
  | Compute nat
  | Commit nat
  | CommitError nat
  | Release nat
  | ReleaseError nat
  | Crash nat
  | Tick nat

definition goto :: "nat \<Rightarrow> 'v pc \<Rightarrow> 'v lock_state \<Rightarrow> 'v lock_state" where
  "goto t c s = s\<lparr>pcs := (pcs s)(t := c)\<rparr>"

text \<open>One pass of the loop of \<open>withFileLock\<close> up to the creation of the lock file, and
  the time-out test after a failed attempt.\<close>

fun acquire_step :: "'v lock_params \<Rightarrow> label \<Rightarrow> 'v lock_state \<Rightarrow> 'v lock_state option" where
  "acquire_step P (Start t) s = (if pcs s t = Idle then Some (goto t (Trying (now s)) s) else None)"
| "acquire_step P (StartError t) s = (if pcs s t = Idle then Some (goto t Failed s) else None)"
| "acquire_step P (Open t) s =
     (case pcs s t of
        Trying st \<Rightarrow>
          (case lock s of
             None \<Rightarrow> Some (goto t (Opened (nextInode s))
                       (s\<lparr>lock := Some \<lparr>inode = nextInode s, owner = None, mtime = now s\<rparr>, nextInode := Suc (nextInode s)\<rparr>))
           | Some _ \<Rightarrow> Some (goto t (Contended st) s))
      | _ \<Rightarrow> None)"
| "acquire_step P (OpenTransient t) s =
     (case pcs s t of Trying st \<Rightarrow> Some (goto t (Contended st) s) | _ \<Rightarrow> None)"
| "acquire_step P (OpenError t) s =
     (case pcs s t of Trying st \<Rightarrow> Some (goto t Failed s) | _ \<Rightarrow> None)"
| "acquire_step P (Retry t) s =
     (case pcs s t of
        Backoff st \<Rightarrow> Some (goto t (if now s - st \<ge> lockTimeoutMs P then TimedOut else Trying st) s)
      | _ \<Rightarrow> None)"
| "acquire_step P _ s = None"

text \<open>\<open>reclaimAbandonedLock\<close>: \<open>stat\<close>, \<open>readFile\<close> and \<open>rm\<close> of the lock path;
  a missing file or a transient error ends it quietly.\<close>

fun reclaim_step :: "'v lock_params \<Rightarrow> label \<Rightarrow> 'v lock_state \<Rightarrow> 'v lock_state option" where
  "reclaim_step P (Stat t) s =
     (case pcs s t of
        Contended st \<Rightarrow>
          (case lock s of
             None \<Rightarrow> Some (goto t (Backoff st) s)
           | Some f \<Rightarrow> Some (goto t (Statted st (now s - mtime f \<ge> staleLockMs P)) s))
      | _ \<Rightarrow> None)"
| "reclaim_step P (Read t) s =
     (case pcs s t of
        Statted st oldEnough \<Rightarrow>
          (case lock s of
             None \<Rightarrow> Some (goto t (Backoff st) s)
           | Some f \<Rightarrow>
               Some (goto t
                 (case owner f of
                    Some p \<Rightarrow> if \<not> isProcessAlive s p then Removing st else Backoff st
                  | None \<Rightarrow> if oldEnough then Removing st else Backoff st) s))
      | _ \<Rightarrow> None)"
| "reclaim_step P (ReclaimTransient t) s =
     (case pcs s t of
        Contended st \<Rightarrow> Some (goto t (Backoff st) s)
      | Statted st _ \<Rightarrow> Some (goto t (Backoff st) s)
      | Removing st \<Rightarrow> Some (goto t (Backoff st) s)
      | _ \<Rightarrow> None)"
| "reclaim_step P (ReclaimError t) s =
     (case pcs s t of
        Contended st \<Rightarrow> Some (goto t Failed s)
      | Statted st _ \<Rightarrow> Some (goto t Failed s)
      | Removing st \<Rightarrow> Some (goto t Failed s)
      | _ \<Rightarrow> None)"
| "reclaim_step P (Remove t) s =
     (case pcs s t of Removing st \<Rightarrow> Some (goto t (Backoff st) (s\<lparr>lock := None\<rparr>)) | _ \<Rightarrow> None)"
| "reclaim_step P _ s = None"

text \<open>What happens under the lock: the process id is written through the open handle, the
  operation of \<open>mutateJsonFile\<close> reads and computes, then replaces the file; the
  \<open>finally\<close> block removes the lock path, and throws when it cannot.\<close>

fun critical_step :: "'v lock_params \<Rightarrow> label \<Rightarrow> 'v lock_state \<Rightarrow> 'v lock_state option" where
  "critical_step P (WritePid t) s =
     (case pcs s t of
        Opened i \<Rightarrow>
          Some (goto t (Entered i)
            (s\<lparr>lock := map_option (\<lambda>f. if inode f = i then f\<lparr>owner := Some (pid_of P t), mtime := now s\<rparr> else f) (lock s)\<rparr>))
      | _ \<Rightarrow> None)"
| "critical_step P (WritePidError t) s =
     (case pcs s t of Opened i \<Rightarrow> Some (goto t (Releasing i False) s) | _ \<Rightarrow> None)"
| "critical_step P (Compute t) s =
     (case pcs s t of
        Entered i \<Rightarrow>
          Some (goto t (case mutation P t (data s) of None \<Rightarrow> Releasing i False | Some v \<Rightarrow> Computed i v) s)
      | _ \<Rightarrow> None)"
| "critical_step P (Commit t) s =
     (case pcs s t of
        Computed i v \<Rightarrow> Some (goto t (Releasing i True) (s\<lparr>data := v, log := log s @ [t]\<rparr>))
      | _ \<Rightarrow> None)"
| "critical_step P (CommitError t) s =
     (case pcs s t of Computed i v \<Rightarrow> Some (goto t (Releasing i False) s) | _ \<Rightarrow> None)"
| "critical_step P (Release t) s =
     (case pcs s t of Releasing i ok \<Rightarrow> Some (goto t (Finished ok) (s\<lparr>lock := None\<rparr>)) | _ \<Rightarrow> None)"
| "critical_step P (ReleaseError t) s =
     (case pcs s t of Releasing i ok \<Rightarrow> Some (goto t Failed s) | _ \<Rightarrow> None)"
| "critical_step P _ s = None"

fun environment_step :: "'v lock_params \<Rightarrow> label \<Rightarrow> 'v lock_state \<Rightarrow> 'v lock_state option" where
  "environment_step P (Crash p) s =
     Some (s\<lparr>pcs := (\<lambda>t. if pid_of P t = p then Dead else pcs s t), dead := p # dead s\<rparr>)"
| "environment_step P (Tick d) s = Some (s\<lparr>now := now s + d\<rparr>)"
| "environment_step P _ s = None"

text \<open>The labels of the four groups are disjoint, so the first that is enabled is the step.\<close>

definition withFileLock :: "'v lock_params \<Rightarrow> label \<Rightarrow> 'v lock_state \<Rightarrow> 'v lock_state option" where
  "withFileLock P l s =
     (case acquire_step P l s of
        Some s' \<Rightarrow> Some s'
      | None \<Rightarrow>
          (case reclaim_step P l s of
             Some s' \<Rightarrow> Some s'
           | None \<Rightarrow>
               (case critical_step P l s of
                  Some s' \<Rightarrow> Some s'
                | None \<Rightarrow> environment_step P l s)))"

definition lock_init :: "'v \<Rightarrow> 'v lock_state" where
  "lock_init v = \<lparr>lock = None, nextInode = 0, pcs = (\<lambda>_. Idle), dead = [], now = 0, data = v, log = []\<rparr>"

fun run_lock :: "'v lock_params \<Rightarrow> label list \<Rightarrow> 'v lock_state \<Rightarrow> 'v lock_state option" where
  "run_lock P [] s = Some s"
| "run_lock P (l # ls) s = (case withFileLock P l s of None \<Rightarrow> None | Some s' \<Rightarrow> run_lock P ls s')"

section \<open>Calm runs\<close>

text \<open>A run is calm when no process crashes, every lock file is removed by its holder, and
  none reaches the age \<open>staleLockMs\<close>: every holder is done before that.\<close>

fun calm :: "'v lock_params \<Rightarrow> label \<Rightarrow> 'v lock_state \<Rightarrow> bool" where
  "calm P (Crash p) s = False"
| "calm P (ReleaseError t) s = False"
| "calm P (Tick d) s = (case lock s of None \<Rightarrow> True | Some f \<Rightarrow> now s + d < mtime f + staleLockMs P)"
| "calm P _ s = True"

inductive calm_run :: "'v lock_params \<Rightarrow> 'v lock_state \<Rightarrow> 'v lock_state \<Rightarrow> bool" for P where
  calm_refl: "calm_run P s s"
| calm_step: "calm_run P s t \<Longrightarrow> calm P l t \<Longrightarrow> withFileLock P l t = Some u \<Longrightarrow> calm_run P s u"

fun handle :: "'v pc \<Rightarrow> nat option" where
  "handle (Opened i) = Some i"
| "handle (Entered i) = Some i"
| "handle (Computed i v) = Some i"
| "handle (Releasing i ok) = Some i"
| "handle _ = None"

definition in_critical :: "'v lock_state \<Rightarrow> nat \<Rightarrow> bool" where
  "in_critical s t = (handle (pcs s t) \<noteq> None)"

fun quiet :: "'v pc \<Rightarrow> bool" where
  "quiet (Removing st) = False"
| "quiet (Statted st oldEnough) = (\<not> oldEnough)"
| "quiet _ = True"

text \<open>What the data file should hold: the committed mutations, one after the other.\<close>

definition replay :: "'v lock_params \<Rightarrow> 'v \<Rightarrow> nat list \<Rightarrow> 'v option" where
  "replay P v ts = foldl (\<lambda>acc t. case acc of None \<Rightarrow> None | Some w \<Rightarrow> mutation P t w) (Some v) ts"

lemma replay_snoc: "replay P v ts = Some w \<Longrightarrow> replay P v (ts @ [t]) = mutation P t w"
  by (simp add: replay_def)

fun committed :: "'v pc \<Rightarrow> bool" where
  "committed (Releasing i ok) = ok"
| "committed (Finished ok) = ok"
| "committed _ = False"

definition lock_inv :: "'v lock_params \<Rightarrow> 'v \<Rightarrow> 'v lock_state \<Rightarrow> bool" where
  "lock_inv P v0 s =
     ((case lock s of
         None \<Rightarrow> \<forall>t. handle (pcs s t) = None
       | Some f \<Rightarrow> mtime f \<le> now s \<and> now s < mtime f + staleLockMs P \<and>
           (\<exists>t. handle (pcs s t) = Some (inode f) \<and> (\<forall>u. u \<noteq> t \<longrightarrow> handle (pcs s u) = None))) \<and>
      dead s = [] \<and> (\<forall>t. quiet (pcs s t)) \<and>
      (\<forall>t i v. pcs s t = Computed i v \<longrightarrow> mutation P t (data s) = Some v) \<and>
      replay P v0 (log s) = Some (data s) \<and> distinct (log s) \<and>
      (\<forall>t. t \<in> set (log s) \<longleftrightarrow> committed (pcs s t)))"

lemma lock_inv_init: "lock_inv P v (lock_init v)"
  by (simp add: lock_inv_def lock_init_def replay_def)

text \<open>A step of a task that leaves its handle and its commit status as they were.\<close>

lemma lock_inv_goto:
  assumes "lock_inv P v0 s" and "handle c = handle (pcs s t)" and "quiet c"
    and "\<And>i v. c = Computed i v \<Longrightarrow> mutation P t (data s) = Some v"
    and "committed c = committed (pcs s t)"
  shows "lock_inv P v0 (goto t c s)"
proof -
  define q where "q = (pcs s)(t := c)"
  have "handle (q u) = handle (pcs s u)" "committed (q u) = committed (pcs s u)" for u
    using assms(2,5) by (auto simp: q_def)
  moreover have "quiet (q u)" for u using assms(1,3) by (auto simp: q_def lock_inv_def)
  moreover have "q u = Computed i v \<Longrightarrow> mutation P u (data s) = Some v" for u i v
    using assms(1,4) by (auto simp: q_def lock_inv_def split: if_splits)
  ultimately have "lock_inv P v0 (s\<lparr>pcs := q\<rparr>)"
    using assms(1) by (simp add: lock_inv_def split: option.splits)
  then show ?thesis by (simp add: goto_def q_def)
qed

lemma lock_inv_unique:
  assumes "lock_inv P v0 s" and "handle (pcs s t) = Some i"
  shows "\<exists>f. lock s = Some f \<and> inode f = i \<and> mtime f \<le> now s \<and> now s < mtime f + staleLockMs P \<and> (\<forall>u. u \<noteq> t \<longrightarrow> handle (pcs s u) = None)"
proof (cases "lock s")
  case None
  with assms show ?thesis by (simp add: lock_inv_def)
next
  case (Some f)
  with assms(1) obtain w where w: "handle (pcs s w) = Some (inode f)" "\<forall>u. u \<noteq> w \<longrightarrow> handle (pcs s u) = None"
    by (auto simp: lock_inv_def)
  with assms(2) have "w = t" by (metis option.distinct(1))
  with w assms Some show ?thesis by (auto simp: lock_inv_def)
qed

lemma lock_inv_create:
  assumes "lock_inv P v0 s" and "lock s = None" and "pcs s t = Trying st" and "0 < staleLockMs P"
  shows "lock_inv P v0 (goto t (Opened n) (s\<lparr>lock := Some \<lparr>inode = n, owner = None, mtime = now s\<rparr>, nextInode := m\<rparr>))"
proof -
  have "t \<notin> set (log s)" using assms(1,3) by (auto simp: lock_inv_def)
  with assms show ?thesis by (auto simp: lock_inv_def goto_def)
qed

lemma lock_inv_write_pid:
  assumes "lock_inv P v0 s" and "pcs s t = Opened i"
  shows "lock_inv P v0 (goto t (Entered i)
    (s\<lparr>lock := map_option (\<lambda>f. if inode f = i then f\<lparr>owner := Some p, mtime := now s\<rparr> else f) (lock s)\<rparr>))"
proof -
  from assms obtain f where "lock s = Some f" "inode f = i" "mtime f \<le> now s" "now s < mtime f + staleLockMs P"
    "\<forall>u. u \<noteq> t \<longrightarrow> handle (pcs s u) = None"
    using lock_inv_unique [of P v0 s t i] by auto
  moreover have "t \<notin> set (log s)" using assms by (auto simp: lock_inv_def)
  ultimately show ?thesis using assms by (auto simp: lock_inv_def goto_def)
qed

lemma lock_inv_commit:
  assumes "lock_inv P v0 s" and "pcs s t = Computed i v"
  shows "lock_inv P v0 (goto t (Releasing i True) (s\<lparr>data := v, log := log s @ [t]\<rparr>))"
proof -
  from assms obtain f where f: "lock s = Some f" "inode f = i" "mtime f \<le> now s" "now s < mtime f + staleLockMs P"
    and others: "\<forall>u. u \<noteq> t \<longrightarrow> handle (pcs s u) = None"
    using lock_inv_unique [of P v0 s t i] by auto
  have "u \<noteq> t \<Longrightarrow> pcs s u \<noteq> Computed j w" for u j w using others by (metis handle.simps(3) option.distinct(1))
  moreover have "t \<notin> set (log s)" using assms by (auto simp: lock_inv_def)
  moreover have "replay P v0 (log s @ [t]) = Some v"
    using assms by (subst replay_snoc [of P v0 "log s" "data s"]) (auto simp: lock_inv_def)
  ultimately show ?thesis using assms f others by (auto simp: lock_inv_def goto_def)
qed

lemma lock_inv_release:
  assumes "lock_inv P v0 s" and "pcs s t = Releasing i ok"
  shows "lock_inv P v0 (goto t (Finished ok) (s\<lparr>lock := None\<rparr>))"
proof -
  from assms have others: "\<forall>u. u \<noteq> t \<longrightarrow> handle (pcs s u) = None"
    using lock_inv_unique [of P v0 s t i] by auto
  have "t \<in> set (log s) \<longleftrightarrow> ok" using assms by (auto simp: lock_inv_def)
  with assms others show ?thesis by (auto simp: lock_inv_def goto_def)
qed

lemma lock_inv_acquire:
  "lock_inv P v0 s \<Longrightarrow> 0 < staleLockMs P \<Longrightarrow> acquire_step P l s = Some s' \<Longrightarrow> lock_inv P v0 s'"
  by (cases "(P, l, s)" rule: acquire_step.cases)
    (auto split: if_splits pc.splits option.splits intro: lock_inv_goto lock_inv_create)

text \<open>In a calm run no contender ever gets to the removal of the lock.\<close>

lemma lock_inv_reclaim:
  assumes inv: "lock_inv P v0 s" and step: "reclaim_step P l s = Some s'"
  shows "lock_inv P v0 s'"
proof -
  have young: "now s - mtime f < staleLockMs P" if "lock s = Some f" for f
    using inv that by (auto simp: lock_inv_def simp flip: less_diff_conv2)
  have alive: "isProcessAlive s p" for p using inv by (simp add: lock_inv_def isProcessAlive_def)
  have quiet: "quiet (pcs s t)" for t using inv by (simp add: lock_inv_def)
  then have no: "pcs s t \<noteq> Removing st" "pcs s t \<noteq> Statted st True" for t st by (metis quiet.simps(1,2))+
  from step no show ?thesis
    by (cases "(P, l, s)" rule: reclaim_step.cases)
      (auto simp: alive dest: young split: pc.splits option.splits if_splits intro!: lock_inv_goto [OF inv])
qed

lemma lock_inv_critical:
  assumes inv: "lock_inv P v0 s" and step: "critical_step P l s = Some s'" and calm: "calm P l s"
  shows "lock_inv P v0 s'"
  using step calm
  by (cases "(P, l, s)" rule: critical_step.cases)
    (auto split: pc.splits option.splits intro: lock_inv_goto [OF inv] lock_inv_write_pid [OF inv]
      lock_inv_commit [OF inv] lock_inv_release [OF inv])

lemma lock_inv_step:
  assumes "lock_inv P v0 s" and "0 < staleLockMs P" and "calm P l s" and "withFileLock P l s = Some s'"
  shows "lock_inv P v0 s'"
proof -
  have "environment_step P l s = Some s' \<Longrightarrow> lock_inv P v0 s'"
    using assms(1,3) by (cases l) (auto simp: lock_inv_def split: option.splits)
  with assms show ?thesis
    by (auto simp: withFileLock_def split: option.splits intro: lock_inv_acquire lock_inv_reclaim lock_inv_critical)
qed

lemma lock_inv_run: "calm_run P s t \<Longrightarrow> 0 < staleLockMs P \<Longrightarrow> lock_inv P v0 s \<Longrightarrow> lock_inv P v0 t"
  by (induction rule: calm_run.induct) (auto intro: lock_inv_step)

end
