(* ===== verification/File_Store.thy ===== *)
theory File_Store
  imports Store
begin

text \<open>
  The JSON file operations of \<open>src/storage/fileStore.ts\<close> that the smaller stores use:
  \<open>readJsonFile\<close>, \<open>mutateJsonFile\<close> (inside the lock of the theory on the lock
  protocol) and \<open>ensurePrivateDirectory\<close>.  The locale \<open>json_store\<close> is the contract
  between a store's reader and its writer: what a mutation writes is what the next call reads.
\<close>

section \<open>Errors\<close>

text \<open>A parse error, a system error by its code, and \<open>new Error(message)\<close>.\<close>

datatype io_error =
    SyntaxError
  | SystemError string
  | Thrown string

section \<open>Values as a file keeps them\<close>

text \<open>\<open>JSON.parse(JSON.stringify(v))\<close>: undefined properties are dropped, undefined
  elements become \<open>null\<close>.\<close>

fun parsed :: "json \<Rightarrow> json"
  and parsed_elems :: "json list \<Rightarrow> json list"
  and parsed_props :: "fields \<Rightarrow> fields" where
  "parsed (JArr vs) = JArr (parsed_elems vs)"
| "parsed (JObj ob) = JObj (parsed_props ob)"
| "parsed v = v"
| "parsed_elems [] = []"
| "parsed_elems (v # vs) = (if v = JUndef then JNull else parsed v) # parsed_elems vs"
| "parsed_props [] = []"
| "parsed_props ((k, v) # ob) = (if v = JUndef then parsed_props ob else (k, parsed v) # parsed_props ob)"

fun plain :: "json \<Rightarrow> bool"
  and plain_elems :: "json list \<Rightarrow> bool"
  and plain_props :: "fields \<Rightarrow> bool" where
  "plain JUndef = False"
| "plain (JArr vs) = plain_elems vs"
| "plain (JObj ob) = plain_props ob"
| "plain v = True"
| "plain_elems [] = True"
| "plain_elems (v # vs) = (plain v \<and> plain_elems vs)"
| "plain_props [] = True"
| "plain_props ((k, v) # ob) = (plain v \<and> plain_props ob)"

lemma parsed_plain:
  "plain v \<Longrightarrow> parsed v = v" "plain_elems vs \<Longrightarrow> parsed_elems vs = vs" "plain_props ob \<Longrightarrow> parsed_props ob = ob"
  by (induction v and vs and ob rule: plain_plain_elems_plain_props.induct) auto

lemma plain_parsed:
  "v \<noteq> JUndef \<Longrightarrow> plain (parsed v)" "plain_elems (parsed_elems vs)" "plain_props (parsed_props ob)"
  by (induction v and vs and ob rule: parsed_parsed_elems_parsed_props.induct) auto

lemma parsed_props_keys: "(k, v) \<in> set (parsed_props ob) \<Longrightarrow> k \<in> fst ` set ob"
  by (induction ob) (auto split: if_splits)

lemma plain_props_iff: "plain_props ob \<longleftrightarrow> (\<forall>(k, v) \<in> set ob. plain v)"
  by (induction ob) auto

lemma stringify_parsed:
  "v \<noteq> JUndef \<Longrightarrow> stringify (parsed v) = stringify v"
  "stringify_elems (parsed_elems vs) = stringify_elems vs"
  "stringify_props (parsed_props ob) = stringify_props ob"
  by (induction v and vs and ob rule: parsed_parsed_elems_parsed_props.induct) (auto split: option.splits)

section \<open>Operations\<close>

datatype dir_entry = NoDirectory | Directory nat | SymbolicLink | NotADirectory

text \<open>Mode \<open>0o700\<close> is 448.\<close>

definition ensurePrivateDirectory :: "bool \<Rightarrow> string \<Rightarrow> dir_entry \<Rightarrow> (io_error, dir_entry) res" where
  "ensurePrivateDirectory win32 directoryPath d =
     (case d of
        NoDirectory \<Rightarrow> Inr (Directory 448)
      | NotADirectory \<Rightarrow> Inl (SystemError ''EEXIST'')
      | SymbolicLink \<Rightarrow> Inl (Thrown (''Refusing to use symbolic-link data directory: '' @ directoryPath))
      | Directory mode \<Rightarrow> Inr (Directory (if win32 then mode else 448)))"

definition readJsonFile :: "store_file \<Rightarrow> 's \<Rightarrow> (json \<Rightarrow> (io_error, 's) res) \<Rightarrow> (io_error, 's) res" where
  "readJsonFile f fallback sanitize =
     (case f of
        NoFile \<Rightarrow> Inr fallback
      | NotRegular \<Rightarrow> Inl (SystemError ''EISDIR'')
      | Regular content bytes \<Rightarrow> (case content of None \<Rightarrow> Inl SyntaxError | Some j \<Rightarrow> sanitize j))"

definition mutateJsonFile ::
  "store_file \<Rightarrow> 's \<Rightarrow> (json \<Rightarrow> (io_error, 's) res) \<Rightarrow> ('s \<Rightarrow> json) \<Rightarrow> ('s \<Rightarrow> (io_error, 's) res) \<Rightarrow>
   (io_error, 's) res \<times> store_file" where
  "mutateJsonFile f fallback sanitize encode mutate =
     (case readJsonFile f fallback sanitize of
        Inl e \<Rightarrow> (Inl e, f)
      | Inr current \<Rightarrow>
          (case mutate current of
             Inl e \<Rightarrow> (Inl e, f)
           | Inr next \<Rightarrow> (Inr next, atomicWriteJson (parsed (encode next)))))"

lemma mutateJsonFile_throws: "mutateJsonFile f d sanitize encode m = (Inl e, f') \<Longrightarrow> f' = f"
  by (auto simp: mutateJsonFile_def split: sum.splits)

lemma mutateJsonFileE:
  assumes "mutateJsonFile f d sanitize encode m = (Inr next, f')"
  obtains current where "readJsonFile f d sanitize = Inr current" "m current = Inr next"
    "f' = atomicWriteJson (parsed (encode next))"
  using assms by (auto simp: mutateJsonFile_def split: sum.splits)

lemma readJsonFile_written [simp]: "readJsonFile (atomicWriteJson j) d sanitize = sanitize j"
  by (simp add: readJsonFile_def atomicWriteJson_def)

text \<open>What \<open>JSON.parse\<close> returns never holds \<open>undefined\<close>.\<close>

fun json_file :: "store_file \<Rightarrow> bool" where
  "json_file (Regular (Some j) bytes) = plain j"
| "json_file _ = True"

lemma json_file_written: "v \<noteq> JUndef \<Longrightarrow> json_file (atomicWriteJson (parsed v))"
  by (simp add: atomicWriteJson_def plain_parsed)

section \<open>The contract of a JSON store\<close>

locale json_store =
  fixes fallback :: 's
    and sanitize :: "json \<Rightarrow> (io_error, 's) res"
    and encode :: "'s \<Rightarrow> json"
    and inv :: "'s \<Rightarrow> bool"
  assumes inv_fallback: "inv fallback"
    and inv_sanitize: "plain j \<Longrightarrow> sanitize j = Inr s \<Longrightarrow> inv s"
    and sanitize_encode: "inv s \<Longrightarrow> sanitize (parsed (encode s)) = Inr s"
begin

lemma read_inv: "json_file f \<Longrightarrow> readJsonFile f fallback sanitize = Inr s \<Longrightarrow> inv s"
  using inv_fallback inv_sanitize
  by (auto simp: readJsonFile_def split: store_file.splits option.splits)

text \<open>A mutation whose result is in normal form is what every later read returns.\<close>

lemma mutate_read:
  assumes "mutateJsonFile f fallback sanitize encode m = (Inr next, f')" and "inv next"
  shows "readJsonFile f' fallback sanitize = Inr next"
  using assms by (elim mutateJsonFileE) (simp add: sanitize_encode)

lemma mutate_ok:
  assumes "readJsonFile f fallback sanitize = Inr s" and "m s = Inr s'" and "inv s'"
  shows "\<exists>f'. mutateJsonFile f fallback sanitize encode m = (Inr s', f') \<and> readJsonFile f' fallback sanitize = Inr s'"
  using assms by (simp add: mutateJsonFile_def sanitize_encode)

end

end
