(* ===== verification/Headers.thy ===== *)
theory Headers
  imports File_Store Secrets Sha256
begin

text \<open>
  \<open>src/security/headerSanitizer.ts\<close>: the headers of a request as they are logged and
  matched (\<open>sanitizeHeaders\<close>) and the headers a mock may send
  (\<open>sanitizeResponseHeaders\<close>).
\<close>

section \<open>Header values\<close>

fun is_string :: "json \<Rightarrow> bool" where
  "is_string (JStr s) = True"
| "is_string _ = False"

fun isStringArray :: "json \<Rightarrow> bool" where
  "isStringArray (JArr vs) = list_all is_string vs"
| "isStringArray _ = False"

fun string_of :: "json \<Rightarrow> string" where
  "string_of (JStr s) = s"
| "string_of _ = []"

text \<open>\<open>typeof v === "string" ? [v] : isStringArray(v) ? v : []\<close>.\<close>

fun header_values :: "json \<Rightarrow> string list" where
  "header_values (JStr s) = [s]"
| "header_values (JArr vs) = (if isStringArray (JArr vs) then map string_of vs else [])"
| "header_values _ = []"

definition SAFE_RESPONSE_HEADERS :: "string list" where
  "SAFE_RESPONSE_HEADERS = [
    ''cache-control'', ''content-language'', ''content-type'', ''etag'', ''expires'', ''last-modified'',
    ''link'', ''location'', ''retry-after'', ''stripe-signature'']"

definition BLOCKED_RESPONSE_HEADERS :: "string list" where
  "BLOCKED_RESPONSE_HEADERS = [
    ''connection'', ''content-length'', ''host'', ''keep-alive'', ''proxy-authenticate'',
    ''proxy-authorization'', ''set-cookie'', ''te'', ''trailer'', ''transfer-encoding'', ''upgrade'']"

section \<open>Request headers\<close>

definition digestIdempotencyKey :: "string \<Rightarrow> string" where
  "digestIdempotencyKey value = ''idempotency_'' @ take 24 (sha256 value)"

definition sanitizeHeaders :: "fields \<Rightarrow> fields" where
  "sanitizeHeaders headers =
     (case sanitizeSecrets (JObj headers) of
        JObj ob \<Rightarrow>
          (let result = filter (\<lambda>(k, v). is_string v \<or> isStringArray v) ob;
               key = jget headers ''idempotency-key'';
               result1 = (if is_string key
                          then jset result ''idempotency-key'' (JStr (digestIdempotencyKey (string_of key))) else result)
           in if isStringArray key
              then jset result1 ''idempotency-key'' (JArr (map (JStr \<circ> digestIdempotencyKey) (header_values key)))
              else result1)
      | _ \<Rightarrow> [])"

section \<open>Response headers\<close>

text \<open>\<open>[!#$%&'*+.^_`|~0-9a-z-]\<close>.\<close>

definition c_header :: "char \<Rightarrow> bool" where
  "c_header c =
     (is_digit c \<or> is_lower c \<or>
      code c \<in> set [33, 35, 36, 37, 38, 39, 42, 43, 46, 94, 95, 96, 124, 126, 45])"

definition has_break :: "string \<Rightarrow> bool" where
  "has_break s = list_ex (\<lambda>c. code c = 13 \<or> code c = 10 \<or> code c = 0) s"

definition isSafeRelativeLocation :: "string \<Rightarrow> bool" where
  "isSafeRelativeLocation value =
     (startsWith value ''/'' \<and> \<not> startsWith value ''//'' \<and> CHR 0x5C \<notin> set value \<and>
      \<not> list_ex (\<lambda>c. code c \<le> 31 \<or> code c = 127) value)"

definition isSafeResponseExtension :: "string \<Rightarrow> bool" where
  "isSafeResponseExtension name =
     (name = ''x-request-id'' \<or> name = ''x-correlation-id'' \<or> startsWith name ''x-ghostapi-'' \<or>
      startsWith name ''x-ratelimit-'' \<or> startsWith name ''x-github-'' \<or> startsWith name ''x-stripe-'')"

definition name_allowed :: "string \<Rightarrow> bool" where
  "name_allowed name =
     (name \<noteq> [] \<and> list_all c_header name \<and> name \<notin> set BLOCKED_RESPONSE_HEADERS \<and>
      (name \<in> set SAFE_RESPONSE_HEADERS \<or> isSafeResponseExtension name))"

text \<open>The body of the loop: what is entered for one property, if anything.\<close>

definition accept_header :: "string \<Rightarrow> json \<Rightarrow> (string \<times> json) option" where
  "accept_header rawName rawValue =
     (let name = toLowerCase rawName; values = header_values rawValue in
      if \<not> name_allowed name then None
      else if values = [] \<or> length values > 16 \<or> list_ex (\<lambda>entry. length entry > 4096 \<or> has_break entry) values
      then None
      else if name = ''location'' \<and> (\<not> is_string rawValue \<or> \<not> isSafeRelativeLocation (string_of rawValue))
      then None
      else Some (name, if is_string rawValue then JStr (hd values) else JArr (map JStr values)))"

definition sanitizeResponseHeaders :: "json \<Rightarrow> fields" where
  "sanitizeResponseHeaders value =
     (case value of
        JObj ob \<Rightarrow>
          fold (\<lambda>(rawName, rawValue) result.
                  case accept_header rawName rawValue of None \<Rightarrow> result | Some (n, v) \<Rightarrow> jset result n v) ob []
      | _ \<Rightarrow> [])"

section \<open>What the filters guarantee\<close>

definition header_ok :: "string \<Rightarrow> json \<Rightarrow> bool" where
  "header_ok name v =
     (toLowerCase name = name \<and> name_allowed name \<and>
      (is_string v \<or> isStringArray v) \<and> header_values v \<noteq> [] \<and> length (header_values v) \<le> 16 \<and>
      list_all (\<lambda>s. length s \<le> 4096 \<and> \<not> has_break s) (header_values v) \<and>
      (name = ''location'' \<longrightarrow> is_string v \<and> isSafeRelativeLocation (string_of v)))"

lemma is_stringE: "is_string v \<Longrightarrow> (\<And>s. v = JStr s \<Longrightarrow> P) \<Longrightarrow> P"
  by (cases v) auto

lemma string_array_values: "list_all is_string vs \<Longrightarrow> map (JStr \<circ> string_of) vs = vs"
  by (induction vs) (auto elim: is_stringE)

lemma header_values_cases:
  assumes "header_values v \<noteq> []"
  obtains s where "v = JStr s" | ss where "v = JArr (map JStr ss)" "header_values v = ss" "isStringArray v"
proof (cases v)
  case (JArr vs)
  with assms have "list_all is_string vs" by (auto split: if_splits)
  with JArr that(2) [of "map string_of vs"] string_array_values [of vs] show ?thesis by simp
qed (use assms that in auto)

lemma accept_header_ok:
  assumes "accept_header n v = Some (m, w)"
  shows "header_ok m w \<and> m = toLowerCase n \<and> w = v"
proof -
  have nonempty: "header_values v \<noteq> []" using assms by (auto simp: accept_header_def Let_def split: if_splits)
  then have "w = v"
    using assms by (cases v rule: header_values_cases) (auto simp: accept_header_def Let_def split: if_splits)
  moreover have "is_string v \<or> isStringArray v" using nonempty by (cases v rule: header_values_cases) auto
  ultimately show ?thesis
    using assms by (auto simp: accept_header_def header_ok_def Let_def list_all_iff list_ex_iff split: if_splits)
qed

lemma accept_header_back: "header_ok n v \<Longrightarrow> accept_header n v = Some (n, v)"
proof -
  assume ok: "header_ok n v"
  then have "header_values v \<noteq> []" by (simp add: header_ok_def)
  then have "(if is_string v then JStr (hd (header_values v)) else JArr (map JStr (header_values v))) = v"
    by (cases v rule: header_values_cases) auto
  with ok show ?thesis
    unfolding accept_header_def header_ok_def Let_def
    by (auto simp: list_all_iff list_ex_iff not_less)
qed

lemma jset_new: "k \<notin> fst ` set ob \<Longrightarrow> jset ob k v = ob @ [(k, v)]"
  by (induction ob k v rule: jset.induct) auto

lemma response_fold:
  assumes "distinct (map fst acc)" and "\<forall>(n, v) \<in> set acc. header_ok n v"
  shows "distinct (map fst (fold (\<lambda>(n, v) r. case accept_header n v of None \<Rightarrow> r | Some (m, w) \<Rightarrow> jset r m w) ob acc)) \<and>
    (\<forall>(n, v) \<in> set (fold (\<lambda>(n, v) r. case accept_header n v of None \<Rightarrow> r | Some (m, w) \<Rightarrow> jset r m w) ob acc). header_ok n v)"
  using assms
proof (induction ob arbitrary: acc)
  case (Cons p ob)
  obtain n v where p: "p = (n, v)" by (cases p)
  show ?case
  proof (cases "accept_header n v")
    case None
    with Cons p show ?thesis by simp
  next
    case (Some q)
    obtain m w where q: "q = (m, w)" by (cases q)
    with Some have ok: "header_ok m w" using accept_header_ok by blast
    have "\<forall>(n, v) \<in> set (jset acc m w). header_ok n v"
      using Cons.prems(2) ok by (auto dest!: jset_mem)
    with Cons.IH [of "jset acc m w"] Cons.prems(1) Some p q distinct_jset show ?thesis by simp
  qed
qed simp

lemma sanitizeResponseHeaders_ok:
  "distinct (map fst (sanitizeResponseHeaders v))"
  "(n, w) \<in> set (sanitizeResponseHeaders v) \<Longrightarrow> header_ok n w"
  using response_fold [of "[]"] by (auto simp: sanitizeResponseHeaders_def split: json.splits)

lemma response_fold_fixed:
  assumes "distinct (map fst (acc @ ob))" and "\<forall>(n, v) \<in> set ob. header_ok n v"
  shows "fold (\<lambda>(n, v) r. case accept_header n v of None \<Rightarrow> r | Some (m, w) \<Rightarrow> jset r m w) ob acc = acc @ ob"
  using assms
proof (induction ob arbitrary: acc)
  case (Cons p ob)
  obtain n v where p: "p = (n, v)" by (cases p)
  with Cons.prems have "accept_header n v = Some (n, v)" "n \<notin> fst ` set acc"
    by (auto intro: accept_header_back)
  with p Cons.IH [of "acc @ [(n, v)]"] Cons.prems show ?case by (simp add: jset_new)
qed simp

lemma sanitizeResponseHeaders_fixed:
  "distinct (map fst ob) \<Longrightarrow> (\<And>n v. (n, v) \<in> set ob \<Longrightarrow> header_ok n v) \<Longrightarrow> sanitizeResponseHeaders (JObj ob) = ob"
  using response_fold_fixed [of "[]" ob] by (auto simp: sanitizeResponseHeaders_def)

lemma sanitizeResponseHeaders_idem:
  "sanitizeResponseHeaders (JObj (sanitizeResponseHeaders v)) = sanitizeResponseHeaders v"
  by (rule sanitizeResponseHeaders_fixed) (fact sanitizeResponseHeaders_ok)+

text \<open>Header values are plain data: they are written and read back unchanged.\<close>

lemma header_ok_plain: "header_ok n v \<Longrightarrow> plain v"
proof -
  assume "header_ok n v"
  then have "header_values v \<noteq> []" by (simp add: header_ok_def)
  moreover have "plain_elems (map JStr ss)" for ss by (induction ss) auto
  ultimately show ?thesis by (cases v rule: header_values_cases) auto
qed

lemma plain_response_headers: "plain_props (sanitizeResponseHeaders v)"
  using sanitizeResponseHeaders_ok(2) header_ok_plain by (fastforce simp: plain_props_iff)

lemma sanitizeValue_props_secret:
  "(k, v) \<in> set (sanitizeValue_props ob p) \<Longrightarrow> isSecretFieldName k \<Longrightarrow> masked v"
  by (induction ob) (auto simp: masked_maskByType)

lemma sanitized_props_mem:
  "sanitized_props ob \<Longrightarrow> (k, v) \<in> set ob \<Longrightarrow> if isSecretFieldName k then masked v else sanitized v"
  by (induction ob) auto

end
