(* ===== verification/Providers.thy ===== *)
theory Providers
  imports Headers
begin

text \<open>
  Which provider a request is for (\<open>src/proxy/providerDetector.ts\<close> with the registry and
  the pack detection rules), and the error bodies of the providers
  (\<open>src/providers/*.ts\<close>, \<open>src/errors/providerErrors.ts\<close>).
\<close>

section \<open>Provider names\<close>

datatype ProviderName = Stripe | Twilio | Resend | Github | Discord | Openai | Generic

fun provider_name :: "ProviderName \<Rightarrow> string" where
  "provider_name Stripe = ''stripe''"
| "provider_name Twilio = ''twilio''"
| "provider_name Resend = ''resend''"
| "provider_name Github = ''github''"
| "provider_name Discord = ''discord''"
| "provider_name Openai = ''openai''"
| "provider_name Generic = ''generic''"

definition providerRegistry :: "ProviderName list" where
  "providerRegistry = [Stripe, Twilio, Resend, Github, Discord, Openai, Generic]"

text \<open>\<open>isRegisteredProvider(value) ? value : undefined\<close>.\<close>

definition isRegisteredProvider :: "string \<Rightarrow> ProviderName option" where
  "isRegisteredProvider value = List.find (\<lambda>p. provider_name p = value) providerRegistry"

lemma registered_name: "isRegisteredProvider (provider_name p) = Some p"
  by (cases p) (simp_all add: isRegisteredProvider_def providerRegistry_def)

lemma registered_inv: "isRegisteredProvider v = Some p \<longleftrightarrow> v = provider_name p"
  using find_SomeD [of "\<lambda>p. provider_name p = v" providerRegistry p] registered_name
  by (auto simp: isRegisteredProvider_def)

section \<open>Detection\<close>

text \<open>\<open>/^prefix(?:a|b|...)(?:\/|$)/\<close>, given what follows the prefix.\<close>

definition segment_in :: "string list \<Rightarrow> string \<Rightarrow> bool" where
  "segment_in alts r =
     list_ex (\<lambda>a. startsWith r a \<and> (drop (length a) r = [] \<or> hd (drop (length a) r) = CHR ''/'')) alts"

definition v1_path :: "string list \<Rightarrow> string \<Rightarrow> bool" where
  "v1_path alts path = (startsWith path ''/v1/'' \<and> segment_in alts (drop 4 path))"

definition isStripePath :: "string \<Rightarrow> bool" where
  "isStripePath path =
     v1_path [''customers'', ''charges'', ''payment_intents'', ''setup_intents'', ''checkout'', ''prices'',
       ''products'', ''subscriptions'', ''invoices'', ''payment_methods'', ''refunds'', ''accounts'', ''balance'',
       ''payouts'', ''transfers'', ''events'', ''webhook_endpoints''] path"

definition isOpenAiPath :: "string \<Rightarrow> bool" where
  "isOpenAiPath path =
     v1_path [''chat/completions'', ''responses'', ''embeddings'', ''models'', ''images'', ''audio'', ''files'',
       ''fine_tuning'', ''assistants'', ''threads'', ''vector_stores''] path"

definition stripePack_matches :: "string \<Rightarrow> bool" where
  "stripePack_matches path =
     v1_path [''customers'', ''products'', ''prices'', ''subscriptions'', ''invoices'', ''events'',
       ''payment_intents'', ''payment_methods'', ''checkout/sessions'', ''refunds''] (toLowerCase path)"

definition resendPack_matches :: "string \<Rightarrow> bool" where
  "resendPack_matches path =
     (toLowerCase path = ''/emails'' \<or> startsWith (toLowerCase path) ''/emails/'')"

text \<open>The packs by descending priority: 400 for Stripe, 300 for Resend.\<close>

definition detectProviderPack :: "string \<Rightarrow> ProviderName option" where
  "detectProviderPack path =
     (if stripePack_matches path then Some Stripe
      else if resendPack_matches path then Some Resend else None)"

definition discord_path :: "string \<Rightarrow> bool" where
  "discord_path path =
     list_ex (segment_in [''channels'', ''guilds'', ''webhooks'', ''interactions'', ''applications''])
       (rests (Seq (lit ''/api/v'') (Seq (Plus (Cls is_digit)) (ch CHR ''/''))) path)"

fun firstValue :: "json \<Rightarrow> json" where
  "firstValue (JArr vs) = (case vs of [] \<Rightarrow> JUndef | v # _ \<Rightarrow> v)"
| "firstValue v = v"

text \<open>Entries that are neither a string nor an array of strings are dropped, names lowered;
  a later name replaces an earlier one that differs in case only.\<close>

definition normalizeHeaders :: "fields \<Rightarrow> fields" where
  "normalizeHeaders headers =
     fold (\<lambda>(k, v) acc. jset acc (toLowerCase k) v) (filter (\<lambda>(k, v). is_string v \<or> isStringArray v) headers) []"

definition STRIPE_AUTHORIZATION :: rx where
  "STRIPE_AUTHORIZATION =
     Seq (Opt (Seq (liti ''bearer'') (Plus (Cls is_ws))))
       (Seq (Cls (\<lambda>c. lower_char c = CHR ''s'' \<or> lower_char c = CHR ''r''))
         (Seq (liti ''k_'') (Seq (Alt (liti ''live'') (liti ''test'')) (liti ''_''))))"

definition hasStripeAuthorization :: "fields \<Rightarrow> bool" where
  "hasStripeAuthorization headers =
     (case firstValue (jget headers ''authorization'') of
        JStr s \<Rightarrow> test_any STRIPE_AUTHORIZATION s
      | _ \<Rightarrow> False)"

fun hasKey :: "json \<Rightarrow> string \<Rightarrow> bool"
  and hasKey_elems :: "json list \<Rightarrow> string \<Rightarrow> bool"
  and hasKey_props :: "fields \<Rightarrow> string \<Rightarrow> bool" where
  "hasKey (JArr vs) key = hasKey_elems vs key"
| "hasKey (JObj ob) key = hasKey_props ob key"
| "hasKey _ key = False"
| "hasKey_elems [] key = False"
| "hasKey_elems (v # vs) key = (hasKey v key \<or> hasKey_elems vs key)"
| "hasKey_props [] key = False"
| "hasKey_props ((k, v) # ob) key = (k = key \<or> hasKey v key \<or> hasKey_props ob key)"

text \<open>\<open>(headerOverride ?? queryOverride)?.toLowerCase()\<close>; an empty header array reads as
  undefined.\<close>

definition getProviderOverride :: "fields \<Rightarrow> fields \<Rightarrow> ProviderName option" where
  "getProviderOverride headers query =
     (case firstValue (jget headers ''x-ghostapi-provider'') of
        JStr h \<Rightarrow> isRegisteredProvider (toLowerCase h)
      | _ \<Rightarrow>
          (case jget query ''ghost_provider'' of
             JStr q \<Rightarrow> isRegisteredProvider (toLowerCase q)
           | _ \<Rightarrow> None))"

definition detectProvider :: "string \<Rightarrow> fields \<Rightarrow> fields \<Rightarrow> json \<Rightarrow> ProviderName" where
  "detectProvider inputPath inputHeaders query body =
     (let path = toLowerCase inputPath; headers = normalizeHeaders inputHeaders in
      case getProviderOverride headers query of
        Some override \<Rightarrow> override
      | None \<Rightarrow>
          if isStripePath path \<or> jget headers ''stripe-version'' \<noteq> JUndef \<or> hasStripeAuthorization headers then Stripe
          else if str_includes path ''/2010-04-01/'' \<or> str_includes path ''/accounts/'' then Twilio
          else (case detectProviderPack path of
                  Some p \<Rightarrow> p
                | None \<Rightarrow>
                    if startsWith path ''/repos/'' \<or> startsWith path ''/user/'' \<or> path = ''/user'' \<or>
                       jget headers ''x-github-api-version'' \<noteq> JUndef then Github
                    else if isOpenAiPath path \<or> jget headers ''openai-organization'' \<noteq> JUndef \<or>
                       jget headers ''openai-project'' \<noteq> JUndef then Openai
                    else if discord_path path \<or> str_includes path ''/channels/'' \<or> str_includes path ''/webhooks/'' \<or>
                       hasKey (JObj query) ''guild_id'' \<or> hasKey (JObj query) ''channel_id'' \<or>
                       hasKey body ''guild_id'' \<or> hasKey body ''channel_id'' then Discord
                    else Generic))"

section \<open>Error bodies\<close>

datatype error_code = CodeText string | CodeNumber int

record ProviderErrorDetails =
  details_status :: int
  details_message :: string
  details_code :: "error_code option"
  details_param :: "string option"
  details_type :: "string option"

fun code_json :: "error_code \<Rightarrow> json" where
  "code_json (CodeText s) = JStr s"
| "code_json (CodeNumber n) = JInt n"

text \<open>\<open>typeof code === "number" ? code : fallback\<close>.\<close>

fun number_code :: "error_code option \<Rightarrow> int \<Rightarrow> int" where
  "number_code (Some (CodeNumber n)) d = n"
| "number_code _ d = d"

definition opt_str :: "string option \<Rightarrow> json \<Rightarrow> json" where
  "opt_str x d = (case x of None \<Rightarrow> d | Some s \<Rightarrow> JStr s)"

definition stripeError :: "ProviderErrorDetails \<Rightarrow> json" where
  "stripeError d =
     JObj [(''error'',
       JObj ([(''type'', opt_str (details_type d) (JStr ''invalid_request_error'')), (''message'', JStr (details_message d))] @
             (case details_code d of None \<Rightarrow> [] | Some c \<Rightarrow> [(''code'', code_json c)]) @
             [(''param'', opt_str (details_param d) (JStr ''unknown''))]))]"

definition twilio_formatError :: "ProviderErrorDetails \<Rightarrow> json" where
  "twilio_formatError d =
     (let c = number_code (details_code d) 21604 in
      JObj [(''code'', JInt c), (''message'', JStr (details_message d)),
        (''more_info'', JStr (''https://www.twilio.com/docs/errors/'' @ int_text c)), (''status'', JInt (details_status d))])"

definition resend_formatError :: "ProviderErrorDetails \<Rightarrow> json" where
  "resend_formatError d =
     JObj [(''statusCode'', JInt (details_status d)), (''name'', opt_str (details_type d) (JStr ''validation_error'')),
       (''message'', JStr (details_message d))]"

definition github_formatError :: "ProviderErrorDetails \<Rightarrow> json" where
  "github_formatError d =
     JObj [(''message'', JStr (details_message d)), (''documentation_url'', JStr ''https://docs.github.com/rest'')]"

definition discord_formatError :: "ProviderErrorDetails \<Rightarrow> json" where
  "discord_formatError d =
     JObj [(''code'', JInt (number_code (details_code d) 50035)), (''message'', JStr (details_message d))]"

definition openai_formatError :: "ProviderErrorDetails \<Rightarrow> json" where
  "openai_formatError d =
     JObj [(''error'',
       JObj [(''message'', JStr (details_message d)), (''type'', opt_str (details_type d) (JStr ''invalid_request_error'')),
         (''param'', opt_str (details_param d) JNull),
         (''code'', (case details_code d of None \<Rightarrow> JNull | Some c \<Rightarrow> code_json c))])]"

definition generic_formatError :: "ProviderErrorDetails \<Rightarrow> json" where
  "generic_formatError d =
     JObj [(''error'', JObj [(''status'', JInt (details_status d)), (''message'', JStr (details_message d))])]"

fun createProviderError :: "ProviderName \<Rightarrow> ProviderErrorDetails \<Rightarrow> json" where
  "createProviderError Stripe d = stripeError d"
| "createProviderError Twilio d = twilio_formatError d"
| "createProviderError Resend d = resend_formatError d"
| "createProviderError Github d = github_formatError d"
| "createProviderError Discord d = discord_formatError d"
| "createProviderError Openai d = openai_formatError d"
| "createProviderError Generic d = generic_formatError d"

section \<open>Case and overrides\<close>

lemma jget_fold_lower:
  "jget (fold (\<lambda>(k, v) acc. jset acc (toLowerCase k) v) hs acc) n =
     (case List.find (\<lambda>(k, v). toLowerCase k = n) (rev hs) of Some (k, v) \<Rightarrow> v | None \<Rightarrow> jget acc n)"
proof (induction hs rule: rev_induct)
  case (snoc h hs)
  obtain k v where "h = (k, v)" by (cases h)
  with snoc show ?case by (auto simp: jget_jset)
qed simp

text \<open>Only the lowered names matter.\<close>

lemma normalizeHeaders_lower:
  "map (\<lambda>(k, v). (toLowerCase k, v)) hs = map (\<lambda>(k, v). (toLowerCase k, v)) hs' \<Longrightarrow>
   normalizeHeaders hs = normalizeHeaders hs'"
proof -
  let ?low = "\<lambda>(k, v). (toLowerCase k, v)"
  let ?ok = "\<lambda>(k :: string, v). is_string v \<or> isStringArray v"
  have n: "normalizeHeaders h = fold (\<lambda>(k, v) acc. jset acc k v) (filter ?ok (map ?low h)) []" for h
  proof -
    have "filter ?ok (map ?low h) = map ?low (filter ?ok h)"
      by (induction h) auto
    moreover have "fold (\<lambda>(k, v) acc. jset acc k v) (map ?low xs) acc = fold (\<lambda>(k, v) acc. jset acc (toLowerCase k) v) xs acc" for xs acc
      by (induction xs arbitrary: acc) auto
    ultimately show ?thesis by (simp add: normalizeHeaders_def)
  qed
  show "map ?low hs = map ?low hs' \<Longrightarrow> ?thesis" unfolding n by simp
qed

lemma override_header:
  assumes "firstValue (jget (normalizeHeaders headers) ''x-ghostapi-provider'') = JStr s"
    and "toLowerCase s = provider_name p"
  shows "detectProvider path headers query body = p"
  using assms by (simp add: detectProvider_def getProviderOverride_def registered_name)

lemma provider_name_lower [simp]: "toLowerCase (provider_name p) = provider_name p"
  by (cases p; simp; code_simp)

end
