(* ===== verification/Requests.thy ===== *)
theory Requests
  imports Providers "HOL-Library.Multiset"
begin

text \<open>
  Requests as the proxy sees them: \<open>src/proxy/requestNormalizer.ts\<close> masks a request
  before anything is stored or matched, \<open>src/proxy/cacheKey.ts\<close> hashes it into a cache
  key.  The collation order behind \<open>localeCompare\<close> is a parameter.
\<close>

section \<open>Normalized requests\<close>

record NormalizedRequest =
  req_method :: string
  req_path :: string
  req_query :: fields
  req_headers :: fields
  req_body :: json
  receivedAt :: string

text \<open>The body of a request: raw bytes of some length, or a parsed value.\<close>

datatype raw_body = Binary nat | Parsed json

record Request =
  raw_method :: string
  raw_path :: string
  raw_query :: json
  raw_headers :: fields
  raw_body :: raw_body

fun getSafeBody :: "raw_body \<Rightarrow> json" where
  "getSafeBody (Binary n) = JStr (''[Binary Data: '' @ nat_digits n @ '' bytes]'')"
| "getSafeBody (Parsed v) = v"

definition sanitizeRecord :: "json \<Rightarrow> fields" where
  "sanitizeRecord value = (case sanitizeSecrets value of JObj ob \<Rightarrow> ob | _ \<Rightarrow> [])"

definition normalizeRequest :: "Request \<Rightarrow> int \<Rightarrow> NormalizedRequest" where
  "normalizeRequest r now =
     \<lparr>req_method = raw_method r, req_path = sanitizeSecretString (raw_path r),
      req_query = sanitizeRecord (raw_query r), req_headers = sanitizeHeaders (raw_headers r),
      req_body = sanitizeSecrets (getSafeBody (raw_body r)), receivedAt = toISOString now\<rparr>"

section \<open>Cache keys\<close>

type_synonym collation = "string \<Rightarrow> string \<Rightarrow> bool"

text \<open>\<open>entries.sort(([l], [r]) => l.localeCompare(r))\<close>: a stable sort.\<close>

fun insert_entry :: "collation \<Rightarrow> string \<times> 'a \<Rightarrow> (string \<times> 'a) list \<Rightarrow> (string \<times> 'a) list" where
  "insert_entry le x [] = [x]"
| "insert_entry le x (y # ys) = (if le (fst x) (fst y) then x # y # ys else y # insert_entry le x ys)"

definition sortObject :: "collation \<Rightarrow> (string \<times> 'a) list \<Rightarrow> (string \<times> 'a) list" where
  "sortObject le ob = foldr (insert_entry le) ob []"

text \<open>An undefined element joins as the empty text, an undefined property as
  \<open>undefined\<close>.\<close>

fun stableStringify :: "collation \<Rightarrow> json \<Rightarrow> string option"
  and stable_elems :: "collation \<Rightarrow> json list \<Rightarrow> string list"
  and stable_props :: "collation \<Rightarrow> fields \<Rightarrow> (string \<times> string) list" where
  "stableStringify le (JArr vs) = Some (''['' @ join '','' (stable_elems le vs) @ '']'')"
| "stableStringify le (JObj ob) =
     Some (''{'' @ join '','' (map (\<lambda>(k, t). json_string k @ '':'' @ t) (sortObject le (stable_props le ob))) @ ''}'')"
| "stableStringify le JUndef = None"
| "stableStringify le v = stringify v"
| "stable_elems le [] = []"
| "stable_elems le (v # vs) = (case stableStringify le v of None \<Rightarrow> [] | Some t \<Rightarrow> t) # stable_elems le vs"
| "stable_props le [] = []"
| "stable_props le ((k, v) # ob) =
     (k, case stableStringify le v of None \<Rightarrow> ''undefined'' | Some t \<Rightarrow> t) # stable_props le ob"

definition IMPORTANT_KEYS :: "string list" where
  "IMPORTANT_KEYS = [''content-type'', ''accept'', ''stripe-version'', ''x-github-api-version'', ''twilio-version'',
     ''x-ghostapi-api-version'']"

definition extractImportantHeaders :: "collation \<Rightarrow> fields \<Rightarrow> fields" where
  "extractImportantHeaders le headers =
     sortObject le (map (\<lambda>k. (k, jget headers k)) (filter (\<lambda>k. jget headers k \<noteq> JUndef) IMPORTANT_KEYS))"

definition createCacheKey :: "collation \<Rightarrow> NormalizedRequest \<Rightarrow> string \<Rightarrow> string" where
  "createCacheKey le r provider =
     sha256 (the (stableStringify le
       (JObj [(''provider'', JStr provider), (''method'', JStr (req_method r)), (''path'', JStr (req_path r)),
          (''query'', JObj (sortObject le (req_query r))), (''body'', req_body r),
          (''importantHeaders'', JObj (extractImportantHeaders le (req_headers r)))])))"

section \<open>Order of properties\<close>

text \<open>The keys an order separates: total, transitive, and no two different keys tie.\<close>

definition separates :: "collation \<Rightarrow> string set \<Rightarrow> bool" where
  "separates le K =
     ((\<forall>a \<in> K. \<forall>b \<in> K. le a b \<or> le b a) \<and> (\<forall>a \<in> K. \<forall>b \<in> K. \<forall>c \<in> K. le a b \<longrightarrow> le b c \<longrightarrow> le a c) \<and>
      (\<forall>a \<in> K. \<forall>b \<in> K. le a b \<longrightarrow> le b a \<longrightarrow> a = b))"

definition sorted_entries :: "collation \<Rightarrow> (string \<times> 'a) list \<Rightarrow> bool" where
  "sorted_entries le xs = sorted_wrt (\<lambda>x y. le (fst x) (fst y)) xs"

lemma mset_insert_entry [simp]: "mset (insert_entry le x ys) = add_mset x (mset ys)"
  by (induction ys) auto

lemma set_insert_entry [simp]: "set (insert_entry le x ys) = insert x (set ys)"
  by (induction ys) auto

lemma mset_sortObject [simp]: "mset (sortObject le ob) = mset ob"
  by (induction ob) (auto simp: sortObject_def)

lemma set_sortObject [simp]: "set (sortObject le ob) = set ob"
  using mset_sortObject mset_eq_setD by metis

lemma separatesD:
  assumes "separates le K"
  shows "a \<in> K \<Longrightarrow> b \<in> K \<Longrightarrow> le a b \<or> le b a"
    and "a \<in> K \<Longrightarrow> b \<in> K \<Longrightarrow> c \<in> K \<Longrightarrow> le a b \<Longrightarrow> le b c \<Longrightarrow> le a c"
    and "a \<in> K \<Longrightarrow> b \<in> K \<Longrightarrow> le a b \<Longrightarrow> le b a \<Longrightarrow> a = b"
  using assms unfolding separates_def by blast+

lemma sorted_insert_entry:
  assumes "separates le K" and "fst x \<in> K" and "fst ` set ys \<subseteq> K" and "sorted_entries le ys"
  shows "sorted_entries le (insert_entry le x ys)"
  using assms(3,4)
proof (induction ys)
  case (Cons y ys)
  have "le (fst x) (fst z)" if "le (fst x) (fst y)" "z \<in> set ys" for z
    using Cons.prems that separatesD(2) [OF assms(1), of "fst x" "fst y" "fst z"] assms(2) by (auto simp: sorted_entries_def)
  moreover have "le (fst y) (fst x)" if "\<not> le (fst x) (fst y)"
    using that separatesD(1) [OF assms(1), of "fst x" "fst y"] assms(2) Cons.prems(1) by auto
  ultimately show ?case using Cons by (auto simp: sorted_entries_def)
qed (simp add: sorted_entries_def)

lemma sorted_sortObject:
  assumes "separates le K" and "fst ` set ob \<subseteq> K"
  shows "sorted_entries le (sortObject le ob)"
  using assms(2)
proof (induction ob)
  case (Cons x ob)
  have "set (foldr (insert_entry le) ob []) = set ob" using set_sortObject by (simp add: sortObject_def)
  with Cons sorted_insert_entry [OF assms(1), of x] show ?case by (simp add: sortObject_def)
qed (simp add: sortObject_def sorted_entries_def)

text \<open>Sorting forgets the order the properties came in.\<close>

lemma sorted_entries_unique:
  assumes "separates le K" and "fst ` set xs \<subseteq> K" and "distinct (map fst xs)" and "mset xs = mset ys"
    and "sorted_entries le xs" and "sorted_entries le ys"
  shows "xs = ys"
  using assms(2-6)
proof (induction xs arbitrary: ys)
  case (Cons x xs)
  then obtain y zs where ys: "ys = y # zs" by (cases ys) auto
  have sets: "set (x # xs) = set (y # zs)" using Cons.prems(3) ys mset_eq_setD by metis
  have "y \<in> set (x # xs)" using sets by simp
  then have in_K: "fst x \<in> K" "fst y \<in> K" using Cons.prems(1) by auto
  have "le (fst x) (fst y) \<or> x = y" using sets Cons.prems(4) by (auto simp: sorted_entries_def)
  moreover have "le (fst y) (fst x) \<or> x = y" using sets Cons.prems(5) ys by (auto simp: sorted_entries_def)
  ultimately have "fst x = fst y" using separatesD(3) [OF assms(1)] in_K by blast
  moreover have "y \<in> set (x # xs)" using sets by simp
  ultimately have "x = y" using Cons.prems(2) by (auto simp: image_iff)
  with Cons ys show ?case by (simp add: sorted_entries_def)
qed simp

lemma sortObject_mset:
  assumes "separates le (fst ` set xs)" and "distinct (map fst xs)" and "mset xs = mset ys"
  shows "sortObject le xs = sortObject le ys"
proof (rule sorted_entries_unique [OF assms(1)])
  have "set xs = set ys" using assms(3) by (rule mset_eq_setD)
  then show "sorted_entries le (sortObject le ys)" using sorted_sortObject [OF assms(1), of ys] by simp
  show "distinct (map fst (sortObject le xs))"
  proof -
    have "mset (map fst (sortObject le xs)) = mset (map fst xs)" by simp
    then show ?thesis using assms(2) mset_eq_imp_distinct_iff by blast
  qed
qed (use assms sorted_sortObject [OF assms(1), of xs] in auto)

text \<open>Two values that differ in the order of the properties of their objects only.\<close>

inductive reordered :: "collation \<Rightarrow> json \<Rightarrow> json \<Rightarrow> bool" for le where
  reordered_refl: "reordered le v v"
| reordered_arr: "list_all2 (reordered le) vs ws \<Longrightarrow> reordered le (JArr vs) (JArr ws)"
| reordered_obj: "list_all2 (\<lambda>p q. fst p = fst q \<and> reordered le (snd p) (snd q)) ob ob' \<Longrightarrow>
    mset ob' = mset ob'' \<Longrightarrow> distinct (map fst ob) \<Longrightarrow> separates le (fst ` set ob) \<Longrightarrow>
    reordered le (JObj ob) (JObj ob'')"

lemma stable_elems_map: "stable_elems le vs = map (\<lambda>v. case stableStringify le v of None \<Rightarrow> [] | Some t \<Rightarrow> t) vs"
  by (induction vs) auto

lemma stable_props_map:
  "stable_props le ob = map (\<lambda>(k, v). (k, case stableStringify le v of None \<Rightarrow> ''undefined'' | Some t \<Rightarrow> t)) ob"
  by (induction ob) auto

lemma stable_props_keys: "map fst (stable_props le ob) = map fst ob"
  by (induction ob) auto

lemma stableStringify_reordered: "reordered le v w \<Longrightarrow> stableStringify le v = stableStringify le w"
proof (induction rule: reordered.induct)
  case (reordered_arr vs ws)
  then have "stable_elems le vs = stable_elems le ws"
    unfolding stable_elems_map by (induction rule: list_all2_induct) auto
  then show ?case by simp
next
  case (reordered_obj ob ob' ob'')
  have eq: "stable_props le ob = stable_props le ob'"
    using reordered_obj(1) unfolding stable_props_map by (induction rule: list_all2_induct) auto
  have keys: "map fst (stable_props le ob) = map fst ob" by (rule stable_props_keys)
  have ksets: "fst ` set (stable_props le ob) = fst ` set ob" using keys by (metis set_map)
  have "mset (stable_props le ob') = mset (stable_props le ob'')"
    using reordered_obj(2) unfolding stable_props_map by (metis mset_map)
  then have "sortObject le (stable_props le ob) = sortObject le (stable_props le ob'')"
    using reordered_obj(3,4) keys ksets by (intro sortObject_mset) (simp_all add: eq)
  then show ?case by simp
qed simp

end
