(* ===== verification/Masking.thy ===== *)
theory Masking
  imports Secrets
begin

text \<open>
  Masking twice is masking once.  The patterns are applied one after the other and each
  rewrites the text the next one sees, so this rests on what each pass leaves behind: after
  its own pass a pattern does not occur, no later mask creates an occurrence, and the fixed
  text put in place of a bearer token is its own replacement.
\<close>

section \<open>Matches of the building blocks\<close>

lemma in_rests_lit: "x \<in> set (rests (lit p) s) \<longleftrightarrow> s = p @ x"
  by (auto simp: rests_lit startsWith_iff)

lemma in_rests_liti: "x \<in> set (rests (liti p) s) \<longleftrightarrow> (\<exists>q. s = q @ x \<and> map lower_char q = map lower_char p)"
proof (induction p arbitrary: s)
  case (Cons c p)
  show ?case
  proof (cases s)
    case (Cons d ds)
    have "x \<in> set (rests (liti (c # p)) s) \<longleftrightarrow> lower_char d = lower_char c \<and> x \<in> set (rests (liti p) ds)"
      by (auto simp: Cons chi_def)
    also have "\<dots> \<longleftrightarrow> (\<exists>q. s = q @ x \<and> map lower_char q = map lower_char (c # p))"
      unfolding Cons.IH Cons by (auto simp: Cons_eq_append_conv map_eq_Cons_conv)
    finally show ?thesis .
  qed (auto simp: chi_def)
qed auto

lemma in_rests_star: "x \<in> set (rests (Star (Cls P)) s) \<longleftrightarrow> (\<exists>q. s = q @ x \<and> list_all P q)"
proof (induction s)
  case Nil
  then show ?case by (subst in_rests_Star) auto
next
  case (Cons c s)
  have "x \<in> set (rests (Star (Cls P)) (c # s)) \<longleftrightarrow> x = c # s \<or> P c \<and> x \<in> set (rests (Star (Cls P)) s)"
    by (subst in_rests_Star) auto
  also have "\<dots> \<longleftrightarrow> (\<exists>q. c # s = q @ x \<and> list_all P q)"
    unfolding Cons.IH by (auto simp: Cons_eq_append_conv)
  finally show ?case .
qed

lemma in_rests_plus: "x \<in> set (rests (Plus (Cls P)) s) \<longleftrightarrow> (\<exists>q. s = q @ x \<and> q \<noteq> [] \<and> list_all P q)"
proof (cases s)
  case (Cons c cs)
  have "x \<in> set (rests (Plus (Cls P)) s) \<longleftrightarrow> P c \<and> x \<in> set (rests (Star (Cls P)) cs)"
    by (simp add: Plus_def Cons)
  also have "\<dots> \<longleftrightarrow> (\<exists>q. s = q @ x \<and> q \<noteq> [] \<and> list_all P q)"
    unfolding in_rests_star Cons by (auto simp: Cons_eq_append_conv)
  finally show ?thesis .
qed (simp add: Plus_def)

lemma rests_Seq_ne: "rests (Seq a b) s \<noteq> [] \<longleftrightarrow> (\<exists>x \<in> set (rests a s). rests b x \<noteq> [])"
  by auto

text \<open>The match a trailing greedy class gives: what is left does not start in the class.\<close>

definition stops :: "(char \<Rightarrow> bool) \<Rightarrow> string \<Rightarrow> bool" where
  "stops P s = (s = [] \<or> \<not> P (hd s))"

lemma star_first: "\<exists>ys. rests (Star (Cls P)) s = dropWhile P s # ys"
proof (induction s)
  case (Cons c s)
  then show ?case by (subst rests.simps) auto
qed (subst rests.simps, simp)

lemma stops_dropWhile: "stops P (dropWhile P s)"
  by (induction s) (auto simp: stops_def)

lemma plus_stops: "rests (Plus (Cls P)) s = y # ys \<Longrightarrow> stops P y"
  using star_first stops_dropWhile
  by (cases s) (auto simp: Plus_def split: if_splits, metis list.inject)

lemma concat_head: "concat xss = y # ys \<Longrightarrow> \<exists>xs \<in> set xss. \<exists>zs. xs = y # zs"
  by (induction xss) (auto simp: append_eq_Cons_conv)

lemma Seq_stops:
  assumes "\<And>s y ys. rests b s = y # ys \<Longrightarrow> stops P y" and "rests (Seq a b) s = y # ys"
  shows "stops P y"
  using concat_head [of "map (rests b) (rests a s)" y ys] assms by auto

section \<open>Cutting a rewritten text\<close>

text \<open>One step of the scan.\<close>

lemma scan_cases:
  assumes "\<not> nullable r"
  obtains (skip) "rests r (c # cs) = []" "replace_all r m (c # cs) = c # replace_all r m cs"
    | (hit) x xs p where "rests r (c # cs) = x # xs" "replace_all r m (c # cs) = m @ replace_all r m x"
        "c # cs = p @ x" "p \<noteq> []"
proof (cases "rests r (c # cs)")
  case Nil
  then show ?thesis using skip replace_all_nomatch by blast
next
  case (Cons x xs)
  then have x: "x \<in> set (rests r (c # cs))" by simp
  with assms have "length x < length (c # cs)" by (rule rests_not_nullable [rotated])
  moreover obtain p where "c # cs = p @ x" using rests_suffix [OF x] by blast
  ultimately show ?thesis using Cons hit [of x xs p] replace_all_match [of r "c # cs" x xs m] by auto
qed

lemma star_notin: "c \<noteq> CHR ''*'' \<Longrightarrow> MASK @ t = a @ c # b \<Longrightarrow> \<exists>a'. a = MASK @ a' \<and> t = a' @ c # b"
  by (auto simp: append_eq_append_conv2 Cons_eq_append_conv)

text \<open>A character that is not a star was there before, at a place where nothing matched.\<close>

lemma cut:
  assumes "\<not> nullable r" and "c \<noteq> CHR ''*''" and "replace_all r MASK s = a @ c # b"
  shows "\<exists>a' b'. s = a' @ c # b' \<and> rests r (c # b') = [] \<and> replace_all r MASK b' = b"
  using assms(3)
proof (induction "length s" arbitrary: s a rule: less_induct)
  case less
  show ?case
  proof (cases s)
    case Nil
    with less.prems show ?thesis by simp
  next
    case (Cons d ds)
    show ?thesis
    proof (cases rule: scan_cases [OF assms(1), where c = d and cs = ds and m = MASK, case_names skip hit])
      case skip
      show ?thesis
      proof (cases a)
        case Nil
        with skip less.prems Cons show ?thesis by (intro exI [of _ "[]"] exI [of _ ds]) auto
      next
        case (Cons e a2)
        with skip less.prems \<open>s = d # ds\<close> have "replace_all r MASK ds = a2 @ c # b" by simp
        with less.hyps [of ds a2] \<open>s = d # ds\<close> show ?thesis by (metis append_Cons length_Cons lessI)
      qed
    next
      case (hit x xs p)
      with less.prems Cons star_notin [OF assms(2)] obtain a2 where "replace_all r MASK x = a2 @ c # b" by metis
      moreover have "length x < length s" using hit(3,4) Cons by (metis length_append length_greater_0_conv less_add_same_cancel2)
      ultimately obtain a' b' where "x = a' @ c # b'" "rests r (c # b') = []" "replace_all r MASK b' = b"
        using less.hyps by blast
      with hit(3) Cons show ?thesis by (metis append_assoc)
    qed
  qed
qed

lemma cut_prefix:
  assumes "\<not> nullable r"
  shows "replace_all r MASK s = x @ y \<Longrightarrow> CHR ''*'' \<notin> set x \<Longrightarrow> \<exists>y'. s = x @ y' \<and> replace_all r MASK y' = y"
proof (induction x arbitrary: s)
  case (Cons c x)
  then obtain d ds where s: "s = d # ds" by (cases s) auto
  show ?case
  proof (cases rule: scan_cases [OF assms, where c = d and cs = ds and m = MASK, case_names skip hit])
    case skip
    with Cons s show ?thesis by auto
  next
    case (hit z zs p)
    with Cons.prems s show ?thesis by simp
  qed
qed auto

lemma cut_text:
  assumes "\<not> nullable r" and "replace_all r MASK s = a @ x @ b" and "x \<noteq> []" and "CHR ''*'' \<notin> set x"
  shows "\<exists>a' b'. s = a' @ x @ b' \<and> rests r (x @ b') = [] \<and> replace_all r MASK b' = b"
proof -
  obtain c x' where x: "x = c # x'" using assms(3) by (cases x) auto
  with assms obtain a' b' where 1: "s = a' @ c # b'" "rests r (c # b') = []" "replace_all r MASK b' = x' @ b"
    using cut [OF assms(1), of c s a "x' @ b"] by auto
  with x assms(4) obtain b'' where "b' = x' @ b''" "replace_all r MASK b'' = b"
    using cut_prefix [OF assms(1), of b' x' b] by auto
  with 1 x show ?thesis by auto
qed

section \<open>Private keys\<close>

definition KEY_KINDS :: "string list" where
  "KEY_KINDS = [[], ''RSA '', ''EC '', ''OPENSSH '']"

definition key_begin :: "string \<Rightarrow> string" where "key_begin k = ''-----BEGIN '' @ k @ ''PRIVATE KEY-----''"
definition key_end :: "string \<Rightarrow> string" where "key_end k = ''-----END '' @ k @ ''PRIVATE KEY-----''"

lemma in_rests_Seq: "x \<in> set (rests (Seq a b) s) \<longleftrightarrow> (\<exists>y \<in> set (rests a s). x \<in> set (rests b y))"
  by auto

lemma in_rests_kind: "x \<in> set (rests PRIVATE_KEY_KIND s) \<longleftrightarrow> (\<exists>k \<in> set KEY_KINDS. s = k @ x)"
  by (auto simp: PRIVATE_KEY_KIND_def Opt_def KEY_KINDS_def in_rests_lit simp del: lit.simps rests.simps(3))

lemma in_rests_any: "x \<in> set (rests (LazyStar (Cls (\<lambda>_. True))) s) \<longleftrightarrow> (\<exists>q. s = q @ x)"
proof (induction s)
  case Nil
  then show ?case by (subst in_rests_LazyStar) auto
next
  case (Cons c s)
  have "x \<in> set (rests (LazyStar (Cls (\<lambda>_. True))) (c # s)) \<longleftrightarrow> x = c # s \<or> x \<in> set (rests (LazyStar (Cls (\<lambda>_. True))) s)"
    by (subst in_rests_LazyStar) auto
  also have "\<dots> \<longleftrightarrow> (\<exists>q. c # s = q @ x)"
    unfolding Cons.IH by (auto simp: Cons_eq_append_conv)
  finally show ?case .
qed

lemma in_rests_PRIVATE_KEY:
  "x \<in> set (rests PRIVATE_KEY s) \<longleftrightarrow>
     (\<exists>k \<in> set KEY_KINDS. \<exists>k' \<in> set KEY_KINDS. \<exists>v. s = key_begin k @ v @ key_end k' @ x)"
proof -
  have "x \<in> set (rests (Seq (lit a) (Seq PRIVATE_KEY_KIND (Seq (lit b) (Seq (LazyStar (Cls (\<lambda>_. True)))
      (Seq (lit c) (Seq PRIVATE_KEY_KIND (lit b))))))) s) \<longleftrightarrow>
    (\<exists>k \<in> set KEY_KINDS. \<exists>k' \<in> set KEY_KINDS. \<exists>v. s = (a @ k @ b) @ v @ (c @ k' @ b) @ x)" for a b c
    unfolding in_rests_Seq in_rests_lit in_rests_kind in_rests_any Bex_def by auto blast
  then show ?thesis unfolding PRIVATE_KEY_def key_begin_def key_end_def .
qed

definition holds_key :: "string \<Rightarrow> bool" where
  "holds_key s =
     (\<exists>k \<in> set KEY_KINDS. \<exists>k' \<in> set KEY_KINDS. \<exists>u v w. s = u @ key_begin k @ v @ key_end k' @ w)"

lemma key_marks_plain:
  "k \<in> set KEY_KINDS \<Longrightarrow> CHR ''*'' \<notin> set (key_begin k) \<and> CHR ''*'' \<notin> set (key_end k)"
  "key_begin k \<noteq> []" "key_end k \<noteq> []"
  by (auto simp: KEY_KINDS_def key_begin_def key_end_def)

lemma key_cut:
  assumes "\<not> nullable r" and "holds_key (replace_all r MASK s)"
  shows "\<exists>k \<in> set KEY_KINDS. \<exists>k' \<in> set KEY_KINDS. \<exists>u v w.
    s = u @ key_begin k @ v @ key_end k' @ w \<and> rests r (key_begin k @ v @ key_end k' @ w) = []"
proof -
  from assms(2) obtain k k' u v w where k: "k \<in> set KEY_KINDS" "k' \<in> set KEY_KINDS"
    and t: "replace_all r MASK s = u @ key_begin k @ v @ key_end k' @ w"
    by (auto simp: holds_key_def)
  from cut_text [OF assms(1) t] key_marks_plain k obtain u' b where
    1: "s = u' @ key_begin k @ b" "rests r (key_begin k @ b) = []" "replace_all r MASK b = v @ key_end k' @ w"
    by blast
  from cut_text [OF assms(1) 1(3)] key_marks_plain k obtain v' b' where "b = v' @ key_end k' @ b'" by blast
  with 1 k show ?thesis by blast
qed

lemma key_kept: "\<not> nullable r \<Longrightarrow> holds_key (replace_all r MASK s) \<Longrightarrow> holds_key s"
  using key_cut unfolding holds_key_def by blast

lemma key_removed: "\<not> holds_key (replace_all PRIVATE_KEY MASK s)"
proof
  assume "holds_key (replace_all PRIVATE_KEY MASK s)"
  moreover have "\<not> nullable PRIVATE_KEY" using tight_PRIVATE_KEY by (simp add: tight_def)
  ultimately obtain k k' v w where "k \<in> set KEY_KINDS" "k' \<in> set KEY_KINDS"
    "rests PRIVATE_KEY (key_begin k @ v @ key_end k' @ w) = []"
    using key_cut by blast
  moreover have "w \<in> set (rests PRIVATE_KEY (key_begin k @ v @ key_end k' @ w))"
    using calculation(1,2) unfolding in_rests_PRIVATE_KEY by blast
  ultimately show False by simp
qed

lemma no_key: "\<not> holds_key s \<Longrightarrow> \<not> occurs PRIVATE_KEY s"
proof
  assume "\<not> holds_key s" and "occurs PRIVATE_KEY s"
  then obtain u v x where "s = u @ v" "x \<in> set (rests PRIVATE_KEY v)"
    unfolding occurs_def by (metis list.set_sel(1))
  with \<open>\<not> holds_key s\<close> show False unfolding in_rests_PRIVATE_KEY holds_key_def by blast
qed

section \<open>Database addresses\<close>

definition SCHEMES :: "string list" where
  "SCHEMES = [''postgres'' @ ''ql'', ''postgres'', ''mysql'', ''mongodb'' @ ''+srv'', ''mongodb'']"

definition scheme :: "string \<Rightarrow> bool" where
  "scheme q = (\<exists>p \<in> set SCHEMES. map lower_char q = map lower_char p)"

definition c_user :: "char \<Rightarrow> bool" where
  "c_user c = (\<not> is_ws c \<and> c \<noteq> CHR '':'' \<and> c \<noteq> CHR ''@'' \<and> c \<noteq> CHR ''/'')"

definition c_pass :: "char \<Rightarrow> bool" where
  "c_pass c = (\<not> is_ws c \<and> c \<noteq> CHR ''@'' \<and> c \<noteq> CHR ''/'')"

definition db_at :: "string \<Rightarrow> bool" where
  "db_at s =
     (\<exists>q user pass c w. s = q @ ''://'' @ user @ '':'' @ pass @ ''@'' @ c # w \<and> scheme q \<and>
        user \<noteq> [] \<and> list_all c_user user \<and> pass \<noteq> [] \<and> list_all c_pass pass \<and> \<not> is_ws c)"

lemma in_rests_scheme:
  "x \<in> set (rests (Alt (Seq (liti ''postgres'') (Opt (liti ''ql'')))
            (Alt (liti ''mysql'') (Seq (liti ''mongodb'') (Opt (liti ''+srv''))))) s) \<longleftrightarrow> (\<exists>q. s = q @ x \<and> scheme q)"
proof -
  have opt: "x \<in> set (rests (Seq (liti a) (Opt (liti b))) s) \<longleftrightarrow>
      (\<exists>q. s = q @ x \<and> (map lower_char q = map lower_char (a @ b) \<or> map lower_char q = map lower_char a))" for a b
  proof -
    have "x \<in> set (rests (Seq (liti a) (Opt (liti b))) s) \<longleftrightarrow>
        (\<exists>y \<in> set (rests (liti a) s). x \<in> set (rests (liti b) y) \<or> y = x)"
      by (auto simp: Opt_def)
    also have "\<dots> \<longleftrightarrow>
        (\<exists>p y. s = p @ y \<and> map lower_char p = map lower_char a \<and> ((\<exists>q. y = q @ x \<and> map lower_char q = map lower_char b) \<or> y = x))"
      unfolding in_rests_liti Bex_def by blast
    also have "\<dots> \<longleftrightarrow> (\<exists>q. s = q @ x \<and> (map lower_char q = map lower_char (a @ b) \<or> map lower_char q = map lower_char a))"
    proof
      assume "\<exists>p y. s = p @ y \<and> map lower_char p = map lower_char a \<and>
        ((\<exists>q. y = q @ x \<and> map lower_char q = map lower_char b) \<or> y = x)"
      then show "\<exists>q. s = q @ x \<and> (map lower_char q = map lower_char (a @ b) \<or> map lower_char q = map lower_char a)"
        by (metis append.assoc map_append)
    next
      assume "\<exists>q. s = q @ x \<and> (map lower_char q = map lower_char (a @ b) \<or> map lower_char q = map lower_char a)"
      then obtain q where q: "s = q @ x" "map lower_char q = map lower_char a @ map lower_char b \<or> map lower_char q = map lower_char a"
        by auto
      from q(2) show "\<exists>p y. s = p @ y \<and> map lower_char p = map lower_char a \<and>
        ((\<exists>q. y = q @ x \<and> map lower_char q = map lower_char b) \<or> y = x)"
      proof
        assume "map lower_char q = map lower_char a @ map lower_char b"
        then obtain p r where "q = p @ r" "map lower_char p = map lower_char a" "map lower_char r = map lower_char b"
          by (metis map_eq_append_conv)
        with q(1) show ?thesis by (metis append.assoc)
      qed (use q(1) in blast)
    qed
    finally show ?thesis .
  qed
  have "x \<in> set (rests (Alt (Seq (liti a) (Opt (liti b))) (Alt (liti c) (Seq (liti d) (Opt (liti e))))) s) \<longleftrightarrow>
      (\<exists>q. s = q @ x \<and> (\<exists>p \<in> set [a @ b, a, c, d @ e, d]. map lower_char q = map lower_char p))" for a b c d e
  proof -
    have alt: "x \<in> set (rests (Alt u (Alt v w)) s) \<longleftrightarrow> x \<in> set (rests u s) \<or> x \<in> set (rests v s) \<or> x \<in> set (rests w s)" for u v w
      by auto
    show ?thesis unfolding alt opt in_rests_liti by auto
  qed
  then show ?thesis unfolding scheme_def SCHEMES_def .
qed

lemma rests_DATABASE_URL: "rests DATABASE_URL s \<noteq> [] \<longleftrightarrow> db_at s"
proof -
  have user: "(\<lambda>c. \<not> is_ws c \<and> c \<noteq> CHR '':'' \<and> c \<noteq> CHR ''@'' \<and> c \<noteq> CHR ''/'') = c_user"
    and pass: "(\<lambda>c. \<not> is_ws c \<and> c \<noteq> CHR ''@'' \<and> c \<noteq> CHR ''/'') = c_pass"
    by (simp_all add: fun_eq_iff c_user_def c_pass_def)
  have one: "x \<in> set (rests (ch d) t) \<longleftrightarrow> t = d # x" for x d t by (cases t) (auto simp: ch_def)
  have last: "rests (Plus (Cls c_nonws)) t \<noteq> [] \<longleftrightarrow> (\<exists>c w. t = c # w \<and> \<not> is_ws c)" for t
  proof -
    have "rests (Plus (Cls c_nonws)) t \<noteq> [] \<longleftrightarrow> (\<exists>x. x \<in> set (rests (Plus (Cls c_nonws)) t))"
      by (metis list.set_intros(1) list.set_sel(1) empty_iff empty_set)
    also have "\<dots> \<longleftrightarrow> (\<exists>c w. t = c # w \<and> \<not> is_ws c)"
    proof
      assume "\<exists>x. x \<in> set (rests (Plus (Cls c_nonws)) t)"
      then show "\<exists>c w. t = c # w \<and> \<not> is_ws c" unfolding in_rests_plus by (auto simp: c_nonws_def neq_Nil_conv)
    next
      assume "\<exists>c w. t = c # w \<and> \<not> is_ws c"
      then obtain c w where "t = [c] @ w" "list_all c_nonws [c]" by (auto simp: c_nonws_def)
      then show "\<exists>x. x \<in> set (rests (Plus (Cls c_nonws)) t)" unfolding in_rests_plus by blast
    qed
    finally show ?thesis .
  qed
  show ?thesis
    unfolding DATABASE_URL_def user pass rests_Seq_ne in_rests_scheme in_rests_lit in_rests_plus one last Bex_def db_at_def
    by auto blast+
qed

lemma first_nonws:
  assumes "tight r" and "replace_all r m s = c # w" and "\<not> is_ws c"
  shows "\<exists>c' w'. s = c' # w' \<and> \<not> is_ws c'"
proof (cases s)
  case (Cons d ds)
  show ?thesis
  proof (cases "is_ws d")
    case True
    with tight_at_ws [OF assms(1)] have "replace_all r m s = d # replace_all r m ds"
      unfolding Cons by (intro replace_all_nomatch) blast
    with assms True show ?thesis by simp
  qed (use Cons in blast)
qed (use assms in simp)

lemma replace_stops:
  assumes "tight r" and "stops c_nonws z"
  shows "stops c_nonws (replace_all r m z)"
proof (cases z)
  case (Cons d ds)
  with assms(2) have "is_ws d" by (simp add: stops_def c_nonws_def)
  with tight_at_ws [OF assms(1)] have "replace_all r m z = d # replace_all r m ds"
    unfolding Cons by (intro replace_all_nomatch) blast
  with \<open>is_ws d\<close> show ?thesis by (simp add: stops_def c_nonws_def)
qed (simp add: stops_def)

text \<open>A run of characters without white space, up to one that is not a star: a mask whose
  match ran to white space cannot lie inside it.\<close>

lemma run_before:
  assumes "tight r" and "\<And>s y ys. rests r s = y # ys \<Longrightarrow> stops c_nonws y" and "c \<noteq> CHR ''*''" and "\<not> is_ws c"
  shows "replace_all r MASK s = p @ c # q \<Longrightarrow> list_all c_nonws p \<Longrightarrow> \<exists>s'. s = p @ s' \<and> replace_all r MASK s' = c # q"
proof (induction p arbitrary: s)
  case (Cons e p)
  have nn: "\<not> nullable r" using assms(1) by (simp add: tight_def)
  from Cons.prems obtain d ds where s: "s = d # ds" by (cases s) auto
  show ?case
  proof (cases rule: scan_cases [OF nn, where c = d and cs = ds and m = MASK, case_names skip hit])
    case skip
    with Cons s show ?thesis by auto
  next
    case (hit x xs p')
    with Cons.prems s star_notin [OF assms(3)] obtain a' where a: "e # p = MASK @ a'" "replace_all r MASK x = a' @ c # q"
      by metis
    have "stops c_nonws (a' @ c # q)" using replace_stops [OF assms(1) assms(2) [OF hit(1)]] a(2) by metis
    moreover have "list_all c_nonws a'" using Cons.prems(2) a(1) by simp
    ultimately show ?thesis using assms(4) by (cases a') (auto simp: stops_def c_nonws_def)
  qed
qed auto

lemma DATABASE_URL_stops: "rests DATABASE_URL s = y # ys \<Longrightarrow> stops c_nonws y"
  unfolding DATABASE_URL_def by (elim Seq_stops [rotated] plus_stops)

lemma scheme_plain: "scheme q \<Longrightarrow> CHR ''*'' \<notin> set q"
proof
  assume "scheme q" and "CHR ''*'' \<in> set q"
  then obtain p where "p \<in> set SCHEMES" "lower_char CHR ''*'' \<in> set (map lower_char p)"
    unfolding scheme_def by (metis imageI set_map)
  moreover have "list_all (\<lambda>p. lower_char CHR ''*'' \<notin> set (map lower_char p)) SCHEMES" by code_simp
  ultimately show False by (auto simp: list_all_iff)
qed

lemma list_all_mono': "list_all P xs \<Longrightarrow> (\<And>x. P x \<Longrightarrow> Q x) \<Longrightarrow> list_all Q xs"
  by (auto simp: list_all_iff)

lemma db_cut:
  assumes "\<not> nullable r" and "occurs DATABASE_URL (replace_all r MASK s)"
  obtains u q b user pass c w where "s = u @ q @ ''://'' @ b" "rests r (q @ ''://'' @ b) = []" "scheme q"
    "replace_all r MASK b = user @ CHR '':'' # pass @ CHR ''@'' # c # w"
    "user \<noteq> []" "list_all c_user user" "pass \<noteq> []" "list_all c_pass pass" "\<not> is_ws c"
proof -
  from assms(2) obtain u v where "replace_all r MASK s = u @ v" "db_at v"
    unfolding occurs_def rests_DATABASE_URL by blast
  then obtain q user pass c w where
    t: "replace_all r MASK s = u @ (q @ ''://'') @ user @ CHR '':'' # pass @ CHR ''@'' # c # w" and sc: "scheme q"
    and rest: "user \<noteq> []" "list_all c_user user" "pass \<noteq> []" "list_all c_pass pass" "\<not> is_ws c"
    unfolding db_at_def by auto
  have "CHR ''*'' \<notin> set (q @ ''://'')" using scheme_plain [OF sc] by simp
  then obtain u' b where "s = u' @ (q @ ''://'') @ b" "rests r ((q @ ''://'') @ b) = []"
    "replace_all r MASK b = user @ CHR '':'' # pass @ CHR ''@'' # c # w"
    using cut_text [OF assms(1) t] by auto
  then show thesis using that [of u' q b user pass c w] sc rest by simp
qed

lemma db_atI:
  "scheme q \<Longrightarrow> user \<noteq> [] \<Longrightarrow> list_all c_user user \<Longrightarrow> pass \<noteq> [] \<Longrightarrow> list_all c_pass pass \<Longrightarrow> \<not> is_ws c \<Longrightarrow>
   db_at (q @ ''://'' @ user @ CHR '':'' # pass @ CHR ''@'' # c # w)"
  unfolding db_at_def
  by (rule exI [of _ q], rule exI [of _ user], rule exI [of _ pass], rule exI [of _ c], rule exI [of _ w]) simp

lemma db_removed: "\<not> occurs DATABASE_URL (replace_all DATABASE_URL MASK s)"
proof
  note tight = tight_DATABASE_URL
  have nn: "\<not> nullable DATABASE_URL" using tight by (simp add: tight_def)
  have colon: "\<not> is_ws CHR '':''" "\<not> is_ws CHR ''@''" by code_simp+
  assume "occurs DATABASE_URL (replace_all DATABASE_URL MASK s)"
  then obtain u q b user pass c w where none: "rests DATABASE_URL (q @ ''://'' @ b) = []" and sc: "scheme q"
    and b: "replace_all DATABASE_URL MASK b = user @ CHR '':'' # pass @ CHR ''@'' # c # w"
    and rest: "user \<noteq> []" "list_all c_user user" "pass \<noteq> []" "list_all c_pass pass" "\<not> is_ws c"
    using db_cut [OF nn] by metis
  have nonws: "list_all c_nonws user" "list_all c_nonws pass"
    using rest by (auto elim!: list_all_mono' simp: c_user_def c_pass_def c_nonws_def)
  obtain b2 where "b = user @ CHR '':'' # b2" and b2: "replace_all DATABASE_URL MASK b2 = pass @ CHR ''@'' # c # w"
    using run_before [OF tight DATABASE_URL_stops _ colon(1) b nonws(1)] cut_prefix [OF nn, of _ "[CHR '':'']"] by fastforce
  moreover obtain b4 where "b2 = pass @ CHR ''@'' # b4" and b4: "replace_all DATABASE_URL MASK b4 = c # w"
    using run_before [OF tight DATABASE_URL_stops _ colon(2) b2 nonws(2)] cut_prefix [OF nn, of _ "[CHR ''@'']"] by fastforce
  moreover obtain c' w' where "b4 = c' # w'" "\<not> is_ws c'" using first_nonws [OF tight b4 rest(5)] by blast
  ultimately have "db_at (q @ ''://'' @ b)" using db_atI [OF sc rest(1-4)] by simp
  with none show False using rests_DATABASE_URL by blast
qed

text \<open>A mask over characters of a class turns a run of that class into a run of that class.\<close>

lemma class_run_before:
  assumes "\<not> nullable r" and "all_cls U r" and "c \<noteq> CHR ''*''"
  shows "replace_all r MASK s = p @ c # q \<Longrightarrow> list_all U p \<Longrightarrow>
    \<exists>p' s'. s = p' @ s' \<and> list_all U p' \<and> (p \<noteq> [] \<longrightarrow> p' \<noteq> []) \<and> replace_all r MASK s' = c # q"
proof (induction "length s" arbitrary: s p rule: less_induct)
  case less
  show ?case
  proof (cases p)
    case Nil
    with less.prems show ?thesis by (intro exI [of _ "[]"] exI [of _ s]) simp
  next
    case (Cons e p2)
    from less.prems obtain d ds where s: "s = d # ds" by (cases s) auto
    show ?thesis
    proof (cases rule: scan_cases [OF assms(1), where c = d and cs = ds and m = MASK, case_names skip hit])
      case skip
      with less.prems Cons s have "replace_all r MASK ds = p2 @ c # q" "list_all U p2" "U d" by auto
      with less.hyps [of ds p2] s obtain p' s' where "ds = p' @ s'" "list_all U p'" "replace_all r MASK s' = c # q" by auto
      with \<open>U d\<close> s show ?thesis by (intro exI [of _ "d # p'"] exI [of _ s']) simp
    next
      case (hit x xs pre)
      with less.prems s star_notin [OF assms(3)] obtain a' where a: "p = MASK @ a'" "replace_all r MASK x = a' @ c # q"
        by metis
      have "length x < length s" using hit(3,4) s by (metis length_append length_greater_0_conv less_add_same_cancel2)
      moreover have "list_all U a'" using less.prems(2) a(1) by simp
      ultimately obtain p' s' where x: "x = p' @ s'" "list_all U p'" "replace_all r MASK s' = c # q"
        using less.hyps [of x a'] a(2) by auto
      have "list_all U pre" using rests_all_cls [of x r "d # ds" U] hit(1,3) assms(2) by auto
      with x hit(3,4) s show ?thesis by (intro exI [of _ "pre @ p'"] exI [of _ s']) simp
    qed
  qed
qed

lemma db_kept:
  assumes "tight r" and "all_cls c_user r" and "occurs DATABASE_URL (replace_all r MASK s)"
  shows "occurs DATABASE_URL s"
proof -
  have nn: "\<not> nullable r" using assms(1) by (simp add: tight_def)
  have "all_cls c_pass r" using assms(2)
    by (induction r) (auto simp: c_user_def c_pass_def)
  note run = class_run_before [OF nn assms(2)] class_run_before [OF nn this]
  from assms(3) obtain u q b user pass c w where s: "s = u @ q @ ''://'' @ b" and sc: "scheme q"
    and b: "replace_all r MASK b = user @ CHR '':'' # pass @ CHR ''@'' # c # w"
    and rest: "user \<noteq> []" "list_all c_user user" "pass \<noteq> []" "list_all c_pass pass" "\<not> is_ws c"
    using db_cut [OF nn] by metis
  obtain user' b2 where "b = user' @ CHR '':'' # b2" "list_all c_user user'" "user' \<noteq> []"
    and b2: "replace_all r MASK b2 = pass @ CHR ''@'' # c # w"
    using run(1) [OF _ b rest(2)] rest(1) cut_prefix [OF nn, of _ "[CHR '':'']"] by fastforce
  moreover obtain pass' b4 where "b2 = pass' @ CHR ''@'' # b4" "list_all c_pass pass'" "pass' \<noteq> []"
    and b4: "replace_all r MASK b4 = c # w"
    using run(2) [OF _ b2 rest(4)] rest(3) cut_prefix [OF nn, of _ "[CHR ''@'']"] by fastforce
  moreover obtain c' w' where "b4 = c' # w'" "\<not> is_ws c'" using first_nonws [OF assms(1) b4 rest(5)] by blast
  ultimately have "db_at (q @ ''://'' @ b)" using db_atI [OF sc] by simp
  with s show ?thesis unfolding occurs_def rests_DATABASE_URL by blast
qed

section \<open>Bearer tokens\<close>

abbreviation BEARER_MASK :: string where "BEARER_MASK \<equiv> ''Bearer ***''"

text \<open>Every bearer word followed by white space and more is the replacement itself.\<close>

definition is_bearer :: "string \<Rightarrow> bool" where "is_bearer b = (map lower_char b = ''bearer'')"

definition bearer_ok :: "string \<Rightarrow> bool" where
  "bearer_ok s =
     (\<forall>u b ws c v. s = u @ b @ ws @ c # v \<longrightarrow> is_bearer b \<longrightarrow> ws \<noteq> [] \<longrightarrow> list_all is_ws ws \<longrightarrow>
        \<not> is_ws c \<longrightarrow> b = ''Bearer'' \<and> ws = '' '' \<and> (\<exists>z. c # v = MASK @ z \<and> stops c_nonws z))"

lemma in_rests_BEARER:
  "x \<in> set (rests BEARER s) \<longleftrightarrow>
     (\<exists>b ws p. s = b @ ws @ p @ x \<and> is_bearer b \<and> ws \<noteq> [] \<and> list_all is_ws ws \<and> p \<noteq> [] \<and> list_all c_nonws p)"
proof -
  have gen: "x \<in> set (rests (Seq (liti w) (Seq (Plus (Cls P)) (Plus (Cls Q)))) s) \<longleftrightarrow>
      (\<exists>b ws p. s = b @ ws @ p @ x \<and> map lower_char b = map lower_char w \<and> ws \<noteq> [] \<and> list_all P ws \<and> p \<noteq> [] \<and> list_all Q p)" for w P Q
    unfolding in_rests_Seq in_rests_liti in_rests_plus Bex_def by blast
  have low: "map lower_char ''Bearer'' = ''bearer''" by code_simp
  show ?thesis unfolding BEARER_def is_bearer_def low [symmetric] by (rule gen)
qed

lemma BEARER_stops: "rests BEARER s = y # ys \<Longrightarrow> stops c_nonws y"
  unfolding BEARER_def by (elim Seq_stops [rotated] plus_stops)

lemma BEARER_nn: "\<not> nullable BEARER"
  using tight_BEARER by (simp add: tight_def)

lemma bearer_at:
  "is_bearer b \<Longrightarrow> ws \<noteq> [] \<Longrightarrow> list_all is_ws ws \<Longrightarrow> \<not> is_ws c \<Longrightarrow> rests BEARER (b @ ws @ c # v) \<noteq> []"
proof -
  assume h: "is_bearer b" "ws \<noteq> []" "list_all is_ws ws" "\<not> is_ws c"
  have "v \<in> set (rests BEARER (b @ ws @ [c] @ v))"
    unfolding in_rests_BEARER using h by (intro exI [of _ b] exI [of _ ws] exI [of _ "[c]"]) (simp add: c_nonws_def)
  then show ?thesis by auto
qed

definition is_b :: "char \<Rightarrow> bool" where "is_b c = (lower_char c = CHR ''b'')"

lemma bearer_mask_cut:
  assumes "is_b e" and "BEARER_MASK @ t = a @ e # y" and "a \<noteq> []"
  shows "\<exists>a'. a = BEARER_MASK @ a' \<and> t = a' @ e # y"
proof -
  have no: "list_all (\<lambda>c. \<not> is_b c) (tl BEARER_MASK)" by code_simp
  from assms(2) consider w where "BEARER_MASK = a @ w" "w @ t = e # y" | w where "BEARER_MASK @ w = a" "t = w @ e # y"
    unfolding append_eq_append_conv2 by blast
  then show ?thesis
  proof cases
    case 1
    show ?thesis
    proof (cases w)
      case Nil
      with 1 show ?thesis by auto
    next
      case (Cons d ds)
      with 1 have "e \<in> set (tl (a @ w))" using assms(3) by (cases a) auto
      with 1 no assms(1) show ?thesis by (metis list_all_iff)
    qed
  qed auto
qed

lemma bearer_cut:
  assumes "\<And>t a y. m @ t = a @ e # y \<Longrightarrow> a \<noteq> [] \<Longrightarrow> \<exists>a'. a = m @ a' \<and> t = a' @ e # y"
  shows "replace_all BEARER m s = a @ e # y \<Longrightarrow>
    (\<exists>a' b. s = a' @ e # b \<and> rests BEARER (e # b) = [] \<and> replace_all BEARER m b = y) \<or>
    (\<exists>z. e # y = m @ replace_all BEARER m z \<and> stops c_nonws z)"
proof (induction "length s" arbitrary: s a rule: less_induct)
  case less
  from less.prems obtain d ds where s: "s = d # ds" by (cases s) auto
  show ?case
  proof (cases rule: scan_cases [OF BEARER_nn, where c = d and cs = ds and m = m, case_names skip hit])
    case skip
    show ?thesis
    proof (cases a)
      case Nil
      with skip less.prems s show ?thesis by (intro disjI1 exI [of _ "[]"] exI [of _ ds]) simp
    next
      case (Cons f a2)
      with skip less.prems s have "replace_all BEARER m ds = a2 @ e # y" by simp
      with less.hyps [of ds a2] s show ?thesis by (metis append_Cons length_Cons lessI)
    qed
  next
    case (hit x xs p)
    show ?thesis
    proof (cases "a = []")
      case True
      with hit less.prems s BEARER_stops [OF hit(1)] show ?thesis by (intro disjI2 exI [of _ x]) simp
    next
      case False
      with hit less.prems s assms obtain a2 where "replace_all BEARER m x = a2 @ e # y" by metis
      moreover have "length x < length s" using hit(3,4) s by (metis length_append length_greater_0_conv less_add_same_cancel2)
      ultimately show ?thesis using less.hyps [of x a2] hit(3) s by (metis append_assoc)
    qed
  qed
qed

lemma bearer_prefix:
  "replace_all BEARER BEARER_MASK s = x @ y \<Longrightarrow> list_all (\<lambda>c. \<not> is_b c) x \<Longrightarrow>
   \<exists>y'. s = x @ y' \<and> replace_all BEARER BEARER_MASK y' = y"
proof (induction x arbitrary: s)
  case (Cons c x)
  have b: "is_b CHR ''B''" by code_simp
  from Cons.prems obtain d ds where s: "s = d # ds" by (cases s) auto
  show ?case
  proof (cases rule: scan_cases [OF BEARER_nn, where c = d and cs = ds and m = BEARER_MASK, case_names skip hit])
    case skip
    with Cons s show ?thesis by auto
  next
    case (hit z zs p)
    with Cons.prems s b show ?thesis by simp
  qed
qed auto

lemma bearer_masked: "bearer_ok (replace_all BEARER BEARER_MASK s)"
  unfolding bearer_ok_def
proof (intro allI impI)
  fix u b ws c v
  assume t: "replace_all BEARER BEARER_MASK s = u @ b @ ws @ c # v" and low: "is_bearer b"
    and ws: "ws \<noteq> []" "list_all is_ws ws" and c: "\<not> is_ws c"
  from low obtain e b2 where b: "b = e # b2" and e: "is_b e" and low2: "map lower_char b2 = ''earer''"
    by (auto simp: is_b_def is_bearer_def)
  have t': "replace_all BEARER BEARER_MASK s = u @ e # b2 @ ws @ c # v" using t b by simp
  have "(\<exists>a' y. s = a' @ e # y \<and> rests BEARER (e # y) = [] \<and> replace_all BEARER BEARER_MASK y = b2 @ ws @ c # v) \<or>
      (\<exists>z. e # b2 @ ws @ c # v = BEARER_MASK @ replace_all BEARER BEARER_MASK z \<and> stops c_nonws z)"
    by (rule bearer_cut [OF _ t'], rule bearer_mask_cut [OF e])
  then show "b = ''Bearer'' \<and> ws = '' '' \<and> (\<exists>z. c # v = MASK @ z \<and> stops c_nonws z)"
  proof (elim disjE exE conjE)
    fix a' y
    assume none: "rests BEARER (e # y) = []" and y: "replace_all BEARER BEARER_MASK y = b2 @ ws @ c # v"
    have "list_all (\<lambda>c. \<not> is_b c) b2"
    proof -
      have "CHR ''b'' \<notin> set (map lower_char b2)" unfolding low2 by simp
      then show ?thesis unfolding list_all_iff is_b_def by (metis image_eqI set_map)
    qed
    moreover have "list_all (\<lambda>c. \<not> is_b c) ws"
    proof -
      have "\<not> is_ws CHR ''b''" by code_simp
      then show ?thesis using ws(2) is_ws_lower by (auto simp: list_all_iff is_b_def)
    qed
    ultimately obtain y' where y': "y = (b2 @ ws) @ y'" "replace_all BEARER BEARER_MASK y' = c # v"
      using bearer_prefix [of y "b2 @ ws" "c # v"] y by auto
    then obtain c' w' where "y' = c' # w'" "\<not> is_ws c'" using first_nonws [OF tight_BEARER _ c] by blast
    with none y' b low ws bearer_at [of b ws c' w'] show ?thesis by simp
  next
    fix z
    assume h: "e # b2 @ ws @ c # v = BEARER_MASK @ replace_all BEARER BEARER_MASK z" and z: "stops c_nonws z"
    have len: "length b2 = 5" using arg_cong [OF low2, of length] by simp
    have e1: "e = CHR ''B''" "b2 @ ws @ c # v = ''earer'' @ '' ***'' @ replace_all BEARER BEARER_MASK z" using h by simp_all
    have b2: "b2 = ''earer''" and rest: "ws @ c # v = '' ***'' @ replace_all BEARER BEARER_MASK z"
      using append_eq_append_conv [of b2 "''earer''"] e1(2) len by (simp_all only: list.size numeral_eq_Suc) simp_all
    have star: "\<not> is_ws CHR ''*''" by code_simp
    obtain w ws' where w: "ws = w # ws'" using ws(1) by (cases ws) auto
    with rest have "w = CHR '' ''" and r2: "ws' @ c # v = MASK @ replace_all BEARER BEARER_MASK z" by auto
    moreover have "ws' = []" using r2 ws(2) w star by (cases ws') auto
    ultimately show ?thesis using e1(1) b b2 w r2 replace_stops [OF tight_BEARER z] by auto
  qed
qed

lemma bearer_kept:
  assumes "tight r" and "starts_in (\<lambda>c. c \<noteq> CHR ''*'') r" and ok: "bearer_ok s"
  shows "bearer_ok (replace_all r MASK s)"
  unfolding bearer_ok_def
proof (intro allI impI)
  have nn: "\<not> nullable r" using assms(1) by (simp add: tight_def)
  fix u b ws c v
  assume t: "replace_all r MASK s = u @ b @ ws @ c # v" and low: "is_bearer b"
    and ws: "ws \<noteq> []" "list_all is_ws ws" and c: "\<not> is_ws c"
  have "CHR ''*'' \<notin> set (b @ ws)"
  proof -
    have "lower_char CHR ''*'' = CHR ''*''" "\<not> is_ws CHR ''*''" by code_simp+
    moreover have "CHR ''*'' \<notin> set (map lower_char b)" using low unfolding is_bearer_def by simp
    ultimately show ?thesis using ws(2) by (auto simp: list_all_iff rev_image_eqI)
  qed
  then obtain u' y where s: "s = u' @ (b @ ws) @ y" and y: "replace_all r MASK y = c # v"
    using cut_text [OF nn, of s u "b @ ws" "c # v"] t ws(1) by auto
  obtain c' w' where y': "y = c' # w'" "\<not> is_ws c'" using first_nonws [OF assms(1) y c] by blast
  with ok s low ws have b: "b = ''Bearer''" "ws = '' ''" "\<exists>z. c' # w' = MASK @ z \<and> stops c_nonws z"
    unfolding bearer_ok_def by (metis append.assoc)+
  then obtain z where z: "y = MASK @ z" "stops c_nonws z" using y' by blast
  have "rests r (CHR ''*'' # cs) = []" for cs
  proof (rule ccontr)
    assume "rests r (CHR ''*'' # cs) \<noteq> []"
    then obtain x where "x \<in> set (rests r (CHR ''*'' # cs))" by (meson list.set_sel(1))
    moreover from this nn have "x \<noteq> CHR ''*'' # cs" using rests_not_nullable by blast
    ultimately show False using rests_starts_in [of x r "CHR ''*'' # cs"] assms(2) by auto
  qed
  then have "replace_all r MASK y = MASK @ replace_all r MASK z" using z(1) by (simp add: replace_all_nomatch)
  with y b z replace_stops [OF assms(1) z(2)] show "b = ''Bearer'' \<and> ws = '' '' \<and> (\<exists>z. c # v = MASK @ z \<and> stops c_nonws z)"
    by auto
qed

lemma bearer_ok_suffix: "bearer_ok (u @ s) \<Longrightarrow> bearer_ok s"
  unfolding bearer_ok_def by (metis append.assoc)

lemma run_unique:
  "p @ x = q @ z \<Longrightarrow> list_all P p \<Longrightarrow> list_all P q \<Longrightarrow> stops P x \<Longrightarrow> stops P z \<Longrightarrow> p = q \<and> x = z"
proof (induction p arbitrary: q)
  case Nil
  then show ?case by (cases q) (auto simp: stops_def)
next
  case (Cons a p)
  then show ?case by (cases q) (auto simp: stops_def)
qed

lemma bearer_fixed: "bearer_ok s \<Longrightarrow> replace_all BEARER BEARER_MASK s = s"
proof (induction "length s" arbitrary: s rule: less_induct)
  case less
  show ?case
  proof (cases s)
    case (Cons d ds)
    show ?thesis
    proof (cases rule: scan_cases [OF BEARER_nn, where c = d and cs = ds and m = BEARER_MASK, case_names skip hit])
      case skip
      have "bearer_ok ds" using bearer_ok_suffix [of "[d]" ds] less.prems Cons by simp
      with skip Cons less.hyps [of ds] show ?thesis by simp
    next
      case (hit x xs p')
      have "x \<in> set (rests BEARER s)" using hit(1) Cons by simp
      then obtain b ws p where d: "s = b @ ws @ p @ x" "is_bearer b" "ws \<noteq> []" "list_all is_ws ws"
        "p \<noteq> []" "list_all c_nonws p" unfolding in_rests_BEARER by blast
      then obtain c p2 where p: "p = c # p2" "\<not> is_ws c" by (cases p) (auto simp: c_nonws_def)
      with d less.prems have b: "b = ''Bearer''" "ws = '' ''" and "\<exists>z. c # p2 @ x = MASK @ z \<and> stops c_nonws z"
        unfolding bearer_ok_def by (metis append_Cons append_Nil)+
      then obtain z where z: "p @ x = MASK @ z" "stops c_nonws z" using p by auto
      have "list_all c_nonws MASK" by code_simp
      with run_unique [OF z(1) d(6) _ BEARER_stops [OF hit(1)] z(2)] have "p = MASK" by blast
      moreover have "length x < length s" using hit(3,4) Cons by (metis length_append length_greater_0_conv less_add_same_cancel2)
      moreover have "bearer_ok x" using bearer_ok_suffix [of "b @ ws @ p" x] less.prems d(1) by simp
      ultimately show ?thesis using less.hyps [of x] hit(2) d(1) b Cons by simp
    qed
  qed simp
qed

section \<open>Masking is idempotent\<close>

lemma no_occurrence_fixed: "\<not> occurs r s \<Longrightarrow> replace_all r m s = s"
proof (induction s)
  case (Cons c s)
  have "rests r (c # s) = []" using Cons.prems unfolding occurs_def by (metis append_Nil)
  moreover have "\<not> occurs r s" using Cons.prems unfolding occurs_def by (metis append_Cons)
  ultimately show ?case using Cons.IH by (simp add: replace_all_nomatch)
qed simp

lemma starts_no_star: "r \<in> set TOKEN_PATTERNS \<Longrightarrow> starts_in (\<lambda>c. c \<noteq> CHR ''*'') r"
proof -
  have "starts_in (\<lambda>c. c \<noteq> CHR ''*'') PRIVATE_KEY" by (simp add: PRIVATE_KEY_def ch_def)
  moreover have "starts_in (\<lambda>c. c \<noteq> CHR ''*'') DATABASE_URL"
  proof -
    have "lower_char CHR ''*'' = CHR ''*''" "lower_char CHR ''p'' = CHR ''p''" "lower_char CHR ''m'' = CHR ''m''" by code_simp+
    then show ?thesis by (auto simp: DATABASE_URL_def chi_def)
  qed
  moreover have "r \<in> set PLAIN_TOKENS \<or> r = REGISTRY_TOKEN \<Longrightarrow> starts_in (\<lambda>c. c \<noteq> CHR ''*'') r" for r
    using maskable_PLAIN maskable_REGISTRY_TOKEN all_cls_starts_in unfolding maskable_def by blast
  ultimately show "r \<in> set TOKEN_PATTERNS \<Longrightarrow> ?thesis" by (auto simp: TOKEN_PATTERNS_def)
qed

lemma bearer_ok_fold:
  "set rs \<subseteq> set TOKEN_PATTERNS \<Longrightarrow> bearer_ok s \<Longrightarrow> bearer_ok (fold (\<lambda>r t. replace_all r MASK t) rs s)"
  by (induction rs arbitrary: s) (simp_all add: bearer_kept tight_TOKEN_PATTERNS starts_no_star)

lemma REGISTRY_TOKEN_user: "all_cls c_user REGISTRY_TOKEN"
  by (auto simp: REGISTRY_TOKEN_def rx_defs class_defs c_user_def)

lemma sanitizeSecretString_idem: "sanitizeSecretString (sanitizeSecretString s) = sanitizeSecretString s"
proof -
  let ?t = "sanitizeSecretString s"
  let ?a = "fold (\<lambda>r t. replace_all r MASK t) PLAIN_TOKENS (replace_all BEARER BEARER_MASK s)"
  have t: "?t = replace_all REGISTRY_TOKEN MASK (replace_all DATABASE_URL MASK (replace_all PRIVATE_KEY MASK ?a))"
    by (simp add: sanitizeSecretString_def TOKEN_PATTERNS_def)
  have nn: "\<not> nullable DATABASE_URL" "\<not> nullable REGISTRY_TOKEN"
    using tight_DATABASE_URL tight_REGISTRY_TOKEN by (simp_all add: tight_def)
  have "\<not> holds_key ?t" unfolding t using key_removed key_kept nn by blast
  then have "\<not> occurs PRIVATE_KEY ?t" by (rule no_key)
  moreover have "\<not> occurs DATABASE_URL ?t"
    unfolding t using db_removed db_kept [OF tight_REGISTRY_TOKEN REGISTRY_TOKEN_user] by blast
  moreover have "r \<in> set PLAIN_TOKENS \<or> r = REGISTRY_TOKEN \<Longrightarrow> \<not> occurs r ?t" for r
    using sanitizeSecretString_no_token occurs_test_any by blast
  ultimately have none: "r \<in> set TOKEN_PATTERNS \<Longrightarrow> replace_all r MASK ?t = ?t" for r
    by (auto simp: TOKEN_PATTERNS_def intro: no_occurrence_fixed)
  have "bearer_ok ?t" unfolding sanitizeSecretString_def by (intro bearer_ok_fold bearer_masked) simp
  then have "replace_all BEARER BEARER_MASK ?t = ?t" by (rule bearer_fixed)
  moreover have "set rs \<subseteq> set TOKEN_PATTERNS \<Longrightarrow> fold (\<lambda>r t. replace_all r MASK t) rs ?t = ?t" for rs
    using none by (induction rs) auto
  ultimately show ?thesis by (simp add: sanitizeSecretString_def [of ?t])
qed

lemma maskByType_idem: "maskByType (maskByType v) = maskByType v" "maskByType_elems (maskByType_elems vs) = maskByType_elems vs"
proof -
  have "startsWith (toLowerCase (trim BEARER_MASK)) ''bearer ''" "\<not> startsWith (toLowerCase (trim MASK)) ''bearer ''" by code_simp+
  note [simp] = this
  show "maskByType (maskByType v) = maskByType v" "maskByType_elems (maskByType_elems vs) = maskByType_elems vs"
    by (induction v and vs rule: maskByType_maskByType_elems.induct) (simp_all add: jkeys_def comp_def)
qed

lemma sanitizeValue_idem:
  "sanitizeValue (sanitizeValue v p) p = sanitizeValue v p"
  "sanitizeValue_elems (sanitizeValue_elems vs p) p = sanitizeValue_elems vs p"
  "sanitizeValue_props (sanitizeValue_props ob p) p = sanitizeValue_props ob p"
  by (induction v p and vs p and ob p rule: sanitizeValue_sanitizeValue_elems_sanitizeValue_props.induct)
    (auto simp: sanitizeSecretString_idem maskByType_idem)

lemma sanitizeSecrets_idem [simp]: "sanitizeSecrets (sanitizeSecrets v) = sanitizeSecrets v"
  by (simp add: sanitizeSecrets_def sanitizeValue_idem)

end
