(* ===== verification/State_Store.thy ===== *)
theory State_Store
  imports Requests Masking
begin

text \<open>
  The mock state: \<open>src/state/stateStore.ts\<close> (a bounded key-value store in one JSON
  file), \<open>src/state/stateExtractor.ts\<close> (the id a request or a response names) and
  \<open>src/state/stateResolver.ts\<close> (answering from the state).
\<close>

section \<open>The store\<close>

definition MAX_STATE_ENTRIES :: nat where "MAX_STATE_ENTRIES = 5000"
definition MAX_STATE_ENTRY_BYTES :: nat where "MAX_STATE_ENTRY_BYTES = 512 * 1024"
definition MAX_STATE_BYTES :: nat where "MAX_STATE_BYTES = 10 * 1024 * 1024"

definition sanitize_entries :: "fields \<Rightarrow> fields" where
  "sanitize_entries ob = map (\<lambda>(k, v). (k, sanitizeSecrets v)) ob"

definition key_invalid :: "string \<Rightarrow> bool" where
  "key_invalid k = (k = [] \<or> length k > 512 \<or> has_break k)"

text \<open>\<open>Buffer.byteLength(undefined)\<close> throws: the value of an entry must have a JSON text.\<close>

definition check_entry :: "string \<times> json \<Rightarrow> (io_error, unit) res" where
  "check_entry e =
     (if key_invalid (fst e) then Inl (Thrown ''State key is invalid.'')
      else (case stringify (snd e) of
              None \<Rightarrow> Inl (SystemError ''ERR_INVALID_ARG_TYPE'')
            | Some t \<Rightarrow> if utf8_length t > MAX_STATE_ENTRY_BYTES then Inl (Thrown ''State entry exceeds its size limit.'')
                        else Inr ()))"

definition boundState :: "fields \<Rightarrow> (io_error, fields) res" where
  "boundState state =
     (let sanitized_state = sanitize_entries state in
      if length sanitized_state > MAX_STATE_ENTRIES
      then Inl (Thrown ''State store is limited to 5000 entries.'')
      else andThen (mapM check_entry sanitized_state) (\<lambda>_.
           if json_bytes (JObj sanitized_state) > MAX_STATE_BYTES
           then Inl (Thrown ''State store exceeds its aggregate size limit.'')
           else Inr sanitized_state))"

definition sanitizeState :: "json \<Rightarrow> (io_error, fields) res" where
  "sanitizeState value = (case value of JObj ob \<Rightarrow> boundState (sanitize_entries ob) | _ \<Rightarrow> Inr [])"

definition getStateStore :: "store_file \<Rightarrow> (io_error, fields) res" where
  "getStateStore f = readJsonFile f [] sanitizeState"

definition initializeStateStore :: "store_file \<Rightarrow> (io_error, unit) res \<times> store_file" where
  "initializeStateStore f =
     (case getStateStore f of Inl e \<Rightarrow> (Inl e, f) | Inr s \<Rightarrow> (Inr (), atomicWriteJson (parsed (JObj s))))"

definition saveToStateStore :: "string \<Rightarrow> json \<Rightarrow> store_file \<Rightarrow> (io_error, unit) res \<times> store_file" where
  "saveToStateStore i obj f =
     (if key_invalid i then (Inl (Thrown ''State key is invalid.''), f)
      else (case mutateJsonFile f [] sanitizeState JObj (\<lambda>state. boundState (jset state i (sanitizeSecrets obj))) of
              (Inl e, f') \<Rightarrow> (Inl e, f')
            | (Inr _, f') \<Rightarrow> (Inr (), f')))"

text \<open>The operation gets a copy of the state and returns the next state and a result, or
  throws; \<open>None\<close> as result is \<open>undefined\<close>, reported after the write.\<close>

definition transactState ::
  "(fields \<Rightarrow> (io_error, fields \<times> 'a option) res) \<Rightarrow> store_file \<Rightarrow> (io_error, 'a) res \<times> store_file" where
  "transactState operation f =
     (case getStateStore f of
        Inl e \<Rightarrow> (Inl e, f)
      | Inr state \<Rightarrow>
          (case operation state of
             Inl e \<Rightarrow> (Inl e, f)
           | Inr (next, result) \<Rightarrow>
               (case boundState next of
                  Inl e \<Rightarrow> (Inl e, f)
                | Inr s \<Rightarrow>
                    (case result of
                       None \<Rightarrow> (Inl (Thrown ''Local state transaction did not return a result.''), atomicWriteJson (parsed (JObj s)))
                     | Some x \<Rightarrow> (Inr x, atomicWriteJson (parsed (JObj s)))))))"

definition clearState :: "store_file \<Rightarrow> store_file" where
  "clearState f = atomicWriteJson (JObj [])"

section \<open>Ids\<close>

definition ID_FIELDS :: "string list" where
  "ID_FIELDS = [''id'', ''sid'', ''uuid'', ''name'', ''number'']"

fun id_of_value :: "json \<Rightarrow> string option" where
  "id_of_value (JStr s) = (if trim s \<noteq> [] then Some s else None)"
| "id_of_value (JInt i) = Some (int_text i)"
| "id_of_value (JFrac t) = Some t"
| "id_of_value _ = None"

fun first_some :: "('a \<Rightarrow> 'b option) \<Rightarrow> 'a list \<Rightarrow> 'b option" where
  "first_some f [] = None"
| "first_some f (x # xs) = (case f x of None \<Rightarrow> first_some f xs | Some y \<Rightarrow> Some y)"

definition extractIdFromResponse :: "json \<Rightarrow> string option" where
  "extractIdFromResponse body =
     (case body of JObj ob \<Rightarrow> first_some (\<lambda>field. id_of_value (jget ob field)) ID_FIELDS | _ \<Rightarrow> None)"

definition segments :: "string \<Rightarrow> string list" where
  "segments path = filter (\<lambda>x. x \<noteq> []) (split_on (CHR ''/'') path)"

text \<open>\<open>/^[a-z]+s$/i\<close>: letters only, at least two, the last one an s.\<close>

definition plural_word :: "string \<Rightarrow> bool" where
  "plural_word s =
     (length s \<ge> 2 \<and> list_all (\<lambda>c. is_lower c \<or> is_upper c) s \<and> (last s = CHR ''s'' \<or> last s = CHR ''S''))"

definition extractIdFromPath :: "string \<Rightarrow> string option" where
  "extractIdFromPath path =
     (let segs = segments path in
      if segs = [] then None
      else let lastSegment = last segs in
           if CHR ''_'' \<in> set lastSegment \<or> CHR ''-'' \<in> set lastSegment \<or> list_ex is_digit lastSegment then Some lastSegment
           else if length segs \<ge> 2 \<and> \<not> plural_word lastSegment then Some lastSegment
           else None)"

section \<open>Answers from the state\<close>

record ResolvedState =
  resolved_status :: nat
  resolved_headers :: fields
  resolved_body :: json

definition createResponse :: "json \<Rightarrow> ResolvedState" where
  "createResponse body =
     \<lparr>resolved_status = 200,
      resolved_headers = [(''content-type'', JStr ''application/json''), (''x-ghostapi-state'', JStr ''HIT'')],
      resolved_body = body\<rparr>"

definition resolveNamespace :: "string \<Rightarrow> string option" where
  "resolveNamespace path =
     (let segs = segments path in
      if segs = [] then None
      else if extractIdFromPath path \<noteq> None \<and> length segs \<ge> 2 then Some (toLowerCase (segs ! (length segs - 2)))
      else Some (toLowerCase (last segs)))"

definition objectMatchesNamespace :: "json \<Rightarrow> string \<Rightarrow> bool" where
  "objectMatchesNamespace obj expectedNamespace =
     (case obj of
        JObj ob \<Rightarrow> (case jget ob ''object'' of JStr t \<Rightarrow> startsWith expectedNamespace (toLowerCase t) | _ \<Rightarrow> True)
      | _ \<Rightarrow> True)"

definition formatProviderList :: "string \<Rightarrow> json list \<Rightarrow> json" where
  "formatProviderList provider items =
     (if provider = ''stripe''
      then JObj [(''object'', JStr ''list''), (''data'', JArr items), (''has_more'', JBool False),
             (''url'', JStr ''/v1/list_placeholder'')]
      else if provider = ''openai'' then JObj [(''object'', JStr ''list''), (''data'', JArr items)]
      else JObj [(''data'', JArr items), (''total'', JInt (int (length items)))])"

definition formatProviderDelete :: "string \<Rightarrow> json \<Rightarrow> string \<Rightarrow> json" where
  "formatProviderDelete provider existingObj i =
     (if provider = ''stripe''
      then JObj [(''id'', JStr i),
             (''object'', (case existingObj of
                JObj ob \<Rightarrow> (case jget ob ''object'' of JStr t \<Rightarrow> JStr t | _ \<Rightarrow> JStr ''removed_object'')
              | _ \<Rightarrow> JStr ''removed_object'')),
             (''deleted'', JBool True)]
      else (case existingObj of
              JObj ob \<Rightarrow> JObj (jset ob ''deleted'' (JBool True))
            | _ \<Rightarrow> JObj [(''id'', JStr i), (''deleted'', JBool True)]))"

definition state_key :: "string \<Rightarrow> string \<Rightarrow> string" where
  "state_key provider i = provider @ '':'' @ i"

definition resolveState ::
  "NormalizedRequest \<Rightarrow> string \<Rightarrow> store_file \<Rightarrow> (io_error, ResolvedState option) res \<times> store_file" where
  "resolveState request provider f =
     (case getStateStore f of
        Inl e \<Rightarrow> (Inl e, f)
      | Inr stateStore \<Rightarrow>
          (case extractIdFromPath (req_path request) of
             Some i \<Rightarrow>
               (let found = jget stateStore (state_key provider i) in
                if req_method request = ''GET''
                then (Inr (if found \<noteq> JUndef then Some (createResponse found) else None), f)
                else if req_method request = ''DELETE'' \<and> found \<noteq> JUndef
                then (let deletedObj = formatProviderDelete provider found i in
                      case saveToStateStore (state_key provider i) deletedObj f of
                        (Inl e, f') \<Rightarrow> (Inl e, f')
                      | (Inr _, f') \<Rightarrow> (Inr (Some (createResponse deletedObj)), f'))
                else (Inr None, f))
           | None \<Rightarrow>
               (case resolveNamespace (req_path request) of
                  None \<Rightarrow> (Inr None, f)
                | Some ns \<Rightarrow>
                    if req_method request = ''GET''
                    then (Inr (Some (createResponse (formatProviderList provider
                            (map (\<lambda>key. jget stateStore key)
                              (filter (\<lambda>key. startsWith key (provider @ '':'') \<and> objectMatchesNamespace (jget stateStore key) ns)
                                (jkeys stateStore)))))), f)
                    else (Inr None, f))))"

section \<open>Bounds and lookups\<close>

definition state_within :: "fields \<Rightarrow> bool" where
  "state_within s =
     (length s \<le> MAX_STATE_ENTRIES \<and>
      (\<forall>(k, v) \<in> set s. \<not> key_invalid k \<and> (\<exists>t. stringify v = Some t \<and> utf8_length t \<le> MAX_STATE_ENTRY_BYTES)) \<and>
      json_bytes (JObj s) \<le> MAX_STATE_BYTES)"

lemma check_entry_Inr:
  "check_entry e = Inr u \<longleftrightarrow>
     \<not> key_invalid (fst e) \<and> (\<exists>t. stringify (snd e) = Some t \<and> utf8_length t \<le> MAX_STATE_ENTRY_BYTES)"
  by (auto simp: check_entry_def split: option.splits)

lemma mapM_unit: "(\<exists>us. mapM f xs = Inr us) \<longleftrightarrow> (\<forall>x \<in> set xs. \<exists>u. f x = Inr u)"
  by (induction xs) (auto simp: res_simps)

lemma mapM_check: "(\<exists>us. mapM check_entry xs = Inr us) \<longleftrightarrow> (\<forall>x \<in> set xs. check_entry x = Inr ())"
  by (simp add: mapM_unit)

lemma boundState_Inr: "boundState s = Inr s' \<longleftrightarrow> s' = sanitize_entries s \<and> state_within s'"
proof -
  have "(\<exists>us. mapM check_entry s' = Inr us) \<longleftrightarrow>
      (\<forall>(k, v) \<in> set s'. \<not> key_invalid k \<and> (\<exists>t. stringify v = Some t \<and> utf8_length t \<le> MAX_STATE_ENTRY_BYTES))"
    unfolding mapM_check by (auto simp: check_entry_Inr)
  then show ?thesis
    by (auto simp: boundState_def Let_def res_simps state_within_def not_less split: if_splits)
qed

lemma sanitize_undef [simp]: "sanitizeSecrets JUndef = JUndef"
  by (simp add: sanitizeSecrets_def)

lemma jget_sanitize_entries: "jget (sanitize_entries ob) k = sanitizeSecrets (jget ob k)"
  by (induction ob) (auto simp: sanitize_entries_def)

lemma sanitize_entries_sanitized:
  "(k, v) \<in> set (sanitize_entries ob) \<Longrightarrow> sanitized v"
  by (auto simp: sanitize_entries_def sanitized_sanitizeSecrets)

text \<open>What a call leaves on disk: nothing new, or a state within the bounds whose every value
  is masked.\<close>

lemma saveToStateStore_ok:
  assumes "saveToStateStore i obj f = (Inr u, f')"
  shows "\<exists>s. getStateStore f = Inr s \<and> \<not> key_invalid i \<and>
     state_within (sanitize_entries (jset s i (sanitizeSecrets obj))) \<and>
     f' = atomicWriteJson (parsed (JObj (sanitize_entries (jset s i (sanitizeSecrets obj)))))"
proof -
  from assms obtain s' where "mutateJsonFile f [] sanitizeState JObj (\<lambda>state. boundState (jset state i (sanitizeSecrets obj))) = (Inr s', f')"
    and k: "\<not> key_invalid i"
    by (auto simp: saveToStateStore_def split: if_splits prod.splits sum.splits)
  then show ?thesis
    by (elim mutateJsonFileE) (auto simp: boundState_Inr getStateStore_def k)
qed

lemma saveToStateStore_throws: "saveToStateStore i obj f = (Inl e, f') \<Longrightarrow> f' = f"
  by (auto simp: saveToStateStore_def split: if_splits prod.splits sum.splits dest: mutateJsonFile_throws)

section \<open>The store contract\<close>

lemma plain_maskByType: "plain (maskByType v)" "plain_elems (maskByType_elems vs)"
proof -
  have "plain_props (map (\<lambda>k. (k, JStr MASK)) ks)" for ks by (induction ks) auto
  note [simp] = this
  show "plain (maskByType v)" "plain_elems (maskByType_elems vs)"
    by (induction v and vs rule: maskByType_maskByType_elems.induct) auto
qed

lemma plain_sanitizeValue:
  "plain v \<Longrightarrow> plain (sanitizeValue v p)" "plain_elems vs \<Longrightarrow> plain_elems (sanitizeValue_elems vs p)"
  "plain_props ob \<Longrightarrow> plain_props (sanitizeValue_props ob p)"
  by (induction v p and vs p and ob p rule: sanitizeValue_sanitizeValue_elems_sanitizeValue_props.induct)
    (auto simp: plain_maskByType)

lemma plain_sanitize_entries: "plain_props ob \<Longrightarrow> plain_props (sanitize_entries ob)"
  by (induction ob) (auto simp: sanitize_entries_def sanitizeSecrets_def plain_sanitizeValue)

lemma sanitize_entries_idem [simp]: "sanitize_entries (sanitize_entries ob) = sanitize_entries ob"
  by (auto simp: sanitize_entries_def)

text \<open>A masked value stays masked when it is written and read.\<close>

lemma masked_parsed: "maskByType v = v \<Longrightarrow> parsed v = v"
  using parsed_plain(1) plain_maskByType(1) by metis

lemma sanitizeValue_undef: "sanitizeValue v p = JUndef \<longleftrightarrow> v = JUndef"
  by (cases v) auto

lemma sanitize_parsed:
  "sanitizeValue v p = v \<Longrightarrow> sanitizeValue (parsed v) p = parsed v"
  "sanitizeValue_elems vs p = vs \<Longrightarrow> sanitizeValue_elems (parsed_elems vs) p = parsed_elems vs"
  "sanitizeValue_props ob p = ob \<Longrightarrow> sanitizeValue_props (parsed_props ob) p = parsed_props ob"
  by (induction v p and vs p and ob p rule: sanitizeValue_sanitizeValue_elems_sanitizeValue_props.induct)
    (auto simp: masked_parsed split: if_splits)

lemma sanitize_parsed_entries: "sanitize_entries ob = ob \<Longrightarrow> sanitize_entries (parsed_props ob) = parsed_props ob"
  by (induction ob) (auto simp: sanitize_entries_def sanitizeSecrets_def sanitize_parsed)

lemma state_within_parsed:
  assumes "state_within s"
  shows "state_within (parsed_props s)" and "\<And>k. jget (parsed_props s) k = parsed (jget s k)"
proof -
  have ne: "\<forall>(k, v) \<in> set s. v \<noteq> JUndef" using assms by (fastforce simp: state_within_def)
  have p: "parsed_props s = map (\<lambda>(k, v). (k, parsed v)) s" using ne by (induction s) auto
  have "json_bytes (JObj (parsed_props s)) = json_bytes (JObj s)"
    using stringify_parsed(3) [of s] by (simp add: json_bytes_def)
  moreover have "stringify (parsed v) = stringify v" if "(k, v) \<in> set s" for k v
    using ne that stringify_parsed(1) by fastforce
  ultimately show "state_within (parsed_props s)" using assms by (fastforce simp: state_within_def p)
  show "jget (parsed_props s) k = parsed (jget s k)" for k unfolding p by (induction s) auto
qed

definition state_inv :: "fields \<Rightarrow> bool" where
  "state_inv s = (state_within s \<and> sanitize_entries s = s \<and> plain_props s)"

lemma sanitizeState_written:
  assumes "state_within s" and "sanitize_entries s = s"
  shows "sanitizeState (parsed (JObj s)) = Inr (parsed_props s)"
  using assms by (simp add: sanitizeState_def sanitize_parsed_entries boundState_Inr state_within_parsed(1))

interpretation state_store: json_store "[]" sanitizeState JObj state_inv
proof
  show "state_inv []" by (simp add: state_inv_def state_within_def sanitize_entries_def json_bytes_def utf8_length_def MAX_STATE_BYTES_def)
  show "state_inv s" if "plain j" "sanitizeState j = Inr s" for j s
    using that plain_sanitize_entries \<open>state_inv []\<close>
    by (auto simp: sanitizeState_def boundState_Inr state_inv_def split: json.splits)
  show "sanitizeState (parsed (JObj s)) = Inr s" if "state_inv s" for s
    using sanitizeState_written [of s] that by (simp add: state_inv_def parsed_plain)
qed

lemma save_then_read:
  assumes "json_file f" and "saveToStateStore i obj f = (Inr u, f')"
  shows "\<exists>s s'. getStateStore f = Inr s \<and> getStateStore f' = Inr s' \<and> json_file f' \<and> state_inv s' \<and>
     (\<forall>k. jget s' k = (if k = i then parsed (sanitizeSecrets obj) else jget s k))"
proof -
  from saveToStateStore_ok [OF assms(2)] obtain s where s: "getStateStore f = Inr s"
    and w: "state_within (sanitize_entries (jset s i (sanitizeSecrets obj)))"
    and f': "f' = atomicWriteJson (parsed (JObj (sanitize_entries (jset s i (sanitizeSecrets obj)))))"
    by blast
  let ?t = "sanitize_entries (jset s i (sanitizeSecrets obj))"
  have inv: "state_inv s" using state_store.read_inv [OF assms(1)] s by (simp add: getStateStore_def)
  have read: "getStateStore f' = Inr (parsed_props ?t)"
    using sanitizeState_written [OF w] by (simp add: getStateStore_def f' del: parsed.simps)
  have jf: "json_file f'" unfolding f' by (rule json_file_written) simp
  have "sanitizeSecrets (jget s k) = jget s k" for k
    using inv jget_sanitize_entries [of s k] by (simp add: state_inv_def)
  moreover have "parsed (jget s k) = jget s k" for k
  proof -
    have "plain_props s" using inv by (simp add: state_inv_def)
    then have "plain (jget s k) \<or> jget s k = JUndef" by (induction s) auto
    then show ?thesis using parsed_plain(1) by auto
  qed
  ultimately have "jget (parsed_props ?t) k = (if k = i then parsed (sanitizeSecrets obj) else jget s k)" for k
    by (simp add: state_within_parsed(2) [OF w] jget_sanitize_entries jget_jset)
  moreover have "state_inv (parsed_props ?t)"
    using state_store.read_inv [OF jf] read by (simp add: getStateStore_def)
  ultimately show ?thesis using s read jf by blast
qed

end
