(* ===== verification/Behavior_Store.thy ===== *)
theory Behavior_Store
  imports State_Store
begin

text \<open>
  \<open>src/behavior/behaviorStore.ts\<close>: scripted responses, one per method and path, in one
  JSON file.  A behavior is kept as the list of its properties, because the code spreads the
  object it was given.
\<close>

definition MAX_API_BEHAVIORS :: nat where "MAX_API_BEHAVIORS = 500"
definition MAX_BEHAVIOR_BYTES :: nat where "MAX_BEHAVIOR_BYTES = 256 * 1024"
definition MAX_BEHAVIOR_STORE_BYTES :: nat where "MAX_BEHAVIOR_STORE_BYTES = 4 * 1024 * 1024"

definition METHODS :: "string list" where
  "METHODS = [''GET'', ''POST'', ''PUT'', ''PATCH'', ''DELETE'', ''HEAD'', ''OPTIONS'']"

definition behaviorKey :: "string \<Rightarrow> string \<Rightarrow> string" where
  "behaviorKey m path = toUpperCase m @ '' '' @ path"

definition status_ok :: "json \<Rightarrow> bool" where
  "status_ok v = (case v of JInt i \<Rightarrow> 100 \<le> i \<and> i \<le> 599 | _ \<Rightarrow> False)"

definition delay_ok :: "json \<Rightarrow> bool" where
  "delay_ok v = (case v of JUndef \<Rightarrow> True | JInt i \<Rightarrow> 0 \<le> i \<and> i \<le> 10000 | _ \<Rightarrow> False)"

definition isApiBehavior :: "json \<Rightarrow> bool" where
  "isApiBehavior value =
     (case value of
        JObj b \<Rightarrow> is_string (jget b ''path'') \<and> is_string (jget b ''method'') \<and> status_ok (jget b ''status'') \<and>
                  delay_ok (jget b ''delayMs'')
      | _ \<Rightarrow> False)"

text \<open>\<open>Object.keys(v).length\<close>; \<open>None\<close> where it throws.\<close>

fun keys_count :: "json \<Rightarrow> nat option" where
  "keys_count (JObj ob) = Some (length ob)"
| "keys_count (JArr vs) = Some (length vs)"
| "keys_count (JStr s) = Some (length s)"
| "keys_count JNull = None"
| "keys_count JUndef = None"
| "keys_count _ = Some 0"

definition checked_headers :: "fields \<Rightarrow> (io_error, json option) res" where
  "checked_headers behavior =
     (let given = jget behavior ''headers'' in
      if given = JUndef then Inr None
      else (case keys_count given of
              None \<Rightarrow> Inl (Thrown ''TypeError'')
            | Some n \<Rightarrow>
                if length (sanitizeResponseHeaders given) \<noteq> n
                then Inl (Thrown ''Behavior response headers contain an unsafe or unsupported header.'')
                else Inr (Some (JObj (sanitizeResponseHeaders given)))))"

definition normalizeBehavior :: "fields \<Rightarrow> (io_error, fields) res" where
  "normalizeBehavior behavior =
     (case (jget behavior ''path'', jget behavior ''method'') of
        (JStr p, JStr m) \<Rightarrow>
          (let path = (if startsWith p ''/'' then p else ''/'' @ p); meth = toUpperCase m in
           if \<not> status_ok (jget behavior ''status'')
           then Inl (Thrown ''Behavior status must be an integer between 100 and 599.'')
           else if \<not> delay_ok (jget behavior ''delayMs'')
           then Inl (Thrown ''Behavior delayMs must be an integer between 0 and 10000.'')
           else if length path > 2048 \<or> has_break path then Inl (Thrown ''Behavior path is invalid.'')
           else if meth \<notin> set METHODS then Inl (Thrown ''Behavior method is invalid.'')
           else andThen (checked_headers behavior) (\<lambda>headers.
             let merged = jset (jset behavior ''path'' (JStr path)) ''method'' (JStr meth);
                 normalized = sanitizeSecrets (JObj (case headers of None \<Rightarrow> merged | Some h \<Rightarrow> jset merged ''headers'' h))
             in if json_bytes normalized > MAX_BEHAVIOR_BYTES then Inl (Thrown ''Behavior exceeds its size limit.'')
                else (case normalized of JObj n \<Rightarrow> Inr n | _ \<Rightarrow> Inr [])))
      | _ \<Rightarrow> Inl (Thrown ''TypeError''))"

definition sanitizeBehaviors :: "json \<Rightarrow> (io_error, fields) res" where
  "sanitizeBehaviors value =
     (case value of JObj ob \<Rightarrow> Inr (filter (\<lambda>(k, v). isApiBehavior v) (sanitize_entries ob)) | _ \<Rightarrow> Inr [])"

definition getApiBehaviors :: "store_file \<Rightarrow> (io_error, fields) res" where
  "getApiBehaviors f = readJsonFile f [] sanitizeBehaviors"

definition findApiBehavior :: "NormalizedRequest \<Rightarrow> store_file \<Rightarrow> (io_error, json option) res" where
  "findApiBehavior request f =
     andThen (getApiBehaviors f) (\<lambda>behaviors.
       let b = jget behaviors (behaviorKey (req_method request) (req_path request)) in
       Inr (if b = JUndef \<or> b = JNull then None else Some b))"

definition add_behavior :: "fields \<Rightarrow> fields \<Rightarrow> (io_error, fields) res" where
  "add_behavior normalized behaviors =
     (let key = behaviorKey (string_of (jget normalized ''method'')) (string_of (jget normalized ''path''));
          next = jset behaviors key (JObj normalized)
      in if length next > MAX_API_BEHAVIORS then Inl (Thrown ''Behavior store is limited to 500 entries.'')
         else if json_bytes (JObj next) > MAX_BEHAVIOR_STORE_BYTES
         then Inl (Thrown ''Behavior store exceeds its aggregate size limit.'')
         else Inr next)"

definition setApiBehavior :: "fields \<Rightarrow> store_file \<Rightarrow> (io_error, fields) res \<times> store_file" where
  "setApiBehavior behavior f =
     (case mutateJsonFile f [] sanitizeBehaviors JObj
             (\<lambda>behaviors. andThen (normalizeBehavior behavior) (\<lambda>n. add_behavior n behaviors)) of
        (Inl e, f') \<Rightarrow> (Inl e, f')
      | (Inr _, f') \<Rightarrow> (normalizeBehavior behavior, f'))"

section \<open>The shape of a normalized behavior\<close>

lemma jget_sanitizeValue_props:
  "\<not> isSecretFieldName k \<Longrightarrow> \<not> isCardNumberField k p \<Longrightarrow>
   jget (sanitizeValue_props ob p) k = sanitizeValue (jget ob k) (Some k)"
  by (induction ob) auto

lemma plain_names:
  "\<not> isSecretFieldName ''path'' \<and> \<not> isCardNumberField ''path'' None"
  "\<not> isSecretFieldName ''method'' \<and> \<not> isCardNumberField ''method'' None"
  "\<not> isSecretFieldName ''status'' \<and> \<not> isCardNumberField ''status'' None"
  "\<not> isSecretFieldName ''delayMs'' \<and> \<not> isCardNumberField ''delayMs'' None"
  by code_simp+

lemma METHODS_fixed: "m \<in> set METHODS \<Longrightarrow> sanitizeSecretString m = m \<and> toUpperCase m = m"
proof -
  assume m: "m \<in> set METHODS"
  have "list_all (\<lambda>m. \<not> has_marker m \<and> \<not> has_bearer m \<and> toUpperCase m = m) METHODS" by code_simp
  with m show ?thesis by (auto simp: list_all_iff intro: sanitizeSecretString_unmarked)
qed

lemma normalizeBehavior_merged:
  assumes "normalizeBehavior b = Inr n"
  obtains x path meth where "JObj n = sanitizeSecrets (JObj x)" "jget x ''path'' = JStr path" "jget x ''method'' = JStr meth"
    "jget x ''status'' = jget b ''status''" "jget x ''delayMs'' = jget b ''delayMs''" "meth \<in> set METHODS"
    "status_ok (jget b ''status'')" "delay_ok (jget b ''delayMs'')" "json_bytes (JObj n) \<le> MAX_BEHAVIOR_BYTES"
    "distinct (map fst b) \<longrightarrow> distinct (map fst x)"
proof -
  from assms obtain p m where pm: "jget b ''path'' = JStr p" "jget b ''method'' = JStr m"
    by (auto simp: normalizeBehavior_def split: prod.splits json.splits)
  define path where "path = (if startsWith p ''/'' then p else ''/'' @ p)"
  let ?merged = "jset (jset b ''path'' (JStr path)) ''method'' (JStr (toUpperCase m))"
  from assms pm obtain h where ok: "status_ok (jget b ''status'')" "delay_ok (jget b ''delayMs'')" "toUpperCase m \<in> set METHODS"
    and n: "JObj n = sanitizeSecrets (JObj (case h of None \<Rightarrow> ?merged | Some j \<Rightarrow> jset ?merged ''headers'' j))"
    and size: "json_bytes (JObj n) \<le> MAX_BEHAVIOR_BYTES"
    unfolding normalizeBehavior_def by (auto simp flip: path_def simp: Let_def res_simps sanitizeSecrets_def not_less split: if_split_asm)
  show thesis
    by (rule that [OF n]) (use ok size in \<open>auto simp: jget_jset distinct_jset split: option.splits\<close>)
qed

lemma normalizeBehavior_shape:
  assumes "normalizeBehavior b = Inr n"
  shows "isApiBehavior (JObj n) \<and> sanitizeSecrets (JObj n) = JObj n \<and> json_bytes (JObj n) \<le> MAX_BEHAVIOR_BYTES \<and>
     (\<exists>path meth. jget n ''path'' = JStr (sanitizeSecretString path) \<and> jget n ''method'' = JStr meth \<and> meth \<in> set METHODS) \<and>
     (distinct (map fst b) \<longrightarrow> distinct (map fst n))"
proof -
  from assms obtain x path meth where n: "JObj n = sanitizeSecrets (JObj x)" and x: "jget x ''path'' = JStr path"
    "jget x ''method'' = JStr meth" "jget x ''status'' = jget b ''status''" "jget x ''delayMs'' = jget b ''delayMs''"
    and m: "meth \<in> set METHODS" and ok: "status_ok (jget b ''status'')" "delay_ok (jget b ''delayMs'')"
    and size: "json_bytes (JObj n) \<le> MAX_BEHAVIOR_BYTES" and d: "distinct (map fst b) \<longrightarrow> distinct (map fst x)"
    by (rule normalizeBehavior_merged)
  have n': "n = sanitizeValue_props x None" using n by (simp add: sanitizeSecrets_def)
  have get: "jget n ''path'' = JStr (sanitizeSecretString path)" "jget n ''method'' = JStr meth"
    "jget n ''status'' = sanitizeValue (jget b ''status'') (Some ''status'')"
    "jget n ''delayMs'' = sanitizeValue (jget b ''delayMs'') (Some ''delayMs'')"
    using plain_names x METHODS_fixed [OF m] by (simp_all add: n' jget_sanitizeValue_props)
  have "status_ok (jget n ''status'')" "delay_ok (jget n ''delayMs'')"
    unfolding get using ok by (auto simp: status_ok_def delay_ok_def split: json.splits)
  with get have "isApiBehavior (JObj n)" by (simp add: isApiBehavior_def)
  moreover have "sanitizeSecrets (JObj n) = JObj n" unfolding n by simp
  moreover have "map fst n = map fst x" unfolding n' by (rule sanitizeValue_props_keys)
  ultimately show ?thesis using size get m d by metis
qed

section \<open>The store contract\<close>

definition behaviors_inv :: "fields \<Rightarrow> bool" where
  "behaviors_inv bs = (\<forall>(k, v) \<in> set bs. isApiBehavior v \<and> sanitizeSecrets v = v \<and> plain v)"

lemma behaviors_inv_read:
  "behaviors_inv bs \<Longrightarrow> filter (\<lambda>(k, v). isApiBehavior v) (sanitize_entries (parsed_props bs)) = bs"
proof (induction bs)
  case (Cons e bs)
  obtain k v where e: "e = (k, v)" by (cases e)
  with Cons.prems have v: "isApiBehavior v" "sanitizeSecrets v = v" "parsed v = v" "v \<noteq> JUndef" and "behaviors_inv bs"
    by (auto simp: behaviors_inv_def parsed_plain)
  with Cons.IH show ?case by (simp add: e sanitize_entries_def)
qed (simp add: sanitize_entries_def)

lemma plain_sanitizeSecrets: "plain v \<Longrightarrow> plain (sanitizeSecrets v)"
  by (simp add: sanitizeSecrets_def plain_sanitizeValue)

interpretation behavior_store: json_store "[]" sanitizeBehaviors JObj behaviors_inv
proof
  show "behaviors_inv []" by (simp add: behaviors_inv_def)
  show "behaviors_inv s" if "plain j" "sanitizeBehaviors j = Inr s" for j s
    using that plain_sanitizeSecrets
    by (fastforce simp: sanitizeBehaviors_def behaviors_inv_def sanitize_entries_def plain_props_iff split: json.splits)
  show "sanitizeBehaviors (parsed (JObj s)) = Inr s" if "behaviors_inv s" for s
    using behaviors_inv_read [OF that] by (simp add: sanitizeBehaviors_def)
qed

lemma jget_parsed: "distinct (map fst ob) \<Longrightarrow> jget (parsed_props ob) k = parsed (jget ob k)"
proof (induction ob)
  case (Cons e ob)
  obtain k' v where e: "e = (k', v)" by (cases e)
  have "k' \<notin> fst ` set ob" using Cons.prems e by auto
  then have "jget ob k' = JUndef" by (simp add: jget_def flip: map_of_eq_None_iff)
  with Cons e show ?case by auto
qed simp

lemma isApiBehavior_parsed: "distinct (map fst b) \<Longrightarrow> isApiBehavior (JObj b) \<Longrightarrow> isApiBehavior (parsed (JObj b))"
  by (auto simp: isApiBehavior_def jget_parsed status_ok_def delay_ok_def elim!: is_stringE split: json.splits)

lemma parsed_props_jset:
  "plain_props bs \<Longrightarrow> v \<noteq> JUndef \<Longrightarrow> parsed_props (jset bs k v) = jset bs k (parsed v)"
  by (induction bs k v rule: jset.induct) (auto simp: parsed_plain)

lemma behaviors_inv_jset:
  "behaviors_inv bs \<Longrightarrow> isApiBehavior v \<Longrightarrow> sanitizeSecrets v = v \<Longrightarrow> plain v \<Longrightarrow> behaviors_inv (jset bs k v)"
  by (auto simp: behaviors_inv_def dest!: jset_mem)

lemma set_then_find:
  assumes f: "json_file f" and b: "distinct (map fst b)" and set: "setApiBehavior b f = (Inr n, f')"
  obtains bs where "getApiBehaviors f = Inr bs" "normalizeBehavior b = Inr n" "json_file f'"
    "getApiBehaviors f' = Inr (jset bs (behaviorKey (string_of (jget n ''method'')) (string_of (jget n ''path''))) (parsed (JObj n)))"
    "length (jset bs (behaviorKey (string_of (jget n ''method'')) (string_of (jget n ''path''))) (JObj n)) \<le> MAX_API_BEHAVIORS"
proof -
  let ?key = "behaviorKey (string_of (jget n ''method'')) (string_of (jget n ''path''))"
  from set obtain next1 where mut: "mutateJsonFile f [] sanitizeBehaviors JObj
      (\<lambda>behaviors. andThen (normalizeBehavior b) (\<lambda>n. add_behavior n behaviors)) = (Inr next1, f')"
    and n: "normalizeBehavior b = Inr n"
    by (auto simp: setApiBehavior_def split: prod.splits sum.splits)
  from mut obtain bs where bs: "getApiBehaviors f = Inr bs" and next1: "next1 = jset bs ?key (JObj n)"
    and small: "length next1 \<le> MAX_API_BEHAVIORS" and f': "f' = atomicWriteJson (parsed (JObj next1))"
    by (elim mutateJsonFileE) (auto simp: n add_behavior_def Let_def getApiBehaviors_def not_less split: if_splits)
  have inv: "behaviors_inv bs" using behavior_store.read_inv [OF f] bs by (simp add: getApiBehaviors_def)
  then have plain: "plain_props bs" by (auto simp: behaviors_inv_def plain_props_iff)
  have shape: "isApiBehavior (JObj n)" "sanitizeSecrets (JObj n) = JObj n" "distinct (map fst n)"
    using normalizeBehavior_shape [OF n] b by blast+
  have "isApiBehavior (parsed (JObj n))" using isApiBehavior_parsed [OF shape(3,1)] .
  moreover have "sanitizeSecrets (parsed (JObj n)) = parsed (JObj n)"
    using sanitize_parsed(1) [of "JObj n" None] shape(2) by (simp add: sanitizeSecrets_def)
  moreover have "plain (parsed (JObj n))" using plain_parsed(1) [of "JObj n"] by simp
  ultimately have inv': "behaviors_inv (jset bs ?key (parsed (JObj n)))" using behaviors_inv_jset [OF inv] by blast
  have content: "parsed (JObj next1) = JObj (jset bs ?key (parsed (JObj n)))"
    unfolding next1 using parsed_props_jset [OF plain] by simp
  have px: "parsed_props (jset bs ?key (parsed (JObj n))) = jset bs ?key (parsed (JObj n))"
    using inv' by (intro parsed_plain) (auto simp: behaviors_inv_def plain_props_iff)
  have "getApiBehaviors f' = Inr (jset bs ?key (parsed (JObj n)))"
    using behaviors_inv_read [OF inv'] px content by (simp add: f' getApiBehaviors_def sanitizeBehaviors_def)
  moreover have "json_file f'" unfolding f' by (rule json_file_written) simp
  ultimately show thesis using that bs n small next1 by simp
qed

end
