(* ===== verification/Fault_Lab.thy ===== *)
theory Fault_Lab
  imports Providers Js_Number
begin

text \<open>
  \<open>src/fault/faultLab.ts\<close>: the persisted configuration of the fault laboratory and the
  decision it takes for a request.  A draw of \<open>random()\<close> is a double below 1, kept as
  \<open>m / 2 ^ e\<close> with a significand of at most 53 bits; its product with a small integer is
  rounded to 53 bits as the language does.
\<close>

section \<open>Configuration\<close>

record FaultLabConfig =
  enabled :: bool
  latencyMs :: int
  latencyMinMs :: int
  latencyMaxMs :: int
  errorRate :: int
  statusCode :: int
  retryAfterSeconds :: int

definition DEFAULT_CONFIG :: FaultLabConfig where
  "DEFAULT_CONFIG =
     \<lparr>enabled = False, latencyMs = 0, latencyMinMs = 2000, latencyMaxMs = 5000, errorRate = 15,
      statusCode = 429, retryAfterSeconds = 2\<rparr>"

fun readBoolean :: "json \<Rightarrow> bool \<Rightarrow> bool" where
  "readBoolean (JBool b) fallback = b"
| "readBoolean _ fallback = fallback"

definition readInteger :: "json \<Rightarrow> int \<Rightarrow> int \<Rightarrow> int \<Rightarrow> (io_error, int) res" where
  "readInteger value fallback lo hi =
     (case value of
        JUndef \<Rightarrow> Inr fallback
      | JInt i \<Rightarrow> if i < lo \<or> i > hi
                  then Inl (Thrown (''Expected integer between '' @ int_text lo @ '' and '' @ int_text hi @ ''.'')) else Inr i
      | _ \<Rightarrow> Inl (Thrown (''Expected integer between '' @ int_text lo @ '' and '' @ int_text hi @ ''.'')))"

definition STATUS_CODES :: "int list" where "STATUS_CODES = [429, 500, 502, 503]"

definition readStatusCode :: "json \<Rightarrow> int \<Rightarrow> (io_error, int) res" where
  "readStatusCode value fallback =
     (case value of
        JUndef \<Rightarrow> Inr fallback
      | JInt i \<Rightarrow> if i \<in> set STATUS_CODES then Inr i
                  else Inl (Thrown ''Fault Lab statusCode must be one of 429, 500, 502, or 503.'')
      | _ \<Rightarrow> Inl (Thrown ''Fault Lab statusCode must be one of 429, 500, 502, or 503.''))"

definition validateConfig :: "FaultLabConfig \<Rightarrow> (io_error, FaultLabConfig) res" where
  "validateConfig config =
     (if latencyMaxMs config < latencyMinMs config
      then Inl (Thrown ''Fault Lab latencyMaxMs must be greater than or equal to latencyMinMs.'')
      else Inr config)"

text \<open>The object literal that \<open>updateFaultLabConfig\<close> and \<open>sanitizeConfig\<close> share, with
  the values of \<open>base\<close> as fallbacks.\<close>

definition config_from :: "fields \<Rightarrow> FaultLabConfig \<Rightarrow> (io_error, FaultLabConfig) res" where
  "config_from r base =
     andThen (readInteger (jget r ''latencyMs'') (latencyMs base) 0 10000) (\<lambda>l.
     andThen (readInteger (jget r ''latencyMinMs'') (latencyMinMs base) 0 10000) (\<lambda>mn.
     andThen (readInteger (jget r ''latencyMaxMs'') (latencyMaxMs base) 0 10000) (\<lambda>mx.
     andThen (readInteger (jget r ''errorRate'') (errorRate base) 0 100) (\<lambda>er.
     andThen (readStatusCode (jget r ''statusCode'') (statusCode base)) (\<lambda>sc.
     andThen (readInteger (jget r ''retryAfterSeconds'') (retryAfterSeconds base) 0 120) (\<lambda>ra.
     validateConfig
       \<lparr>enabled = readBoolean (jget r ''enabled'') (enabled base), latencyMs = l, latencyMinMs = mn,
        latencyMaxMs = mx, errorRate = er, statusCode = sc, retryAfterSeconds = ra\<rparr>))))))"

definition sanitizeConfig :: "json \<Rightarrow> (io_error, FaultLabConfig) res" where
  "sanitizeConfig value =
     (case value of
        JObj r \<Rightarrow> (case config_from r DEFAULT_CONFIG of Inl _ \<Rightarrow> Inr DEFAULT_CONFIG | Inr c \<Rightarrow> Inr c)
      | _ \<Rightarrow> Inr DEFAULT_CONFIG)"

definition enc_config :: "FaultLabConfig \<Rightarrow> json" where
  "enc_config c =
     JObj [(''enabled'', JBool (enabled c)), (''latencyMs'', JInt (latencyMs c)),
       (''latencyMinMs'', JInt (latencyMinMs c)), (''latencyMaxMs'', JInt (latencyMaxMs c)),
       (''errorRate'', JInt (errorRate c)), (''statusCode'', JInt (statusCode c)),
       (''retryAfterSeconds'', JInt (retryAfterSeconds c))]"

definition readPersistedConfig :: "store_file \<Rightarrow> (io_error, FaultLabConfig) res" where
  "readPersistedConfig f =
     (case readJsonFile f DEFAULT_CONFIG sanitizeConfig of
        Inl SyntaxError \<Rightarrow> Inr DEFAULT_CONFIG
      | r \<Rightarrow> r)"

definition getFaultLabConfig :: "store_file \<Rightarrow> (io_error, FaultLabConfig) res" where
  "getFaultLabConfig f = readPersistedConfig f"

definition initializeFaultLab :: "store_file \<Rightarrow> (io_error, unit) res \<times> store_file" where
  "initializeFaultLab f =
     (case readPersistedConfig f of
        Inl e \<Rightarrow> (Inl e, f)
      | Inr config \<Rightarrow> (Inr (), atomicWriteJson (enc_config config)))"

definition updateFaultLabConfig :: "json \<Rightarrow> store_file \<Rightarrow> (io_error, FaultLabConfig) res \<times> store_file" where
  "updateFaultLabConfig input f =
     (case input of
        JObj r \<Rightarrow> mutateJsonFile f DEFAULT_CONFIG sanitizeConfig enc_config (config_from r)
      | _ \<Rightarrow> (Inl (Thrown ''Fault Lab config must be a JSON object.''), f))"

section \<open>Decisions\<close>

datatype draw = Draw (draw_m: nat) (draw_e: nat)

definition draw_ok :: "draw \<Rightarrow> bool" where
  "draw_ok r = (draw_m r < 2 ^ 53 \<and> draw_m r < 2 ^ draw_e r)"

text \<open>\<open>r * n < k\<close>, \<open>Math.floor(r * n)\<close> and \<open>Math.round(r * n)\<close>.\<close>

definition times_less :: "draw \<Rightarrow> nat \<Rightarrow> nat \<Rightarrow> bool" where
  "times_less r n k = (round53 (draw_m r * n) < k * 2 ^ draw_e r)"

definition floor_times :: "draw \<Rightarrow> nat \<Rightarrow> nat" where
  "floor_times r n = round53 (draw_m r * n) div 2 ^ draw_e r"

definition round_times :: "draw \<Rightarrow> nat \<Rightarrow> nat" where
  "round_times r n = (2 * round53 (draw_m r * n) + 2 ^ draw_e r) div 2 ^ (draw_e r + 1)"

datatype FaultLabDecision =
    FaultOff
  | FaultDelay int
  | FaultError int int int json

definition createFaultDetails :: "int \<Rightarrow> ProviderErrorDetails" where
  "createFaultDetails status =
     (if status = 429
      then \<lparr>details_status = 429, details_message = ''Chaos Mode simulated rate limit. Please retry later.'',
            details_code = Some (CodeText ''rate_limit''), details_param = None, details_type = Some ''rate_limit_error''\<rparr>
      else \<lparr>details_status = status,
            details_message = ''Chaos Mode simulated upstream '' @ int_text status @ '' response.'',
            details_code = Some (CodeNumber status), details_param = None, details_type = Some ''api_error''\<rparr>)"

definition pickLatency :: "FaultLabConfig \<Rightarrow> draw \<Rightarrow> int" where
  "pickLatency config r =
     (if latencyMs config > 0 then latencyMs config
      else latencyMinMs config + int (round_times r (nat (latencyMaxMs config - latencyMinMs config))))"

text \<open>The draws of the (up to) three calls of \<open>random\<close>, in order.\<close>

definition decideFault :: "store_file \<Rightarrow> ProviderName \<Rightarrow> draw \<Rightarrow> draw \<Rightarrow> draw \<Rightarrow> (io_error, FaultLabDecision) res" where
  "decideFault f provider r1 r2 r3 =
     andThen (readPersistedConfig f) (\<lambda>config.
       if \<not> enabled config then Inr FaultOff
       else if \<not> (errorRate config > 0 \<and> times_less r1 100 (nat (errorRate config))) then Inr FaultOff
       else if floor_times r2 3 = 2 then Inr (FaultDelay (pickLatency config r3))
       else Inr (FaultError (latencyMs config) (statusCode config) (retryAfterSeconds config)
                  (createProviderError provider (createFaultDetails (statusCode config)))))"

section \<open>The configuration stays in range\<close>

definition config_ok :: "FaultLabConfig \<Rightarrow> bool" where
  "config_ok c =
     (0 \<le> latencyMs c \<and> latencyMs c \<le> 10000 \<and> 0 \<le> latencyMinMs c \<and> latencyMinMs c \<le> latencyMaxMs c \<and>
      latencyMaxMs c \<le> 10000 \<and> 0 \<le> errorRate c \<and> errorRate c \<le> 100 \<and> statusCode c \<in> set STATUS_CODES \<and>
      0 \<le> retryAfterSeconds c \<and> retryAfterSeconds c \<le> 120)"

lemma readInteger_range:
  "readInteger v d lo hi = Inr i \<Longrightarrow> lo \<le> d \<Longrightarrow> d \<le> hi \<Longrightarrow> lo \<le> i \<and> i \<le> hi"
  by (auto simp: readInteger_def split: json.splits if_splits)

lemma readStatusCode_range: "readStatusCode v d = Inr i \<Longrightarrow> d \<in> set STATUS_CODES \<Longrightarrow> i \<in> set STATUS_CODES"
  by (auto simp: readStatusCode_def split: json.splits if_splits)

lemma config_from_ok:
  assumes "config_from r base = Inr c" and "config_ok base"
  shows "config_ok c"
proof -
  from assms(2) have b: "0 \<le> latencyMs base" "latencyMs base \<le> 10000" "0 \<le> latencyMinMs base" "latencyMinMs base \<le> 10000"
    "0 \<le> latencyMaxMs base" "latencyMaxMs base \<le> 10000" "0 \<le> errorRate base" "errorRate base \<le> 100"
    "statusCode base \<in> set STATUS_CODES" "0 \<le> retryAfterSeconds base" "retryAfterSeconds base \<le> 120"
    by (simp_all add: config_ok_def)
  from assms(1) show ?thesis
    unfolding config_from_def
  proof (elim andThenE)
    fix l mn mx er sc ra
    assume h: "readInteger (jget r ''latencyMs'') (latencyMs base) 0 10000 = Inr l"
      "readInteger (jget r ''latencyMinMs'') (latencyMinMs base) 0 10000 = Inr mn"
      "readInteger (jget r ''latencyMaxMs'') (latencyMaxMs base) 0 10000 = Inr mx"
      "readInteger (jget r ''errorRate'') (errorRate base) 0 100 = Inr er"
      "readStatusCode (jget r ''statusCode'') (statusCode base) = Inr sc"
      "readInteger (jget r ''retryAfterSeconds'') (retryAfterSeconds base) 0 120 = Inr ra"
      "validateConfig \<lparr>enabled = readBoolean (jget r ''enabled'') (enabled base), latencyMs = l, latencyMinMs = mn,
        latencyMaxMs = mx, errorRate = er, statusCode = sc, retryAfterSeconds = ra\<rparr> = Inr c"
    note ranges = readInteger_range [OF h(1) b(1,2)] readInteger_range [OF h(2) b(3,4)] readInteger_range [OF h(3) b(5,6)]
      readInteger_range [OF h(4) b(7,8)] readStatusCode_range [OF h(5) b(9)] readInteger_range [OF h(6) b(10,11)]
    from h(7) ranges show "config_ok c" by (auto simp: validateConfig_def config_ok_def split: if_splits)
  qed
qed

lemma config_ok_default: "config_ok DEFAULT_CONFIG"
  by (simp add: config_ok_def DEFAULT_CONFIG_def STATUS_CODES_def)

lemma config_from_enc:
  assumes "config_ok c" and "enc_config c = JObj r"
  shows "config_from r base = Inr c"
proof -
  have r: "r = [(''enabled'', JBool (enabled c)), (''latencyMs'', JInt (latencyMs c)),
       (''latencyMinMs'', JInt (latencyMinMs c)), (''latencyMaxMs'', JInt (latencyMaxMs c)),
       (''errorRate'', JInt (errorRate c)), (''statusCode'', JInt (statusCode c)),
       (''retryAfterSeconds'', JInt (retryAfterSeconds c))]"
    using assms(2) by (simp add: enc_config_def)
  show ?thesis
    using assms(1) unfolding r config_from_def config_ok_def
    by (simp add: readInteger_def readStatusCode_def validateConfig_def)
qed

lemma sanitizeConfig_ok: "sanitizeConfig j = Inr c \<Longrightarrow> config_ok c"
  using config_ok_default config_from_ok [OF _ config_ok_default]
  by (auto simp: sanitizeConfig_def split: json.splits sum.splits)

interpretation fault_store: json_store DEFAULT_CONFIG sanitizeConfig enc_config config_ok
proof
  show "config_ok DEFAULT_CONFIG" by (rule config_ok_default)
  show "sanitizeConfig j = Inr s \<Longrightarrow> config_ok s" for j s by (rule sanitizeConfig_ok)
  show "sanitizeConfig (parsed (enc_config s)) = Inr s" if "config_ok s" for s
  proof -
    have "parsed (enc_config s) = enc_config s" by (simp add: enc_config_def)
    with config_from_enc [OF that, of _ DEFAULT_CONFIG] show ?thesis
      by (simp add: sanitizeConfig_def enc_config_def)
  qed
qed

lemma readPersistedConfig_ok: "readPersistedConfig f = Inr c \<Longrightarrow> config_ok c"
  using sanitizeConfig_ok config_ok_default
  by (auto simp: readPersistedConfig_def readJsonFile_def split: sum.splits io_error.splits store_file.splits option.splits)

section \<open>Rounded products\<close>

text \<open>Rounding adds at most half a unit in the last place.\<close>

lemma round53_upper:
  assumes "n < 2 ^ (54 + k)"
  shows "round53 n \<le> n + 2 ^ k"
proof (cases "n \<le> 2 ^ 53")
  case True
  then show ?thesis by (simp add: round53_def)
next
  case False
  define e where "e = bit_length n - 53"
  have "(2::nat) ^ 53 < 2 ^ bit_length n" using False bit_length_upper [of n] by linarith
  then have "53 < bit_length n" by (rule power_less_imp_less_exp [rotated]) simp
  then obtain d where d: "e = Suc d" by (cases e) (auto simp: e_def)
  have "2 ^ (bit_length n - 1) \<le> n" using False by (intro bit_length_lower) auto
  with assms have "(2::nat) ^ (bit_length n - 1) < 2 ^ (54 + k)" by linarith
  then have "bit_length n - 1 < 54 + k" by (rule power_less_imp_less_exp [rotated]) simp
  then have dk: "d \<le> k" using d by (simp add: e_def)
  have n: "n div 2 ^ e * 2 ^ e + n mod 2 ^ e = n" by (rule div_mult_mod_eq)
  have "round53 n \<le> n + 2 ^ d"
  proof (cases "n mod 2 ^ e < 2 ^ (e - 1) \<or> n mod 2 ^ e = 2 ^ (e - 1) \<and> even (n div 2 ^ e)")
    case True
    then have "round53 n = n div 2 ^ e * 2 ^ e" using False by (simp add: round53_def e_def Let_def)
    with n show ?thesis by linarith
  next
    case up: False
    then have "round53 n = (n div 2 ^ e + 1) * 2 ^ e" using False by (simp add: round53_def e_def Let_def)
    also have "\<dots> = n div 2 ^ e * 2 ^ e + 2 ^ d + 2 ^ d" by (simp add: d algebra_simps)
    finally have "round53 n = n div 2 ^ e * 2 ^ e + 2 ^ d + 2 ^ d" .
    moreover have "2 ^ d \<le> n mod 2 ^ e" using up d by auto
    ultimately show ?thesis using n by linarith
  qed
  moreover have "(2::nat) ^ d \<le> 2 ^ k" using dk by (simp add: power_increasing)
  ultimately show ?thesis by linarith
qed

lemma draw_product:
  assumes "draw_ok r" and "0 < n" and "n \<le> 2 ^ Suc k"
  shows "round53 (draw_m r * n) + n \<le> n * 2 ^ draw_e r + 2 ^ k"
proof -
  have "draw_m r * n < 2 ^ 53 * 2 ^ Suc k"
    using assms by (intro mult_less_le_imp_less) (auto simp: draw_ok_def)
  then have "draw_m r * n < 2 ^ (54 + k)" by (simp add: power_add)
  then have "round53 (draw_m r * n) \<le> draw_m r * n + 2 ^ k" by (rule round53_upper)
  moreover have "draw_m r + 1 \<le> 2 ^ draw_e r" using assms(1) by (simp add: draw_ok_def)
  then have "(draw_m r + 1) * n \<le> 2 ^ draw_e r * n" by (rule mult_right_mono) simp
  then have "draw_m r * n + n \<le> n * 2 ^ draw_e r" by (simp add: algebra_simps)
  ultimately show ?thesis by linarith
qed

lemma times_less_100: "draw_ok r \<Longrightarrow> times_less r 100 100"
  using draw_product [of r 100 6] by (simp add: times_less_def)

lemma floor_times_3: "draw_ok r \<Longrightarrow> floor_times r 3 \<le> 2"
proof -
  assume "draw_ok r"
  then have "round53 (draw_m r * 3) < 3 * 2 ^ draw_e r" using draw_product [of r 3 1] by simp
  then have "floor_times r 3 < 3" by (simp add: floor_times_def less_mult_imp_div_less)
  then show ?thesis by simp
qed

lemma round_times_le:
  assumes "draw_ok r"
  shows "round_times r n \<le> n"
proof (cases "n = 0")
  case True
  then show ?thesis by (simp add: round_times_def round53_def)
next
  case False
  then obtain k where k: "bit_length n = Suc k" by (cases "bit_length n") (auto simp: bit_length.simps [of n])
  have "n \<le> 2 ^ Suc k" using bit_length_upper [of n] k by simp
  moreover have "2 ^ k \<le> n" using bit_length_lower [of n] False k by simp
  ultimately have "round53 (draw_m r * n) \<le> n * 2 ^ draw_e r"
    using draw_product [OF assms, of n k] False by linarith
  moreover have "(0::nat) < 2 ^ draw_e r" by simp
  moreover have "(n + 1) * 2 ^ (draw_e r + 1) = 2 * (n * 2 ^ draw_e r) + 2 * 2 ^ draw_e r" by simp
  ultimately have "2 * round53 (draw_m r * n) + 2 ^ draw_e r < (n + 1) * 2 ^ (draw_e r + 1)"
    by linarith
  then have "round_times r n < n + 1" unfolding round_times_def by (rule less_mult_imp_div_less)
  then show ?thesis by simp
qed

end
