(* ===== verification/Events.thy ===== *)
theory Events
  imports Headers
begin

text \<open>
  \<open>src/server/eventsStore.ts\<close>: the in-memory history of proxied requests and the rotated
  log file.  A log file is the list of its lines, \<open>None\<close> when it does not exist.  The
  fresh id and whether the write goes through come from outside.
\<close>

definition MAX_EVENTS :: nat where "MAX_EVENTS = 200"
definition MAX_EVENT_LOG_BYTES :: nat where "MAX_EVENT_LOG_BYTES = 5 * 1024 * 1024"
definition EVENT_LOG_ARCHIVES :: nat where "EVENT_LOG_ARCHIVES = 2"
definition MAX_EVENT_BYTES :: nat where "MAX_EVENT_BYTES = 256 * 1024"

record event_store =
  eventsBuffer :: "json list"
  log_active :: "string list option"
  log_archive1 :: "string list option"
  log_archive2 :: "string list option"

definition c_hex :: "char \<Rightarrow> bool" where
  "c_hex c = (is_digit c \<or> between CHR ''a'' CHR ''f'' (lower_char c))"

definition isUuid :: "string \<Rightarrow> bool" where
  "isUuid value =
     test_full (Seq (Times 8 (Cls c_hex)) (Seq (ch CHR ''-'') (Seq (Times 4 (Cls c_hex)) (Seq (ch CHR ''-'')
       (Seq (Cls (between CHR ''1'' CHR ''8'')) (Seq (Times 3 (Cls c_hex)) (Seq (ch CHR ''-'')
         (Seq (Cls (\<lambda>c. c = CHR ''8'' \<or> c = CHR ''9'' \<or> lower_char c = CHR ''a'' \<or> lower_char c = CHR ''b''))
           (Seq (Times 3 (Cls c_hex)) (Seq (ch CHR ''-'') (Times 12 (Cls c_hex)))))))))))) value"

definition boundEvent :: "fields \<Rightarrow> fields" where
  "boundEvent event =
     (if json_bytes (JObj event) \<le> MAX_EVENT_BYTES then event
      else jset (jset event ''request'' (JStr ''[Event details truncated: request exceeded persisted event limit]''))
             ''response'' (JStr ''[Event details truncated: response exceeded persisted event limit]''))"

text \<open>The event as it is kept: with a valid id, masked, and bounded.\<close>

definition kept_event :: "string \<Rightarrow> fields \<Rightarrow> fields" where
  "kept_event freshId event =
     (let i = string_of (jget event ''id'') in
      case sanitizeSecrets (JObj (jset event ''id'' (JStr (if isUuid i then i else freshId)))) of
        JObj e \<Rightarrow> boundEvent e
      | _ \<Rightarrow> [])"

definition serialized :: "fields \<Rightarrow> string" where
  "serialized event = (case stringify (JObj event) of None \<Rightarrow> [] | Some t \<Rightarrow> t) @ [CHR 0x0A]"

definition log_bytes :: "string list option \<Rightarrow> nat" where
  "log_bytes f = (case f of None \<Rightarrow> 0 | Some ls \<Rightarrow> (\<Sum>l\<leftarrow>ls. utf8_length l))"

text \<open>Oldest archive removed, the others shifted, the active file becomes the first archive.\<close>

definition rotateIfNeeded :: "nat \<Rightarrow> event_store \<Rightarrow> event_store" where
  "rotateIfNeeded incomingBytes s =
     (if log_bytes (log_active s) + incomingBytes \<le> MAX_EVENT_LOG_BYTES then s
      else s\<lparr>log_archive2 := log_archive1 s, log_archive1 := log_active s, log_active := None\<rparr>)"

definition append_line :: "string \<Rightarrow> event_store \<Rightarrow> event_store" where
  "append_line l s = s\<lparr>log_active := Some ((case log_active s of None \<Rightarrow> [] | Some ls \<Rightarrow> ls) @ [l])\<rparr>"

definition push_event :: "json \<Rightarrow> json list \<Rightarrow> json list" where
  "push_event e buf = (let b = buf @ [e] in if length b > MAX_EVENTS then tl b else b)"

definition addEvent :: "string \<Rightarrow> bool \<Rightarrow> fields \<Rightarrow> event_store \<Rightarrow> fields \<times> event_store" where
  "addEvent freshId writeOk event s =
     (let e = kept_event freshId event;
          s1 = s\<lparr>eventsBuffer := push_event (JObj e) (eventsBuffer s)\<rparr>;
          l = serialized e
      in (e, if writeOk then append_line l (rotateIfNeeded (utf8_length l) s1) else s1))"

definition getEventsHistory :: "event_store \<Rightarrow> json list" where
  "getEventsHistory s = eventsBuffer s"

definition clearEvents :: "event_store \<Rightarrow> event_store" where
  "clearEvents s = \<lparr>eventsBuffer = [], log_active = None, log_archive1 = None, log_archive2 = None\<rparr>"

section \<open>Histories\<close>

definition lines_of :: "string list option \<Rightarrow> string list" where
  "lines_of f = (case f of None \<Rightarrow> [] | Some ls \<Rightarrow> ls)"

definition log_lines :: "event_store \<Rightarrow> string list" where
  "log_lines s = lines_of (log_archive2 s) @ lines_of (log_archive1 s) @ lines_of (log_active s)"

definition last_n :: "nat \<Rightarrow> 'a list \<Rightarrow> 'a list" where
  "last_n n xs = drop (length xs - n) xs"

lemma last_n_rev: "last_n n xs = rev (take n (rev xs))"
  by (simp add: last_n_def take_rev)

lemma last_n_absorb: "last_n n (last_n n xs @ ys) = last_n n (xs @ ys)"
  by (simp add: last_n_rev)

lemma length_last_n: "length (last_n n xs) \<le> n"
  by (simp add: last_n_rev)

lemma push_last: "push_event e buf = last_n MAX_EVENTS (buf @ [e])" if "length buf \<le> MAX_EVENTS"
proof (cases "length buf = MAX_EVENTS")
  case True
  then have 1: "length (buf @ [e]) - MAX_EVENTS = Suc 0" and "length (buf @ [e]) > MAX_EVENTS" by simp_all
  then show ?thesis unfolding push_event_def Let_def last_n_def 1 by (simp only: if_True drop_Suc drop_0)
next
  case False
  with that have "length (buf @ [e]) \<le> MAX_EVENTS" by simp
  then show ?thesis by (simp add: push_event_def last_n_def)
qed

lemma rotate_lines: "suffix (log_lines (rotateIfNeeded n s)) (log_lines s)"
  by (auto simp: rotateIfNeeded_def log_lines_def lines_of_def suffix_def)

lemma append_line_lines: "log_lines (append_line l s) = log_lines s @ [l]"
  by (simp add: append_line_def log_lines_def lines_of_def split: option.splits)

fun add_events :: "(string \<times> bool \<times> fields) list \<Rightarrow> event_store \<Rightarrow> event_store" where
  "add_events [] s = s"
| "add_events ((i, ok, e) # es) s = add_events es (snd (addEvent i ok e s))"

definition kept_of :: "string \<times> bool \<times> fields \<Rightarrow> fields" where
  "kept_of x = kept_event (fst x) (snd (snd x))"

definition written :: "(string \<times> bool \<times> fields) list \<Rightarrow> string list" where
  "written es = map (\<lambda>x. serialized (kept_of x)) (filter (\<lambda>x. fst (snd x)) es)"

lemma addEvent_lines:
  "suffix (log_lines (snd (addEvent i ok e s))) (log_lines s @ written [(i, ok, e)])"
proof (cases ok)
  case True
  let ?l = "serialized (kept_event i e)"
  let ?s1 = "s\<lparr>eventsBuffer := push_event (JObj (kept_event i e)) (eventsBuffer s)\<rparr>"
  have "log_lines (snd (addEvent i ok e s)) = log_lines (rotateIfNeeded (utf8_length ?l) ?s1) @ [?l]"
    using True by (simp add: addEvent_def Let_def append_line_lines)
  moreover have "suffix (log_lines (rotateIfNeeded (utf8_length ?l) ?s1)) (log_lines s)"
    using rotate_lines [of "utf8_length ?l" ?s1] by (simp add: log_lines_def)
  ultimately show ?thesis using True by (simp add: written_def kept_of_def)
next
  case False
  then show ?thesis by (simp add: addEvent_def Let_def log_lines_def written_def)
qed

lemma add_events_lines: "suffix (log_lines (add_events es s)) (log_lines s @ written es)"
proof (induction es s rule: add_events.induct)
  case (2 i ok e es s)
  have "suffix (log_lines (snd (addEvent i ok e s)) @ written es) ((log_lines s @ written [(i, ok, e)]) @ written es)"
    using addEvent_lines [of i ok e s] by (simp del: append_assoc)
  moreover have "written ((i, ok, e) # es) = written [(i, ok, e)] @ written es" by (simp add: written_def)
  ultimately show ?case using 2 by (auto intro: suffix_order.trans)
qed (simp add: written_def)

lemma add_events_buffer:
  "length (eventsBuffer s) \<le> MAX_EVENTS \<Longrightarrow>
   eventsBuffer (add_events es s) = last_n MAX_EVENTS (eventsBuffer s @ map (\<lambda>x. JObj (kept_of x)) es)"
proof (induction es s rule: add_events.induct)
  case (1 s)
  then show ?case by (simp add: last_n_def)
next
  case (2 i ok e es s)
  let ?e = "JObj (kept_event i e)"
  have buf: "eventsBuffer (snd (addEvent i ok e s)) = last_n MAX_EVENTS (eventsBuffer s @ [?e])"
    using push_last [OF "2.prems"] by (simp add: addEvent_def Let_def append_line_def rotateIfNeeded_def)
  then have "length (eventsBuffer (snd (addEvent i ok e s))) \<le> MAX_EVENTS" by (simp add: length_last_n)
  with 2 buf show ?case by (simp add: last_n_absorb kept_of_def)
qed

lemma add_events_active:
  assumes "\<forall>x \<in> set es. utf8_length (serialized (kept_of x)) \<le> MAX_EVENT_LOG_BYTES"
  shows "log_bytes (log_active s) \<le> MAX_EVENT_LOG_BYTES \<Longrightarrow> log_bytes (log_active (add_events es s)) \<le> MAX_EVENT_LOG_BYTES"
  using assms
proof (induction es s rule: add_events.induct)
  case (2 i ok e es s)
  have "log_bytes (log_active (snd (addEvent i ok e s))) \<le> MAX_EVENT_LOG_BYTES"
    using "2.prems"
    by (auto simp: addEvent_def Let_def append_line_def rotateIfNeeded_def log_bytes_def kept_of_def split: option.splits if_splits)
  with 2 show ?case by simp
qed simp

end
