(* ===== verification/Mock_Props.thy ===== *)
theory Mock_Props
  imports Behavior_Store Fault_Lab Events Masking
begin

text \<open>
  The properties of the mock server's stores and filters: masking and headers, the mock state
  and the scripted behaviors, the fault laboratory and the event history.
\<close>

section \<open>Masking and headers\<close>

text \<open>Masking is idempotent, for texts and for whole values: what was masked once is not
  changed by masking it again, although the fourteen patterns run one after the other and each
  rewrites the text the next one sees.  The stores mask on every write and on every read, so
  this is what makes a stored value read back as it was written.\<close>

theorem masking_idempotent:
  "sanitizeSecretString (sanitizeSecretString s) = sanitizeSecretString s \<and>
   sanitizeSecrets (sanitizeSecrets v) = sanitizeSecrets v"
  by (simp add: sanitizeSecretString_idem)

text \<open>C36: The headers a mock may send.  Whatever object a behavior, a cache file or a generated
  response carries, the filter lets through only lower-case names that are on the safe list or
  of a safe family and not hop-by-hop or cookie headers, values without line breaks or nulls
  and within the size limits, a location only if it is a relative path, and each name once;
  filtering the result again changes nothing.\<close>

theorem response_headers_safe:
  "distinct (map fst (sanitizeResponseHeaders v)) \<and>
   (\<forall>(n, w) \<in> set (sanitizeResponseHeaders v).
      toLowerCase n = n \<and> n \<notin> set BLOCKED_RESPONSE_HEADERS \<and> (n \<in> set SAFE_RESPONSE_HEADERS \<or> isSafeResponseExtension n) \<and>
      list_all (\<lambda>s. length s \<le> 4096 \<and> \<not> has_break s) (header_values w) \<and> length (header_values w) \<le> 16 \<and>
      (n = ''location'' \<longrightarrow> (\<exists>s. w = JStr s \<and> isSafeRelativeLocation s))) \<and>
   sanitizeResponseHeaders (JObj (sanitizeResponseHeaders v)) = sanitizeResponseHeaders v"
proof -
  have "toLowerCase n = n \<and> n \<notin> set BLOCKED_RESPONSE_HEADERS \<and> (n \<in> set SAFE_RESPONSE_HEADERS \<or> isSafeResponseExtension n) \<and>
      list_all (\<lambda>s. length s \<le> 4096 \<and> \<not> has_break s) (header_values w) \<and> length (header_values w) \<le> 16 \<and>
      (n = ''location'' \<longrightarrow> (\<exists>s. w = JStr s \<and> isSafeRelativeLocation s))"
    if "(n, w) \<in> set (sanitizeResponseHeaders v)" for n w
    using sanitizeResponseHeaders_ok(2) [OF that] by (auto simp: header_ok_def name_allowed_def elim!: is_stringE)
  then show ?thesis using sanitizeResponseHeaders_ok(1) sanitizeResponseHeaders_idem by blast
qed

theorem response_headers_safe_witness:
  "sanitizeResponseHeaders (JObj [(''ETag'', JStr ''x''), (''Set-Cookie'', JStr ''y''), (''Location'', JStr ''//evil'')]) = [(''etag'', JStr ''x'')] \<and>
   distinct (map fst (sanitizeResponseHeaders (JObj [(''ETag'', JStr ''x''), (''Set-Cookie'', JStr ''y''), (''Location'', JStr ''//evil'')])))"
proof -
  have "sanitizeResponseHeaders (JObj [(''ETag'', JStr ''x''), (''Set-Cookie'', JStr ''y''), (''Location'', JStr ''//evil'')]) = [(''etag'', JStr ''x'')]"
    by code_simp
  with response_headers_safe [of "JObj [(''ETag'', JStr ''x''), (''Set-Cookie'', JStr ''y''), (''Location'', JStr ''//evil'')]"] show ?thesis by blast
qed

section \<open>Mock state\<close>

text \<open>C37: The mock state keeps what it is given.  After a save that returns, the state file reads
  as the old state with the one key changed to the masked value, within the limits on the
  number and size of the entries and with every value masked; a later request for that id of
  that provider is answered with exactly that value and leaves the file alone; and a save that
  throws leaves the file alone.\<close>

theorem state_save_then_get:
  assumes "json_file f" and "saveToStateStore (state_key provider i) obj f = (result, f')"
  shows "case result of
      Inl e \<Rightarrow> f' = f
    | Inr _ \<Rightarrow> \<exists>s s'. getStateStore f = Inr s \<and> getStateStore f' = Inr s' \<and> state_within s' \<and> (\<forall>(k, v) \<in> set s'. sanitized v) \<and>
        (\<forall>k. jget s' k = (if k = state_key provider i then parsed (sanitizeSecrets obj) else jget s k)) \<and>
        (\<forall>r. req_method r = ''GET'' \<longrightarrow> extractIdFromPath (req_path r) = Some i \<longrightarrow>
           resolveState r provider f' = (Inr (Some (createResponse (parsed (sanitizeSecrets obj)))), f'))"
proof (cases result)
  case (Inl e)
  with assms(2) saveToStateStore_throws show ?thesis by simp
next
  case (Inr u)
  let ?k = "state_key provider i"
  from save_then_read [OF assms(1)] assms(2) Inr obtain s s' where s: "getStateStore f = Inr s" "getStateStore f' = Inr s'"
    "state_inv s'" and get: "\<forall>k. jget s' k = (if k = ?k then parsed (sanitizeSecrets obj) else jget s k)"
    by blast
  have "obj \<noteq> JUndef"
  proof
    assume "obj = JUndef"
    moreover obtain s0 where "state_within (sanitize_entries (jset s0 ?k (sanitizeSecrets obj)))"
      using saveToStateStore_ok assms(2) Inr by blast
    moreover have "(?k, JUndef) \<in> set (sanitize_entries (jset s0 ?k JUndef))" for s0
    proof -
      have "(?k, JUndef) \<in> set (jset s0 ?k JUndef)" by (induction s0) auto
      then show ?thesis by (force simp: sanitize_entries_def)
    qed
    ultimately show False by (fastforce simp: state_within_def)
  qed
  then have ne: "parsed (sanitizeSecrets obj) \<noteq> JUndef"
    by (cases obj) (auto simp: sanitizeSecrets_def)
  have "sanitized v" if "(k, v) \<in> set s'" for k v
    using s(3) that sanitize_entries_sanitized unfolding state_inv_def by metis
  moreover have "resolveState r provider f' = (Inr (Some (createResponse (parsed (sanitizeSecrets obj)))), f')"
    if "req_method r = ''GET''" "extractIdFromPath (req_path r) = Some i" for r
    using that s(2) get ne by (simp add: resolveState_def Let_def)
  ultimately show ?thesis using s get Inr by (auto simp: state_inv_def)
qed

definition demo_obj :: json where
  "demo_obj = JObj [(''id'', JStr ''cus_1''), (''object'', JStr ''customer'')]"

lemma demo_obj_fixed: "sanitizeSecrets demo_obj = demo_obj"
proof -
  have "sanitizeSecretString ''cus_1'' = ''cus_1''" "sanitizeSecretString ''customer'' = ''customer''"
    by (rule sanitizeSecretString_unmarked; code_simp)+
  moreover have "\<not> isSecretFieldName ''id''" "\<not> isSecretFieldName ''object''" "\<not> isCardNumberField ''id'' None" "\<not> isCardNumberField ''object'' None"
    by code_simp+
  ultimately show ?thesis by (simp add: demo_obj_def sanitizeSecrets_def)
qed

lemma demo_save: "fst (saveToStateStore (state_key ''stripe'' ''cus_1'') demo_obj NoFile) = Inr ()"
proof -
  have k: "\<not> key_invalid (state_key ''stripe'' ''cus_1'')" by code_simp
  have size: "json_bytes (JObj [(state_key ''stripe'' ''cus_1'', demo_obj)]) \<le> 200"
    "case stringify demo_obj of None \<Rightarrow> False | Some t \<Rightarrow> utf8_length t \<le> 200"
    by code_simp+
  have "sanitize_entries [(state_key ''stripe'' ''cus_1'', demo_obj)] = [(state_key ''stripe'' ''cus_1'', demo_obj)]"
    by (simp add: sanitize_entries_def demo_obj_fixed)
  then have "boundState [(state_key ''stripe'' ''cus_1'', demo_obj)] = Inr [(state_key ''stripe'' ''cus_1'', demo_obj)]"
    using k size
    by (auto simp: boundState_Inr state_within_def MAX_STATE_ENTRIES_def MAX_STATE_BYTES_def MAX_STATE_ENTRY_BYTES_def
        split: option.splits)
  with k show ?thesis by (simp add: saveToStateStore_def mutateJsonFile_def readJsonFile_def demo_obj_fixed)
qed

definition demo_get :: NormalizedRequest where
  "demo_get = \<lparr>req_method = ''GET'', req_path = ''/v1/customers/cus_1'', req_query = [], req_headers = [], req_body = JUndef, receivedAt = []\<rparr>"

theorem state_save_then_get_witness:
  "\<exists>f'. saveToStateStore (state_key ''stripe'' ''cus_1'') demo_obj NoFile = (Inr (), f') \<and>
     resolveState demo_get ''stripe'' f' = (Inr (Some (createResponse demo_obj)), f')"
proof -
  obtain f' where s: "saveToStateStore (state_key ''stripe'' ''cus_1'') demo_obj NoFile = (Inr (), f')"
    using demo_save by (metis prod.collapse)
  have "extractIdFromPath (req_path demo_get) = Some ''cus_1''" "req_method demo_get = ''GET''" by code_simp+
  moreover have "parsed demo_obj = demo_obj" by (simp add: demo_obj_def)
  ultimately show ?thesis using state_save_then_get [OF _ s] s by (auto simp: demo_obj_fixed)
qed

section \<open>Scripted behaviors\<close>

text \<open>A scripted behavior is found by the requests it is for and by no others.  After
  \<open>setApiBehavior\<close> returns, a request with its method (in any letter case) and masked path
  gets exactly that behavior, every other request gets what it got before, and the store holds
  at most 500 behaviors; the behavior has a valid status and method and is masked.\<close>

theorem behavior_set_then_find:
  assumes "json_file f" and "distinct (map fst b)" and "setApiBehavior b f = (Inr n, f')"
  shows "\<exists>m p bs'. jget n ''method'' = JStr m \<and> jget n ''path'' = JStr p \<and> m \<in> set METHODS \<and> sanitizeSecretString p = p \<and>
     status_ok (jget n ''status'') \<and> sanitized (JObj n) \<and> getApiBehaviors f' = Inr bs' \<and> length bs' \<le> MAX_API_BEHAVIORS \<and>
     (\<forall>r. findApiBehavior r f' =
        (if toUpperCase (req_method r) @ '' '' @ req_path r = m @ '' '' @ p then Inr (Some (parsed (JObj n))) else findApiBehavior r f))"
proof -
  from set_then_find [OF assms] obtain bs where bs: "getApiBehaviors f = Inr bs" and n: "normalizeBehavior b = Inr n"
    and after: "getApiBehaviors f' = Inr (jset bs (behaviorKey (string_of (jget n ''method'')) (string_of (jget n ''path''))) (parsed (JObj n)))"
    and size: "length (jset bs (behaviorKey (string_of (jget n ''method'')) (string_of (jget n ''path''))) (JObj n)) \<le> MAX_API_BEHAVIORS"
    by blast
  from normalizeBehavior_shape [OF n] obtain m p0 where shape: "isApiBehavior (JObj n)" "sanitizeSecrets (JObj n) = JObj n"
    "jget n ''method'' = JStr m" "jget n ''path'' = JStr (sanitizeSecretString p0)" "m \<in> set METHODS" by blast
  let ?p = "sanitizeSecretString p0"
  have "findApiBehavior r f' =
      (if behaviorKey (req_method r) (req_path r) = behaviorKey m ?p then Inr (Some (parsed (JObj n))) else findApiBehavior r f)" for r
    using bs after shape(3,4) by (simp add: findApiBehavior_def Let_def jget_jset)
  then have find: "\<forall>r. findApiBehavior r f' =
      (if toUpperCase (req_method r) @ '' '' @ req_path r = m @ '' '' @ ?p then Inr (Some (parsed (JObj n))) else findApiBehavior r f)"
    using METHODS_fixed [OF shape(5)] by (simp add: behaviorKey_def)
  have "sanitized (JObj n)" using sanitized_sanitizeSecrets [of "JObj n"] shape(2) by simp
  moreover have "status_ok (jget n ''status'')" using shape(1) by (simp add: isApiBehavior_def)
  moreover have "length (jset bs (behaviorKey m ?p) (parsed (JObj n))) \<le> MAX_API_BEHAVIORS"
    using size shape(3,4) by (simp add: length_jset)
  ultimately show ?thesis using shape(3-5) after find sanitizeSecretString_idem by (intro exI) auto
qed

definition demo_behavior :: fields where
  "demo_behavior = [(''path'', JStr ''hi''), (''method'', JStr ''get''), (''status'', JInt 200), (''body'', JNull)]"

definition demo_normalized :: fields where
  "demo_normalized = [(''path'', JStr ''/hi''), (''method'', JStr ''GET''), (''status'', JInt 200), (''body'', JNull)]"

lemma demo_normalizes: "normalizeBehavior demo_behavior = Inr demo_normalized"
proof -
  have "sanitizeSecretString ''/hi'' = ''/hi''" "sanitizeSecretString ''GET'' = ''GET''"
    by (rule sanitizeSecretString_unmarked; code_simp)+
  moreover have "\<not> isSecretFieldName ''body''" "\<not> isCardNumberField ''body'' None" by code_simp+
  ultimately have s: "sanitizeSecrets (JObj demo_normalized) = JObj demo_normalized"
    using plain_names by (simp add: demo_normalized_def sanitizeSecrets_def)
  have "json_bytes (JObj demo_normalized) \<le> 200" by code_simp
  moreover have "toUpperCase ''get'' = ''GET''" "startsWith ''hi'' ''/'' = False" "has_break ''/hi'' = False" by code_simp+
  ultimately show ?thesis
    using s by (simp add: normalizeBehavior_def demo_behavior_def status_ok_def delay_ok_def checked_headers_def METHODS_def
        MAX_BEHAVIOR_BYTES_def flip: demo_normalized_def)
qed

lemma demo_sets: "\<exists>f'. setApiBehavior demo_behavior NoFile = (Inr demo_normalized, f')"
proof -
  have "behaviorKey ''GET'' ''/hi'' = ''GET /hi''" by code_simp
  moreover have "json_bytes (JObj [(''GET /hi'', JObj demo_normalized)]) \<le> 200" by code_simp
  ultimately have "add_behavior demo_normalized [] = Inr [(''GET /hi'', JObj demo_normalized)]"
    by (simp add: add_behavior_def demo_normalized_def MAX_API_BEHAVIORS_def MAX_BEHAVIOR_STORE_BYTES_def)
  then show ?thesis
    by (simp add: setApiBehavior_def demo_normalizes mutateJsonFile_def readJsonFile_def)
qed

theorem behavior_set_then_find_witness:
  "\<exists>f' m p. setApiBehavior demo_behavior NoFile = (Inr demo_normalized, f') \<and> jget demo_normalized ''method'' = JStr m \<and>
     jget demo_normalized ''path'' = JStr p \<and> sanitizeSecretString p = p"
proof -
  obtain f' where s: "setApiBehavior demo_behavior NoFile = (Inr demo_normalized, f')" using demo_sets by blast
  have "distinct (map fst demo_behavior)" by code_simp
  from behavior_set_then_find [OF _ this s] s show ?thesis by auto
qed

section \<open>The fault laboratory\<close>

text \<open>What the fault laboratory may decide.  Whatever the configuration file holds, a decision
  is taken from a configuration in range: switched off or at rate zero it never interferes, at
  rate 100 it always does, an injected error has one of the four status codes and the
  configured latency and retry time, and a delay lies between the configured bounds (or is the
  fixed latency) and never exceeds ten seconds -- for every draw of the random numbers, with
  the products rounded as the language does.\<close>

theorem fault_decision_bounds:
  assumes "draw_ok r1" and "draw_ok r2" and "draw_ok r3" and "decideFault f provider r1 r2 r3 = Inr d"
  shows "\<exists>c. readPersistedConfig f = Inr c \<and> config_ok c \<and>
     ((\<not> enabled c \<or> errorRate c = 0) \<longrightarrow> d = FaultOff) \<and> (enabled c \<and> errorRate c = 100 \<longrightarrow> d \<noteq> FaultOff) \<and>
     (case d of
        FaultOff \<Rightarrow> True
      | FaultDelay ms \<Rightarrow> 0 \<le> ms \<and> ms \<le> 10000 \<and>
          (if 0 < latencyMs c then ms = latencyMs c else latencyMinMs c \<le> ms \<and> ms \<le> latencyMaxMs c)
      | FaultError ms status retry body \<Rightarrow> ms = latencyMs c \<and> status \<in> {429, 500, 502, 503} \<and> retry = retryAfterSeconds c \<and>
          body = createProviderError provider (createFaultDetails status))"
proof -
  from assms(4) obtain c where c: "readPersistedConfig f = Inr c" by (auto simp: decideFault_def res_simps)
  have ok: "config_ok c" using readPersistedConfig_ok [OF c] .
  have delay: "0 < latencyMs c \<longrightarrow> pickLatency c r3 = latencyMs c"
    "\<not> 0 < latencyMs c \<longrightarrow> latencyMinMs c \<le> pickLatency c r3 \<and> pickLatency c r3 \<le> latencyMaxMs c"
    using round_times_le [OF assms(3), of "nat (latencyMaxMs c - latencyMinMs c)"] ok
    by (auto simp: pickLatency_def config_ok_def)
  have all: "errorRate c = 100 \<Longrightarrow> times_less r1 100 (nat (errorRate c))" using times_less_100 [OF assms(1)] by simp
  have codes: "statusCode c \<in> {429, 500, 502, 503}" using ok by (auto simp: config_ok_def STATUS_CODES_def)
  from assms(4) c have d: "d = (if \<not> enabled c then FaultOff
       else if \<not> (errorRate c > 0 \<and> times_less r1 100 (nat (errorRate c))) then FaultOff
       else if floor_times r2 3 = 2 then FaultDelay (pickLatency c r3)
       else FaultError (latencyMs c) (statusCode c) (retryAfterSeconds c)
                  (createProviderError provider (createFaultDetails (statusCode c))))"
    by (simp add: decideFault_def split: if_splits)
  have "(\<not> enabled c \<or> errorRate c = 0) \<longrightarrow> d = FaultOff" "enabled c \<and> errorRate c = 100 \<longrightarrow> d \<noteq> FaultOff"
    unfolding d using all by auto
  moreover have "case d of
        FaultOff \<Rightarrow> True
      | FaultDelay ms \<Rightarrow> 0 \<le> ms \<and> ms \<le> 10000 \<and>
          (if 0 < latencyMs c then ms = latencyMs c else latencyMinMs c \<le> ms \<and> ms \<le> latencyMaxMs c)
      | FaultError ms status retry body \<Rightarrow> ms = latencyMs c \<and> status \<in> {429, 500, 502, 503} \<and> retry = retryAfterSeconds c \<and>
          body = createProviderError provider (createFaultDetails status)"
    unfolding d using delay ok codes by (auto simp: config_ok_def)
  ultimately show ?thesis using c ok by blast
qed

definition chaos_file :: store_file where
  "chaos_file = Regular (Some (JObj [(''enabled'', JBool True), (''errorRate'', JInt 100), (''statusCode'', JInt 503)])) 60"

theorem fault_decision_bounds_witness:
  "\<exists>d. decideFault chaos_file Github (Draw 1 1) (Draw 0 0) (Draw 0 0) = Inr d \<and> d \<noteq> FaultOff"
proof -
  have ok: "draw_ok (Draw 0 0)" "draw_ok (Draw 1 1)" by (simp_all add: draw_ok_def)
  have c: "readPersistedConfig chaos_file = Inr (DEFAULT_CONFIG\<lparr>enabled := True, errorRate := 100, statusCode := 503\<rparr>)"
    by (simp add: readPersistedConfig_def readJsonFile_def chaos_file_def sanitizeConfig_def config_from_def readInteger_def
        readStatusCode_def STATUS_CODES_def validateConfig_def DEFAULT_CONFIG_def)
  then have "\<exists>d. decideFault chaos_file Github (Draw 1 1) (Draw 0 0) (Draw 0 0) = Inr d" by (simp add: decideFault_def)
  then obtain d where d: "decideFault chaos_file Github (Draw 1 1) (Draw 0 0) (Draw 0 0) = Inr d" by blast
  from fault_decision_bounds [OF ok(2,1,1) d] c d show ?thesis by auto
qed

section \<open>Event history\<close>

definition REQUEST_CUT :: string where
  "REQUEST_CUT = ''[Event details truncated: request exceeded persisted event limit]''"

definition RESPONSE_CUT :: string where
  "RESPONSE_CUT = ''[Event details truncated: response exceeded persisted event limit]''"

lemma sanitized_jset:
  "sanitized_props ob \<Longrightarrow> \<not> isSecretFieldName k \<Longrightarrow> sanitized v \<Longrightarrow> sanitized_props (jset ob k v)"
  by (induction ob k v rule: jset.induct) auto

lemma kept_event_sanitized: "sanitized (JObj (kept_event i e))"
proof -
  have "token_free REQUEST_CUT" "token_free RESPONSE_CUT"
  proof -
    have "sanitizeSecretString REQUEST_CUT = REQUEST_CUT" "sanitizeSecretString RESPONSE_CUT = RESPONSE_CUT"
      by (rule sanitizeSecretString_unmarked; code_simp)+
    then show "token_free REQUEST_CUT" "token_free RESPONSE_CUT" using token_free_sanitizeSecretString by metis+
  qed
  moreover have "\<not> isSecretFieldName ''request''" "\<not> isSecretFieldName ''response''" by code_simp+
  ultimately have "sanitized_props ob \<Longrightarrow> sanitized_props (boundEvent ob)" for ob
    by (simp add: boundEvent_def sanitized_jset flip: REQUEST_CUT_def RESPONSE_CUT_def)
  then show ?thesis
    by (simp add: kept_event_def Let_def sanitizeSecrets_def sanitized_sanitizeValue)
qed

text \<open>The event history.  Starting from empty files, after any sequence of events the memory
  holds exactly the last 200 of them in order, every one of them masked; the log files read from
  the oldest archive to the active one hold the most recent written events in order, without
  gap; and as long as single events fit, the active file never exceeds its limit.\<close>

theorem event_history:
  assumes "s = clearEvents s0"
  shows "getEventsHistory (add_events es s) = last_n MAX_EVENTS (map (\<lambda>x. JObj (kept_of x)) es) \<and>
     list_all sanitized (getEventsHistory (add_events es s)) \<and> suffix (log_lines (add_events es s)) (written es) \<and>
     ((\<forall>x \<in> set es. utf8_length (serialized (kept_of x)) \<le> MAX_EVENT_LOG_BYTES) \<longrightarrow>
        log_bytes (log_active (add_events es s)) \<le> MAX_EVENT_LOG_BYTES)"
proof -
  have h: "getEventsHistory (add_events es s) = last_n MAX_EVENTS (map (\<lambda>x. JObj (kept_of x)) es)"
    using add_events_buffer [of s es] assms by (simp add: getEventsHistory_def clearEvents_def)
  have "list_all sanitized (last_n n (map (\<lambda>x. JObj (kept_of x)) es))" for n
    using kept_event_sanitized by (auto simp: list_all_iff last_n_def kept_of_def simp del: sanitized.simps dest!: in_set_dropD)
  with h show ?thesis
    using add_events_lines [of es s] add_events_active [of es s] assms
    by (simp add: clearEvents_def log_lines_def lines_of_def log_bytes_def)
qed

definition no_events :: event_store where
  "no_events = \<lparr>eventsBuffer = [], log_active = None, log_archive1 = None, log_archive2 = None\<rparr>"

theorem event_history_witness:
  "list_all sanitized (getEventsHistory (add_events [(''new'', True, [(''password'', JStr ''x'')])] (clearEvents no_events)))"
  using event_history [OF refl, of "[(''new'', True, [(''password'', JStr ''x'')])]" no_events] by blast

end
