(* ===== verification/Cache.thy ===== *)
theory Cache
  imports Requests
begin

text \<open>
  \<open>src/cache/index.ts\<close>: cached responses, one file per provider and request hash, under
  a quota on their number and total size.  The cache directory is the list of the JSON files
  below it, in directory order; a file is identified by its provider directory and its name.
\<close>

definition MAX_CACHE_ENTRIES :: nat where "MAX_CACHE_ENTRIES = 100"
definition MAX_CACHE_BYTES :: nat where "MAX_CACHE_BYTES = 32 * 1024 * 1024"
definition MAX_CACHE_ENTRY_BYTES :: nat where "MAX_CACHE_ENTRY_BYTES = 1024 * 1024"

type_synonym cache_path = "string \<times> string"

record cache_file =
  file_path :: cache_path
  file_content :: "json option"
  file_size :: nat
  file_mtime :: nat

record CacheEntry =
  entry_status :: int
  entry_headers :: fields
  entry_body :: json

definition enc_entry :: "CacheEntry \<Rightarrow> json" where
  "enc_entry e = JObj [(''status'', JInt (entry_status e)), (''headers'', JObj (entry_headers e)), (''body'', entry_body e)]"

definition validateCacheEntry :: "json \<Rightarrow> (io_error, CacheEntry) res" where
  "validateCacheEntry value =
     (case value of
        JObj entry \<Rightarrow>
          (case jget entry ''status'' of
             JInt i \<Rightarrow> if i < 100 \<or> i > 599 then Inl (Thrown ''Cache status is invalid.'')
                       else Inr \<lparr>entry_status = i, entry_headers = sanitizeResponseHeaders (jget entry ''headers''),
                                 entry_body = jget entry ''body''\<rparr>
           | _ \<Rightarrow> Inl (Thrown ''Cache status is invalid.''))
      | _ \<Rightarrow> Inl (Thrown ''Cache entry is invalid.''))"

text \<open>\<open>/^[a-z0-9_-]+$/i\<close>.\<close>

definition name_ok :: "string \<Rightarrow> bool" where
  "name_ok s = (s \<noteq> [] \<and> list_all c_wdash s)"

definition cacheFilePath :: "string \<Rightarrow> string \<Rightarrow> (io_error, cache_path) res" where
  "cacheFilePath provider h =
     (if \<not> name_ok provider \<or> \<not> name_ok h
      then Inl (Thrown ''Cache provider and hash must contain only letters, numbers, underscores, or hyphens.'')
      else Inr (provider, h @ ''.json''))"

definition lookup :: "cache_path \<Rightarrow> cache_file list \<Rightarrow> cache_file option" where
  "lookup p files = List.find (\<lambda>c. file_path c = p) files"

definition getCachedResponse :: "string \<Rightarrow> string \<Rightarrow> cache_file list \<Rightarrow> (io_error, CacheEntry option) res" where
  "getCachedResponse provider h files =
     andThen (cacheFilePath provider h) (\<lambda>p.
       case lookup p files of
         None \<Rightarrow> Inr None
       | Some c \<Rightarrow>
           if file_size c > MAX_CACHE_ENTRY_BYTES then Inl (Thrown ''Cache entry exceeds its size limit.'')
           else (case file_content c of
                   None \<Rightarrow> Inl SyntaxError
                 | Some j \<Rightarrow> andThen (validateCacheEntry j) (\<lambda>e. Inr (Some e))))"

section \<open>The quota\<close>

text \<open>\<open>left.mtimeMs - right.mtimeMs || left.path.localeCompare(right.path)\<close>; the order of
  paths is a parameter.\<close>

definition older :: "(cache_path \<Rightarrow> cache_path \<Rightarrow> bool) \<Rightarrow> cache_file \<Rightarrow> cache_file \<Rightarrow> bool" where
  "older le a b = (file_mtime a < file_mtime b \<or> file_mtime a = file_mtime b \<and> le (file_path a) (file_path b))"

fun insert_file :: "(cache_path \<Rightarrow> cache_path \<Rightarrow> bool) \<Rightarrow> cache_file \<Rightarrow> cache_file list \<Rightarrow> cache_file list" where
  "insert_file le x [] = [x]"
| "insert_file le x (y # ys) = (if older le x y then x # y # ys else y # insert_file le x ys)"

definition by_age :: "(cache_path \<Rightarrow> cache_path \<Rightarrow> bool) \<Rightarrow> cache_file list \<Rightarrow> cache_file list" where
  "by_age le files = foldr (insert_file le) files []"

text \<open>The eviction loop: the paths to remove, oldest first.\<close>

fun evict :: "nat \<Rightarrow> nat \<Rightarrow> cache_file list \<Rightarrow> cache_path list" where
  "evict cnt bytes [] = []"
| "evict cnt bytes (c # cs) =
     (if cnt \<le> MAX_CACHE_ENTRIES \<and> bytes \<le> MAX_CACHE_BYTES then []
      else file_path c # evict (cnt - 1) (bytes - file_size c) cs)"

definition total_size :: "cache_file list \<Rightarrow> nat" where
  "total_size files = (\<Sum>c\<leftarrow>files. file_size c)"

definition enforceCacheQuota :: "(cache_path \<Rightarrow> cache_path \<Rightarrow> bool) \<Rightarrow> cache_file list \<Rightarrow> cache_file list" where
  "enforceCacheQuota le files =
     (let gone = evict (length files) (total_size files) (by_age le files) in
      filter (\<lambda>c. file_path c \<notin> set gone) files)"

text \<open>Writing a file: in place when it exists, else a new directory entry.\<close>

definition write_file :: "cache_path \<Rightarrow> json \<Rightarrow> nat \<Rightarrow> cache_file list \<Rightarrow> cache_file list" where
  "write_file p v now files =
     (let c = \<lparr>file_path = p, file_content = Some (parsed v), file_size = store_bytes v, file_mtime = now\<rparr> in
      if p \<in> file_path ` set files then map (\<lambda>d. if file_path d = p then c else d) files else files @ [c])"

definition setCachedResponse ::
  "(cache_path \<Rightarrow> cache_path \<Rightarrow> bool) \<Rightarrow> string \<Rightarrow> string \<Rightarrow> json \<Rightarrow> nat \<Rightarrow> cache_file list \<Rightarrow>
   (io_error, unit) res \<times> cache_file list" where
  "setCachedResponse le provider h entry now files =
     (case andThen (cacheFilePath provider h) (\<lambda>p. andThen (validateCacheEntry entry) (\<lambda>e.
             if json_bytes (enc_entry e) > MAX_CACHE_ENTRY_BYTES then Inl (Thrown ''Cache entry exceeds its size limit.'')
             else Inr (p, e))) of
        Inl e \<Rightarrow> (Inl e, files)
      | Inr (p, e) \<Rightarrow> (Inr (), enforceCacheQuota le (write_file p (enc_entry e) now files)))"

definition clearCache :: "cache_file list \<Rightarrow> cache_file list" where
  "clearCache files = []"

section \<open>What eviction leaves\<close>

lemma mset_insert_file [simp]: "mset (insert_file le x ys) = add_mset x (mset ys)"
  by (induction ys) auto

lemma mset_by_age [simp]: "mset (by_age le files) = mset files"
  by (induction files) (auto simp: by_age_def)

lemma evict_prefix: "\<exists>n \<le> length cs. evict cnt bytes cs = map file_path (take n cs)"
proof (induction cnt bytes cs rule: evict.induct)
  case (2 cnt bytes c cs)
  show ?case
  proof (cases "cnt \<le> MAX_CACHE_ENTRIES \<and> bytes \<le> MAX_CACHE_BYTES")
    case True
    then show ?thesis by (intro exI [of _ 0]) simp
  next
    case False
    with 2 obtain n where "n \<le> length cs" "evict (cnt - 1) (bytes - file_size c) cs = map file_path (take n cs)" by blast
    with False show ?thesis by (intro exI [of _ "Suc n"]) auto
  qed
qed simp

lemma evict_enough:
  "cnt = length cs \<Longrightarrow> bytes = total_size cs \<Longrightarrow>
   \<exists>n. evict cnt bytes cs = map file_path (take n cs) \<and> n \<le> length cs \<and>
       length (drop n cs) \<le> MAX_CACHE_ENTRIES \<and> total_size (drop n cs) \<le> MAX_CACHE_BYTES \<and>
       (\<forall>m < n. \<not> (length (drop m cs) \<le> MAX_CACHE_ENTRIES \<and> total_size (drop m cs) \<le> MAX_CACHE_BYTES))"
proof (induction cnt bytes cs rule: evict.induct)
  case (1 cnt bytes)
  then show ?case by (intro exI [of _ 0]) (simp add: total_size_def)
next
  case (2 cnt bytes c cs)
  show ?case
  proof (cases "cnt \<le> MAX_CACHE_ENTRIES \<and> bytes \<le> MAX_CACHE_BYTES")
    case True
    with 2 show ?thesis by (intro exI [of _ 0]) simp
  next
    case False
    have "cnt - 1 = length cs" "bytes - file_size c = total_size cs" using 2(2,3) by (simp_all add: total_size_def)
    with 2 False obtain n where n: "evict (cnt - 1) (bytes - file_size c) cs = map file_path (take n cs)" "n \<le> length cs"
       "length (drop n cs) \<le> MAX_CACHE_ENTRIES" "total_size (drop n cs) \<le> MAX_CACHE_BYTES"
       "\<forall>m < n. \<not> (length (drop m cs) \<le> MAX_CACHE_ENTRIES \<and> total_size (drop m cs) \<le> MAX_CACHE_BYTES)" by blast
    have "\<not> (length (drop m (c # cs)) \<le> MAX_CACHE_ENTRIES \<and> total_size (drop m (c # cs)) \<le> MAX_CACHE_BYTES)" if "m < Suc n" for m
      using that n(5) False 2(2,3) by (cases m) auto
    with n False show ?thesis by (intro exI [of _ "Suc n"]) auto
  qed
qed

text \<open>With distinct paths, the files that stay are those behind the evicted prefix.\<close>

lemma distinct_by_age: "distinct (map file_path files) \<Longrightarrow> distinct (map file_path (by_age le files))"
  using mset_by_age [of le files] mset_eq_imp_distinct_iff [of "map file_path (by_age le files)" "map file_path files"] by simp

lemma filter_take_paths:
  assumes "distinct (map file_path cs)"
  shows "filter (\<lambda>c. file_path c \<notin> set (map file_path (take n cs))) cs = drop n cs"
proof -
  have "distinct (map file_path (take n cs @ drop n cs))" using assms by simp
  then have "file_path c \<notin> set (map file_path (take n cs))" if "c \<in> set (drop n cs)" for c
    using that by (auto simp del: append_take_drop_id)
  then have "filter (\<lambda>c. file_path c \<notin> set (map file_path (take n cs))) (take n cs @ drop n cs) = drop n cs"
    by (subst filter_append) (auto simp: filter_empty_conv filter_id_conv)
  then show ?thesis by simp
qed

lemma enforce_mset:
  assumes "distinct (map file_path files)"
    and "evict (length files) (total_size files) (by_age le files) = map file_path (take n (by_age le files))"
  shows "mset (enforceCacheQuota le files) = mset (drop n (by_age le files))"
proof -
  have "mset (enforceCacheQuota le files) = mset (filter (\<lambda>c. file_path c \<notin> set (map file_path (take n (by_age le files)))) (by_age le files))"
    using mset_by_age [of le files] assms(2) by (simp add: enforceCacheQuota_def Let_def flip: filter_mset_eq_conv)
  also have "\<dots> = mset (drop n (by_age le files))" by (simp only: filter_take_paths [OF distinct_by_age [OF assms(1)]])
  finally show ?thesis .
qed

lemma enforce_quota:
  assumes "distinct (map file_path files)"
  shows "\<exists>n \<le> length files. mset (enforceCacheQuota le files) = mset (drop n (by_age le files)) \<and>
     length (enforceCacheQuota le files) \<le> MAX_CACHE_ENTRIES \<and> total_size (enforceCacheQuota le files) \<le> MAX_CACHE_BYTES \<and>
     (\<forall>m < n. \<not> (length (drop m (by_age le files)) \<le> MAX_CACHE_ENTRIES \<and> total_size (drop m (by_age le files)) \<le> MAX_CACHE_BYTES))"
proof -
  have size: "mset xs = mset ys \<Longrightarrow> length xs = length ys \<and> total_size xs = total_size ys" for xs ys
  proof -
    assume h: "mset xs = mset ys"
    then have "mset (map file_size xs) = mset (map file_size ys)" by simp
    then have "sum_list (map file_size xs) = sum_list (map file_size ys)" by (metis sum_mset_sum_list)
    with mset_eq_length [OF h] show ?thesis by (simp add: total_size_def)
  qed
  have "length files = length (by_age le files)" "total_size files = total_size (by_age le files)"
    using size [of files "by_age le files"] by simp_all
  from evict_enough [OF this] obtain n where
    n: "evict (length files) (total_size files) (by_age le files) = map file_path (take n (by_age le files))"
      "n \<le> length (by_age le files)" "length (drop n (by_age le files)) \<le> MAX_CACHE_ENTRIES"
      "total_size (drop n (by_age le files)) \<le> MAX_CACHE_BYTES"
      "\<forall>m < n. \<not> (length (drop m (by_age le files)) \<le> MAX_CACHE_ENTRIES \<and> total_size (drop m (by_age le files)) \<le> MAX_CACHE_BYTES)"
    by blast
  note m = enforce_mset [OF assms n(1)]
  with size [OF m] n \<open>length files = length (by_age le files)\<close> show ?thesis by (intro exI [of _ n]) simp
qed

section \<open>Reading back\<close>

lemma validateCacheEntry_enc:
  assumes "validateCacheEntry v = Inr e"
  shows "validateCacheEntry (parsed (enc_entry e)) = Inr (e\<lparr>entry_body := parsed (entry_body e)\<rparr>)"
proof -
  from assms obtain i h b where e: "e = \<lparr>entry_status = i, entry_headers = sanitizeResponseHeaders h, entry_body = b\<rparr>"
    "100 \<le> i" "i \<le> 599"
    by (auto simp: validateCacheEntry_def split: json.splits if_splits)
  have "parsed_props (sanitizeResponseHeaders h) = sanitizeResponseHeaders h"
    using plain_response_headers by (rule parsed_plain)
  with e show ?thesis
    by (simp add: enc_entry_def validateCacheEntry_def sanitizeResponseHeaders_idem)
qed

lemma find_replaced:
  "file_path c = q \<Longrightarrow>
   List.find (\<lambda>c. file_path c = p) (map (\<lambda>d. if file_path d = q then c else d) files) =
     (if p = q then (if q \<in> file_path ` set files then Some c else None) else List.find (\<lambda>c. file_path c = p) files)"
proof (induction files)
  case (Cons d files)
  then show ?case by (cases "file_path d = q"; cases "p = q") simp_all
qed simp

lemma find_appended:
  "file_path c = q \<Longrightarrow> q \<notin> file_path ` set files \<Longrightarrow>
   List.find (\<lambda>c. file_path c = p) (files @ [c]) = (if p = q then Some c else List.find (\<lambda>c. file_path c = p) files)"
  by (induction files) auto

lemma lookup_write_file:
  "lookup p (write_file q v now files) =
     (if p = q then Some \<lparr>file_path = q, file_content = Some (parsed v), file_size = store_bytes v, file_mtime = now\<rparr>
      else lookup p files)"
  unfolding lookup_def write_file_def Let_def
  by (subst if_distrib, subst find_replaced) (simp_all add: find_appended)

lemma distinct_write_file:
  assumes "distinct (map file_path files)"
  shows "distinct (map file_path (write_file p v now files))"
proof -
  have "file_path c = p \<Longrightarrow> map file_path (map (\<lambda>d. if file_path d = p then c else d) files) = map file_path files" for c
    by (induction files) auto
  then show ?thesis using assms unfolding write_file_def Let_def by (simp del: map_map)
qed

lemma lookup_enforce:
  assumes "lookup p files = Some c"
  shows "lookup p (enforceCacheQuota le files) = None \<or> lookup p (enforceCacheQuota le files) = Some c"
proof -
  have "List.find (\<lambda>c. file_path c = p) (filter (\<lambda>c. file_path c \<notin> G) files) =
      (if p \<in> G then None else List.find (\<lambda>c. file_path c = p) files)" for G
    by (induction files) auto
  with assms show ?thesis by (auto simp: lookup_def enforceCacheQuota_def Let_def)
qed

end
