(* ===== verification/Access_Control.thy ===== *)
theory Access_Control
  imports Requests
begin

text \<open>
  \<open>src/server/accessControl.ts\<close>: who may use the dashboard and the proxy routes.  The
  URL parser and \<open>decodeURIComponent\<close> of the platform are parameters (\<open>None\<close>: they
  throw).
\<close>

definition MIN_TOKEN_LENGTH :: nat where "MIN_TOKEN_LENGTH = 24"
definition AUTH_COOKIE :: string where "AUTH_COOKIE = ''ghostapi_dashboard_token''"

text \<open>\<open>.replace(/^\[|\]$/g, "")\<close>.\<close>

definition strip_brackets :: "string \<Rightarrow> string" where
  "strip_brackets s =
     (let t = (if s \<noteq> [] \<and> hd s = CHR ''['' then tl s else s)
      in if t \<noteq> [] \<and> last t = CHR '']'' then butlast t else t)"

definition isLoopbackHost :: "string \<Rightarrow> bool" where
  "isLoopbackHost host =
     (strip_brackets (toLowerCase (trim host)) \<in> set [''localhost'', ''127.0.0.1'', ''::1''])"

record ServerConfig =
  cfg_host :: string
  cfg_https :: bool
  cfg_authToken :: "string option"

text \<open>\<open>!token || token.length < 24\<close>; an empty token counts as missing.\<close>

definition assertSafeDashboardConfig :: "ServerConfig \<Rightarrow> (io_error, unit) res" where
  "assertSafeDashboardConfig config =
     (if isLoopbackHost (cfg_host config) then Inr ()
      else (case cfg_authToken config of
              Some t \<Rightarrow> if length t < MIN_TOKEN_LENGTH
                        then Inl (Thrown (''Remote bind '' @ cfg_host config @ '' requires GHOSTAPI_AUTH_TOKEN with at least 24 characters.''))
                        else Inr ()
            | None \<Rightarrow> Inl (Thrown (''Remote bind '' @ cfg_host config @ '' requires GHOSTAPI_AUTH_TOKEN with at least 24 characters.''))))"

record http_request =
  http_method :: string
  http_path :: string
  http_header :: "string \<Rightarrow> string option"
  http_token_query :: "string option"
  http_localPort :: nat

record url =
  url_protocol :: string
  url_hostname :: string
  url_port :: string
  url_host :: string

record platform =
  parse_url :: "string \<Rightarrow> url option"
  decodeURIComponent :: "string \<Rightarrow> string option"

datatype decision =
    Next
  | ForbiddenOrigin
  | AuthRequired
  | LoginRedirect string
  | URIError

section \<open>Routes\<close>

text \<open>\<open>replace(/\/{2,}/g, "/")\<close>.\<close>

fun collapse :: "string \<Rightarrow> string" where
  "collapse (c # d # cs) =
     (if c = CHR ''/'' \<and> d = CHR ''/'' then collapse (d # cs) else c # collapse (d # cs))"
| "collapse s = s"

definition canonicalPath :: "string \<Rightarrow> string" where
  "canonicalPath path =
     (let p = collapse path;
          q = (if p \<noteq> [] \<and> last p = CHR ''/'' then butlast p else p);
          normalized = toLowerCase q
      in if normalized = [] then ''/'' else normalized)"

definition isDashboardPath :: "string \<Rightarrow> bool" where
  "isDashboardPath path =
     (path = ''/dashboard'' \<or> startsWith path ''/dashboard/'' \<or> path = ''/events'' \<or> path = ''/api'' \<or> startsWith path ''/api/'')"

definition isPublicRoute :: "string \<Rightarrow> bool" where
  "isPublicRoute path = (path = ''/'' \<or> path = ''/health'')"

section \<open>Tokens\<close>

text \<open>UTF-8 is injective, so equal buffers are equal strings; an empty string is falsy.\<close>

definition tokenMatches :: "string option \<Rightarrow> string option \<Rightarrow> bool" where
  "tokenMatches candidate expected =
     (case (candidate, expected) of
        (Some c, Some e) \<Rightarrow> c \<noteq> [] \<and> e \<noteq> [] \<and> c = e
      | _ \<Rightarrow> False)"

text \<open>The cookie loop; \<open>decodeURIComponent\<close> may throw.\<close>

fun cookie_token :: "platform \<Rightarrow> string list \<Rightarrow> (unit, string option) res" where
  "cookie_token pf [] = Inr None"
| "cookie_token pf (cookie # cookies) =
     (let parts = split_on (CHR ''='') (trim cookie) in
      if hd parts = AUTH_COOKIE
      then (case decodeURIComponent pf (join ''='' (tl parts)) of None \<Rightarrow> Inl () | Some v \<Rightarrow> Inr (Some v))
      else cookie_token pf cookies)"

definition readRequestToken :: "platform \<Rightarrow> http_request \<Rightarrow> (unit, string option) res" where
  "readRequestToken pf r =
     (let bearer = (case http_header r ''authorization'' of
                      Some a \<Rightarrow> if startsWith (toLowerCase a) ''bearer '' then Some (trim (drop 7 a)) else None
                    | None \<Rightarrow> None);
          headerToken = map_option trim (http_header r ''x-ghostapi-token'')
      in case bearer of
           Some t \<Rightarrow> Inr (Some t)
         | None \<Rightarrow>
             if headerToken \<noteq> None \<and> headerToken \<noteq> Some [] then Inr headerToken
             else (case http_header r ''cookie'' of
                     None \<Rightarrow> Inr None
                   | Some c \<Rightarrow> if c = [] then Inr None else cookie_token pf (split_on (CHR '';'') c)))"

definition isAllowedOrigin :: "platform \<Rightarrow> string \<Rightarrow> http_request \<Rightarrow> bool \<Rightarrow> bool" where
  "isAllowedOrigin pf origin r remote =
     (case parse_url pf origin of
        None \<Rightarrow> False
      | Some u \<Rightarrow>
          if \<not> remote
          then isLoopbackHost (url_hostname u) \<and>
               (if url_port u \<noteq> [] then url_port u else if url_protocol u = ''https:'' then ''443'' else ''80'') =
                 nat_digits (http_localPort r)
          else Some (toLowerCase (url_host u)) = map_option toLowerCase (http_header r ''host''))"

definition dashboardAccessControl :: "platform \<Rightarrow> ServerConfig \<Rightarrow> http_request \<Rightarrow> decision" where
  "dashboardAccessControl pf config r =
     (let remote = (\<not> isLoopbackHost (cfg_host config));
          path = canonicalPath (http_path r)
      in if \<not> (isDashboardPath path \<or> \<not> isPublicRoute path) then Next
         else if (case http_header r ''origin'' of None \<Rightarrow> False | Some origin \<Rightarrow> \<not> isAllowedOrigin pf origin r remote)
         then ForbiddenOrigin
         else if \<not> remote then Next
         else if http_method r = ''GET'' \<and> path = ''/dashboard'' \<and> tokenMatches (http_token_query r) (cfg_authToken config)
         then LoginRedirect (the (http_token_query r))
         else (case readRequestToken pf r of
                 Inl _ \<Rightarrow> URIError
               | Inr t \<Rightarrow> if \<not> tokenMatches t (cfg_authToken config) then AuthRequired else Next))"

end
