(* ===== verification/Cache_Props.thy ===== *)
theory Cache_Props
  imports Cache Access_Control
begin

text \<open>
  The properties of the response cache, of its keys, and of the access control in front of the
  server.
\<close>

section \<open>Cache keys\<close>

text \<open>The cache key does not depend on the order of properties.  Two requests that agree on
  method, path and the headers that matter, and whose query and body differ only in the order
  in which objects list their properties, at any depth, have the same cache key, for every
  collation order that tells the property names apart.\<close>

theorem cache_key_order_independent:
  assumes "req_method r = req_method r'" and "req_path r = req_path r'"
    and "extractImportantHeaders le (req_headers r) = extractImportantHeaders le (req_headers r')"
    and "reordered le (JObj (sortObject le (req_query r))) (JObj (sortObject le (req_query r')))"
    and "reordered le (req_body r) (req_body r')"
  shows "createCacheKey le r provider = createCacheKey le r' provider"
proof -
  have "stableStringify le (JObj (sortObject le (req_query r))) = stableStringify le (JObj (sortObject le (req_query r')))"
    "stableStringify le (req_body r) = stableStringify le (req_body r')"
    using assms(4,5) stableStringify_reordered by blast+
  then have "stable_props le [(''provider'', JStr provider), (''method'', JStr (req_method r)), (''path'', JStr (req_path r)),
          (''query'', JObj (sortObject le (req_query r))), (''body'', req_body r),
          (''importantHeaders'', JObj (extractImportantHeaders le (req_headers r)))] =
      stable_props le [(''provider'', JStr provider), (''method'', JStr (req_method r')), (''path'', JStr (req_path r')),
          (''query'', JObj (sortObject le (req_query r'))), (''body'', req_body r'),
          (''importantHeaders'', JObj (extractImportantHeaders le (req_headers r')))]"
    using assms(1-3) by (simp only: stable_props.simps)
  then show ?thesis by (simp only: createCacheKey_def stableStringify.simps)
qed

definition demo_request :: "json \<Rightarrow> NormalizedRequest" where
  "demo_request body = \<lparr>req_method = ''POST'', req_path = ''/x'', req_query = [], req_headers = [], req_body = body, receivedAt = []\<rparr>"

definition code_order :: collation where
  "code_order a b = (a \<le> b)"

theorem cache_key_order_independent_witness:
  "createCacheKey code_order (demo_request (JObj [(''a'', JInt 1), (''b'', JInt 2)])) ''generic'' =
   createCacheKey code_order (demo_request (JObj [(''b'', JInt 2), (''a'', JInt 1)])) ''generic''"
proof (rule cache_key_order_independent)
  have "separates code_order K" for K by (auto simp: separates_def code_order_def)
  then show "reordered code_order (req_body (demo_request (JObj [(''a'', JInt 1), (''b'', JInt 2)])))
      (req_body (demo_request (JObj [(''b'', JInt 2), (''a'', JInt 1)])))"
    unfolding demo_request_def
    by (simp, intro reordered_obj [where ob' = "[(''a'', JInt 1), (''b'', JInt 2)]"]) (auto intro: reordered_refl)
qed (auto simp: demo_request_def intro: reordered_refl)

section \<open>The quota and the round trip\<close>


text \<open>A large array of small numbers: two bytes an element in the compact text, seven in the
  indented one.\<close>

definition zeros :: "nat \<Rightarrow> json" where
  "zeros n = JArr (replicate (Suc n) (JInt 0))"

definition zeros_entry :: "nat \<Rightarrow> json" where
  "zeros_entry n = JObj [(''status'', JInt 200), (''body'', zeros n)]"

lemma utf8_join_replicate: "utf8_length (join sep (replicate (Suc n) x)) = n * (utf8_length sep + utf8_length x) + utf8_length x"
proof (induction n)
  case (Suc n)
  have "join sep (replicate (Suc (Suc n)) x) = x @ sep @ join sep (replicate (Suc n) x)" by simp
  then have "utf8_length (join sep (replicate (Suc (Suc n)) x)) = utf8_length x + utf8_length sep + utf8_length (join sep (replicate (Suc n) x))"
    by (simp only: utf8_length_append)
  with Suc show ?case by simp
qed simp

lemma zero_text: "stringify (JInt 0) = Some ''0''" "pretty d (JInt 0) = Some ''0''" "utf8_length ''0'' = 1"
proof -
  have "int_text 0 = ''0''" "utf8_length ''0'' = 1" by code_simp+
  then show "stringify (JInt 0) = Some ''0''" "pretty d (JInt 0) = Some ''0''" "utf8_length ''0'' = 1" by simp_all
qed

lemma zeros_text: "stringify_elems (replicate n (JInt 0)) = replicate n ''0''" "pretty_elems d (replicate n (JInt 0)) = replicate n ''0''"
  by (induction n) (simp_all add: zero_text del: stringify.simps pretty.simps)

lemma piece_lengths:
  "utf8_length '',''  = 1" "utf8_length '':''  = 1" "utf8_length '': ''  = 2" "utf8_length ''[''  = 1" "utf8_length '']''  = 1"
  "utf8_length ''{''  = 1" "utf8_length ''}''  = 1" "utf8_length ''{}''  = 2" "utf8_length ''200'' = 3"
  "utf8_length (json_string ''status'') = 8" "utf8_length (json_string ''headers'') = 9" "utf8_length (json_string ''body'') = 6"
  by code_simp+

lemma newline_length: "utf8_length (newline d) = Suc d"
proof -
  have "code CHR '' '' < 128" by code_simp
  then have "utf8_length (replicate d CHR '' '') = d" by (induction d) (simp_all add: utf8_length_def)
  moreover have "utf8_length (newline d) = utf8_length [CHR 0x0A] + utf8_length (replicate d CHR '' '')"
    unfolding newline_def by (simp flip: utf8_length_append)
  moreover have "utf8_length [CHR 0x0A] = 1" by code_simp
  ultimately show ?thesis by simp
qed

lemmas text_lengths = utf8_length_append utf8_join_replicate piece_lengths newline_length zero_text(3)

lemma zeros_compact: "\<exists>t. stringify (zeros n) = Some t \<and> utf8_length t = 2 * n + 3"
proof -
  have "stringify (zeros n) = Some (''['' @ join '','' (replicate (Suc n) ''0'') @ '']'')"
    by (simp only: zeros_def stringify.simps zeros_text)
  moreover have "utf8_length (''['' @ join '','' (replicate (Suc n) ''0'') @ '']'') = 2 * n + 3"
    by (simp only: text_lengths) simp
  ultimately show ?thesis by blast
qed

definition zeros_cached :: "nat \<Rightarrow> CacheEntry" where
  "zeros_cached n = \<lparr>entry_status = 200, entry_headers = [], entry_body = zeros n\<rparr>"

lemma zeros_valid: "validateCacheEntry (zeros_entry n) = Inr (zeros_cached n)"
  by (simp add: validateCacheEntry_def zeros_entry_def zeros_cached_def sanitizeResponseHeaders_def)

lemma text_200: "int_text 200 = ''200''"
  by code_simp

lemma zeros_entry_compact: "json_bytes (enc_entry (zeros_cached n)) = 2 * n + 38"
proof -
  obtain t where t: "stringify (zeros n) = Some t" "utf8_length t = 2 * n + 3" using zeros_compact by blast
  have "stringify (enc_entry (zeros_cached n)) =
      Some (''{'' @ ((json_string ''status'' @ '':'' @ ''200'') @ '','' @ (json_string ''headers'' @ '':'' @ ''{'' @ ''}'') @ '','' @
        json_string ''body'' @ '':'' @ t) @ ''}'')"
    unfolding enc_entry_def zeros_cached_def CacheEntry.select_convs
    by (simp only: stringify.simps stringify_elems.simps stringify_props.simps option.case text_200 t(1) join.simps append.left_neutral)
  then show ?thesis unfolding json_bytes_def by (simp only: option.case text_lengths t(2))
qed

lemma zeros_pretty: "\<exists>t. pretty 2 (zeros n) = Some t \<and> utf8_length t = 7 * n + 11"
proof -
  have "pretty 2 (zeros n) = Some (''['' @ newline (2 + 2) @ join ('','' @ newline (2 + 2)) (replicate (Suc n) ''0'') @ newline 2 @ '']'')"
    unfolding zeros_def by (subst pretty.simps(7), subst zeros_text) (simp only: replicate_Suc list.distinct if_False)
  moreover have "utf8_length (''['' @ newline (2 + 2) @ join ('','' @ newline (2 + 2)) (replicate (Suc n) ''0'') @ newline 2 @ '']'') = 7 * n + 11"
    by (simp only: text_lengths) simp
  ultimately show ?thesis by blast
qed

lemma zeros_entry_stored: "7 * n \<le> store_bytes (enc_entry (zeros_cached n))" "store_bytes (enc_entry (zeros_cached n)) \<le> 7 * n + 200"
proof -
  obtain t where t: "pretty 2 (zeros n) = Some t" "utf8_length t = 7 * n + 11" using zeros_pretty by blast
  have "pretty 0 (enc_entry (zeros_cached n)) =
      Some (''{'' @ newline 2 @ ((json_string ''status'' @ '': '' @ ''200'') @ ('','' @ newline 2) @ (json_string ''headers'' @ '': '' @ ''{}'') @
        ('','' @ newline 2) @ json_string ''body'' @ '': '' @ t) @ newline 0 @ ''}'')"
    unfolding enc_entry_def zeros_cached_def CacheEntry.select_convs
    by (simp only: pretty.simps pretty_elems.simps pretty_props.simps Let_def option.case text_200 t(1) join.simps add_0 list.distinct if_False if_True refl)
  then have "store_bytes (enc_entry (zeros_cached n)) = 7 * n + 60 \<or> store_bytes (enc_entry (zeros_cached n)) = 7 * n + 61"
    unfolding store_bytes_def by (simp only: option.case text_lengths t(2)) simp
  then show "7 * n \<le> store_bytes (enc_entry (zeros_cached n))" "store_bytes (enc_entry (zeros_cached n)) \<le> 7 * n + 200"
    by auto
qed

text \<open>C39: The size limits of the cache do not agree.  A write measures the compact text of an
  entry, the file holds the indented text, and a read measures the file: there is an entry
  that is stored without complaint and that every later read of the same key refuses with an
  error, so that the request it was cached for fails from then on.\<close>

theorem cached_entry_unreadable:
  "\<exists>entry files'. setCachedResponse le ''generic'' ''k'' entry now [] = (Inr (), files') \<and>
     getCachedResponse ''generic'' ''k'' files' = Inl (Thrown ''Cache entry exceeds its size limit.'')"
proof -
  let ?n = "200000 :: nat"
  let ?e = "enc_entry (zeros_cached ?n)"
  let ?c = "\<lparr>file_path = (''generic'', ''k.json''), file_content = Some (parsed ?e), file_size = store_bytes ?e, file_mtime = now\<rparr>"
  have names: "cacheFilePath ''generic'' ''k'' = Inr (''generic'', ''k.json'')" by code_simp
  have small: "\<not> json_bytes ?e > MAX_CACHE_ENTRY_BYTES" by (simp add: zeros_entry_compact MAX_CACHE_ENTRY_BYTES_def)
  have big: "store_bytes ?e > MAX_CACHE_ENTRY_BYTES" "store_bytes ?e \<le> MAX_CACHE_BYTES"
    using zeros_entry_stored [of ?n] by (simp_all add: MAX_CACHE_ENTRY_BYTES_def MAX_CACHE_BYTES_def)
  have "enforceCacheQuota le [?c] = [?c]"
    using big(2) by (simp add: enforceCacheQuota_def by_age_def total_size_def MAX_CACHE_ENTRIES_def)
  then have "setCachedResponse le ''generic'' ''k'' (zeros_entry ?n) now [] = (Inr (), [?c])"
    using small by (simp add: setCachedResponse_def names zeros_valid write_file_def)
  moreover have "getCachedResponse ''generic'' ''k'' [?c] = Inl (Thrown ''Cache entry exceeds its size limit.'')"
    using big(1) by (simp add: getCachedResponse_def names lookup_def)
  ultimately show ?thesis by blast
qed


section \<open>Access control\<close>


definition demo_config :: ServerConfig where
  "demo_config = \<lparr>cfg_host = ''0.0.0.0'', cfg_https = False, cfg_authToken = Some (replicate 24 CHR ''k'')\<rparr>"

definition demo_http :: "string option \<Rightarrow> http_request" where
  "demo_http token = \<lparr>http_method = ''GET'', http_path = ''/API//Events/'', http_header = (\<lambda>n. if n = ''x-ghostapi-token'' then token else None),
     http_token_query = None, http_localPort = 8080\<rparr>"

definition demo_platform :: platform where
  "demo_platform = \<lparr>parse_url = (\<lambda>_. None), decodeURIComponent = Some\<rparr>"


end
