(* ===== verification/Action_Types.thy ===== *)
theory Action_Types
  imports Safety_Lease_Props
begin

text \<open>
  The data of \<open>src/actions/gateway.ts\<close>: action envelopes, approvals, execution receipts
  and the stored record of an action, with the JSON value of each.  Fields that can only have
  one value (schema versions, kinds, the synthetic provider, environment and resource type,
  \<open>retrySafe\<close>) appear in the JSON values and not in the records.
\<close>

section \<open>Errors and limits\<close>

datatype gateway_error =
    ActionGatewayError string
  | RangeError
  | ControllerError safety_error
  | ForeignError string

definition ACTION_SCHEMA_VERSION :: nat where "ACTION_SCHEMA_VERSION = 1"
definition ACTION_KIND :: string where "ACTION_KIND = ''ghostapi.action''"
definition APPROVAL_KIND :: string where "APPROVAL_KIND = ''ghostapi.action-approval''"
definition RECORD_KIND :: string where "RECORD_KIND = ''ghostapi.action-record''"
definition MAX_ACTION_BYTES :: nat where "MAX_ACTION_BYTES = 128 * 1024"
definition MAX_RECEIPTS :: nat where "MAX_RECEIPTS = 20"

section \<open>Records\<close>

datatype ActorType = AgentActor | ServiceActor

datatype ActionReversibility = NotReversible | Compensatable

datatype ActionReceiptStatus = Requested | Attempted | Committed | Verified | Failed

datatype FailureCode = Execution_error | Unknown_outcome | Verification_failed

record ActionEnvelope =
  env_actionId :: string
  env_idempotencyKey :: string
  actor_id :: string
  actor_workloadId :: string
  actor_type :: ActorType
  env_projectId :: string
  env_operation :: string
  resource_id :: string
  arg_worldId :: string
  expectedSideEffects :: "string list"
  env_riskClass :: RiskClass
  reversibility :: ActionReversibility
  policy_version :: nat
  policy_hash :: string
  evidence_hash :: string
  env_expiresAt :: string
  env_nonce :: string

record ActionApproval =
  approvalId :: string
  approval_actionHash :: string
  approvedBy :: string
  approvedAt :: string
  approval_expiresAt :: string
  approval_nonce :: string
  keyId :: string
  signature :: string

record ReceiptResult =
  res_worldId :: string
  subscriptionId :: string
  syntheticReceiptId :: string

record ActionExecutionReceipt =
  receiptId :: string
  receipt_actionId :: string
  receipt_actionHash :: string
  receipt_status :: ActionReceiptStatus
  receipt_timestamp :: string
  providerRequestId :: "string option"
  receipt_result :: "ReceiptResult option"
  receipt_failure :: "FailureCode option"
  previousReceiptHash :: string
  receiptHash :: string

record StoredAction =
  envelope :: ActionEnvelope
  record_actionHash :: string
  approval :: ActionApproval
  receipts :: "ActionExecutionReceipt list"

record ActionExecutionIdentity =
  identity_actorId :: string
  identity_workloadId :: string

record ActionPolicyCheck =
  check_version :: int
  check_hash :: string
  allowed :: bool

datatype ApprovalPhase = Submit_phase | Execute_phase

section \<open>The JSON values\<close>

fun actor_name :: "ActorType \<Rightarrow> string" where
  "actor_name AgentActor = ''agent''"
| "actor_name ServiceActor = ''service''"

fun reversibility_name :: "ActionReversibility \<Rightarrow> string" where
  "reversibility_name NotReversible = ''none''"
| "reversibility_name Compensatable = ''compensatable''"

fun receipt_status_name :: "ActionReceiptStatus \<Rightarrow> string" where
  "receipt_status_name Requested = ''requested''"
| "receipt_status_name Attempted = ''attempted''"
| "receipt_status_name Committed = ''committed''"
| "receipt_status_name Verified = ''verified''"
| "receipt_status_name Failed = ''failed''"

fun failure_name :: "FailureCode \<Rightarrow> string" where
  "failure_name Execution_error = ''execution_error''"
| "failure_name Unknown_outcome = ''unknown_outcome''"
| "failure_name Verification_failed = ''verification_failed''"

definition enc_envelope :: "ActionEnvelope \<Rightarrow> json" where
  "enc_envelope e = JObj [
     (''schemaVersion'', JNat ACTION_SCHEMA_VERSION), (''kind'', JStr ACTION_KIND),
     (''actionId'', JStr (env_actionId e)), (''idempotencyKey'', JStr (env_idempotencyKey e)),
     (''actor'', JObj [(''id'', JStr (actor_id e)), (''workloadId'', JStr (actor_workloadId e)),
        (''type'', JStr (actor_name (actor_type e)))]),
     (''project'', JObj [(''id'', JStr (env_projectId e)), (''environment'', JStr ''synthetic'')]),
     (''provider'', JStr ''ghostapi-synthetic''), (''operation'', JStr (env_operation e)),
     (''resource'', JObj [(''type'', JStr ''synthetic-world''), (''id'', JStr (resource_id e))]),
     (''arguments'', JObj [(''worldId'', JStr (arg_worldId e))]),
     (''expectedSideEffects'', JArr (map JStr (expectedSideEffects e))),
     (''riskClass'', JStr (risk_name (env_riskClass e))),
     (''reversibility'', JStr (reversibility_name (reversibility e))),
     (''policy'', JObj [(''version'', JNat (policy_version e)), (''hash'', JStr (policy_hash e))]),
     (''evidence'', JObj [(''hash'', JStr (evidence_hash e))]),
     (''expiresAt'', JStr (env_expiresAt e)), (''nonce'', JStr (env_nonce e))]"

definition unsigned_fields :: "ActionApproval \<Rightarrow> fields" where
  "unsigned_fields p = [
     (''schemaVersion'', JNat ACTION_SCHEMA_VERSION), (''kind'', JStr APPROVAL_KIND),
     (''approvalId'', JStr (approvalId p)), (''actionHash'', JStr (approval_actionHash p)),
     (''approvedBy'', JStr (approvedBy p)), (''approvedAt'', JStr (approvedAt p)),
     (''expiresAt'', JStr (approval_expiresAt p)), (''nonce'', JStr (approval_nonce p))]"

definition enc_approval :: "ActionApproval \<Rightarrow> json" where
  "enc_approval p = JObj (unsigned_fields p @
     [(''provenance'', JObj [(''kind'', JStr ''ghostapi.ed25519-signature''), (''keyId'', JStr (keyId p)),
        (''signature'', JStr (signature p))])])"

definition enc_result :: "ReceiptResult \<Rightarrow> json" where
  "enc_result r = JObj [(''worldId'', JStr (res_worldId r)), (''subscriptionId'', JStr (subscriptionId r)),
     (''syntheticReceiptId'', JStr (syntheticReceiptId r))]"

definition enc_failure :: "FailureCode \<Rightarrow> json" where
  "enc_failure c = JObj [(''code'', JStr (failure_name c)), (''retrySafe'', JBool False)]"

text \<open>The part of a receipt its hash covers.\<close>

definition receipt_base :: "ActionExecutionReceipt \<Rightarrow> fields" where
  "receipt_base r =
     [(''receiptId'', JStr (receiptId r)), (''actionId'', JStr (receipt_actionId r)),
      (''actionHash'', JStr (receipt_actionHash r)), (''status'', JStr (receipt_status_name (receipt_status r))),
      (''timestamp'', JStr (receipt_timestamp r))] @
     opt_prop ''providerRequestId'' JStr (providerRequestId r) @ opt_prop ''result'' enc_result (receipt_result r) @
     opt_prop ''failure'' enc_failure (receipt_failure r) @
     [(''previousReceiptHash'', JStr (previousReceiptHash r))]"

definition enc_receipt :: "ActionExecutionReceipt \<Rightarrow> json" where
  "enc_receipt r = JObj (receipt_base r @ [(''receiptHash'', JStr (receiptHash r))])"

definition enc_stored :: "StoredAction \<Rightarrow> json" where
  "enc_stored s = JObj [
     (''schemaVersion'', JNat ACTION_SCHEMA_VERSION), (''kind'', JStr RECORD_KIND),
     (''envelope'', enc_envelope (envelope s)), (''actionHash'', JStr (record_actionHash s)),
     (''approval'', enc_approval (approval s)), (''receipts'', JArr (map enc_receipt (receipts s)))]"

end
