(* ===== verification/Action_Leaf.thy ===== *)
theory Action_Leaf
  imports Validators
begin

text \<open>
  The leaf validators that \<open>src/actions/gateway.ts\<close> and \<open>src/ledger/actionLedger.ts\<close>
  share word for word: unlike those of the controllers, \<open>exactKeys\<close> only refuses unknown
  names, and integers have no upper limit.  The parameter \<open>mk\<close> is the class of the error.
\<close>

definition a_identifier :: "(string \<Rightarrow> 'e) \<Rightarrow> string \<Rightarrow> json \<Rightarrow> ('e, string) res" where
  "a_identifier mk label value =
     (case value of
        JStr s \<Rightarrow> if \<not> test_full IDENTIFIER s \<or> sanitizeSecretString s \<noteq> s
                  then Inl (mk (label @ '' must be a safe stable identifier.'')) else Inr s
      | _ \<Rightarrow> Inl (mk (label @ '' must be a safe stable identifier.'')))"

definition a_hash :: "(string \<Rightarrow> 'e) \<Rightarrow> string \<Rightarrow> json \<Rightarrow> ('e, string) res" where
  "a_hash mk label value =
     (case value of
        JStr s \<Rightarrow> if \<not> test_full HASH s then Inl (mk (label @ '' must be a SHA-256 hex digest.'')) else Inr s
      | _ \<Rightarrow> Inl (mk (label @ '' must be a SHA-256 hex digest.'')))"

definition a_positiveInteger :: "(string \<Rightarrow> 'e) \<Rightarrow> string \<Rightarrow> json \<Rightarrow> ('e, nat) res" where
  "a_positiveInteger mk label value =
     (case value of
        JInt i \<Rightarrow> if i < 1 then Inl (mk (label @ '' must be a positive integer.'')) else Inr (nat i)
      | _ \<Rightarrow> Inl (mk (label @ '' must be a positive integer.'')))"

fun a_exactKeys :: "(string \<Rightarrow> 'e) \<Rightarrow> string \<Rightarrow> string list \<Rightarrow> fields \<Rightarrow> ('e, unit) res" where
  "a_exactKeys mk label keys [] = Inr ()"
| "a_exactKeys mk label keys ((key, v) # ob) =
     (if key \<notin> set keys then Inl (mk (label @ '' contains unsupported field: '' @ key))
      else a_exactKeys mk label keys ob)"

text \<open>A test that gives a value or throws.\<close>

definition fromOption :: "'e \<Rightarrow> 'a option \<Rightarrow> ('e, 'a) res" where
  "fromOption e v = (case v of None \<Rightarrow> Inl e | Some x \<Rightarrow> Inr x)"

lemma fromOption_eq [validator_simps]: "fromOption e v = Inr x \<longleftrightarrow> v = Some x"
  by (auto simp: fromOption_def split: option.splits)

lemma fromOption_Some [simp]: "fromOption e (Some x) = Inr x"
  by (simp add: fromOption_def)

lemma a_identifier_eq [validator_simps]: "a_identifier mk label value = Inr s \<longleftrightarrow> value = JStr s \<and> ok_ident s"
  by (auto simp: a_identifier_def ok_ident_def split: json.splits)

lemma a_hash_eq [validator_simps]: "a_hash mk label value = Inr s \<longleftrightarrow> value = JStr s \<and> ok_hash s"
  by (auto simp: a_hash_def ok_hash_def split: json.splits)

lemma a_positiveInteger_eq [validator_simps]:
  "a_positiveInteger mk label value = Inr n \<longleftrightarrow> value = JNat n \<and> 1 \<le> n"
  by (auto simp: a_positiveInteger_def split: json.splits)

lemma a_leaf_accepts [simp]:
  "ok_ident s \<Longrightarrow> a_identifier mk label (JStr s) = Inr s"
  "ok_hash s \<Longrightarrow> a_hash mk label (JStr s) = Inr s"
  "1 \<le> n \<Longrightarrow> a_positiveInteger mk label (JNat n) = Inr n"
  by (simp_all add: validator_simps)

lemma a_exactKeys_accepts [simp]: "fst ` set ob \<subseteq> set keys \<Longrightarrow> a_exactKeys mk label keys ob = Inr ()"
  by (induction ob) auto

end
