(* ===== verification/Action_Validate.thy ===== *)
theory Action_Validate
  imports Action_Types Action_Leaf
begin

text \<open>
  The validators, the canonical hashes and the receipt chain of
  \<open>src/actions/gateway.ts\<close>, in the order of checks of the source.
\<close>

section \<open>Canonical text\<close>

abbreviation AGE :: "string \<Rightarrow> gateway_error" where
  "AGE m \<equiv> ActionGatewayError m"

definition canonicalJson :: "json \<Rightarrow> (gateway_error, string) res" where
  "canonicalJson v = fromOption (AGE ''Canonical action values must be JSON data.'') (canonical v)"

section \<open>Envelopes\<close>

definition ENVELOPE_KEYS :: "string list" where
  "ENVELOPE_KEYS = [''schemaVersion'', ''kind'', ''actionId'', ''idempotencyKey'', ''actor'', ''project'',
     ''provider'', ''operation'', ''resource'', ''arguments'', ''expectedSideEffects'', ''riskClass'',
     ''reversibility'', ''policy'', ''evidence'', ''expiresAt'', ''nonce'']"

definition EXPECTED_EFFECTS :: "string list" where
  "EXPECTED_EFFECTS = [''stripe.subscription.past_due'', ''email.subscription_payment_failed'',
     ''github.recovery_issue'', ''generic_rest.payment_failed'']"

fun actor_of_name :: "json \<Rightarrow> ActorType option" where
  "actor_of_name (JStr s) = List.find (\<lambda>a. actor_name a = s) [AgentActor, ServiceActor]"
| "actor_of_name _ = None"

fun reversibility_of_name :: "json \<Rightarrow> ActionReversibility option" where
  "reversibility_of_name (JStr s) = List.find (\<lambda>a. reversibility_name a = s) [NotReversible, Compensatable]"
| "reversibility_of_name _ = None"

fun action_risk_of :: "json \<Rightarrow> RiskClass option" where
  "action_risk_of (JStr s) =
     List.find (\<lambda>a. risk_name a = s) [Read, Write, Money_movement, External_communication, Delete, Deploy]"
| "action_risk_of _ = None"

fun safe_strings :: "json list \<Rightarrow> string list option" where
  "safe_strings [] = Some []"
| "safe_strings (JStr s # vs) =
     (if test_full IDENTIFIER s \<and> sanitizeSecretString s = s then map_option (Cons s) (safe_strings vs) else None)"
| "safe_strings _ = None"

text \<open>A bounded list of distinct safe identifiers.\<close>

definition side_effects :: "json \<Rightarrow> string list option" where
  "side_effects v =
     (case v of
        JArr vs \<Rightarrow>
          if length vs > 16 then None
          else (case safe_strings vs of
                  None \<Rightarrow> None
                | Some es \<Rightarrow> if card (set es) \<noteq> length es then None else Some es)
      | _ \<Rightarrow> None)"

definition validateActionEnvelope :: "json \<Rightarrow> (gateway_error, ActionEnvelope) res" where
  "validateActionEnvelope value =
     andThen (v_object AGE ''Action envelope must be an object.'' value) (\<lambda>action.
     andThen (a_exactKeys AGE ''Action envelope'' ENVELOPE_KEYS action) (\<lambda>_.
     andThen (throwIf (jget action ''schemaVersion'' \<noteq> JNat ACTION_SCHEMA_VERSION \<or> jget action ''kind'' \<noteq> JStr ACTION_KIND)
       (AGE ''Unsupported action envelope schema.'')) (\<lambda>_.
     andThen (v_object AGE ''Action actor is invalid.'' (jget action ''actor'')) (\<lambda>actor.
     andThen (a_exactKeys AGE ''Action actor'' [''id'', ''workloadId'', ''type''] actor) (\<lambda>_.
     andThen (fromOption (AGE ''Action actor type is invalid.'') (actor_of_name (jget actor ''type''))) (\<lambda>actorType.
     andThen (v_object AGE ''Action project is invalid.'' (jget action ''project'')) (\<lambda>project.
     andThen (a_exactKeys AGE ''Action project'' [''id'', ''environment''] project) (\<lambda>_.
     andThen (throwIf (jget project ''environment'' \<noteq> JStr ''synthetic'')
       (AGE ''Only the synthetic action environment is available.'')) (\<lambda>_.
     andThen (throwIf (jget action ''provider'' \<noteq> JStr ''ghostapi-synthetic'') (AGE ''Unknown action provider.'')) (\<lambda>_.
     andThen (v_object AGE ''Action resource is invalid.'' (jget action ''resource'')) (\<lambda>resource.
     andThen (a_exactKeys AGE ''Action resource'' [''type'', ''id''] resource) (\<lambda>_.
     andThen (throwIf (jget resource ''type'' \<noteq> JStr ''synthetic-world'') (AGE ''Action resource type is invalid.'')) (\<lambda>_.
     andThen (v_object AGE ''Action arguments are invalid.'' (jget action ''arguments'')) (\<lambda>args.
     andThen (a_exactKeys AGE ''Action arguments'' [''worldId''] args) (\<lambda>_.
     andThen (a_identifier AGE ''Action operation'' (jget action ''operation'')) (\<lambda>oper.
     andThen (fromOption (AGE ''Action expected side effects must be a bounded unique list of safe identifiers.'')
       (side_effects (jget action ''expectedSideEffects''))) (\<lambda>effects.
     andThen (throwIf (oper = ''synthetic.subscription_failure'' \<and> effects \<noteq> EXPECTED_EFFECTS)
       (AGE ''Action expected side effects are invalid for the synthetic operation.'')) (\<lambda>_.
     andThen (fromOption (AGE ''Action risk class is invalid.'') (action_risk_of (jget action ''riskClass''))) (\<lambda>risk.
     andThen (fromOption (AGE ''Action reversibility is invalid.'') (reversibility_of_name (jget action ''reversibility''))) (\<lambda>rev.
     andThen (v_object AGE ''Action policy reference is invalid.'' (jget action ''policy'')) (\<lambda>policy.
     andThen (a_exactKeys AGE ''Action policy reference'' [''version'', ''hash''] policy) (\<lambda>_.
     andThen (v_object AGE ''Action evidence reference is invalid.'' (jget action ''evidence'')) (\<lambda>evidence.
     andThen (a_exactKeys AGE ''Action evidence reference'' [''hash''] evidence) (\<lambda>_.
     andThen (a_identifier AGE ''Action world id'' (jget args ''worldId'')) (\<lambda>worldId.
     andThen (throwIf (jget resource ''id'' \<noteq> JStr worldId)
       (AGE ''Action resource and normalized world argument must match.'')) (\<lambda>_.
     andThen (a_identifier AGE ''Action id'' (jget action ''actionId'')) (\<lambda>actionId.
     andThen (a_identifier AGE ''Action idempotency key'' (jget action ''idempotencyKey'')) (\<lambda>idem.
     andThen (a_identifier AGE ''Action actor id'' (jget actor ''id'')) (\<lambda>actorId.
     andThen (a_identifier AGE ''Action workload id'' (jget actor ''workloadId'')) (\<lambda>workload.
     andThen (a_identifier AGE ''Action project id'' (jget project ''id'')) (\<lambda>projectId.
     andThen (a_positiveInteger AGE ''Action policy version'' (jget policy ''version'')) (\<lambda>version.
     andThen (a_hash AGE ''Action policy hash'' (jget policy ''hash'')) (\<lambda>policyHash.
     andThen (a_hash AGE ''Action evidence hash'' (jget evidence ''hash'')) (\<lambda>evidenceHash.
     andThen (v_timestamp AGE ''Action expiry'' (jget action ''expiresAt'')) (\<lambda>expires.
     andThen (a_identifier AGE ''Action nonce'' (jget action ''nonce'')) (\<lambda>nonce.
     Inr \<lparr>env_actionId = actionId, env_idempotencyKey = idem, actor_id = actorId, actor_workloadId = workload,
          actor_type = actorType, env_projectId = projectId, env_operation = oper, resource_id = worldId,
          arg_worldId = worldId, expectedSideEffects = effects, env_riskClass = risk, reversibility = rev,
          policy_version = version, policy_hash = policyHash, evidence_hash = evidenceHash,
          env_expiresAt = expires, env_nonce = nonce\<rparr>))))))))))))))))))))))))))))))))))))"

definition canonicalizeActionEnvelope :: "json \<Rightarrow> (gateway_error, string) res" where
  "canonicalizeActionEnvelope value = andThen (validateActionEnvelope value) (\<lambda>e. canonicalJson (enc_envelope e))"

definition actionHash :: "json \<Rightarrow> (gateway_error, string) res" where
  "actionHash value = andThen (canonicalizeActionEnvelope value) (\<lambda>t. Inr (sha256 t))"

section \<open>Approvals\<close>

definition APPROVAL_KEYS :: "string list" where
  "APPROVAL_KEYS = [''schemaVersion'', ''kind'', ''approvalId'', ''actionHash'', ''approvedBy'', ''approvedAt'',
     ''expiresAt'', ''nonce'', ''provenance'']"

text \<open>\<open>/^[A-Za-z0-9_-]{86}$/\<close>.\<close>

definition signature_shape :: "json \<Rightarrow> string option" where
  "signature_shape v =
     (case v of JStr s \<Rightarrow> if length s = 86 \<and> list_all c_wdash s then Some s else None | _ \<Rightarrow> None)"

text \<open>\<open>Date.parse(a) <= Date.parse(b)\<close>: false when a side is \<open>NaN\<close>.\<close>

definition not_after :: "string \<Rightarrow> string \<Rightarrow> bool" where
  "not_after a b = (case (date_parse a, date_parse b) of (Some x, Some y) \<Rightarrow> x \<le> y | _ \<Rightarrow> False)"

definition later_than :: "string \<Rightarrow> string \<Rightarrow> bool" where
  "later_than a b = (case (date_parse a, date_parse b) of (Some x, Some y) \<Rightarrow> x > y | _ \<Rightarrow> False)"

definition validateActionApproval :: "json \<Rightarrow> (gateway_error, ActionApproval) res" where
  "validateActionApproval value =
     andThen (v_object AGE ''Action approval must be an object.'' value) (\<lambda>appr.
     andThen (a_exactKeys AGE ''Action approval'' APPROVAL_KEYS appr) (\<lambda>_.
     andThen (throwIf (jget appr ''schemaVersion'' \<noteq> JNat ACTION_SCHEMA_VERSION \<or> jget appr ''kind'' \<noteq> JStr APPROVAL_KIND)
       (AGE ''Unsupported action approval schema.'')) (\<lambda>_.
     andThen (v_timestamp AGE ''Action approval timestamp'' (jget appr ''approvedAt'')) (\<lambda>approved.
     andThen (v_timestamp AGE ''Action approval expiry'' (jget appr ''expiresAt'')) (\<lambda>expires.
     andThen (throwIf (not_after expires approved) (AGE ''Action approval must expire after it was issued.'')) (\<lambda>_.
     andThen (v_object AGE ''Action approval provenance is invalid.'' (jget appr ''provenance'')) (\<lambda>prov.
     andThen (a_exactKeys AGE ''Action approval provenance'' [''kind'', ''keyId'', ''signature''] prov) (\<lambda>_.
     andThen (throwIf (jget prov ''kind'' \<noteq> JStr ''ghostapi.ed25519-signature'')
       (AGE ''Action approval provenance is invalid.'')) (\<lambda>_.
     andThen (fromOption (AGE ''Action approval provenance is invalid.'') (signature_shape (jget prov ''signature''))) (\<lambda>sig.
     andThen (a_identifier AGE ''Action approval id'' (jget appr ''approvalId'')) (\<lambda>aid.
     andThen (a_hash AGE ''Action approval hash'' (jget appr ''actionHash'')) (\<lambda>h.
     andThen (a_identifier AGE ''Action approver id'' (jget appr ''approvedBy'')) (\<lambda>by.
     andThen (a_identifier AGE ''Action approval nonce'' (jget appr ''nonce'')) (\<lambda>nonce.
     andThen (a_identifier AGE ''Action approval provenance key id'' (jget prov ''keyId'')) (\<lambda>key.
     Inr \<lparr>approvalId = aid, approval_actionHash = h, approvedBy = by, approvedAt = approved,
          approval_expiresAt = expires, approval_nonce = nonce, keyId = key, signature = sig\<rparr>)))))))))))))))"

definition actionApprovalHash :: "json \<Rightarrow> (gateway_error, string) res" where
  "actionApprovalHash value =
     andThen (validateActionApproval value) (\<lambda>p. andThen (canonicalJson (enc_approval p)) (\<lambda>t. Inr (sha256 t)))"

text \<open>\<open>verifyApproval\<close>: bound to the exact action, not by its own actor, and within its time
  unless expiry is not enforced.\<close>

definition verifyApproval :: "ActionEnvelope \<Rightarrow> ActionApproval \<Rightarrow> string \<Rightarrow> bool \<Rightarrow> (gateway_error, unit) res" where
  "verifyApproval action appr now enforceExpiry =
     andThen (actionHash (enc_envelope action)) (\<lambda>h.
     andThen (throwIf (approval_actionHash appr \<noteq> h)
       (AGE ''Action approval is not bound to the exact canonical action hash.'')) (\<lambda>_.
     andThen (throwIf (approvedBy appr = actor_id action \<or> approvedBy appr = actor_workloadId action)
       (AGE ''An action actor cannot approve its own high-risk action.'')) (\<lambda>_.
     andThen (throwIf (enforceExpiry \<and> later_than (approvedAt appr) now)
       (AGE ''Action approval timestamp is in the future.'')) (\<lambda>_.
     throwIf (enforceExpiry \<and> not_after (approval_expiresAt appr) now) (AGE ''Action approval has expired.'')))))"

section \<open>Receipts\<close>

definition RECEIPT_KEYS :: "string list" where
  "RECEIPT_KEYS = [''receiptId'', ''actionId'', ''actionHash'', ''status'', ''timestamp'', ''providerRequestId'',
     ''result'', ''failure'', ''previousReceiptHash'', ''receiptHash'']"

fun receipt_status_of :: "json \<Rightarrow> ActionReceiptStatus option" where
  "receipt_status_of (JStr s) =
     List.find (\<lambda>a. receipt_status_name a = s) [Requested, Attempted, Committed, Verified, Failed]"
| "receipt_status_of _ = None"

fun failure_of :: "json \<Rightarrow> FailureCode option" where
  "failure_of (JStr s) = List.find (\<lambda>a. failure_name a = s) [Execution_error, Unknown_outcome, Verification_failed]"
| "failure_of _ = None"

definition normalizeResult :: "json \<Rightarrow> (gateway_error, ReceiptResult) res" where
  "normalizeResult value =
     andThen (v_object AGE ''Action receipt result is invalid.'' value) (\<lambda>r.
     andThen (a_exactKeys AGE ''Action receipt result'' [''worldId'', ''subscriptionId'', ''syntheticReceiptId''] r) (\<lambda>_.
     andThen (a_identifier AGE ''Action receipt world id'' (jget r ''worldId'')) (\<lambda>w.
     andThen (a_identifier AGE ''Action receipt subscription id'' (jget r ''subscriptionId'')) (\<lambda>s.
     andThen (a_identifier AGE ''Action receipt synthetic receipt id'' (jget r ''syntheticReceiptId'')) (\<lambda>i.
     Inr \<lparr>res_worldId = w, subscriptionId = s, syntheticReceiptId = i\<rparr>)))))"

definition normalizeFailure :: "json \<Rightarrow> (gateway_error, FailureCode) res" where
  "normalizeFailure value =
     andThen (v_object AGE ''Action receipt failure is invalid.'' value) (\<lambda>f.
     andThen (a_exactKeys AGE ''Action receipt failure'' [''code'', ''retrySafe''] f) (\<lambda>_.
     andThen (fromOption (AGE ''Action receipt failure is invalid.'') (failure_of (jget f ''code''))) (\<lambda>c.
     andThen (throwIf (jget f ''retrySafe'' \<noteq> JBool False) (AGE ''Action receipt failure is invalid.'')) (\<lambda>_.
     Inr c))))"

definition receiptGenesisHash :: "string \<Rightarrow> string" where
  "receiptGenesisHash actionDigest = sha256 (''ghostapi.action.receipt.v1:'' @ actionDigest)"

definition receipt_digest :: "ActionExecutionReceipt \<Rightarrow> (gateway_error, string) res" where
  "receipt_digest r = andThen (canonicalJson (JObj (receipt_base r))) (\<lambda>t. Inr (sha256 t))"

definition validateReceipt :: "json \<Rightarrow> string \<Rightarrow> string \<Rightarrow> json \<Rightarrow> (gateway_error, ActionExecutionReceipt) res" where
  "validateReceipt value actionId actionDigest previous =
     andThen (v_object AGE ''Action receipt is invalid.'' value) (\<lambda>receipt.
     andThen (a_exactKeys AGE ''Action receipt'' RECEIPT_KEYS receipt) (\<lambda>_.
     andThen (throwIf (jget receipt ''actionId'' \<noteq> JStr actionId \<or> jget receipt ''actionHash'' \<noteq> JStr actionDigest \<or>
         jget receipt ''previousReceiptHash'' \<noteq> previous) (AGE ''Action receipt linkage is invalid.'')) (\<lambda>_.
     andThen (fromOption (AGE ''Action receipt linkage is invalid.'') (receipt_status_of (jget receipt ''status''))) (\<lambda>status.
     andThen (optionally (a_identifier AGE ''Provider request id'') (jget receipt ''providerRequestId'')) (\<lambda>prid.
     andThen (optionally normalizeResult (jget receipt ''result'')) (\<lambda>result.
     andThen (optionally normalizeFailure (jget receipt ''failure'')) (\<lambda>failure.
     andThen (throwIf ((status = Committed \<or> status = Verified) \<and> (prid = None \<or> result = None))
       (AGE ''Committed and verified receipts require a provider result.'')) (\<lambda>_.
     andThen (throwIf (status = Failed \<and> failure = None) (AGE ''Failed receipt requires a failure classification.'')) (\<lambda>_.
     andThen (a_identifier AGE ''Receipt id'' (jget receipt ''receiptId'')) (\<lambda>rid.
     andThen (v_timestamp AGE ''Action receipt timestamp'' (jget receipt ''timestamp'')) (\<lambda>ts.
     andThen (a_hash AGE ''Action receipt hash'' (jget receipt ''receiptHash'')) (\<lambda>rh.
     let r = \<lparr>receiptId = rid, receipt_actionId = actionId, receipt_actionHash = actionDigest, receipt_status = status,
              receipt_timestamp = ts, providerRequestId = prid, receipt_result = result, receipt_failure = failure,
              previousReceiptHash = (case previous of JStr p \<Rightarrow> p | _ \<Rightarrow> []), receiptHash = rh\<rparr> in
     andThen (receipt_digest r) (\<lambda>h.
     if rh \<noteq> h then Inl (AGE ''Action receipt hash is invalid.'') else Inr r)))))))))))))"

text \<open>Each receipt must name the hash of the one before it, as that one was read.\<close>

fun validateReceipts :: "json list \<Rightarrow> string \<Rightarrow> string \<Rightarrow> json \<Rightarrow> (gateway_error, ActionExecutionReceipt list) res" where
  "validateReceipts [] actionId digest previous = Inr []"
| "validateReceipts (v # vs) actionId digest previous =
     andThen (validateReceipt v actionId digest previous) (\<lambda>r.
     andThen (validateReceipts vs actionId digest (case v of JObj ob \<Rightarrow> jget ob ''receiptHash'' | _ \<Rightarrow> JUndef)) (\<lambda>rs.
     Inr (r # rs)))"

section \<open>Stored records\<close>

definition EPOCH :: string where
  "EPOCH = toISOString 0"

definition validateStoredAction :: "json \<Rightarrow> (gateway_error, StoredAction) res" where
  "validateStoredAction value =
     andThen (v_object AGE ''Action record must be an object.'' value) (\<lambda>rec.
     andThen (a_exactKeys AGE ''Action record''
       [''schemaVersion'', ''kind'', ''envelope'', ''actionHash'', ''approval'', ''receipts''] rec) (\<lambda>_.
     andThen (throwIf (jget rec ''schemaVersion'' \<noteq> JNat ACTION_SCHEMA_VERSION \<or> jget rec ''kind'' \<noteq> JStr RECORD_KIND)
       (AGE ''Unsupported action record schema.'')) (\<lambda>_.
     andThen (validateActionEnvelope (jget rec ''envelope'')) (\<lambda>env.
     andThen (a_hash AGE ''Action record hash'' (jget rec ''actionHash'')) (\<lambda>digest.
     andThen (actionHash (enc_envelope env)) (\<lambda>h.
     andThen (throwIf (digest \<noteq> h) (AGE ''Action record hash does not match its envelope.'')) (\<lambda>_.
     andThen (validateActionApproval (jget rec ''approval'')) (\<lambda>appr.
     andThen (verifyApproval env appr EPOCH False) (\<lambda>_.
     andThen (fromOption (AGE ''Action record receipts are invalid.'')
       (case jget rec ''receipts'' of
          JArr vs \<Rightarrow> if length vs < 1 \<or> length vs > MAX_RECEIPTS then None else Some vs
        | _ \<Rightarrow> None)) (\<lambda>raw.
     andThen (validateReceipts raw (env_actionId env) digest (JStr (receiptGenesisHash digest))) (\<lambda>rs.
     andThen (throwIf (receipt_status (hd rs) \<noteq> Requested) (AGE ''Action record must begin with a requested receipt.'')) (\<lambda>_.
     Inr \<lparr>envelope = env, record_actionHash = digest, approval = appr, receipts = rs\<rparr>))))))))))))"

end
