(* ===== verification/Action_Shape.thy ===== *)
theory Action_Shape
  imports Action_Validate
begin

text \<open>
  The shapes the gateway's validators guarantee, and the round trip: the JSON value of a
  record of the shape is accepted and returned unchanged.
\<close>

section \<open>Envelopes\<close>

definition ok_envelope :: "ActionEnvelope \<Rightarrow> bool" where
  "ok_envelope e =
     (ok_ident (env_actionId e) \<and> ok_ident (env_idempotencyKey e) \<and> ok_ident (actor_id e) \<and>
      ok_ident (actor_workloadId e) \<and> ok_ident (env_projectId e) \<and> ok_ident (env_operation e) \<and>
      ok_ident (arg_worldId e) \<and> resource_id e = arg_worldId e \<and>
      length (expectedSideEffects e) \<le> 16 \<and> list_all ok_ident (expectedSideEffects e) \<and> distinct (expectedSideEffects e) \<and>
      (env_operation e = ''synthetic.subscription_failure'' \<longrightarrow> expectedSideEffects e = EXPECTED_EFFECTS) \<and>
      1 \<le> policy_version e \<and> ok_hash (policy_hash e) \<and> ok_hash (evidence_hash e) \<and>
      is_iso (env_expiresAt e) \<and> ok_ident (env_nonce e))"

lemma safe_strings_step:
  "safe_strings (JStr s # vs) = (if ok_ident s then map_option (Cons s) (safe_strings vs) else None)"
  by (simp add: ok_ident_def)

lemma safe_strings_eq: "safe_strings vs = Some es \<longleftrightarrow> vs = map JStr es \<and> list_all ok_ident es"
proof (induction vs arbitrary: es)
  case (Cons v vs)
  show ?case
  proof (cases v)
    case (JStr s)
    show ?thesis unfolding JStr safe_strings_step using Cons.IH by (cases es) auto
  qed auto
qed auto

lemma map_JStr_eq [simp]: "map JStr ss = map JStr ts \<longleftrightarrow> ss = ts"
  by (simp add: inj_map_eq_map inj_def)

lemma side_effects_eq:
  "side_effects v = Some es \<longleftrightarrow> v = JArr (map JStr es) \<and> length es \<le> 16 \<and> list_all ok_ident es \<and> distinct es"
proof
  assume "v = JArr (map JStr es) \<and> length es \<le> 16 \<and> list_all ok_ident es \<and> distinct es"
  moreover from this have "safe_strings (map JStr es) = Some es" by (simp add: safe_strings_eq)
  ultimately show "side_effects v = Some es" by (simp add: side_effects_def card_set_eq_length)
qed (auto simp: side_effects_def safe_strings_eq card_set_eq_length split: json.splits option.splits if_splits)

lemma action_names_enc [simp]:
  "actor_of_name (JStr (actor_name a)) = Some a" "reversibility_of_name (JStr (reversibility_name v)) = Some v"
  "action_risk_of (JStr (risk_name k)) = Some k" "receipt_status_of (JStr (receipt_status_name st)) = Some st"
  "failure_of (JStr (failure_name c)) = Some c"
  by (cases a, simp_all) (cases v, simp_all, cases k, simp_all, cases st, simp_all, cases c, simp_all)

lemma validateActionEnvelope_ok:
  assumes "validateActionEnvelope j = Inr e"
  shows "ok_envelope e"
  using assms unfolding validateActionEnvelope_def
  by (elim andThenE) (clarsimp simp: ok_envelope_def validator_simps side_effects_eq throwIf_eq_Inr)

lemma validateActionEnvelope_enc [simp]:
  assumes "ok_envelope e"
  shows "validateActionEnvelope (enc_envelope e) = Inr e"
proof -
  have "side_effects (JArr (map JStr (expectedSideEffects e))) = Some (expectedSideEffects e)"
    using assms by (simp add: side_effects_eq ok_envelope_def)
  moreover have "throwIf (env_operation e = ''synthetic.subscription_failure'' \<and> expectedSideEffects e \<noteq> EXPECTED_EFFECTS) x = Inr ()"
    for x :: gateway_error
    using assms by (auto simp: ok_envelope_def throwIf_eq_Inr)
  moreover have "\<lparr>env_actionId = env_actionId e, env_idempotencyKey = env_idempotencyKey e, actor_id = actor_id e,
      actor_workloadId = actor_workloadId e, actor_type = actor_type e, env_projectId = env_projectId e,
      env_operation = env_operation e, resource_id = arg_worldId e, arg_worldId = arg_worldId e,
      expectedSideEffects = expectedSideEffects e, env_riskClass = env_riskClass e, reversibility = reversibility e,
      policy_version = policy_version e, policy_hash = policy_hash e, evidence_hash = evidence_hash e,
      env_expiresAt = env_expiresAt e, env_nonce = env_nonce e\<rparr> = e"
    using assms by (cases e) (simp add: ok_envelope_def)
  ultimately show ?thesis
    using assms
    by (simp add: validateActionEnvelope_def enc_envelope_def ok_envelope_def ENVELOPE_KEYS_def
        del: actor_of_name.simps reversibility_of_name.simps action_risk_of.simps)
qed

lemma canonical_elems_strings: "\<exists>ts. canonical_elems (map JStr ss) = Some ts"
  by (induction ss) auto

lemma canonical_envelope: "\<exists>t. canonical (enc_envelope e) = Some t"
  using canonical_elems_strings [of "expectedSideEffects e"] by (auto simp: enc_envelope_def)

definition envelope_hash :: "ActionEnvelope \<Rightarrow> string" where
  "envelope_hash e = sha256 (the (canonical (enc_envelope e)))"

lemma actionHash_enc [simp]: "ok_envelope e \<Longrightarrow> actionHash (enc_envelope e) = Inr (envelope_hash e)"
  using canonical_envelope [of e]
  by (auto simp: actionHash_def canonicalizeActionEnvelope_def canonicalJson_def envelope_hash_def)

lemma canonicalize_enc:
  "ok_envelope e \<Longrightarrow> canonicalizeActionEnvelope (enc_envelope e) = Inr (the (canonical (enc_envelope e)))"
  using canonical_envelope [of e] by (auto simp: canonicalizeActionEnvelope_def canonicalJson_def)

lemma ok_hash_envelope [simp]: "ok_hash (envelope_hash e)"
  by (simp add: envelope_hash_def)

section \<open>Approvals\<close>

definition ok_approval :: "ActionApproval \<Rightarrow> bool" where
  "ok_approval p =
     (ok_ident (approvalId p) \<and> ok_hash (approval_actionHash p) \<and> ok_ident (approvedBy p) \<and> is_iso (approvedAt p) \<and>
      is_iso (approval_expiresAt p) \<and> \<not> not_after (approval_expiresAt p) (approvedAt p) \<and> ok_ident (approval_nonce p) \<and>
      ok_ident (keyId p) \<and> length (signature p) = 86 \<and> list_all c_wdash (signature p))"

lemma signature_shape_eq: "signature_shape v = Some s \<longleftrightarrow> v = JStr s \<and> length s = 86 \<and> list_all c_wdash s"
  by (auto simp: signature_shape_def split: json.splits if_splits)

lemma validateActionApproval_ok:
  assumes "validateActionApproval j = Inr p"
  shows "ok_approval p"
  using assms unfolding validateActionApproval_def
  by (elim andThenE) (clarsimp simp: ok_approval_def validator_simps signature_shape_eq throwIf_eq_Inr)

lemma validateActionApproval_enc [simp]:
  assumes "ok_approval p"
  shows "validateActionApproval (enc_approval p) = Inr p"
proof -
  have "signature_shape (JStr (signature p)) = Some (signature p)"
    using assms by (simp add: signature_shape_eq ok_approval_def)
  then show ?thesis
    using assms
    by (cases p) (simp add: validateActionApproval_def enc_approval_def unsigned_fields_def ok_approval_def APPROVAL_KEYS_def)
qed

definition approval_hash :: "ActionApproval \<Rightarrow> string" where
  "approval_hash p = sha256 (the (canonical (enc_approval p)))"

lemma actionApprovalHash_enc [simp]: "ok_approval p \<Longrightarrow> actionApprovalHash (enc_approval p) = Inr (approval_hash p)"
proof -
  have "\<exists>t. canonical (enc_approval p) = Some t" by (simp add: enc_approval_def unsigned_fields_def)
  then show "ok_approval p \<Longrightarrow> ?thesis" by (auto simp: actionApprovalHash_def canonicalJson_def approval_hash_def)
qed

text \<open>What an approval is bound to.\<close>

definition binds :: "ActionEnvelope \<Rightarrow> ActionApproval \<Rightarrow> bool" where
  "binds e p =
     (approval_actionHash p = envelope_hash e \<and> approvedBy p \<noteq> actor_id e \<and> approvedBy p \<noteq> actor_workloadId e)"

definition current_approval :: "ActionApproval \<Rightarrow> string \<Rightarrow> bool" where
  "current_approval p now = (\<not> later_than (approvedAt p) now \<and> \<not> not_after (approval_expiresAt p) now)"

lemma verifyApproval_eq:
  "ok_envelope e \<Longrightarrow> verifyApproval e p now enforce = Inr u \<longleftrightarrow> binds e p \<and> (enforce \<longrightarrow> current_approval p now)"
  by (auto simp: verifyApproval_def res_simps binds_def current_approval_def)

section \<open>Receipts\<close>

definition ok_result :: "ReceiptResult \<Rightarrow> bool" where
  "ok_result r = (ok_ident (res_worldId r) \<and> ok_ident (subscriptionId r) \<and> ok_ident (syntheticReceiptId r))"

lemma normalizeResult_ok: "normalizeResult j = Inr r \<Longrightarrow> ok_result r"
  unfolding normalizeResult_def by (elim andThenE) (clarsimp simp: ok_result_def validator_simps)

lemma normalizeResult_enc [simp]: "ok_result r \<Longrightarrow> normalizeResult (enc_result r) = Inr r"
  by (cases r) (simp add: normalizeResult_def enc_result_def ok_result_def)

lemma normalizeFailure_enc [simp]: "normalizeFailure (enc_failure c) = Inr c"
  by (simp add: normalizeFailure_def enc_failure_def del: failure_of.simps)

lemma enc_receipt_parts [simp]: "enc_result r \<noteq> JUndef" "enc_failure c \<noteq> JUndef"
  by (simp_all add: enc_result_def enc_failure_def)

definition ok_receipt :: "string \<Rightarrow> string \<Rightarrow> string \<Rightarrow> ActionExecutionReceipt \<Rightarrow> bool" where
  "ok_receipt actionId digest previous r =
     (receipt_actionId r = actionId \<and> receipt_actionHash r = digest \<and> previousReceiptHash r = previous \<and>
      ok_ident (receiptId r) \<and> is_iso (receipt_timestamp r) \<and>
      (case providerRequestId r of None \<Rightarrow> True | Some i \<Rightarrow> ok_ident i) \<and>
      (case receipt_result r of None \<Rightarrow> True | Some v \<Rightarrow> ok_result v) \<and>
      (receipt_status r \<in> {Committed, Verified} \<longrightarrow> providerRequestId r \<noteq> None \<and> receipt_result r \<noteq> None) \<and>
      (receipt_status r = Failed \<longrightarrow> receipt_failure r \<noteq> None) \<and>
      receipt_digest r = Inr (receiptHash r))"

lemma receipt_digest_hash: "receipt_digest r = Inr h \<Longrightarrow> ok_hash h"
  by (auto simp: receipt_digest_def res_simps)

lemma receipt_digest_total: "\<exists>h. receipt_digest r = Inr h"
proof -
  have "\<exists>t. canonical (JObj (receipt_base r)) = Some t"
    by (cases "providerRequestId r"; cases "receipt_result r"; cases "receipt_failure r")
      (simp_all add: receipt_base_def enc_result_def enc_failure_def)
  then show ?thesis by (auto simp: receipt_digest_def canonicalJson_def)
qed

lemma optionally_eq_Inr:
  "optionally v j = Inr x \<longleftrightarrow> (j = JUndef \<and> x = None) \<or> (j \<noteq> JUndef \<and> (\<exists>y. v j = Inr y \<and> x = Some y))"
  by (auto simp: optionally_def res_simps)

lemma validateReceipt_ok:
  assumes "validateReceipt j actionId digest (JStr previous) = Inr r"
  shows "ok_receipt actionId digest previous r \<and> (\<exists>ob. j = JObj ob \<and> jget ob ''receiptHash'' = JStr (receiptHash r))"
  using assms unfolding validateReceipt_def Let_def
  apply (elim andThenE)
  apply (simp only: split: if_splits)
   apply simp
  apply (clarsimp simp: ok_receipt_def validator_simps throwIf_eq_Inr optionally_eq_Inr)
  apply (auto simp: a_identifier_eq dest: normalizeResult_ok split: option.splits)
  done

lemma validateReceipt_enc:
  assumes "ok_receipt actionId digest previous r"
  shows "validateReceipt (enc_receipt r) actionId digest (JStr previous) = Inr r"
proof -
  have h: "receipt_digest r = Inr (receiptHash r)" "ok_hash (receiptHash r)"
    using assms receipt_digest_hash [of r] by (auto simp: ok_receipt_def)
  show ?thesis
    using assms h
    by (cases r; cases "providerRequestId r"; cases "receipt_result r"; cases "receipt_failure r")
      (simp_all add: validateReceipt_def enc_receipt_def receipt_base_def ok_receipt_def RECEIPT_KEYS_def throwIf_def Let_def
        del: receipt_status_of.simps)
qed

text \<open>The chain of receipts of one action.\<close>

fun receipt_chain :: "string \<Rightarrow> string \<Rightarrow> string \<Rightarrow> ActionExecutionReceipt list \<Rightarrow> bool" where
  "receipt_chain actionId digest previous [] = True"
| "receipt_chain actionId digest previous (r # rs) =
     (ok_receipt actionId digest previous r \<and> receipt_chain actionId digest (receiptHash r) rs)"

lemma validateReceipts_ok:
  "validateReceipts vs actionId digest (JStr previous) = Inr rs \<Longrightarrow>
   receipt_chain actionId digest previous rs \<and> length rs = length vs"
proof (induction vs arbitrary: previous rs)
  case (Cons v vs)
  from Cons.prems obtain r rs' where r: "validateReceipt v actionId digest (JStr previous) = Inr r" and rs: "rs = r # rs'"
    and rest: "validateReceipts vs actionId digest (case v of JObj ob \<Rightarrow> jget ob ''receiptHash'' | _ \<Rightarrow> JUndef) = Inr rs'"
    by (auto simp: res_simps)
  from validateReceipt_ok [OF r] rest have "validateReceipts vs actionId digest (JStr (receiptHash r)) = Inr rs'" by auto
  from Cons.IH [OF this] validateReceipt_ok [OF r] rs show ?case by simp
qed simp

lemma validateReceipts_enc:
  "receipt_chain actionId digest previous rs \<Longrightarrow> validateReceipts (map enc_receipt rs) actionId digest (JStr previous) = Inr rs"
proof (induction rs arbitrary: previous)
  case (Cons r rs)
  have "(case enc_receipt r of JObj ob \<Rightarrow> jget ob ''receiptHash'' | _ \<Rightarrow> JUndef) = JStr (receiptHash r)"
    by (cases "providerRequestId r"; cases "receipt_result r"; cases "receipt_failure r")
      (simp_all add: enc_receipt_def receipt_base_def)
  with Cons show ?case by (simp add: validateReceipt_enc)
qed simp

lemma receipt_chain_append:
  "receipt_chain actionId digest previous (rs @ ts) \<longleftrightarrow>
     receipt_chain actionId digest previous rs \<and>
     receipt_chain actionId digest (if rs = [] then previous else receiptHash (last rs)) ts"
  by (induction rs arbitrary: previous) auto

section \<open>Stored records\<close>

definition ok_stored :: "StoredAction \<Rightarrow> bool" where
  "ok_stored s =
     (ok_envelope (envelope s) \<and> record_actionHash s = envelope_hash (envelope s) \<and> ok_approval (approval s) \<and>
      binds (envelope s) (approval s) \<and> receipts s \<noteq> [] \<and> length (receipts s) \<le> MAX_RECEIPTS \<and>
      receipt_chain (env_actionId (envelope s)) (record_actionHash s) (receiptGenesisHash (record_actionHash s)) (receipts s) \<and>
      receipt_status (hd (receipts s)) = Requested)"

lemma validateStoredAction_ok:
  assumes "validateStoredAction j = Inr s"
  shows "ok_stored s"
  using assms unfolding validateStoredAction_def
  apply (elim andThenE)
  apply (clarsimp simp: validator_simps throwIf_eq_Inr split: json.splits if_splits)
  apply (frule validateActionEnvelope_ok)
  apply (drule validateReceipts_ok)
  apply (auto simp: ok_stored_def verifyApproval_eq dest: validateActionApproval_ok)
  done

lemma validateStoredAction_enc:
  assumes "ok_stored s"
  shows "validateStoredAction (enc_stored s) = Inr s"
proof -
  have v: "verifyApproval (envelope s) (approval s) EPOCH False = Inr ()"
    using assms by (simp add: ok_stored_def verifyApproval_eq)
  have "\<not> (length (map enc_receipt (receipts s)) < 1 \<or> MAX_RECEIPTS < length (map enc_receipt (receipts s)))"
    using assms by (cases "receipts s") (auto simp: ok_stored_def)
  moreover have "validateReceipts (map enc_receipt (receipts s)) (env_actionId (envelope s)) (envelope_hash (envelope s))
      (JStr (receiptGenesisHash (envelope_hash (envelope s)))) = Inr (receipts s)"
    using assms by (auto simp: ok_stored_def intro: validateReceipts_enc)
  ultimately show ?thesis
    using assms v by (cases s) (simp add: validateStoredAction_def enc_stored_def ok_stored_def)
qed

end
