(* ===== verification/Gateway.thy ===== *)
theory Gateway
  imports Action_Shape
begin

text \<open>
  The operations of \<open>LocalActionGateway\<close> (\<open>src/actions/gateway.ts\<close>) as programs on the
  action files, the safety controller's file and whatever lies outside.  The execution adapter
  and the approval verifier are injected into the gateway and are parameters; every reading of
  the clock and every fresh identifier of a call is an element of a sequence of its own
  (\<open>clk\<close>, \<open>rnd\<close>).  An action file is named by its action id (\<open>getActionPath\<close>), and
  one call works under the lock of that file.
\<close>

section \<open>The world and the parameters\<close>

text \<open>\<open>executed\<close> lists the actions the adapter was told to execute, the last one at the end.
  The program does not keep it: it is there to state what the gateway did.\<close>

record 'x gateway_world =
  action_files :: "string \<Rightarrow> store_file"
  safety_file :: store_file
  outside :: 'x
  executed :: "ActionEnvelope list"

datatype execution = OutcomeCommitted string ReceiptResult | OutcomeUnknown

record reconciliation =
  rec_committed :: bool
  rec_providerRequestId :: "string option"
  rec_result :: "ReceiptResult option"

text \<open>\<open>execute\<close> gets the lease's \<open>commit\<close>, through which it may change the safety
  controller's file.\<close>

record 'x adapter =
  ad_supports :: "string \<Rightarrow> bool"
  ad_plan :: "ActionEnvelope \<Rightarrow> 'x \<Rightarrow> (string, unit) res \<times> 'x"
  ad_simulate :: "ActionEnvelope \<Rightarrow> 'x \<Rightarrow> (string, unit) res \<times> 'x"
  ad_execute :: "ActionEnvelope \<Rightarrow> SafetyLease \<Rightarrow> store_file \<times> 'x \<Rightarrow> (string, execution) res \<times> store_file \<times> 'x"
  ad_verify :: "ActionEnvelope \<Rightarrow> 'x \<Rightarrow> (string, reconciliation) res \<times> 'x"
  ad_compensate :: "(ActionEnvelope \<Rightarrow> 'x \<Rightarrow> (string, unit) res \<times> 'x) option"

text \<open>The verifier answers with the inbox request it found, if any.\<close>

type_synonym 'x verifier =
  "ActionEnvelope \<Rightarrow> ActionApproval \<Rightarrow> ApprovalPhase \<Rightarrow> 'x \<Rightarrow> (gateway_error, string option) res \<times> 'x"

record 'x gateway =
  gw_adapter :: "'x adapter"
  gw_verifier :: "'x verifier"
  gw_leaseTtlMs :: int

type_synonym ('x, 'a) gateway_prog = "('x gateway_world, gateway_error, 'a) prog"

section \<open>Calls of the other components\<close>

definition mapError :: "('e \<Rightarrow> 'f) \<Rightarrow> ('e, 'a) res \<Rightarrow> ('f, 'a) res" where
  "mapError g m = (case m of Inl e \<Rightarrow> Inl (g e) | Inr x \<Rightarrow> Inr x)"

definition safetyCall :: "'a file_prog \<Rightarrow> ('x, 'a) gateway_prog" where
  "safetyCall p = (\<lambda>w. case p (safety_file w) of (r, f) \<Rightarrow> (mapError ControllerError r, w\<lparr>safety_file := f\<rparr>))"

definition outsideCall :: "('x \<Rightarrow> (string, 'a) res \<times> 'x) \<Rightarrow> ('x, 'a) gateway_prog" where
  "outsideCall p = (\<lambda>w. case p (outside w) of (r, x) \<Rightarrow> (mapError ForeignError r, w\<lparr>outside := x\<rparr>))"

definition verifierCall :: "'x gateway \<Rightarrow> ActionEnvelope \<Rightarrow> ActionApproval \<Rightarrow> ApprovalPhase \<Rightarrow> ('x, string option) gateway_prog" where
  "verifierCall gw env appr ph = (\<lambda>w. case gw_verifier gw env appr ph (outside w) of (r, x) \<Rightarrow> (r, w\<lparr>outside := x\<rparr>))"

definition adapterExecute :: "'x gateway \<Rightarrow> ActionEnvelope \<Rightarrow> SafetyLease \<Rightarrow> ('x, execution) gateway_prog" where
  "adapterExecute gw env lease = (\<lambda>w.
     case ad_execute (gw_adapter gw) env lease (safety_file w, outside w) of
       (r, f, x) \<Rightarrow> (mapError ForeignError r, w\<lparr>safety_file := f, outside := x, executed := executed w @ [env]\<rparr>))"

text \<open>\<open>this.now().toISOString()\<close>, which throws on an invalid date.\<close>

definition isoNow :: "clock \<Rightarrow> (gateway_error, string) res" where
  "isoNow now = (case now of None \<Rightarrow> Inl RangeError | Some ms \<Rightarrow> Inr (toISOString ms))"

section \<open>Record files\<close>

definition readStored :: "store_file \<Rightarrow> bool \<Rightarrow> (gateway_error, StoredAction option) res" where
  "readStored f required =
     (case f of
        NoFile \<Rightarrow> if required then Inl (AGE ''Action was not found.'') else Inr None
      | NotRegular \<Rightarrow> Inl (AGE ''Action record must be a regular non-symlink file.'')
      | Regular content bytes \<Rightarrow>
          if bytes > MAX_ACTION_BYTES then Inl (AGE (''Action record exceeds '' @ nat_digits MAX_ACTION_BYTES @ '' bytes.''))
          else (case content of
                  None \<Rightarrow> Inl (AGE ''Action record is not valid JSON.'')
                | Some j \<Rightarrow> andThen (validateStoredAction j) (\<lambda>s. Inr (Some s))))"

definition readStoredAction :: "string \<Rightarrow> bool \<Rightarrow> ('x, StoredAction option) gateway_prog" where
  "readStoredAction actionId required = getp (\<lambda>w. liftp (readStored (action_files w actionId) required))"

definition writeStoredAction :: "string \<Rightarrow> StoredAction \<Rightarrow> ('x, unit) gateway_prog" where
  "writeStoredAction actionId rec =
     seqp (liftp (validateStoredAction (enc_stored rec))) (\<lambda>s.
     modifyp (\<lambda>w. w\<lparr>action_files := (action_files w)(actionId := atomicWriteJson (enc_stored s))\<rparr>))"

section \<open>Receipts\<close>

definition createReceipt ::
  "StoredAction \<Rightarrow> ActionReceiptStatus \<Rightarrow> string \<Rightarrow> string \<Rightarrow> string option \<Rightarrow> ReceiptResult option \<Rightarrow> FailureCode option \<Rightarrow>
   (gateway_error, ActionExecutionReceipt) res" where
  "createReceipt rec status ts uuid prid result failure =
     andThen (a_identifier AGE ''Receipt id'' (JStr (''receipt-'' @ uuid))) (\<lambda>rid.
     andThen (v_timestamp AGE ''Action receipt timestamp'' (JStr ts)) (\<lambda>t.
     andThen (case prid of None \<Rightarrow> Inr None
              | Some p \<Rightarrow> andThen (a_identifier AGE ''Provider request id'' (JStr p)) (\<lambda>q. Inr (Some q))) (\<lambda>pr.
     let base = \<lparr>receiptId = rid, receipt_actionId = env_actionId (envelope rec), receipt_actionHash = record_actionHash rec,
                 receipt_status = status, receipt_timestamp = t, providerRequestId = pr, receipt_result = result,
                 receipt_failure = failure,
                 previousReceiptHash = (if receipts rec = [] then receiptGenesisHash (record_actionHash rec)
                                        else receiptHash (last (receipts rec))),
                 receiptHash = []\<rparr>
     in andThen (receipt_digest base) (\<lambda>h. Inr (base\<lparr>receiptHash := h\<rparr>)))))"

definition appendReceipt :: "StoredAction \<Rightarrow> ActionExecutionReceipt \<Rightarrow> (gateway_error, StoredAction) res" where
  "appendReceipt rec r =
     (if length (receipts rec) \<ge> MAX_RECEIPTS
      then Inl (AGE (''Action receipt limit of '' @ nat_digits MAX_RECEIPTS @ '' was reached.''))
      else Inr (rec\<lparr>receipts := receipts rec @ [r]\<rparr>))"

definition findLatestReceipt :: "ActionExecutionReceipt list \<Rightarrow> ActionReceiptStatus \<Rightarrow> ActionExecutionReceipt option" where
  "findLatestReceipt rs status = List.find (\<lambda>r. receipt_status r = status) (rev rs)"

text \<open>A receipt is created, appended to the record in memory, and the record is returned.\<close>

definition addReceipt ::
  "StoredAction \<Rightarrow> ActionReceiptStatus \<Rightarrow> string \<Rightarrow> string \<Rightarrow> string option \<Rightarrow> ReceiptResult option \<Rightarrow> FailureCode option \<Rightarrow>
   (gateway_error, StoredAction) res" where
  "addReceipt rec status ts uuid prid result failure =
     andThen (createReceipt rec status ts uuid prid result failure) (appendReceipt rec)"

section \<open>Checks\<close>

definition verifyPolicy :: "ActionEnvelope \<Rightarrow> ActionPolicyCheck \<Rightarrow> (gateway_error, unit) res" where
  "verifyPolicy action policy =
     andThen (throwIf (\<not> allowed policy) (AGE ''Current policy denies action execution.'')) (\<lambda>_.
     throwIf (check_version policy \<noteq> int (policy_version action) \<or> check_hash policy \<noteq> policy_hash action)
       (AGE ''Current policy reference does not match the approved action.''))"

definition requireApprovalInboxVerification :: "ActionApproval \<Rightarrow> string option \<Rightarrow> (gateway_error, unit) res" where
  "requireApprovalInboxVerification appr inboxRequestId =
     throwIf (approvedBy appr = ''approval-inbox'' \<and> inboxRequestId \<noteq> Some (approvalId appr))
       (AGE ''Approval inbox provenance is not active for execution.'')"

definition safetyAction :: "ActionEnvelope \<Rightarrow> string \<Rightarrow> SafetyAction" where
  "safetyAction action actionDigest =
     \<lparr>organizationId = ''ghostapi-local'', projectId = env_projectId action, environment = ''synthetic'',
      actorId = actor_id action, workloadId = actor_workloadId action, provider = ''ghostapi-synthetic'',
      operation = env_operation action, riskClass = env_riskClass action, idempotencyKey = env_idempotencyKey action,
      actionHash = actionDigest,
      costs = \<lparr>monetaryAmountMinor = 0, requests = 1, messages = 1, mutations = 1, deletes = 0, tokenCost = 0\<rparr>\<rparr>"

section \<open>Submission\<close>

definition submit ::
  "'x gateway \<Rightarrow> (nat \<Rightarrow> clock) \<Rightarrow> (nat \<Rightarrow> string) \<Rightarrow> json \<Rightarrow> json \<Rightarrow> ActionPolicyCheck \<Rightarrow> ('x, StoredAction) gateway_prog" where
  "submit gw clk rnd actionValue approvalValue policy =
     seqp (liftp (validateActionEnvelope actionValue)) (\<lambda>action.
     seqp (liftp (validateActionApproval approvalValue)) (\<lambda>appr.
     seqp (verifierCall gw action appr Submit_phase) (\<lambda>verification.
     seqp (liftp (requireApprovalInboxVerification appr verification)) (\<lambda>_.
     seqp (liftp (isoNow (clk 0))) (\<lambda>current.
     seqp (liftp (verifyPolicy action policy)) (\<lambda>_.
     seqp (liftp (actionHash (enc_envelope action))) (\<lambda>digest.
     seqp (readStoredAction (env_actionId action) False) (\<lambda>existing.
     case existing of
       Some rec \<Rightarrow>
         seqp (liftp (actionApprovalHash (enc_approval (approval rec)))) (\<lambda>h1.
         seqp (liftp (actionApprovalHash (enc_approval appr))) (\<lambda>h2.
         if record_actionHash rec = digest \<and> h1 = h2 then ret rec
         else throw (AGE ''Action id already exists with a different immutable envelope or approval.'')))
     | None \<Rightarrow>
         if not_after (env_expiresAt action) current then throw (AGE ''Action has expired.'')
         else
           seqp (liftp (verifyApproval action appr current True)) (\<lambda>_.
           let rec = \<lparr>envelope = action, record_actionHash = digest, approval = appr, receipts = []\<rparr> in
           seqp (liftp (createReceipt rec Requested current (rnd 0) None None None)) (\<lambda>r.
           seqp (writeStoredAction (env_actionId action) (rec\<lparr>receipts := [r]\<rparr>)) (\<lambda>_.
           ret (rec\<lparr>receipts := [r]\<rparr>))))))))))))"

definition inspect :: "string \<Rightarrow> ('x, StoredAction) gateway_prog" where
  "inspect actionId =
     seqp (liftp (a_identifier AGE ''Action id'' (JStr actionId))) (\<lambda>i.
     seqp (readStoredAction i True) (\<lambda>rec. case rec of None \<Rightarrow> throw (AGE ''Action was not found.'') | Some s \<Rightarrow> ret s))"

section \<open>Execution\<close>

text \<open>What the adapter's verification must contain to count as a proof.\<close>

definition provenResult :: "reconciliation \<Rightarrow> (string \<times> ReceiptResult) option" where
  "provenResult v =
     (if \<not> rec_committed v then None
      else case (rec_providerRequestId v, rec_result v) of (Some p, Some r) \<Rightarrow> Some (p, r) | _ \<Rightarrow> None)"

text \<open>An earlier call committed and did not get to verify.\<close>

definition reconcileCommitted :: "'x gateway \<Rightarrow> (nat \<Rightarrow> string) \<Rightarrow> StoredAction \<Rightarrow> string \<Rightarrow> ('x, ActionExecutionReceipt) gateway_prog" where
  "reconcileCommitted gw rnd rec current =
     seqp (outsideCall (ad_verify (gw_adapter gw) (envelope rec))) (\<lambda>v.
     case provenResult v of
       None \<Rightarrow> throw (AGE ''Committed action verification is incomplete; execution will not retry without idempotency proof.'')
     | Some (p, result) \<Rightarrow>
         seqp (liftp (addReceipt rec Verified current (rnd 0) (Some p) (Some result) None)) (\<lambda>rec1.
         seqp (writeStoredAction (env_actionId (envelope rec)) rec1) (\<lambda>_.
         ret (last (receipts rec1)))))"

text \<open>An earlier call attempted the execution and its outcome is not known.\<close>

definition reconcileAttempted :: "'x gateway \<Rightarrow> (nat \<Rightarrow> string) \<Rightarrow> StoredAction \<Rightarrow> string \<Rightarrow> ('x, ActionExecutionReceipt) gateway_prog" where
  "reconcileAttempted gw rnd rec current =
     seqp (outsideCall (ad_verify (gw_adapter gw) (envelope rec))) (\<lambda>v.
     case provenResult v of
       None \<Rightarrow> throw (AGE ''Prior action outcome is unknown; execution will not retry without idempotency proof.'')
     | Some (p, result) \<Rightarrow>
         seqp (liftp (addReceipt rec Committed current (rnd 0) (Some p) (Some result) None)) (\<lambda>rec1.
         seqp (liftp (addReceipt rec1 Verified current (rnd 1) (Some p) (Some result) None)) (\<lambda>rec2.
         seqp (writeStoredAction (env_actionId (envelope rec)) rec2) (\<lambda>_.
         ret (last (receipts rec2))))))"

text \<open>The outcome that is reported to the safety controller.\<close>

definition outcome_json :: "bool \<Rightarrow> bool \<Rightarrow> string option \<Rightarrow> json" where
  "outcome_json ok mismatch reason =
     JObj ([(''success'', JBool ok)] @ (if mismatch then [(''reconciliationMismatch'', JBool True)] else []) @
       [(''latencyMs'', JNat 0)] @ opt_prop ''reason'' JStr reason)"

text \<open>The failure branches: complete the lease, append a failed receipt, write, and throw.\<close>

definition failExecution ::
  "SafetyLease \<Rightarrow> clock \<Rightarrow> clock \<Rightarrow> string \<Rightarrow> StoredAction \<Rightarrow> bool \<Rightarrow> string \<Rightarrow> string option \<Rightarrow> ReceiptResult option \<Rightarrow> FailureCode \<Rightarrow>
   string \<Rightarrow> ('x, ActionExecutionReceipt) gateway_prog" where
  "failExecution lease completeClock receiptClock uuid rec mismatch reason prid result fc msg =
     seqp (safetyCall (complete lease (outcome_json False mismatch (Some reason)) completeClock)) (\<lambda>_.
     seqp (liftp (isoNow receiptClock)) (\<lambda>t.
     seqp (liftp (addReceipt rec Failed t uuid prid result (Some fc))) (\<lambda>rec1.
     seqp (writeStoredAction (env_actionId (envelope rec)) rec1) (\<lambda>_.
     throw (AGE msg)))))"

text \<open>After the adapter reported a commit: record it, verify it, and complete the lease.\<close>

definition afterCommit ::
  "'x gateway \<Rightarrow> (nat \<Rightarrow> clock) \<Rightarrow> (nat \<Rightarrow> string) \<Rightarrow> SafetyLease \<Rightarrow> StoredAction \<Rightarrow> string \<Rightarrow> ReceiptResult \<Rightarrow>
   ('x, ActionExecutionReceipt) gateway_prog" where
  "afterCommit gw clk rnd lease rec prid result =
     seqp (liftp (isoNow (clk 4))) (\<lambda>t.
     seqp (liftp (addReceipt rec Committed t (rnd 1) (Some prid) (Some result) None)) (\<lambda>rec1.
     seqp (writeStoredAction (env_actionId (envelope rec)) rec1) (\<lambda>_.
     seqp (outsideCall (ad_verify (gw_adapter gw) (envelope rec))) (\<lambda>v.
     case provenResult v of
       None \<Rightarrow>
         failExecution lease (clk 5) (clk 6) (rnd 2) rec1 True ''synthetic verification did not prove the result''
           (Some prid) (Some result) Verification_failed
           ''Action committed but verification did not prove its result; it was not automatically retried.''
     | Some (p, r) \<Rightarrow>
         seqp (liftp (isoNow (clk 5))) (\<lambda>t2.
         seqp (liftp (addReceipt rec1 Verified t2 (rnd 2) (Some p) (Some r) None)) (\<lambda>rec2.
         seqp (writeStoredAction (env_actionId (envelope rec)) rec2) (\<lambda>_.
         seqp (safetyCall (complete lease (outcome_json True False None) (clk 6))) (\<lambda>_.
         ret (last (receipts rec2))))))))))"

text \<open>The adapter runs; any error it throws is caught.\<close>

definition runAdapter ::
  "'x gateway \<Rightarrow> (nat \<Rightarrow> clock) \<Rightarrow> (nat \<Rightarrow> string) \<Rightarrow> SafetyLease \<Rightarrow> StoredAction \<Rightarrow> ('x, ActionExecutionReceipt) gateway_prog" where
  "runAdapter gw clk rnd lease rec = (\<lambda>w.
     case adapterExecute gw (envelope rec) lease w of
       (Inl _, w') \<Rightarrow>
         failExecution lease (clk 2) (clk 3) (rnd 1) rec False ''synthetic execution failed or was stopped'' None None Execution_error
           ''Action execution failed; it was not automatically retried.'' w'
     | (Inr OutcomeUnknown, w') \<Rightarrow>
         failExecution lease (clk 2) (clk 3) (rnd 1) rec False ''synthetic execution outcome is unknown'' None None Unknown_outcome
           ''Action provider outcome is unknown; it was not automatically retried.'' w'
     | (Inr (OutcomeCommitted prid result), w') \<Rightarrow> afterCommit gw clk rnd lease rec prid result w')"

text \<open>The first attempt: admitted by the safety controller, and recorded as attempted before the
  adapter is told to execute.\<close>

definition firstAttempt ::
  "'x gateway \<Rightarrow> (nat \<Rightarrow> clock) \<Rightarrow> (nat \<Rightarrow> string) \<Rightarrow> StoredAction \<Rightarrow> string \<Rightarrow> ('x, ActionExecutionReceipt) gateway_prog" where
  "firstAttempt gw clk rnd rec current =
     seqp (liftp (throwIf (not_after (env_expiresAt (envelope rec)) current) (AGE ''Action has expired.''))) (\<lambda>_.
     seqp (liftp (verifyApproval (envelope rec) (approval rec) current True)) (\<lambda>_.
     seqp (outsideCall (ad_plan (gw_adapter gw) (envelope rec))) (\<lambda>_.
     seqp (outsideCall (ad_simulate (gw_adapter gw) (envelope rec))) (\<lambda>_.
     seqp (safetyCall (admit (enc_action (safetyAction (envelope rec) (record_actionHash rec))) (gw_leaseTtlMs gw) (clk 1))) (\<lambda>lease.
     if replay lease
     then throw (AGE ''Safety controller replay was reached before a verified action receipt.'')
     else
       seqp (liftp (addReceipt rec Attempted current (rnd 0) None None None)) (\<lambda>rec1.
       seqp (writeStoredAction (env_actionId (envelope rec)) rec1) (\<lambda>_.
       runAdapter gw clk rnd lease rec1)))))))"

definition execute ::
  "'x gateway \<Rightarrow> (nat \<Rightarrow> clock) \<Rightarrow> (nat \<Rightarrow> string) \<Rightarrow> json \<Rightarrow> ActionExecutionIdentity \<Rightarrow> ActionPolicyCheck \<Rightarrow>
   ('x, ActionExecutionReceipt) gateway_prog" where
  "execute gw clk rnd actionValue identity policy =
     seqp (liftp (validateActionEnvelope actionValue)) (\<lambda>requested.
     seqp (readStoredAction (env_actionId requested) True) (\<lambda>found.
     case found of
       None \<Rightarrow> throw (AGE ''Action was not submitted.'')
     | Some rec \<Rightarrow>
         seqp (verifierCall gw (envelope rec) (approval rec) Execute_phase) (\<lambda>verification.
         seqp (liftp (requireApprovalInboxVerification (approval rec) verification)) (\<lambda>_.
         seqp (liftp (isoNow (clk 0))) (\<lambda>current.
         seqp (liftp (actionHash (enc_envelope requested))) (\<lambda>h.
         seqp (liftp (canonicalizeActionEnvelope (enc_envelope requested))) (\<lambda>t1.
         seqp (liftp (canonicalizeActionEnvelope (enc_envelope (envelope rec)))) (\<lambda>t2.
         if h \<noteq> record_actionHash rec \<or> t1 \<noteq> t2
         then throw (AGE ''Action envelope changed after approval; execution is blocked.'')
         else
           seqp (liftp (verifyApproval (envelope rec) (approval rec) current False)) (\<lambda>_.
           seqp (liftp (verifyPolicy (envelope rec) policy)) (\<lambda>_.
           if identity_actorId identity \<noteq> actor_id (envelope rec) \<or> identity_workloadId identity \<noteq> actor_workloadId (envelope rec)
           then throw (AGE ''Execution identity does not match the approved action.'')
           else if \<not> ad_supports (gw_adapter gw) (env_operation (envelope rec))
           then throw (AGE (''Execution adapter does not support action operation: '' @ env_operation (envelope rec)))
           else case findLatestReceipt (receipts rec) Verified of
             Some r \<Rightarrow> ret r
           | None \<Rightarrow>
               if findLatestReceipt (receipts rec) Committed \<noteq> None then reconcileCommitted gw rnd rec current
               else if findLatestReceipt (receipts rec) Attempted \<noteq> None then reconcileAttempted gw rnd rec current
               else firstAttempt gw clk rnd rec current))))))))))"

definition compensate :: "'x gateway \<Rightarrow> string \<Rightarrow> ('x, unit) gateway_prog" where
  "compensate gw actionId =
     seqp (inspect actionId) (\<lambda>action.
     case ad_compensate (gw_adapter gw) of
       None \<Rightarrow> throw (AGE ''Compensation is unsupported for this action; no rollback is claimed.'')
     | Some undo \<Rightarrow>
         if reversibility (envelope action) \<noteq> Compensatable
         then throw (AGE ''Compensation is unsupported for this action; no rollback is claimed.'')
         else
           seqp (outsideCall (undo (envelope action))) (\<lambda>_.
           throw (AGE ''Compensation adapters must return a durable compensation receipt before this operation can be exposed.'')))"

section \<open>Approval provenance\<close>

definition createDisabledActionApprovalVerifier :: "'x verifier" where
  "createDisabledActionApprovalVerifier = (\<lambda>action appr ph x.
     (Inl (AGE ''Action approval authenticity could not be verified.''), x))"

definition unsigned_text :: "ActionApproval \<Rightarrow> (gateway_error, string) res" where
  "unsigned_text p = canonicalJson (JObj (unsigned_fields p))"

text \<open>The trusted keys and the signature check of the platform are parameters.\<close>

definition createEd25519ActionApprovalVerifier ::
  "(string \<Rightarrow> 'k option) \<Rightarrow> ('k \<Rightarrow> string \<Rightarrow> string \<Rightarrow> bool) \<Rightarrow> 'x verifier" where
  "createEd25519ActionApprovalVerifier keys checkSignature = (\<lambda>action appr ph x.
     (andThen (validateActionApproval (enc_approval appr)) (\<lambda>parsed.
      andThen (unsigned_text parsed) (\<lambda>text.
      andThen (actionHash (enc_envelope action)) (\<lambda>h.
      if (case keys (keyId parsed) of None \<Rightarrow> True | Some k \<Rightarrow> \<not> checkSignature k text (signature parsed)) \<or>
         approval_actionHash parsed \<noteq> h
      then Inl (AGE ''Action approval authenticity could not be verified.'')
      else Inr None))), x))"

definition UNSIGNED_KEYS :: "string list" where
  "UNSIGNED_KEYS = [''schemaVersion'', ''kind'', ''approvalId'', ''actionHash'', ''approvedBy'', ''approvedAt'',
     ''expiresAt'', ''nonce'']"

definition validateUnsignedActionApproval :: "json \<Rightarrow> (gateway_error, ActionApproval) res" where
  "validateUnsignedActionApproval value =
     andThen (v_object AGE ''Action approval must be an object.'' value) (\<lambda>appr.
     andThen (a_exactKeys AGE ''Unsigned action approval'' UNSIGNED_KEYS appr) (\<lambda>_.
     validateActionApproval (JObj (jset appr ''provenance''
       (JObj [(''kind'', JStr ''ghostapi.ed25519-signature''), (''keyId'', JStr ''validation-key''),
          (''signature'', JStr (replicate 86 CHR ''A''))])))))"

definition createEd25519ActionApprovalSigner ::
  "string \<Rightarrow> (string \<Rightarrow> string) \<Rightarrow> json \<Rightarrow> (gateway_error, ActionApproval) res" where
  "createEd25519ActionApprovalSigner key sign value =
     andThen (a_identifier AGE ''Action approval signing key id'' (JStr key)) (\<lambda>k.
     andThen (validateUnsignedActionApproval value) (\<lambda>appr.
     andThen (unsigned_text appr) (\<lambda>text.
     Inr (appr\<lparr>keyId := k, signature := sign text\<rparr>))))"

end
