(* ===== verification/Gateway_Laws.thy ===== *)
theory Gateway_Laws
  imports Gateway
begin

text \<open>
  What the gateway's programs keep.  The file of the action a call works on is left alone or
  rewritten with a record that extends the one that was read (\<open>extends\<close>); all other files
  are left alone; and only the first attempt of an action tells the adapter to execute it.
\<close>

section \<open>Records only grow\<close>

definition record_grows :: "StoredAction \<Rightarrow> StoredAction \<Rightarrow> bool" where
  "record_grows s s' =
     (envelope s' = envelope s \<and> record_actionHash s' = record_actionHash s \<and> approval s' = approval s \<and>
      prefix (receipts s) (receipts s'))"

lemma record_grows_refl [simp]: "record_grows s s"
  by (simp add: record_grows_def)

lemma record_grows_trans: "record_grows s t \<Longrightarrow> record_grows t u \<Longrightarrow> record_grows s u"
  by (auto simp: record_grows_def)

definition has_status :: "ActionReceiptStatus \<Rightarrow> StoredAction \<Rightarrow> bool" where
  "has_status st s = (\<exists>r \<in> set (receipts s). receipt_status r = st)"

lemma has_status_grows: "record_grows s s' \<Longrightarrow> has_status st s \<Longrightarrow> has_status st s'"
  by (auto simp: record_grows_def has_status_def dest: set_mono_prefix)

lemma findLatest_None: "findLatestReceipt (receipts s) st = None \<longleftrightarrow> \<not> has_status st s"
  by (auto simp: findLatestReceipt_def has_status_def)

lemma findLatest_Some: "findLatestReceipt rs st = Some r \<Longrightarrow> r \<in> set rs \<and> receipt_status r = st"
  by (auto simp: findLatestReceipt_def dest: find_SomeD)

lemma createReceipt_status:
  "createReceipt rec st ts u p rs f = Inr r \<Longrightarrow> receipt_status r = st \<and> receipt_timestamp r = ts \<and>
     providerRequestId r = p \<and> receipt_result r = rs \<and> receipt_failure r = f"
  by (auto simp: createReceipt_def Let_def res_simps validator_simps split: option.splits)

lemma addReceipt_Inr:
  assumes "addReceipt rec st ts u p rs f = Inr rec'"
  shows "\<exists>r. createReceipt rec st ts u p rs f = Inr r \<and> rec' = rec\<lparr>receipts := receipts rec @ [r]\<rparr> \<and> length (receipts rec) < MAX_RECEIPTS"
  using assms by (auto simp: addReceipt_def appendReceipt_def res_simps split: if_splits)

lemma addReceipt_grows: "addReceipt rec st ts u p rs f = Inr rec' \<Longrightarrow> record_grows rec rec' \<and> has_status st rec'"
  using addReceipt_Inr [of rec st ts u p rs f rec'] createReceipt_status [of rec st ts u p rs f]
  by (auto simp: record_grows_def has_status_def)

section \<open>Written files\<close>

definition written :: "StoredAction \<Rightarrow> store_file" where
  "written s = atomicWriteJson (enc_stored s)"

lemma readStored_ok: "readStored f b = Inr (Some s) \<Longrightarrow> ok_stored s"
  by (auto simp: readStored_def res_simps split: store_file.splits if_splits option.splits dest: validateStoredAction_ok)

lemma readStored_written:
  assumes "ok_stored s"
  shows "readStored (written s) b = Inr (Some s) \<or> (\<exists>e. readStored (written s) b = Inl e)"
  using validateStoredAction_enc [OF assms] by (auto simp: readStored_def written_def atomicWriteJson_def)

lemma readStored_written_Some: "ok_stored s \<Longrightarrow> readStored (written s) b = Inr (Some t) \<Longrightarrow> t = s"
  using readStored_written [of s b] by auto

lemma readStored_written_None: "readStored (written s) b \<noteq> Inr None"
  by (auto simp: readStored_def written_def atomicWriteJson_def res_simps)

text \<open>A record is validated before it is written; the validator changes nothing.\<close>

lemma validateActionEnvelope_same: "validateActionEnvelope (enc_envelope e) = Inr e' \<Longrightarrow> e' = e"
  unfolding validateActionEnvelope_def enc_envelope_def
  by (elim andThenE) (cases e, clarsimp simp: validator_simps side_effects_eq throwIf_eq_Inr
      simp del: actor_of_name.simps reversibility_of_name.simps action_risk_of.simps)

lemma validateActionApproval_same: "validateActionApproval (enc_approval p) = Inr p' \<Longrightarrow> p' = p"
  unfolding validateActionApproval_def enc_approval_def unsigned_fields_def
  by (elim andThenE) (cases p, clarsimp simp: validator_simps signature_shape_eq throwIf_eq_Inr)

lemma normalizeResult_same: "normalizeResult (enc_result r) = Inr r' \<Longrightarrow> r' = r"
  unfolding normalizeResult_def enc_result_def by (elim andThenE) (cases r, clarsimp simp: validator_simps)

lemma validateReceipt_fields:
  assumes "validateReceipt (JObj ob) actionId digest (JStr previous) = Inr r"
  shows "jget ob ''receiptId'' = JStr (receiptId r)" "jget ob ''actionId'' = JStr (receipt_actionId r)"
    "jget ob ''actionHash'' = JStr (receipt_actionHash r)" "receipt_status_of (jget ob ''status'') = Some (receipt_status r)"
    "jget ob ''timestamp'' = JStr (receipt_timestamp r)" "jget ob ''previousReceiptHash'' = JStr (previousReceiptHash r)"
    "jget ob ''receiptHash'' = JStr (receiptHash r)"
    "optionally (a_identifier AGE ''Provider request id'') (jget ob ''providerRequestId'') = Inr (providerRequestId r)"
    "optionally normalizeResult (jget ob ''result'') = Inr (receipt_result r)"
    "optionally normalizeFailure (jget ob ''failure'') = Inr (receipt_failure r)"
  using assms unfolding validateReceipt_def Let_def
  by (elim andThenE, clarsimp simp: v_object_eq a_identifier_eq a_hash_eq v_timestamp_eq fromOption_eq throwIf_eq_Inr split: if_splits)+

lemma enc_receipt_fields:
  "\<exists>ob. enc_receipt r = JObj ob \<and> jget ob ''receiptId'' = JStr (receiptId r) \<and> jget ob ''actionId'' = JStr (receipt_actionId r) \<and>
     jget ob ''actionHash'' = JStr (receipt_actionHash r) \<and> jget ob ''status'' = JStr (receipt_status_name (receipt_status r)) \<and>
     jget ob ''timestamp'' = JStr (receipt_timestamp r) \<and> jget ob ''previousReceiptHash'' = JStr (previousReceiptHash r) \<and>
     jget ob ''receiptHash'' = JStr (receiptHash r) \<and>
     jget ob ''providerRequestId'' = (case providerRequestId r of None \<Rightarrow> JUndef | Some p \<Rightarrow> JStr p) \<and>
     jget ob ''result'' = (case receipt_result r of None \<Rightarrow> JUndef | Some v \<Rightarrow> enc_result v) \<and>
     jget ob ''failure'' = (case receipt_failure r of None \<Rightarrow> JUndef | Some c \<Rightarrow> enc_failure c)"
  by (cases "providerRequestId r"; cases "receipt_result r"; cases "receipt_failure r")
    (simp_all add: enc_receipt_def receipt_base_def)

lemma validateReceipt_same:
  assumes "validateReceipt (enc_receipt r) actionId digest (JStr previous) = Inr r'"
  shows "r' = r"
proof -
  obtain ob where ob: "enc_receipt r = JObj ob"
    and f: "jget ob ''receiptId'' = JStr (receiptId r)" "jget ob ''actionId'' = JStr (receipt_actionId r)"
     "jget ob ''actionHash'' = JStr (receipt_actionHash r)" "jget ob ''status'' = JStr (receipt_status_name (receipt_status r))"
     "jget ob ''timestamp'' = JStr (receipt_timestamp r)" "jget ob ''previousReceiptHash'' = JStr (previousReceiptHash r)"
     "jget ob ''receiptHash'' = JStr (receiptHash r)"
     and g: "jget ob ''providerRequestId'' = (case providerRequestId r of None \<Rightarrow> JUndef | Some p \<Rightarrow> JStr p)"
     "jget ob ''result'' = (case receipt_result r of None \<Rightarrow> JUndef | Some v \<Rightarrow> enc_result v)"
     "jget ob ''failure'' = (case receipt_failure r of None \<Rightarrow> JUndef | Some c \<Rightarrow> enc_failure c)"
    using enc_receipt_fields [of r] by metis
  note v = validateReceipt_fields [OF assms [unfolded ob]]
  have "providerRequestId r' = providerRequestId r"
    using v(8) g(1) by (auto simp: optionally_def andThen_eq_Inr a_identifier_eq split: option.splits if_splits)
  moreover have "receipt_result r' = receipt_result r"
    using v(9) g(2) by (auto simp: optionally_def andThen_eq_Inr dest!: normalizeResult_same split: option.splits if_splits)
  moreover have "receipt_failure r' = receipt_failure r"
    using v(10) g(3) by (auto simp: optionally_def split: option.splits if_splits)
  moreover have "receipt_status r' = receipt_status r" using v(4) f(4) by (simp del: receipt_status_of.simps)
  ultimately show ?thesis using v(1-3,5-7) f by (cases r; cases r') simp
qed

lemma validateReceipts_same:
  "validateReceipts (map enc_receipt rs) actionId digest (JStr previous) = Inr rs' \<Longrightarrow> rs' = rs"
proof (induction rs arbitrary: rs' previous)
  case (Cons r rs)
  from Cons.prems obtain r' rs1 where r: "validateReceipt (enc_receipt r) actionId digest (JStr previous) = Inr r'" and rs: "rs' = r' # rs1"
    and rest: "validateReceipts (map enc_receipt rs) actionId digest (case enc_receipt r of JObj ob \<Rightarrow> jget ob ''receiptHash'' | _ \<Rightarrow> JUndef) = Inr rs1"
    by (auto simp: res_simps)
  have "(case enc_receipt r of JObj ob \<Rightarrow> jget ob ''receiptHash'' | _ \<Rightarrow> JUndef) = JStr (receiptHash r)"
    using validateReceipt_ok [OF r] validateReceipt_same [OF r] by auto
  with Cons.IH rest rs validateReceipt_same [OF r] show ?case by simp
qed simp

lemma validate_same:
  assumes "validateStoredAction (enc_stored rec) = Inr s"
  shows "s = rec" and "ok_stored rec"
proof -
  show "s = rec"
    using assms unfolding validateStoredAction_def enc_stored_def
    apply (elim andThenE)
    apply (cases rec)
    apply (clarsimp simp: validator_simps throwIf_eq_Inr split: if_splits)
    apply (auto dest!: validateActionEnvelope_same validateActionApproval_same validateReceipts_same)
    done
  with validateStoredAction_ok [OF assms] show "ok_stored rec" by simp
qed

end
