(* ===== verification/Gateway_Frame.thy ===== *)
theory Gateway_Frame
  imports Gateway_Laws
begin

text \<open>
  The frame of the gateway's programs: \<open>tail\<close> relates the worlds before and after a part of
  a call that works on one action and does not tell the adapter to execute.  The effect lemmas
  then say what \<open>submit\<close> and \<open>execute\<close> do on every path.
\<close>

section \<open>The frame\<close>

definition touches :: "string \<Rightarrow> StoredAction \<Rightarrow> 'x gateway_world \<Rightarrow> 'x gateway_world \<Rightarrow> bool" where
  "touches i rec w w' =
     ((\<forall>j. j \<noteq> i \<longrightarrow> action_files w' j = action_files w j) \<and>
      (action_files w' i = action_files w i \<or>
       (\<exists>s. ok_stored s \<and> record_grows rec s \<and> action_files w' i = written s)))"

definition tail :: "string \<Rightarrow> StoredAction \<Rightarrow> 'x gateway_world \<Rightarrow> 'x gateway_world \<Rightarrow> bool" where
  "tail i rec w w' = (touches i rec w w' \<and> executed w' = executed w)"

lemma touches_trans: "touches i rec u v \<Longrightarrow> touches i rec v w \<Longrightarrow> touches i rec u w"
  by (auto simp: touches_def)

lemma touches_grows: "touches i rec w w' \<Longrightarrow> record_grows rec0 rec \<Longrightarrow> touches i rec0 w w'"
  by (auto simp: touches_def intro: record_grows_trans)

interpretation tail: frame "tail i rec" for i rec
  by unfold_locales (auto simp: tail_def intro: touches_trans, simp add: touches_def)

lemma keeps_lift:
  assumes "\<And>w. R w w" and "\<And>x. m = Inr x \<Longrightarrow> keeps R (f x)"
  shows "keeps R (seqp (liftp m) f)"
  using assms by (cases m) (auto simp: keeps_def seqp_def liftp_def)

lemma tail_same: "tail i rec w (w\<lparr>safety_file := f\<rparr>)" "tail i rec w (w\<lparr>outside := x\<rparr>)"
  by (simp_all add: tail_def touches_def)

lemma safetyCall_tail: "keeps (tail i rec) (safetyCall p)"
  by (auto simp: keeps_def safetyCall_def tail_same split: prod.splits)

lemma outsideCall_tail: "keeps (tail i rec) (outsideCall p)"
  by (auto simp: keeps_def outsideCall_def tail_same split: prod.splits)

lemma verifierCall_tail: "keeps (tail i rec) (verifierCall gw env appr ph)"
  by (auto simp: keeps_def verifierCall_def tail_same split: prod.splits)

lemma readStoredAction_state: "readStoredAction j b w = (r, w') \<Longrightarrow> w' = w \<and> r = readStored (action_files w j) b"
  by (auto simp: readStoredAction_def getp_def liftp_def)

lemma writeStoredAction_result:
  assumes "writeStoredAction i rec w = (r, w')"
  shows "(\<exists>e. r = Inl e \<and> w' = w) \<or> (r = Inr () \<and> ok_stored rec \<and> w' = w\<lparr>action_files := (action_files w)(i := written rec)\<rparr>)"
proof (cases "validateStoredAction (enc_stored rec)")
  case (Inl e)
  with assms show ?thesis by (auto simp: writeStoredAction_def liftp_seqp)
next
  case (Inr s)
  from validate_same [OF this] have "s = rec" "ok_stored rec" by auto
  with assms Inr show ?thesis by (auto simp: writeStoredAction_def liftp_seqp modifyp_def written_def)
qed

lemma writeStoredAction_tail: "record_grows rec rec' \<Longrightarrow> keeps (tail i rec) (writeStoredAction i rec')"
  by (rule keepsI, drule writeStoredAction_result) (auto simp: tail_def touches_def)

lemmas tail_intros =
  tail.keeps_seqp tail.keeps_ret tail.keeps_throw tail.keeps_liftp safetyCall_tail outsideCall_tail verifierCall_tail

section \<open>Reconciliation and the parts after the adapter\<close>

lemma addReceipt_extends:
  "addReceipt rec st ts u p rs f = Inr rec' \<Longrightarrow> record_grows rec0 rec \<Longrightarrow> record_grows rec0 rec'"
  using addReceipt_grows [of rec st ts u p rs f rec'] by (auto intro: record_grows_trans)

lemma addReceipt_twice:
  "addReceipt rec st ts u p rs f = Inr rec1 \<Longrightarrow> addReceipt rec1 st' ts' u' p' rs' f' = Inr rec2 \<Longrightarrow> record_grows rec rec2"
  using addReceipt_grows addReceipt_extends by blast

lemma reconcileCommitted_tail:
  "env_actionId (envelope rec) = i \<Longrightarrow> keeps (tail i rec) (reconcileCommitted gw rnd rec current)"
  unfolding reconcileCommitted_def
  by (auto intro!: tail_intros writeStoredAction_tail keeps_lift tail.frame_refl split: option.splits prod.splits
      dest: addReceipt_grows)

lemma reconcileAttempted_tail:
  assumes "env_actionId (envelope rec) = i"
  shows "keeps (tail i rec) (reconcileAttempted gw rnd rec current)"
  unfolding reconcileAttempted_def
  by (auto simp: assms intro!: tail_intros writeStoredAction_tail keeps_lift tail.frame_refl split: option.splits prod.splits
      intro: addReceipt_twice)

lemma failExecution_tail:
  assumes "env_actionId (envelope rec) = i" and "record_grows rec0 rec"
  shows "keeps (tail i rec0) (failExecution lease c1 c2 u rec m reason p v fc msg)"
  unfolding failExecution_def assms(1)
  by (intro tail_intros keeps_lift tail.frame_refl writeStoredAction_tail) (auto intro: addReceipt_extends assms(2))

lemma afterCommit_tail:
  assumes "env_actionId (envelope rec) = i"
  shows "keeps (tail i rec) (afterCommit gw clk rnd lease rec p v)"
proof -
  have fail: "keeps (tail i rec) (failExecution lease c1 c2 u rec1 m reason q v' fc msg)"
    if "addReceipt rec st ts x y z f = Inr rec1" for c1 c2 u rec1 m reason q v' fc msg st ts x y z f
    using addReceipt_grows [OF that] assms by (intro failExecution_tail) (auto simp: record_grows_def)
  show ?thesis
    unfolding afterCommit_def assms
    by (auto intro!: tail_intros keeps_lift tail.frame_refl writeStoredAction_tail fail split: option.splits prod.splits
        intro: addReceipt_twice dest: addReceipt_grows)
qed

section \<open>The first attempt\<close>

lemma adapterExecute_effect:
  "adapterExecute gw env lease w = (r, w') \<Longrightarrow> executed w' = executed w @ [env] \<and> action_files w' = action_files w"
  by (auto simp: adapterExecute_def split: prod.splits)

lemma runAdapter_effect:
  assumes "runAdapter gw clk rnd lease rec w = (r, w')" and "env_actionId (envelope rec) = i"
  shows "executed w' = executed w @ [envelope rec] \<and> touches i rec w w'"
proof -
  obtain r1 w1 where a: "adapterExecute gw (envelope rec) lease w = (r1, w1)" by (cases "adapterExecute gw (envelope rec) lease w")
  have "tail i rec w1 w'"
    using assms(1) a keepsD [OF failExecution_tail [OF assms(2) record_grows_refl]] keepsD [OF afterCommit_tail [OF assms(2)]]
    by (auto simp: runAdapter_def split: sum.splits execution.splits)
  with adapterExecute_effect [OF a] show ?thesis by (simp add: tail_def touches_def)
qed

text \<open>What must have been granted when the adapter is told to execute: the action and its
  approval are current, and the safety controller gave a fresh lease for it.\<close>

definition granted :: "'x gateway \<Rightarrow> StoredAction \<Rightarrow> string \<Rightarrow> clock \<Rightarrow> store_file \<Rightarrow> bool" where
  "granted gw rec current now f =
     (\<not> not_after (env_expiresAt (envelope rec)) current \<and> current_approval (approval rec) current \<and>
      (\<exists>lease f'. admit (enc_action (safetyAction (envelope rec) (record_actionHash rec))) (gw_leaseTtlMs gw) now f = (Inr lease, f') \<and>
         \<not> replay lease))"

lemma outsideCall_state: "outsideCall p w = (r, w') \<Longrightarrow> \<exists>x. w' = w\<lparr>outside := x\<rparr>"
  by (auto simp: outsideCall_def split: prod.splits)

definition afterLease ::
  "'x gateway \<Rightarrow> (nat \<Rightarrow> clock) \<Rightarrow> (nat \<Rightarrow> string) \<Rightarrow> StoredAction \<Rightarrow> string \<Rightarrow> SafetyLease \<Rightarrow> ('x, ActionExecutionReceipt) gateway_prog" where
  "afterLease gw clk rnd rec current lease =
     (if replay lease
      then throw (AGE ''Safety controller replay was reached before a verified action receipt.'')
      else
        seqp (liftp (addReceipt rec Attempted current (rnd 0) None None None)) (\<lambda>rec1.
        seqp (writeStoredAction (env_actionId (envelope rec)) rec1) (\<lambda>_.
        runAdapter gw clk rnd lease rec1)))"

definition attempted_by :: "StoredAction \<Rightarrow> 'x gateway_world \<Rightarrow> 'x gateway_world \<Rightarrow> bool" where
  "attempted_by rec w w' =
     (executed w' = executed w @ [envelope rec] \<and>
      (\<forall>j. j \<noteq> env_actionId (envelope rec) \<longrightarrow> action_files w' j = action_files w j) \<and>
      (\<exists>s. ok_stored s \<and> record_grows rec s \<and> has_status Attempted s \<and> action_files w' (env_actionId (envelope rec)) = written s))"

lemma afterLease_effect:
  assumes "afterLease gw clk rnd rec current lease w = (r, w')"
  shows "(w' = w \<and> (\<exists>e. r = Inl e)) \<or> (\<not> replay lease \<and> attempted_by rec w w')"
proof (cases "replay lease \<or> (\<exists>e. addReceipt rec Attempted current (rnd 0) None None None = Inl e)")
  case True
  then have "w' = w \<and> (\<exists>e. r = Inl e)"
    using assms by (cases "replay lease") (auto simp: afterLease_def throw_def liftp_seqp)
  then show ?thesis by blast
next
  case False
  let ?i = "env_actionId (envelope rec)"
  from False obtain rec1 where fresh: "\<not> replay lease" and add: "addReceipt rec Attempted current (rnd 0) None None None = Inr rec1"
    by (cases "addReceipt rec Attempted current (rnd 0) None None None") auto
  note g = addReceipt_grows [OF add]
  obtain r1 w1 where wr: "writeStoredAction ?i rec1 w = (r1, w1)" by fastforce
  from assms fresh add wr have run: "(case r1 of Inl e \<Rightarrow> (Inl e, w1) | Inr _ \<Rightarrow> runAdapter gw clk rnd lease rec1 w1) = (r, w')"
    by (auto simp: afterLease_def liftp_def seqp_def split: sum.splits)
  from writeStoredAction_result [OF wr] show ?thesis
  proof (elim disjE exE conjE)
    fix e
    assume "r1 = Inl e" "w1 = w"
    with run show ?thesis by auto
  next
    assume ok: "r1 = Inr ()" "ok_stored rec1" "w1 = w\<lparr>action_files := (action_files w)(?i := written rec1)\<rparr>"
    with run have "runAdapter gw clk rnd lease rec1 w1 = (r, w')" by simp
    from runAdapter_effect [OF this, of ?i] g have eff: "executed w' = executed w1 @ [envelope rec1]" "touches ?i rec1 w1 w'"
      by (auto simp: record_grows_def)
    moreover have "envelope rec1 = envelope rec" using g by (simp add: record_grows_def)
    ultimately show ?thesis
      using ok g fresh unfolding attempted_by_def touches_def
      by (auto intro: record_grows_trans has_status_grows)
  qed
qed

lemma firstAttempt_effect:
  assumes "firstAttempt gw clk rnd rec current w = (r, w')" and "ok_stored rec"
  shows "((\<exists>f x. w' = w\<lparr>safety_file := f, outside := x\<rparr>) \<and> (\<exists>e. r = Inl e)) \<or>
     (granted gw rec current (clk 1) (safety_file w) \<and> attempted_by rec w w')"
proof (cases "not_after (env_expiresAt (envelope rec)) current \<or> (\<exists>e. verifyApproval (envelope rec) (approval rec) current True = Inl e)")
  case True
  then have "w' = w\<lparr>safety_file := safety_file w, outside := outside w\<rparr> \<and> (\<exists>e. r = Inl e)"
    using assms(1) by (auto simp: firstAttempt_def liftp_seqp throwIf_def split: if_splits)
  then show ?thesis by blast
next
  case False
  let ?admit = "admit (enc_action (safetyAction (envelope rec) (record_actionHash rec))) (gw_leaseTtlMs gw) (clk 1)"
  from False have ok: "\<not> not_after (env_expiresAt (envelope rec)) current" "verifyApproval (envelope rec) (approval rec) current True = Inr ()"
    by (auto, metis old.unit.exhaust sumE)
  with assms(2) have cur: "current_approval (approval rec) current" by (simp add: ok_stored_def verifyApproval_eq)
  obtain r1 w1 where p: "outsideCall (ad_plan (gw_adapter gw) (envelope rec)) w = (r1, w1)" by fastforce
  obtain r2 w2 where s: "outsideCall (ad_simulate (gw_adapter gw) (envelope rec)) w1 = (r2, w2)" by fastforce
  obtain r3 f3 where a: "?admit (safety_file w) = (r3, f3)" by fastforce
  from outsideCall_state [OF p] outsideCall_state [OF s] obtain x1 x where w1: "w1 = w\<lparr>outside := x1\<rparr>" and w2: "w2 = w\<lparr>outside := x\<rparr>" by auto
  define w3 where "w3 = w\<lparr>safety_file := f3, outside := x\<rparr>"
  have call: "safetyCall ?admit w2 = (mapError ControllerError r3, w3)"
    using a w2 by (simp add: safetyCall_def w3_def)
  have run: "(case r1 of Inl e \<Rightarrow> (Inl e, w1) | Inr _ \<Rightarrow> (case r2 of Inl e \<Rightarrow> (Inl e, w2) | Inr _ \<Rightarrow>
       (case r3 of Inl e \<Rightarrow> (Inl (ControllerError e), w3) | Inr lease \<Rightarrow> afterLease gw clk rnd rec current lease w3))) = (r, w')"
    using assms(1) ok p s call unfolding firstAttempt_def afterLease_def
    by (auto simp: liftp_def seqp_def throwIf_def mapError_def split: sum.splits)
  have w1': "w1 = w\<lparr>safety_file := safety_file w, outside := x1\<rparr>" "w2 = w\<lparr>safety_file := safety_file w, outside := x\<rparr>"
    by (simp_all add: w1 w2)
  show ?thesis
  proof (cases "\<exists>lease. r1 = Inr () \<and> r2 = Inr () \<and> r3 = Inr lease")
    case True
    then obtain lease where l: "r3 = Inr lease" and "afterLease gw clk rnd rec current lease w3 = (r, w')" using run by auto
    from afterLease_effect [OF this(2)] show ?thesis
    proof (elim disjE conjE)
      assume "w' = w3" "\<exists>e. r = Inl e"
      then show ?thesis unfolding w3_def by blast
    next
      assume "\<not> replay lease" and att: "attempted_by rec w3 w'"
      with ok cur a l have "granted gw rec current (clk 1) (safety_file w)" by (auto simp: granted_def)
      moreover from att have "attempted_by rec w w'" by (simp add: attempted_by_def w3_def)
      ultimately show ?thesis by blast
    qed
  next
    case False
    then have "(w' = w1 \<or> w' = w2 \<or> w' = w3) \<and> (\<exists>e. r = Inl e)"
      using run by (auto split: sum.splits)
    then show ?thesis using w1' unfolding w3_def by blast
  qed
qed

end
