(* ===== verification/Canonical_Inj.thy ===== *)
theory Canonical_Inj
  imports Canonical
begin

text \<open>
  Two JSON values with the same canonical text are the same value up to the order in which
  properties were listed.  \<open>jnorm\<close> lists the properties of every object by name; the
  proof reads a text from the left, with whatever follows it left over.
\<close>

section \<open>Values up to the order of properties\<close>

fun jnorm :: "json \<Rightarrow> json"
  and jnorm_elems :: "json list \<Rightarrow> json list"
  and jnorm_props :: "fields \<Rightarrow> fields" where
  "jnorm JUndef = JUndef"
| "jnorm JNull = JNull"
| "jnorm (JBool b) = JBool b"
| "jnorm (JInt i) = JInt i"
| "jnorm (JFrac t) = JFrac t"
| "jnorm (JStr s) = JStr s"
| "jnorm (JArr vs) = JArr (jnorm_elems vs)"
| "jnorm (JObj ob) = JObj (sort_key fst (jnorm_props ob))"
| "jnorm_elems [] = []"
| "jnorm_elems (v # vs) = jnorm v # jnorm_elems vs"
| "jnorm_props [] = []"
| "jnorm_props ((k, v) # ob) = (k, jnorm v) # jnorm_props ob"

text \<open>JSON values without fractions whose objects list each property once.\<close>

fun plain_json :: "json \<Rightarrow> bool"
  and plain_elems :: "json list \<Rightarrow> bool"
  and plain_props :: "fields \<Rightarrow> bool" where
  "plain_json JUndef = False"
| "plain_json JNull = True"
| "plain_json (JBool b) = True"
| "plain_json (JInt i) = True"
| "plain_json (JFrac t) = False"
| "plain_json (JStr s) = True"
| "plain_json (JArr vs) = plain_elems vs"
| "plain_json (JObj ob) = (distinct (map fst ob) \<and> plain_props ob)"
| "plain_elems [] = True"
| "plain_elems (v # vs) = (plain_json v \<and> plain_elems vs)"
| "plain_props [] = True"
| "plain_props ((k, v) # ob) = (plain_json v \<and> plain_props ob)"

lemma jnorm_elems_map: "jnorm_elems vs = map jnorm vs"
  by (induction vs) auto

lemma jnorm_props_map: "jnorm_props ob = map (\<lambda>(k, v). (k, jnorm v)) ob"
  by (induction ob) auto

lemma plain_elems_all: "plain_elems vs \<longleftrightarrow> (\<forall>v \<in> set vs. plain_json v)"
  by (induction vs) auto

lemma plain_props_all: "plain_props ob \<longleftrightarrow> (\<forall>p \<in> set ob. plain_json (snd p))"
  by (induction ob) auto

lemma insort_key_map: "map f (insort_key (\<lambda>x. g (f x)) x xs) = insort_key g (f x) (map f xs)"
  by (induction xs) auto

lemma sort_key_map: "sort_key g (map f xs) = map f (sort_key (\<lambda>x. g (f x)) xs)"
  by (induction xs) (auto simp: insort_key_map)

lemma sort_fst_map: "sort_key fst (map (\<lambda>(k, v). (k, h v)) ob) = map (\<lambda>(k, v). (k, h v)) (sort_key fst ob)"
  for ob :: "(string \<times> 'a) list"
  using sort_key_map [of fst "\<lambda>(k, v). (k, h v)" ob] by (simp add: case_prod_beta)

lemma map_of_sort_fst: "distinct (map fst ps) \<Longrightarrow> map_of (sort_key fst ps) = map_of ps"
  for ps :: "(string \<times> 'a) list"
proof (rule map_of_inject_set [THEN iffD2])
  assume "distinct (map fst ps)"
  then show "distinct (map fst ps)" "distinct (map fst (sort_key fst ps))"
    by (auto simp: distinct_map)
qed auto

text \<open>What equality up to order says of a property.\<close>

lemma jnorm_get:
  assumes "jnorm (JObj ob) = jnorm (JObj ob')" and "distinct (map fst ob)" and "distinct (map fst ob')"
  shows "jnorm (jget ob k) = jnorm (jget ob' k)"
proof -
  have keys: "map fst (jnorm_props q) = map fst q" for q
    by (induction q) auto
  have get: "map_of (jnorm_props q) k = map_option jnorm (map_of q k)" for q
    by (induction q) auto
  have "map_of (jnorm_props ob) = map_of (jnorm_props ob')"
    using assms map_of_sort_fst [of "jnorm_props ob"] map_of_sort_fst [of "jnorm_props ob'"] by (simp add: keys)
  then have "map_option jnorm (map_of ob k) = map_option jnorm (map_of ob' k)" using get by metis
  then show ?thesis by (auto simp: jget_def split: option.splits)
qed

definition fields_of :: "json \<Rightarrow> fields" where
  "fields_of v = (case v of JObj ob \<Rightarrow> ob | _ \<Rightarrow> [])"

lemma fields_of_obj [simp]: "fields_of (JObj ob) = ob"
  by (simp add: fields_of_def)

lemma jnorm_field:
  assumes "jnorm v = jnorm v'" and "plain_json v" and "plain_json v'"
  shows "jnorm (jget (fields_of v) k) = jnorm (jget (fields_of v') k)"
proof (cases v)
  case (JObj ob)
  with assms obtain ob' where "v' = JObj ob'" by (cases v') auto
  with JObj assms show ?thesis using jnorm_get [of ob ob' k] by simp
qed (use assms in \<open>cases v'; auto simp: fields_of_def\<close>)+

section \<open>Texts\<close>

definition ctext :: "json \<Rightarrow> string" where
  "ctext v = the (canonical v)"

lemma canonical_defined:
  "plain_json v \<Longrightarrow> \<exists>t. canonical v = Some t" "plain_elems vs \<Longrightarrow> \<exists>ts. canonical_elems vs = Some ts"
  "plain_props ob \<Longrightarrow> \<exists>ts. canonical_props ob = Some ts"
  by (induction v and vs and ob rule: plain_json_plain_elems_plain_props.induct) auto

lemma canonical_plain: "plain_json v \<Longrightarrow> canonical v = Some (ctext v)"
  using canonical_defined(1) by (auto simp: ctext_def)

lemma canonical_elems_plain: "plain_elems vs \<Longrightarrow> canonical_elems vs = Some (map ctext vs)"
  by (induction vs) (auto simp: canonical_plain)

lemma canonical_props_plain: "plain_props ob \<Longrightarrow> canonical_props ob = Some (map (\<lambda>(k, v). (k, ctext v)) ob)"
  by (induction ob) (auto simp: canonical_plain)

definition prop_text :: "string \<times> json \<Rightarrow> string" where
  "prop_text p = json_string (fst p) @ '':'' @ ctext (snd p)"

lemma ctext_simps:
  "ctext JNull = ''null''" "ctext (JBool b) = (if b then ''true'' else ''false'')" "ctext (JInt i) = int_text i"
  "ctext (JStr s) = json_string s"
  "plain_elems vs \<Longrightarrow> ctext (JArr vs) = CHR ''['' # join '','' (map ctext vs) @ '']''"
  "plain_props ob \<Longrightarrow> ctext (JObj ob) = CHR ''{'' # join '','' (map prop_text (sort_key fst ob)) @ ''}''"
  by (simp_all add: ctext_def canonical_elems_plain canonical_props_plain sort_fst_map comp_def case_prod_beta prop_text_def [abs_def])

section \<open>Reading a text from the left\<close>

definition ends_value :: "string \<Rightarrow> bool" where
  "ends_value x = (x = [] \<or> hd x \<in> {CHR '','', CHR '']'', CHR ''}''})"

definition reads_back :: "json \<Rightarrow> bool" where
  "reads_back v = (\<forall>v' x y. plain_json v' \<longrightarrow> ends_value x \<longrightarrow> ends_value y \<longrightarrow> ctext v @ x = ctext v' @ y \<longrightarrow> jnorm v = jnorm v' \<and> x = y)"

text \<open>The first character tells the kinds apart.\<close>

definition json_kind :: "json \<Rightarrow> nat" where
  "json_kind v = (case v of JNull \<Rightarrow> 0 | JBool b \<Rightarrow> if b then 1 else 2 | JInt i \<Rightarrow> 3 | JStr s \<Rightarrow> 4 | JArr vs \<Rightarrow> 5 | _ \<Rightarrow> 6)"

definition char_kind :: "char \<Rightarrow> nat" where
  "char_kind c = (if c = CHR ''n'' then 0 else if c = CHR ''t'' then 1 else if c = CHR ''f'' then 2
     else if is_digit c \<or> c = CHR ''-'' then 3 else if c = CHR 0x22 then 4 else if c = CHR ''['' then 5 else 6)"

lemma nat_digits_first: "\<exists>c ds. nat_digits n = c # ds \<and> is_digit c"
proof (cases "nat_digits n")
  case Nil
  then show ?thesis by (subst (asm) nat_digits.simps) (simp split: if_splits)
next
  case (Cons c ds)
  with nat_digits_digits [of n] show ?thesis by simp
qed

lemma not_digits [simp]:
  "\<not> is_digit CHR '',''" "\<not> is_digit CHR '']''" "\<not> is_digit CHR ''}''" "\<not> is_digit CHR ''-''" "\<not> is_digit CHR ''n''"
  "\<not> is_digit CHR ''t''" "\<not> is_digit CHR ''f''" "\<not> is_digit CHR 0x22" "\<not> is_digit CHR ''[''" "\<not> is_digit CHR ''{''"
  by code_simp+

lemma digit_kind:
  assumes "is_digit c"
  shows "char_kind c = 3 \<and> c \<notin> {CHR '','', CHR '']'', CHR ''}'', CHR ''-''}"
proof -
  have "c \<noteq> CHR ''n''" "c \<noteq> CHR ''t''" "c \<noteq> CHR ''f''" "c \<noteq> CHR '',''" "c \<noteq> CHR '']''" "c \<noteq> CHR ''}''" "c \<noteq> CHR ''-''"
    using assms by (blast dest: not_digits [THEN notE])+
  then show ?thesis using assms by (simp add: char_kind_def)
qed

lemma int_text_first: "\<exists>c ds. int_text i = c # ds \<and> char_kind c = 3 \<and> c \<notin> {CHR '','', CHR '']'', CHR ''}''}"
proof (cases "i < 0")
  case True
  then show ?thesis by (simp add: int_text_def char_kind_def)
next
  case False
  from nat_digits_first [of "nat i"] obtain c ds where "nat_digits (nat i) = c # ds" "is_digit c" by blast
  with False digit_kind [of c] show ?thesis by (simp add: int_text_def)
qed

lemma ctext_first:
  assumes "plain_json v"
  shows "\<exists>c t. ctext v = c # t \<and> char_kind c = json_kind v \<and> c \<notin> {CHR '','', CHR '']'', CHR ''}''}"
proof (cases v)
  case (JInt i)
  with int_text_first [of i] show ?thesis by (auto simp: ctext_simps json_kind_def)
qed (use assms in \<open>auto simp: ctext_simps json_kind_def char_kind_def json_string_def\<close>)

lemma same_kind:
  assumes "ctext v @ x = ctext v' @ y" and "plain_json v" and "plain_json v'"
  shows "json_kind v = json_kind v'"
  using assms(1) ctext_first [OF assms(2)] ctext_first [OF assms(3)] by auto

lemma ends_value_digit: "ends_value x \<Longrightarrow> takeWhile is_digit (nat_digits n @ x) = nat_digits n"
  using nat_digits_digits [of n] digit_kind
  by (cases x) (auto simp: ends_value_def list_all_iff takeWhile_append2)

lemma int_text_reads:
  assumes "int_text i @ x = int_text j @ y" and "ends_value x" and "ends_value y"
  shows "i = j \<and> x = y"
proof -
  have digits: "m = n \<and> x = y" if "nat_digits m @ x = nat_digits n @ y" for m n
  proof -
    have "nat_digits m = nat_digits n" using that ends_value_digit assms(2,3) by metis
    with that show ?thesis by (auto dest: nat_digits_inj)
  qed
  have "(i < 0) = (j < 0)"
    using assms(1) nat_digits_first [of "nat i"] nat_digits_first [of "nat j"] by (force simp: int_text_def split: if_splits)
  with assms(1) show ?thesis by (auto simp: int_text_def dest: digits split: if_splits)
qed

lemma join_cons: "join s (t # ts) = t @ (if ts = [] then [] else s @ join s ts)"
  by (cases ts) auto

lemma elems_read:
  assumes "join '','' (map ctext vs) @ CHR '']'' # x = join '','' (map ctext vs') @ CHR '']'' # y"
    and "\<forall>v \<in> set vs. reads_back v" and "plain_elems vs" and "plain_elems vs'"
  shows "map jnorm vs = map jnorm vs' \<and> x = y"
  using assms
proof (induction vs arbitrary: vs')
  case Nil
  then show ?case using ctext_first by (cases vs') (fastforce simp: join_cons)+
next
  case (Cons v vs)
  note prems = Cons.prems
  show ?case
  proof (cases vs')
    case Nil
    with prems ctext_first [of v] show ?thesis by (auto simp: join_cons)
  next
    case (Cons v' us)
    let ?rest = "\<lambda>ws z. (if ws = [] then [] else '','' @ join '','' (map ctext ws)) @ CHR '']'' # z"
    have "ctext v @ ?rest vs x = ctext v' @ ?rest us y" using prems(1) Cons by (simp add: join_cons split: if_splits)
    moreover have "ends_value (?rest ws z)" for ws z by (simp add: ends_value_def)
    ultimately have v: "jnorm v = jnorm v'" and rest: "?rest vs x = ?rest us y"
      using prems(2,4) Cons unfolding reads_back_def by (metis list.set_intros(1) plain_elems.simps(2))+
    have "(vs = []) = (us = [])" using rest by (auto split: if_splits)
    with rest have "join '','' (map ctext vs) @ CHR '']'' # x = join '','' (map ctext us) @ CHR '']'' # y" by (auto split: if_splits)
    with Cons.IH [of us] prems Cons v show ?thesis by simp
  qed
qed

text \<open>The same for the properties of an object, which are read by name.\<close>

lemma props_read:
  assumes "join '','' (map prop_text ob) @ CHR ''}'' # x = join '','' (map prop_text ob') @ CHR ''}'' # y"
    and "\<forall>p \<in> set ob. reads_back (snd p)" and "plain_props ob" and "plain_props ob'"
  shows "jnorm_props ob = jnorm_props ob' \<and> x = y"
  using assms
proof (induction ob arbitrary: ob')
  case Nil
  then show ?case by (cases ob') (auto simp: join_cons prop_text_def json_string_def)
next
  case (Cons p ob)
  note prems = Cons.prems
  obtain k v where p: "p = (k, v)" by fastforce
  show ?case
  proof (cases ob')
    case Nil
    with prems show ?thesis by (auto simp: join_cons prop_text_def json_string_def)
  next
    case (Cons p' us)
    obtain k' v' where p': "p' = (k', v')" by fastforce
    let ?rest = "\<lambda>ws z. (if ws = [] then [] else '','' @ join '','' (map prop_text ws)) @ CHR ''}'' # z"
    have "json_string k @ CHR '':'' # ctext v @ ?rest ob x = json_string k' @ CHR '':'' # ctext v' @ ?rest us y"
      using prems(1) unfolding Cons p p' list.map join_cons
      by (cases "ob = []"; cases "us = []") (simp_all add: prop_text_def)
    from json_string_prefix [OF this] have k: "k = k'" and "ctext v @ ?rest ob x = ctext v' @ ?rest us y" by auto
    moreover have "ends_value (?rest ws z)" for ws z by (simp add: ends_value_def)
    moreover have "reads_back v" "plain_json v'" using prems(2,4) Cons p p' by auto
    ultimately have v: "jnorm v = jnorm v'" and rest: "?rest ob x = ?rest us y"
      unfolding reads_back_def by blast+
    have "(ob = []) = (us = [])" using rest by (auto split: if_splits)
    with rest have "join '','' (map prop_text ob) @ CHR ''}'' # x = join '','' (map prop_text us) @ CHR ''}'' # y" by (auto split: if_splits)
    with Cons.IH [of us] prems Cons p p' k v show ?thesis by simp
  qed
qed

lemma jnorm_sorted: "jnorm (JObj ob) = JObj (jnorm_props (sort_key fst ob))"
  by (simp add: jnorm_props_map sort_fst_map)

lemma plain_reads_back: "plain_json v \<Longrightarrow> reads_back v"
proof (induction v rule: json.induct)
  case (JArr vs)
  then have "\<forall>v \<in> set vs. reads_back v" by (auto simp: plain_elems_all)
  show ?case
    unfolding reads_back_def
  proof (intro allI impI)
    fix v' x y
    assume h: "plain_json v'" "ctext (JArr vs) @ x = ctext v' @ y"
    from same_kind [OF h(2) JArr.prems h(1)] obtain vs' where v': "v' = JArr vs'" using h(1)
      by (auto simp: json_kind_def split: json.splits if_splits)
    with h JArr.prems have "join '','' (map ctext vs) @ CHR '']'' # x = join '','' (map ctext vs') @ CHR '']'' # y"
      by (simp add: ctext_simps)
    from elems_read [OF this \<open>\<forall>v \<in> set vs. reads_back v\<close>] h(1) JArr.prems v'
    show "jnorm (JArr vs) = jnorm v' \<and> x = y" by (simp add: jnorm_elems_map)
  qed
next
  case (JObj ob)
  then have props: "\<forall>p \<in> set (sort_key fst ob). reads_back (snd p)" by (fastforce simp: plain_props_all)
  show ?case
    unfolding reads_back_def
  proof (intro allI impI)
    fix v' x y
    assume h: "plain_json v'" "ctext (JObj ob) @ x = ctext v' @ y"
    from same_kind [OF h(2) JObj.prems h(1)] obtain ob' where v': "v' = JObj ob'" using h(1)
      by (auto simp: json_kind_def split: json.splits if_splits)
    with h JObj.prems have "join '','' (map prop_text (sort_key fst ob)) @ CHR ''}'' # x = join '','' (map prop_text (sort_key fst ob')) @ CHR ''}'' # y"
      by (simp add: ctext_simps)
    from props_read [OF this props] h(1) JObj.prems v'
    show "jnorm (JObj ob) = jnorm v' \<and> x = y" unfolding v' jnorm_sorted by (simp add: plain_props_all)
  qed
next
  case (JInt i)
  show ?case
    unfolding reads_back_def
  proof (intro allI impI)
    fix v' x y
    assume h: "plain_json v'" "ends_value x" "ends_value y" "ctext (JInt i) @ x = ctext v' @ y"
    from same_kind [OF h(4) JInt.prems h(1)] obtain j where "v' = JInt j" using h(1)
      by (auto simp: json_kind_def split: json.splits if_splits)
    with int_text_reads [of i x j y] h show "jnorm (JInt i) = jnorm v' \<and> x = y" by (simp add: ctext_simps)
  qed
next
  case (JStr s)
  show ?case
    unfolding reads_back_def
  proof (intro allI impI)
    fix v' x y
    assume h: "plain_json v'" "ctext (JStr s) @ x = ctext v' @ y"
    from same_kind [OF h(2) JStr.prems h(1)] obtain u where "v' = JStr u" using h(1)
      by (auto simp: json_kind_def split: json.splits if_splits)
    with json_string_prefix [of s x u y] h show "jnorm (JStr s) = jnorm v' \<and> x = y" by (simp add: ctext_simps)
  qed
next
  case (JBool b)
  show ?case
    unfolding reads_back_def
  proof (intro allI impI)
    fix v' x y
    assume h: "plain_json v'" "ctext (JBool b) @ x = ctext v' @ y"
    from same_kind [OF h(2) JBool.prems h(1)] have "v' = JBool b" using h(1)
      by (auto simp: json_kind_def split: json.splits if_splits)
    with h show "jnorm (JBool b) = jnorm v' \<and> x = y" by simp
  qed
next
  case JNull
  show ?case
    unfolding reads_back_def
  proof (intro allI impI)
    fix v' x y
    assume h: "plain_json v'" "ctext JNull @ x = ctext v' @ y"
    from same_kind [OF h(2) JNull.prems h(1)] have "v' = JNull" using h(1)
      by (auto simp: json_kind_def split: json.splits if_splits)
    with h show "jnorm JNull = jnorm v' \<and> x = y" by simp
  qed
qed simp_all

lemma ends_value_Nil [simp]: "ends_value []"
  by (simp add: ends_value_def)

lemma canonical_same:
  assumes "canonical v = canonical v'" and "plain_json v" and "plain_json v'"
  shows "jnorm v = jnorm v'"
proof -
  have "ctext v @ [] = ctext v' @ []" using assms(1) by (simp add: ctext_def)
  with plain_reads_back [OF assms(2)] assms(3) show ?thesis unfolding reads_back_def by (metis ends_value_Nil)
qed

section \<open>Values that differ in order only have the same text\<close>

lemma distinct_sort_fst: "distinct (map fst ps) \<Longrightarrow> distinct (map fst (sort_key fst ps))"
  for ps :: "(string \<times> 'a) list"
  by (auto simp: distinct_map)

lemma sort_key_sorted: "sorted (map f xs) \<Longrightarrow> sort_key f xs = xs"
  by (induction xs) (auto simp: insort_is_Cons)

lemma jnorm_plain: "plain_json v \<Longrightarrow> plain_json (jnorm v)"
proof (induction v rule: json.induct)
  case (JObj ob)
  have "plain_json (jnorm (snd p))" if "p \<in> set ob" for p
    using JObj.IH [OF that, of "snd p"] JObj.prems that by (cases p) (auto simp: plain_props_all snds.intros)
  then have "plain_props (sort_key fst (jnorm_props ob))" by (auto simp: plain_props_all jnorm_props_map)
  moreover have "map fst (jnorm_props q) = map fst q" for q by (induction q) auto
  then have "distinct (map fst (sort_key fst (jnorm_props ob)))" using JObj.prems by (intro distinct_sort_fst) simp
  ultimately show ?case by simp
qed (auto simp: plain_elems_all jnorm_elems_map)

lemma ctext_jnorm: "plain_json v \<Longrightarrow> ctext (jnorm v) = ctext v"
proof (induction v rule: json.induct)
  case (JArr vs)
  then have "map ctext (map jnorm vs) = map ctext vs" by (auto simp: plain_elems_all)
  moreover have "plain_elems (map jnorm vs)" using JArr.prems jnorm_plain by (auto simp: plain_elems_all)
  ultimately show ?case using JArr.prems by (simp add: ctext_simps jnorm_elems_map del: map_map)
next
  case (JObj ob)
  have each: "prop_text (k, jnorm v) = prop_text (k, v)" if "(k, v) \<in> set ob" for k v
    using JObj that by (fastforce simp: plain_props_all prop_text_def)
  have "plain_props (sort_key fst (jnorm_props ob))" using jnorm_plain [OF JObj.prems] by simp
  then have "ctext (jnorm (JObj ob)) = CHR ''{'' # join '','' (map prop_text (jnorm_props (sort_key fst ob))) @ ''}''"
    by (simp add: ctext_simps jnorm_props_map sort_fst_map sort_key_sorted [OF sorted_sort_key])
  also have "map prop_text (jnorm_props (sort_key fst ob)) = map prop_text (sort_key fst ob)"
    using each by (auto simp: jnorm_props_map)
  finally show ?case using JObj.prems by (simp add: ctext_simps)
qed simp_all



end
