(* ===== verification/Gateway_Machine.thy ===== *)
theory Gateway_Machine
  imports Gateway_Frame Canonical_Inj
begin

text \<open>
  The gateway as a state machine.  Each call runs under the lock of its action file, so what
  several processes do is a sequence of calls, with the safety controller's own calls and the
  rest of the world in between.  The effect lemmas say what one call does on every path.
\<close>

section \<open>Envelopes and their canonical texts\<close>

lemma plain_strings [simp]: "plain_elems (map JStr ss)" "jnorm_elems (map JStr ss) = map JStr ss"
  by (induction ss) auto

lemma plain_envelope: "plain_json (enc_envelope e)"
  by (simp add: enc_envelope_def)

lemma name_injects [simp]:
  "actor_name a = actor_name a' \<longleftrightarrow> a = a'" "reversibility_name v = reversibility_name v' \<longleftrightarrow> v = v'"
  "risk_name k = risk_name k' \<longleftrightarrow> k = k'"
  by ((cases a; cases a'; simp), (cases v; cases v'; simp), (cases k; cases k'; simp))

text \<open>What is approved is the envelope itself: no other envelope has its canonical text.\<close>

lemma envelope_text_inj:
  assumes "canonical (enc_envelope e) = canonical (enc_envelope e')" and "ok_envelope e" and "ok_envelope e'"
  shows "e = e'"
proof -
  note top = canonical_same [OF assms(1) plain_envelope plain_envelope]
  note get = jnorm_field [OF top plain_envelope plain_envelope]
  have nested: "jnorm (jget (fields_of (jget (fields_of (enc_envelope e)) k)) m) = jnorm (jget (fields_of (jget (fields_of (enc_envelope e')) k)) m)"
    if "k \<in> {''actor'', ''project'', ''arguments'', ''policy'', ''evidence''}" for k m
    using that by (intro jnorm_field [OF get]) (auto simp: enc_envelope_def)
  have "env_actionId e = env_actionId e'" using get [of "''actionId''"] by (simp add: enc_envelope_def)
  moreover have "env_idempotencyKey e = env_idempotencyKey e'" using get [of "''idempotencyKey''"] by (simp add: enc_envelope_def)
  moreover have "actor_id e = actor_id e'" using nested [of "''actor''" "''id''"] by (simp add: enc_envelope_def)
  moreover have "actor_workloadId e = actor_workloadId e'" using nested [of "''actor''" "''workloadId''"] by (simp add: enc_envelope_def)
  moreover have "actor_type e = actor_type e'" using nested [of "''actor''" "''type''"] by (simp add: enc_envelope_def)
  moreover have "env_projectId e = env_projectId e'" using nested [of "''project''" "''id''"] by (simp add: enc_envelope_def)
  moreover have "env_operation e = env_operation e'" using get [of "''operation''"] by (simp add: enc_envelope_def)
  moreover have "arg_worldId e = arg_worldId e'" using nested [of "''arguments''" "''worldId''"] by (simp add: enc_envelope_def)
  moreover have "expectedSideEffects e = expectedSideEffects e'" using get [of "''expectedSideEffects''"] by (simp add: enc_envelope_def)
  moreover have "env_riskClass e = env_riskClass e'" using get [of "''riskClass''"] by (simp add: enc_envelope_def)
  moreover have "reversibility e = reversibility e'" using get [of "''reversibility''"] by (simp add: enc_envelope_def)
  moreover have "policy_version e = policy_version e'" using nested [of "''policy''" "''version''"] by (simp add: enc_envelope_def)
  moreover have "policy_hash e = policy_hash e'" using nested [of "''policy''" "''hash''"] by (simp add: enc_envelope_def)
  moreover have "evidence_hash e = evidence_hash e'" using nested [of "''evidence''" "''hash''"] by (simp add: enc_envelope_def)
  moreover have "env_expiresAt e = env_expiresAt e'" using get [of "''expiresAt''"] by (simp add: enc_envelope_def)
  moreover have "env_nonce e = env_nonce e'" using get [of "''nonce''"] by (simp add: enc_envelope_def)
  moreover have "resource_id e = resource_id e'" using assms(2,3) \<open>arg_worldId e = arg_worldId e'\<close> by (simp add: ok_envelope_def)
  ultimately show ?thesis by (cases e; cases e') simp
qed

section \<open>What one call does\<close>

text \<open>How the file of an action may change: not at all, by a record that extends the one in it, or
  from no file to a record of a request.\<close>

definition file_moves :: "store_file \<Rightarrow> store_file \<Rightarrow> bool" where
  "file_moves f f' =
     (f' = f \<or>
      (\<exists>rec s. readStored f True = Inr (Some rec) \<and> ok_stored s \<and> record_grows rec s \<and> f' = written s) \<or>
      (\<exists>s r. f = NoFile \<and> ok_stored s \<and> receipts s = [r] \<and> f' = written s))"

definition quiet :: "'x gateway_world \<Rightarrow> 'x gateway_world \<Rightarrow> bool" where
  "quiet w w' = (executed w' = executed w \<and> (\<forall>i. file_moves (action_files w i) (action_files w' i)))"

lemma quiet_same [simp]: "action_files w' = action_files w \<Longrightarrow> executed w' = executed w \<Longrightarrow> quiet w w'"
  by (simp add: quiet_def file_moves_def)

lemma tail_quiet:
  assumes "tail i rec u w'" and "readStored (action_files w i) True = Inr (Some rec)"
    and "action_files u = action_files w" and "executed u = executed w"
  shows "quiet w w'"
  unfolding quiet_def
proof (intro conjI allI)
  show "executed w' = executed w" using assms by (simp add: tail_def)
  fix j
  show "file_moves (action_files w j) (action_files w' j)"
    using assms by (cases "j = i") (auto simp: tail_def touches_def file_moves_def)
qed

text \<open>The part of \<open>execute\<close> after the checks.\<close>

definition proceed ::
  "'x gateway \<Rightarrow> (nat \<Rightarrow> clock) \<Rightarrow> (nat \<Rightarrow> string) \<Rightarrow> StoredAction \<Rightarrow> string \<Rightarrow> ('x, ActionExecutionReceipt) gateway_prog" where
  "proceed gw clk rnd rec current =
     (case findLatestReceipt (receipts rec) Verified of
        Some r \<Rightarrow> ret r
      | None \<Rightarrow>
          if findLatestReceipt (receipts rec) Committed \<noteq> None then reconcileCommitted gw rnd rec current
          else if findLatestReceipt (receipts rec) Attempted \<noteq> None then reconcileAttempted gw rnd rec current
          else firstAttempt gw clk rnd rec current)"

text \<open>The checks of \<open>execute\<close>: who asks, for what, under which policy and approval.\<close>

definition cleared ::
  "'x gateway \<Rightarrow> json \<Rightarrow> ActionExecutionIdentity \<Rightarrow> ActionPolicyCheck \<Rightarrow> 'x \<Rightarrow> StoredAction \<Rightarrow> string \<Rightarrow> bool" where
  "cleared gw j identity policy x rec current =
     (validateActionEnvelope j = Inr (envelope rec) \<and>
      (\<exists>v y. gw_verifier gw (envelope rec) (approval rec) Execute_phase x = (Inr v, y) \<and>
         (approvedBy (approval rec) = ''approval-inbox'' \<longrightarrow> v = Some (approvalId (approval rec)))) \<and>
      allowed policy \<and> check_version policy = int (policy_version (envelope rec)) \<and> check_hash policy = policy_hash (envelope rec) \<and>
      identity_actorId identity = actor_id (envelope rec) \<and> identity_workloadId identity = actor_workloadId (envelope rec) \<and>
      ad_supports (gw_adapter gw) (env_operation (envelope rec)))"

lemma outside_self [simp]: "\<exists>x. w = w\<lparr>outside := x\<rparr>" "(\<forall>x. w \<noteq> w\<lparr>outside := x\<rparr>) \<longleftrightarrow> False"
  by (metis gateway_world.surjective gateway_world.update_convs(3))+

lemma readStoredAction_run:
  "seqp (readStoredAction i b) k w = (case readStored (action_files w i) b of Inl e \<Rightarrow> (Inl e, w) | Inr s \<Rightarrow> k s w)"
  by (auto simp: readStoredAction_def getp_def seqp_def liftp_def split: sum.splits)

lemma verifierCall_run:
  "seqp (verifierCall gw env appr ph) k w =
     (case gw_verifier gw env appr ph (outside w) of (Inl e, x) \<Rightarrow> (Inl e, w\<lparr>outside := x\<rparr>) | (Inr v, x) \<Rightarrow> k v (w\<lparr>outside := x\<rparr>))"
  by (auto simp: verifierCall_def seqp_def split: prod.splits sum.splits)

lemma canonicalize_Inr:
  "ok_envelope e \<Longrightarrow> canonicalizeActionEnvelope (enc_envelope e) = Inr t \<Longrightarrow> canonical (enc_envelope e) = Some t"
  using canonical_envelope [of e] by (auto simp: canonicalizeActionEnvelope_def canonicalJson_def)

lemma canonicalize_same:
  assumes "canonicalizeActionEnvelope (enc_envelope e) = Inr t" and "canonicalizeActionEnvelope (enc_envelope e') = Inr t"
    and "ok_envelope e" and "ok_envelope e'"
  shows "e = e'"
  using canonicalize_Inr [OF assms(3,1)] canonicalize_Inr [OF assms(4,2)] envelope_text_inj [of e e'] assms(3,4) by simp

lemma execute_checks:
  assumes "execute gw clk rnd j identity policy w = (r, w')"
  shows "((\<exists>x. w' = w\<lparr>outside := x\<rparr>) \<and> (\<exists>e. r = Inl e)) \<or>
    (\<exists>rec ms x. readStored (action_files w (env_actionId (envelope rec))) True = Inr (Some rec) \<and> clk 0 = Some ms \<and>
       cleared gw j identity policy (outside w) rec (toISOString ms) \<and>
       proceed gw clk rnd rec (toISOString ms) (w\<lparr>outside := x\<rparr>) = (r, w'))"
proof (subst disj_commute, rule disjCI)
  assume no: "\<not> ((\<exists>x. w' = w\<lparr>outside := x\<rparr>) \<and> (\<exists>e. r = Inl e))"
  from assms no obtain req where req: "validateActionEnvelope j = Inr req"
    by (cases "validateActionEnvelope j") (auto simp: execute_def liftp_seqp)
  from assms no req obtain rec where rec: "readStored (action_files w (env_actionId req)) True = Inr (Some rec)"
    by (cases "readStored (action_files w (env_actionId req)) True")
      (auto simp: execute_def liftp_seqp readStoredAction_run throw_def split: option.splits)
  obtain r1 x where v: "gw_verifier gw (envelope rec) (approval rec) Execute_phase (outside w) = (r1, x)" by fastforce
  let ?w = "w\<lparr>outside := x\<rparr>"
  from assms no req rec v obtain verification where r1: "r1 = Inr verification"
    by (cases r1) (auto simp: execute_def liftp_seqp readStoredAction_run verifierCall_run)
  note start = req rec v r1
  have inbox: "requireApprovalInboxVerification (approval rec) verification = Inr ()"
    using assms no start
    by (cases "requireApprovalInboxVerification (approval rec) verification")
      (auto simp: execute_def liftp_seqp readStoredAction_run verifierCall_run)
  obtain ms where ms: "clk 0 = Some ms"
    using assms no start inbox
    by (cases "clk 0") (auto simp: execute_def liftp_seqp readStoredAction_run verifierCall_run isoNow_def)
  note ok = validateActionEnvelope_ok [OF req] readStored_ok [OF rec]
  have envs: "ok_envelope (envelope rec)" using ok(2) by (simp add: ok_stored_def)
  let ?tail = "seqp (liftp (verifyApproval (envelope rec) (approval rec) (toISOString ms) False)) (\<lambda>_.
           seqp (liftp (verifyPolicy (envelope rec) policy)) (\<lambda>_.
           if identity_actorId identity \<noteq> actor_id (envelope rec) \<or> identity_workloadId identity \<noteq> actor_workloadId (envelope rec)
           then throw (AGE ''Execution identity does not match the approved action.'')
           else if \<not> ad_supports (gw_adapter gw) (env_operation (envelope rec))
           then throw (AGE (''Execution adapter does not support action operation: '' @ env_operation (envelope rec)))
           else proceed gw clk rnd rec (toISOString ms)))"
  have "canonicalizeActionEnvelope (enc_envelope req) = canonicalizeActionEnvelope (enc_envelope (envelope rec)) \<and> ?tail ?w = (r, w')"
    using assms no start inbox ms ok(1) envs
    by (auto simp: execute_def [folded proceed_def] liftp_seqp readStoredAction_run verifierCall_run isoNow_def canonicalize_enc throw_def
        split: if_splits)
  then have same: "canonicalizeActionEnvelope (enc_envelope req) = canonicalizeActionEnvelope (enc_envelope (envelope rec))" and run: "?tail ?w = (r, w')"
    by auto
  from same canonicalize_enc [OF envs] have e: "req = envelope rec" by (intro canonicalize_same [OF _ _ ok(1) envs]) auto
  have "proceed gw clk rnd rec (toISOString ms) ?w = (r, w') \<and> verifyPolicy (envelope rec) policy = Inr () \<and>
      identity_actorId identity = actor_id (envelope rec) \<and> identity_workloadId identity = actor_workloadId (envelope rec) \<and>
      ad_supports (gw_adapter gw) (env_operation (envelope rec))"
    using run no by (auto simp: liftp_seqp throw_def split: sum.splits if_splits)
  moreover from this inbox v r1 req e have "cleared gw j identity policy (outside w) rec (toISOString ms)"
    by (auto simp: cleared_def verifyPolicy_def requireApprovalInboxVerification_def res_simps)
  ultimately show "\<exists>rec ms x. readStored (action_files w (env_actionId (envelope rec))) True = Inr (Some rec) \<and> clk 0 = Some ms \<and>
       cleared gw j identity policy (outside w) rec (toISOString ms) \<and>
       proceed gw clk rnd rec (toISOString ms) (w\<lparr>outside := x\<rparr>) = (r, w')"
    using rec ms e by blast
qed

lemma execute_effect:
  assumes "execute gw clk rnd j identity policy w = (r, w')"
  shows "quiet w w' \<or>
    (\<exists>rec ms. readStored (action_files w (env_actionId (envelope rec))) True = Inr (Some rec) \<and> clk 0 = Some ms \<and>
       cleared gw j identity policy (outside w) rec (toISOString ms) \<and> \<not> has_status Attempted rec \<and>
       granted gw rec (toISOString ms) (clk 1) (safety_file w) \<and> attempted_by rec w w')"
  using execute_checks [OF assms]
proof (elim disjE exE conjE)
  fix x
  assume "w' = w\<lparr>outside := x\<rparr>"
  then show ?thesis by simp
next
  fix rec :: StoredAction and ms x
  let ?i = "env_actionId (envelope rec)" and ?w = "w\<lparr>outside := x\<rparr>"
  assume rec: "readStored (action_files w ?i) True = Inr (Some rec)" and ms: "clk 0 = Some ms"
    and c: "cleared gw j identity policy (outside w) rec (toISOString ms)"
    and run: "proceed gw clk rnd rec (toISOString ms) ?w = (r, w')"
  show ?thesis
  proof (cases "has_status Verified rec \<or> has_status Committed rec \<or> has_status Attempted rec")
    case True
    then have "w' = ?w \<or> tail ?i rec ?w w'"
      using run
      by (auto simp: proceed_def findLatest_None ret_def split: option.splits if_splits
          dest: keepsD [OF reconcileCommitted_tail [OF refl]] keepsD [OF reconcileAttempted_tail [OF refl]])
    then show ?thesis using tail_quiet [OF _ rec, of ?w w'] by auto
  next
    case False
    then have "firstAttempt gw clk rnd rec (toISOString ms) ?w = (r, w')"
      using run by (auto simp: proceed_def findLatest_None split: option.splits if_splits) (simp_all add: findLatest_None [symmetric])
    from firstAttempt_effect [OF this readStored_ok [OF rec]] show ?thesis
      using False rec ms c by (auto simp: attempted_by_def)
  qed
qed

lemma readStored_None: "readStored f b = Inr None \<Longrightarrow> f = NoFile"
  by (auto simp: readStored_def res_simps split: store_file.splits if_splits option.splits)

lemma submit_effect:
  assumes "submit gw clk rnd j p policy w = (r, w')"
  shows "quiet w w'"
proof (rule ccontr)
  assume no: "\<not> quiet w w'"
  from assms no obtain action where a: "validateActionEnvelope j = Inr action"
    by (cases "validateActionEnvelope j") (auto simp: submit_def liftp_seqp)
  from assms no a obtain appr where p: "validateActionApproval p = Inr appr"
    by (cases "validateActionApproval p") (auto simp: submit_def liftp_seqp)
  obtain r1 x where v: "gw_verifier gw action appr Submit_phase (outside w) = (r1, x)" by fastforce
  let ?w = "w\<lparr>outside := x\<rparr>"
  from assms no a p v obtain verification where r1: "r1 = Inr verification"
    by (cases r1) (auto simp: submit_def liftp_seqp verifierCall_run)
  note start = a p v r1
  from assms no start have pre: "requireApprovalInboxVerification appr verification = Inr ()" "\<exists>ms. clk 0 = Some ms" "verifyPolicy action policy = Inr ()"
    by (auto simp: submit_def liftp_seqp verifierCall_run isoNow_def split: sum.splits option.splits)
  then obtain ms where ms: "clk 0 = Some ms" by blast
  note ok = validateActionEnvelope_ok [OF a]
  have none: "readStored (action_files w (env_actionId action)) False = Inr None"
  proof (cases "readStored (action_files w (env_actionId action)) False")
    case (Inl e)
    with assms no start pre ms ok show ?thesis
      by (auto simp: submit_def liftp_seqp verifierCall_run isoNow_def readStoredAction_run)
  next
    case (Inr s)
    with assms no start pre ms ok show ?thesis
      by (cases s) (auto simp: submit_def liftp_seqp verifierCall_run isoNow_def readStoredAction_run ret_def throw_def split: sum.splits if_splits)
  qed
  let ?rec = "\<lparr>envelope = action, record_actionHash = envelope_hash action, approval = appr, receipts = []\<rparr>"
  from assms no start pre ms ok none obtain q where "seqp (writeStoredAction (env_actionId action) (?rec\<lparr>receipts := [q]\<rparr>)) (\<lambda>_. ret (?rec\<lparr>receipts := [q]\<rparr>)) ?w = (r, w')"
    by (auto simp: submit_def liftp_seqp verifierCall_run isoNow_def readStoredAction_run throw_def Let_def split: sum.splits if_splits)
  moreover obtain r2 w2 where wr: "writeStoredAction (env_actionId action) (?rec\<lparr>receipts := [q]\<rparr>) ?w = (r2, w2)" by fastforce
  ultimately have "w' = w2" by (auto simp: seqp_def ret_def split: sum.splits)
  have "file_moves NoFile (written (?rec\<lparr>receipts := [q]\<rparr>))" if "ok_stored (?rec\<lparr>receipts := [q]\<rparr>)"
    unfolding file_moves_def using that by (metis StoredAction.select_convs(4) StoredAction.update_convs(4))
  with \<open>w' = w2\<close> writeStoredAction_result [OF wr] readStored_None [OF none] have "quiet w w'"
    by (auto simp: quiet_def) (auto simp: file_moves_def)
  with no show False by blast
qed

lemma inspect_same: "inspect i w = (r, w') \<Longrightarrow> w' = w"
  by (auto simp: inspect_def liftp_seqp readStoredAction_run throw_def ret_def split: sum.splits option.splits)

lemma compensate_effect:
  assumes "compensate gw i w = (r, w')"
  shows "quiet w w'"
proof -
  obtain r1 w1 where i: "inspect i w = (r1, w1)" by fastforce
  from inspect_same [OF i] have "w1 = w" .
  with assms i show ?thesis
    by (auto simp: compensate_def seqp_def throw_def outsideCall_def split: sum.splits option.splits if_splits prod.splits)
qed

section \<open>Traces\<close>

datatype ('i, 'x) gateway_call =
    GSubmit "nat \<Rightarrow> clock" "nat \<Rightarrow> string" json json ActionPolicyCheck
  | GExecute "nat \<Rightarrow> clock" "nat \<Rightarrow> string" json ActionExecutionIdentity ActionPolicyCheck
  | GInspect string
  | GCompensate string
  | GSafety "'i safety_call"
  | GOutside 'x

inductive gateway_step ::
  "'x gateway \<Rightarrow> ('i \<Rightarrow> (safety_error, json) res) \<Rightarrow> 'x gateway_world \<Rightarrow> ('i, 'x) gateway_call \<Rightarrow> 'x gateway_world \<Rightarrow> bool"
  for gw :: "'x gateway" and auth :: "'i \<Rightarrow> (safety_error, json) res" where
  gstep_submit: "submit gw clk rnd j p policy w = (r, w') \<Longrightarrow> gateway_step gw auth w (GSubmit clk rnd j p policy) w'"
| gstep_execute: "execute gw clk rnd j identity policy w = (r, w') \<Longrightarrow> gateway_step gw auth w (GExecute clk rnd j identity policy) w'"
| gstep_inspect: "inspect i w = (r, w') \<Longrightarrow> gateway_step gw auth w (GInspect i) w'"
| gstep_compensate: "compensate gw i w = (r, w') \<Longrightarrow> gateway_step gw auth w (GCompensate i) w'"
| gstep_safety: "safety_step auth (gw_leaseTtlMs gw) (safety_file w) c f \<Longrightarrow> gateway_step gw auth w (GSafety c) (w\<lparr>safety_file := f\<rparr>)"
| gstep_outside: "gateway_step gw auth w (GOutside x) (w\<lparr>outside := x\<rparr>)"

inductive gateway_trace ::
  "'x gateway \<Rightarrow> ('i \<Rightarrow> (safety_error, json) res) \<Rightarrow> 'x gateway_world \<Rightarrow> ('i, 'x) gateway_call list \<Rightarrow> 'x gateway_world \<Rightarrow> bool"
  for gw :: "'x gateway" and auth :: "'i \<Rightarrow> (safety_error, json) res" where
  gtrace_nil: "gateway_trace gw auth w [] w"
| gtrace_snoc: "gateway_trace gw auth w cs w' \<Longrightarrow> gateway_step gw auth w' c w'' \<Longrightarrow> gateway_trace gw auth w (cs @ [c]) w''"

lemma step_effect:
  assumes "gateway_step gw auth w c w'"
  shows "quiet w w' \<or>
    (\<exists>clk rnd j identity policy rec ms. c = GExecute clk rnd j identity policy \<and>
       readStored (action_files w (env_actionId (envelope rec))) True = Inr (Some rec) \<and> clk 0 = Some ms \<and>
       cleared gw j identity policy (outside w) rec (toISOString ms) \<and> \<not> has_status Attempted rec \<and>
       granted gw rec (toISOString ms) (clk 1) (safety_file w) \<and> attempted_by rec w w')"
  using assms
proof cases
  case (gstep_execute clk rnd j identity policy r)
  with execute_effect [OF gstep_execute(2)] show ?thesis by blast
qed (auto dest: submit_effect inspect_same compensate_effect)

section \<open>The record of an executed action\<close>

text \<open>Each action that was executed has its own file with a record of the attempt.\<close>

definition accounted :: "'x gateway_world \<Rightarrow> ActionEnvelope \<Rightarrow> bool" where
  "accounted w e =
     (\<exists>s. action_files w (env_actionId e) = written s \<and> ok_stored s \<and> envelope s = e \<and> has_status Attempted s)"

definition once :: "'x gateway_world \<Rightarrow> bool" where
  "once w = (distinct (map env_actionId (executed w)) \<and> (\<forall>e \<in> set (executed w). accounted w e))"

lemma written_not_NoFile [simp]: "written s \<noteq> NoFile" "NoFile \<noteq> written s"
  by (auto simp: written_def atomicWriteJson_def)

lemma quiet_accounted:
  assumes "quiet w w'" and "accounted w e"
  shows "accounted w' e"
proof -
  from assms(2) obtain s where s: "action_files w (env_actionId e) = written s" "ok_stored s" "envelope s = e" "has_status Attempted s"
    by (auto simp: accounted_def)
  have "file_moves (written s) (action_files w' (env_actionId e))" using assms(1) s(1) by (metis quiet_def)
  then consider "action_files w' (env_actionId e) = written s"
    | rec s' where "readStored (written s) True = Inr (Some rec)" "ok_stored s'" "record_grows rec s'" "action_files w' (env_actionId e) = written s'"
    by (auto simp: file_moves_def)
  then show ?thesis
  proof cases
    case 1
    with s show ?thesis by (auto simp: accounted_def)
  next
    case 2
    with readStored_written_Some [OF s(2)] have "record_grows s s'" by metis
    with s 2 show ?thesis by (auto simp: accounted_def intro!: exI [of _ s'] dest: has_status_grows) (simp add: record_grows_def)
  qed
qed

lemma attempt_once:
  assumes "attempted_by rec w w'" and "readStored (action_files w (env_actionId (envelope rec))) True = Inr (Some rec)"
    and "\<not> has_status Attempted rec" and "once w"
  shows "once w'"
proof -
  let ?i = "env_actionId (envelope rec)"
  have new: "env_actionId e \<noteq> ?i" if "e \<in> set (executed w)" for e
  proof
    assume same: "env_actionId e = ?i"
    from assms(4) that obtain s where "action_files w ?i = written s" "ok_stored s" "has_status Attempted s"
      using same by (auto simp: once_def accounted_def)
    with assms(2,3) show False using readStored_written_Some by metis
  qed
  from assms(1) have e: "executed w' = executed w @ [envelope rec]" by (simp add: attempted_by_def)
  have "accounted w' (envelope rec)"
    using assms(1) by (auto simp: attempted_by_def accounted_def record_grows_def)
  moreover have "accounted w' e" if "e \<in> set (executed w)" for e
    using that assms(1,4) new [OF that] by (auto simp: attempted_by_def accounted_def once_def)
  moreover have "?i \<notin> env_actionId ` set (executed w)" using new by force
  ultimately show ?thesis using assms(4) by (simp add: once_def e)
qed

lemma step_once: "gateway_step gw auth w c w' \<Longrightarrow> once w \<Longrightarrow> once w'"
  using step_effect [of gw auth w c w'] attempt_once [of _ w w']
  by (auto simp: once_def quiet_def intro: quiet_accounted [unfolded quiet_def])

lemma trace_once: "gateway_trace gw auth w cs w' \<Longrightarrow> once w \<Longrightarrow> once w'"
  by (induction rule: gateway_trace.induct) (auto intro: step_once)

end
