(* ===== verification/Secrets_Plain.thy ===== *)
theory Secrets_Plain
  imports Validators
begin

text \<open>
  Texts that the secret sanitiser leaves alone because of the characters they are made of: the
  fixed markers of the token shapes do not fit into the alphabet, and a text without white
  space has no bearer token.  The stores rely on this for the keys they build from hashes.
\<close>

lemma marked_BEARER_space: "marked (list_ex is_ws) BEARER"
  unfolding BEARER_def
proof (rule marked_Seq2)
  show "marked (list_ex is_ws) (Seq (Plus (Cls is_ws)) (Plus (Cls c_nonws)))"
  proof (rule marked_Seq1)
    show "marked (list_ex is_ws) (Plus (Cls is_ws))"
      unfolding marked_def Plus_def by (intro allI impI) (auto split: list.splits)
  qed
qed auto

lemma sanitize_no_space:
  assumes "\<not> has_marker s" and "\<not> list_ex is_ws s"
  shows "sanitizeSecretString s = s"
proof -
  have "replace_all BEARER ''Bearer ***'' s = s"
    using marked_BEARER_space assms(2) by (intro marked_replace) auto
  moreover have "fold (\<lambda>r t. replace_all r m t) rs s = s" if "set rs \<subseteq> set TOKEN_PATTERNS" for rs m
    using that marked_replace [OF marked_TOKEN_PATTERNS _ assms(1)] has_marker_suffix [of _ "[_]"]
    by (induction rs) auto
  ultimately show ?thesis by (simp add: sanitizeSecretString_def)
qed

text \<open>A text over an alphabet into which no marker fits.\<close>

lemma unmarked_alphabet:
  assumes "list_all P s" and "list_all (list_ex (\<lambda>c. \<not> P c)) TOKEN_MARKERS"
  shows "\<not> has_marker s"
proof
  assume "has_marker s"
  then obtain m where m: "m \<in> set TOKEN_MARKERS" "str_includes s m" by (auto simp: has_marker_def list_ex_iff)
  then have "set m \<subseteq> set s" by (auto simp: str_includes_iff)
  with assms m(1) show False by (auto simp: list_all_iff list_ex_iff)
qed

text \<open>The alphabet of \<open>target-\<close> and other short names next to hexadecimal digits.\<close>

definition key_char :: "char \<Rightarrow> bool" where
  "key_char c = (is_hex c \<or> c \<in> {CHR ''t'', CHR ''r'', CHR ''g'', CHR ''-'', CHR '':'', CHR ''k''})"

lemma key_char_markers: "list_all (list_ex (\<lambda>c. \<not> key_char c)) TOKEN_MARKERS"
  by code_simp

lemma key_char_code: "key_char c \<Longrightarrow> 45 \<le> code c \<and> code c \<le> 122"
  by (auto simp: key_char_def is_hex_def is_digit_def between_def code_def)

lemma key_char_no_space: "key_char c \<Longrightarrow> \<not> is_ws c \<and> \<not> is_control c"
  using key_char_code [of c] by (auto simp: is_ws_def is_control_def)

lemma trim_no_space: "(\<And>c. c \<in> set s \<Longrightarrow> \<not> is_ws c) \<Longrightarrow> trim s = s"
proof -
  assume h: "\<And>c. c \<in> set s \<Longrightarrow> \<not> is_ws c"
  have "dropWhile is_ws u = u" if "set u \<subseteq> set s" for u using that h by (cases u) auto
  then show ?thesis by (simp add: trim_def)
qed

lemma key_chars_sanitize:
  assumes "list_all key_char s"
  shows "sanitizeSecretString s = s"
proof (rule sanitize_no_space)
  show "\<not> has_marker s" using assms key_char_markers by (rule unmarked_alphabet)
  show "\<not> list_ex is_ws s" using assms key_char_no_space by (auto simp: list_all_iff list_ex_iff)
qed

lemma key_chars_text: "list_all key_char s \<Longrightarrow> s \<noteq> [] \<Longrightarrow> length s \<le> n \<Longrightarrow> ok_text n s"
  unfolding ok_text_def
  using key_chars_sanitize [of s] key_char_no_space trim_no_space [of s]
  by (auto simp: list_all_iff list_ex_iff)

lemma key_chars_hash: "ok_hash h \<Longrightarrow> list_all key_char h"
  by (auto simp: ok_hash_iff key_char_def list_all_iff)

end
