(* ===== verification/Gateway_Props.thy ===== *)
theory Gateway_Props
  imports Gateway_Machine Secrets_Plain
begin

text \<open>
  What the action gateway promises over sequences of calls: an action is executed at most once,
  only when it was authorised, never under a kill switch, and its record is only ever extended.
  The witnesses run one approved action through a gateway whose adapter cannot tell the outcome.
\<close>

section \<open>An example action\<close>

definition demo_envelope :: ActionEnvelope where
  "demo_envelope =
     \<lparr>env_actionId = ''act1'', env_idempotencyKey = ''k1'', actor_id = ''agent1'', actor_workloadId = ''job1'',
      actor_type = AgentActor, env_projectId = ''shop'', env_operation = ''refund'', resource_id = ''prod'', arg_worldId = ''prod'',
      expectedSideEffects = [], env_riskClass = Money_movement, reversibility = NotReversible, policy_version = 1,
      policy_hash = replicate 64 CHR ''a'', evidence_hash = replicate 64 CHR ''b'', env_expiresAt = toISOString 1000,
      env_nonce = ''k1''\<rparr>"

definition demo_approval :: ActionApproval where
  "demo_approval =
     \<lparr>approvalId = ''op1'', approval_actionHash = envelope_hash demo_envelope, approvedBy = ''alice'',
      approvedAt = toISOString 0, approval_expiresAt = toISOString 1000, approval_nonce = ''k1'', keyId = ''op1'',
      signature = replicate 86 CHR ''A''\<rparr>"

definition demo_request :: StoredAction where
  "demo_request = \<lparr>envelope = demo_envelope, record_actionHash = envelope_hash demo_envelope, approval = demo_approval, receipts = []\<rparr>"

definition demo_stored :: StoredAction where
  "demo_stored = demo_request\<lparr>receipts := [projr (createReceipt demo_request Requested (toISOString 0) ''0'' None None None)]\<rparr>"

definition demo_policy :: ActionPolicyCheck where
  "demo_policy = \<lparr>check_version = 1, check_hash = replicate 64 CHR ''a'', allowed = True\<rparr>"

definition demo_identity :: ActionExecutionIdentity where
  "demo_identity = \<lparr>identity_actorId = ''agent1'', identity_workloadId = ''job1''\<rparr>"

text \<open>An adapter that plans and simulates without complaint and cannot tell what came of the execution.\<close>

definition demo_adapter :: "unit adapter" where
  "demo_adapter =
     \<lparr>ad_supports = (\<lambda>_. True), ad_plan = (\<lambda>_ x. (Inr (), x)), ad_simulate = (\<lambda>_ x. (Inr (), x)),
      ad_execute = (\<lambda>_ _ (f, x). (Inr OutcomeUnknown, f, x)),
      ad_verify = (\<lambda>_ x. (Inr \<lparr>rec_committed = False, rec_providerRequestId = None, rec_result = None\<rparr>, x)), ad_compensate = None\<rparr>"

definition demo_gateway :: "unit gateway" where
  "demo_gateway = \<lparr>gw_adapter = demo_adapter, gw_verifier = (\<lambda>_ _ _ x. (Inr None, x)), gw_leaseTtlMs = DEFAULT_LEASE_TTL_MS\<rparr>"

definition demo_world :: "unit gateway_world" where
  "demo_world =
     \<lparr>action_files = (\<lambda>i. if i = ''act1'' then Regular (Some (enc_stored demo_stored)) 2000 else NoFile),
      safety_file = NoFile, outside = (), executed = []\<rparr>"

lemma demo_ids: "ok_ident ''act1''" "ok_ident ''ghostapi-local''" "ok_ident ''synthetic''" "ok_ident ''ghostapi-synthetic''"
  "ok_ident ''receipt-0''"
  by (rule ok_ident_unmarked; (unfold IDENTIFIER_iff)?; code_simp)+

lemma demo_times: "is_iso (toISOString 1000)" "not_after (toISOString 1000) (toISOString 0) = False"
  "later_than (toISOString 0) (toISOString 0) = False"
  by (rule is_iso_toISOString, code_simp) (code_simp+)

lemma demo_hashes: "ok_hash (replicate 64 CHR ''a'')" "ok_hash (replicate 64 CHR ''b'')"
  by (simp_all add: ok_hash_iff) code_simp+

lemma demo_envelope_ok: "ok_envelope demo_envelope"
  by (simp add: ok_envelope_def demo_envelope_def demo_idents demo_ids demo_times demo_hashes)

lemma demo_signature: "list_all c_wdash (replicate 86 CHR ''A'')"
  by code_simp

lemma demo_approval_ok: "ok_approval demo_approval" "binds demo_envelope demo_approval" "current_approval demo_approval (toISOString 0)"
  by (auto simp: ok_approval_def binds_def current_approval_def demo_approval_def demo_idents demo_times demo_iso
      demo_envelope_def demo_signature)

lemma createReceipt_succeeds:
  assumes "ok_ident (''receipt-'' @ u)" and "is_iso ts" and "case pr of None \<Rightarrow> True | Some i \<Rightarrow> ok_ident i"
    and "case rs of None \<Rightarrow> True | Some v \<Rightarrow> ok_result v"
    and "st \<in> {Committed, Verified} \<longrightarrow> pr \<noteq> None \<and> rs \<noteq> None" and "st = Failed \<longrightarrow> fl \<noteq> None"
  shows "\<exists>r. createReceipt rec st ts u pr rs fl = Inr r \<and> receipt_status r = st \<and>
    ok_receipt (env_actionId (envelope rec)) (record_actionHash rec)
      (if receipts rec = [] then receiptGenesisHash (record_actionHash rec) else receiptHash (last (receipts rec))) r"
proof -
  define base where "base = \<lparr>receiptId = ''receipt-'' @ u, receipt_actionId = env_actionId (envelope rec), receipt_actionHash = record_actionHash rec,
     receipt_status = st, receipt_timestamp = ts, providerRequestId = pr, receipt_result = rs, receipt_failure = fl,
     previousReceiptHash = (if receipts rec = [] then receiptGenesisHash (record_actionHash rec) else receiptHash (last (receipts rec))),
     receiptHash = []\<rparr>"
  obtain h where h: "receipt_digest base = Inr h" using receipt_digest_total by blast
  have "receipt_base (base\<lparr>receiptHash := h\<rparr>) = receipt_base base" by (simp add: receipt_base_def)
  then have "receipt_digest (base\<lparr>receiptHash := h\<rparr>) = Inr h" using h by (simp add: receipt_digest_def)
  moreover have "createReceipt rec st ts u pr rs fl = Inr (base\<lparr>receiptHash := h\<rparr>)"
    using assms(1-3) h unfolding base_def by (cases pr) (simp_all add: createReceipt_def Let_def)
  ultimately show ?thesis
    using assms by (intro exI [of _ "base\<lparr>receiptHash := h\<rparr>"]) (auto simp: ok_receipt_def base_def)
qed

lemma addReceipt_Attempted:
  assumes "ok_ident (''receipt-'' @ u)" and "is_iso ts" and "ok_stored rec" and "length (receipts rec) < MAX_RECEIPTS"
  shows "\<exists>rec1. addReceipt rec Attempted ts u None None None = Inr rec1 \<and> ok_stored rec1"
proof -
  obtain r where r: "createReceipt rec Attempted ts u None None None = Inr r" "receipt_status r = Attempted"
    "ok_receipt (env_actionId (envelope rec)) (record_actionHash rec)
      (if receipts rec = [] then receiptGenesisHash (record_actionHash rec) else receiptHash (last (receipts rec))) r"
    using createReceipt_succeeds [OF assms(1,2), of None None Attempted None rec] by auto
  then have "addReceipt rec Attempted ts u None None None = Inr (rec\<lparr>receipts := receipts rec @ [r]\<rparr>)"
    using assms(4) by (simp add: addReceipt_def appendReceipt_def)
  moreover have "ok_stored (rec\<lparr>receipts := receipts rec @ [r]\<rparr>)"
    using assms(3,4) r by (auto simp: ok_stored_def receipt_chain_append)
  ultimately show ?thesis by blast
qed

lemma demo_stored_ok: "ok_stored demo_stored" "envelope demo_stored = demo_envelope" "approval demo_stored = demo_approval"
  "length (receipts demo_stored) = 1" "\<not> has_status Attempted demo_stored" "\<not> has_status Committed demo_stored"
  "\<not> has_status Verified demo_stored"
proof -
  obtain r where r: "createReceipt demo_request Requested (toISOString 0) ''0'' None None None = Inr r" "receipt_status r = Requested"
    "ok_receipt ''act1'' (envelope_hash demo_envelope) (receiptGenesisHash (envelope_hash demo_envelope)) r"
    using createReceipt_succeeds [of "''0''" "toISOString 0" None None Requested None demo_request] demo_ids(5) demo_iso
    by (auto simp: demo_request_def demo_envelope_def)
  then have s: "demo_stored = demo_request\<lparr>receipts := [r]\<rparr>" by (simp add: demo_stored_def)
  show "ok_stored demo_stored"
    using r demo_envelope_ok demo_approval_ok by (simp add: s demo_request_def ok_stored_def MAX_RECEIPTS_def) (simp add: demo_envelope_def)
  show "envelope demo_stored = demo_envelope" "approval demo_stored = demo_approval" "length (receipts demo_stored) = 1"
    by (simp_all add: s demo_request_def)
  show "\<not> has_status Attempted demo_stored" "\<not> has_status Committed demo_stored" "\<not> has_status Verified demo_stored"
    using r by (simp_all add: s has_status_def)
qed

lemma demo_read: "readStored (action_files demo_world ''act1'') True = Inr (Some demo_stored)"
  using validateStoredAction_enc [OF demo_stored_ok(1)] by (simp add: demo_world_def readStored_def MAX_ACTION_BYTES_def)

lemma demo_key: "key_char CHR ''k''" "key_char CHR ''1''" "key_char CHR '':''"
  by code_simp+

lemma demo_envelope_key: "env_idempotencyKey demo_envelope = ''k1''"
  by (simp add: demo_envelope_def)

lemma demo_safety_admit:
  "\<exists>f. admit (enc_action (safetyAction demo_envelope (envelope_hash demo_envelope))) DEFAULT_LEASE_TTL_MS (Some 0) NoFile =
    (Inr \<lparr>replay = False, lease_action = safetyAction demo_envelope (envelope_hash demo_envelope)\<rparr>, f)"
proof -
  let ?a = "safetyAction demo_envelope (envelope_hash demo_envelope)"
  have ok: "ok_action ?a"
    by (simp add: ok_action_def safetyAction_def demo_envelope_def demo_idents demo_ids ok_costs_def MAX_SAFE_INTEGER_def)
  have key: "ok_text 300 (ledgerKey ?a)"
    using key_chars_hash [of "envelope_hash demo_envelope"] ok_hash_iff [of "envelope_hash demo_envelope"]
    by (intro key_chars_text) (auto simp: safetyAction_def ledgerKey_def demo_key demo_envelope_key)
  obtain st' where "admit_op ?a DEFAULT_LEASE_TTL_MS (toISOString 0) emptyState = (Inr False, st')" "safety_inv st'"
    by (rule admit_op_succeeds [OF safety_inv_empty ok key demo_iso(1), where ?st1.0 = emptyState])
      (simp_all add: emptyState_def MAX_AUDIT_def MAX_LEDGER_def pruneExpiredLeases_def collides_def
        recorded_def activeSwitch_def circuits_quiet_def budgets_allow_def)
  then have "mutate_store safety_store (admit_op ?a DEFAULT_LEASE_TTL_MS) (Some 0) NoFile = (Inr False, atomicWriteJson (enc_state st'))"
    using safety_file.mutate_exact [of NoFile emptyState "admit_op ?a DEFAULT_LEASE_TTL_MS" 0 False st'] by (simp add: read_store_def)
  then show ?thesis using ok by (simp add: admit_def liftp_def seqp_def ret_def)
qed

section \<open>An authorised action is executed\<close>

lemma outsideCall_run:
  "p (outside w) = (q, x) \<Longrightarrow> outsideCall p w = (mapError ForeignError q, w\<lparr>outside := x\<rparr>)"
  by (simp add: outsideCall_def)

lemma safetyCall_run:
  "p (safety_file w) = (q, f) \<Longrightarrow> safetyCall p w = (mapError ControllerError q, w\<lparr>safety_file := f\<rparr>)"
  by (simp add: safetyCall_def)

lemma verifyApproval_lax: "ok_envelope e \<Longrightarrow> binds e p \<Longrightarrow> verifyApproval e p now False = Inr ()"
  by (simp add: verifyApproval_eq)

lemma adapter_reached:
  assumes rec: "readStored (action_files w (env_actionId (envelope rec))) True = Inr (Some rec)"
    and "clk 0 = Some ms" and "clock_ok ms" and "cleared gw j identity policy (outside w) rec (toISOString ms)"
    and "gw_verifier gw (envelope rec) (approval rec) Execute_phase (outside w) = (Inr v, x)"
    and "\<not> has_status Attempted rec" and "\<not> has_status Committed rec" and "\<not> has_status Verified rec"
    and "length (receipts rec) < MAX_RECEIPTS" and "ok_ident (''receipt-'' @ rnd 0)"
    and "granted gw rec (toISOString ms) (clk 1) (safety_file w)"
    and "ad_plan (gw_adapter gw) (envelope rec) x = (Inr (), x1)" and "ad_simulate (gw_adapter gw) (envelope rec) x1 = (Inr (), x2)"
    and "execute gw clk rnd j identity policy w = (r, w')"
  shows "attempted_by rec w w'"
proof -
  note ok = readStored_ok [OF rec]
  have e: "ok_envelope (envelope rec)" "binds (envelope rec) (approval rec)" using ok by (auto simp: ok_stored_def)
  let ?now = "toISOString ms" and ?a = "safetyAction (envelope rec) (record_actionHash rec)"
  from assms(11) obtain lease f where adm: "admit (enc_action ?a) (gw_leaseTtlMs gw) (clk 1) (safety_file w) = (Inr lease, f)"
    and g: "\<not> replay lease" "\<not> not_after (env_expiresAt (envelope rec)) ?now" "current_approval (approval rec) ?now"
    by (auto simp: granted_def)
  from e g(3) have strict: "verifyApproval (envelope rec) (approval rec) ?now True = Inr ()" by (simp add: verifyApproval_eq)
  have "execute gw clk rnd j identity policy w = proceed gw clk rnd rec ?now (w\<lparr>outside := x\<rparr>)"
    using assms(1,2,4,5) e ok
    by (auto simp: execute_def [folded proceed_def] cleared_def liftp_seqp readStoredAction_run verifierCall_run isoNow_def
        requireApprovalInboxVerification_def canonicalize_enc ok_stored_def verifyApproval_lax verifyPolicy_def throwIf_def)
  also have "\<dots> = firstAttempt gw clk rnd rec ?now (w\<lparr>outside := x\<rparr>)"
    using assms(6-8) by (simp add: proceed_def findLatest_None findLatest_None [THEN iffD2])
  also have "\<dots> = afterLease gw clk rnd rec ?now lease (w\<lparr>outside := x2, safety_file := f\<rparr>)"
    using assms(12,13) adm g(2) strict
    by (simp add: firstAttempt_def [folded afterLease_def] liftp_seqp outsideCall_run safetyCall_run mapError_def)
  finally have run: "afterLease gw clk rnd rec ?now lease (w\<lparr>outside := x2, safety_file := f\<rparr>) = (r, w')" using assms(14) by simp
  obtain rec1 where r1: "addReceipt rec Attempted ?now (rnd 0) None None None = Inr rec1" "ok_stored rec1"
    using addReceipt_Attempted [OF assms(10) is_iso_toISOString [OF assms(3)] ok assms(9)] by blast
  have w: "writeStoredAction (env_actionId (envelope rec)) rec1 u =
      (Inr (), u\<lparr>action_files := (action_files u)(env_actionId (envelope rec) := written rec1)\<rparr>)" for u :: "'a gateway_world"
    using validateStoredAction_enc [OF r1(2)] by (simp add: writeStoredAction_def liftp_seqp modifyp_def written_def)
  from afterLease_effect [OF run] show ?thesis
  proof (elim disjE conjE)
    assume same: "w' = w\<lparr>outside := x2, safety_file := f\<rparr>"
    have "executed w' = executed w @ [envelope rec1]"
      using run g(1) r1(1) w runAdapter_effect [of gw clk rnd lease rec1 _ r w' "env_actionId (envelope rec1)"]
      by (auto simp: afterLease_def liftp_seqp)
    with same show ?thesis by simp
  next
    assume "attempted_by rec (w\<lparr>outside := x2, safety_file := f\<rparr>) w'"
    then show ?thesis by (simp add: attempted_by_def)
  qed
qed

definition demo_clock :: "nat \<Rightarrow> clock" where
  "demo_clock n = Some 0"

definition demo_uuid :: "nat \<Rightarrow> string" where
  "demo_uuid n = ''0''"

lemma demo_cleared: "cleared demo_gateway (enc_envelope demo_envelope) demo_identity demo_policy () demo_stored (toISOString 0)"
  using demo_envelope_ok
  by (auto simp: cleared_def demo_stored_ok demo_gateway_def demo_adapter_def demo_policy_def demo_identity_def)
    (simp_all add: demo_envelope_def demo_approval_def)

lemma demo_granted: "granted demo_gateway demo_stored (toISOString 0) (Some 0) NoFile"
proof -
  have "record_actionHash demo_stored = envelope_hash demo_envelope" using demo_stored_ok(1,2) by (simp add: ok_stored_def)
  with demo_safety_admit demo_approval_ok(3) show ?thesis
    by (auto simp: granted_def demo_stored_ok demo_gateway_def demo_times) (auto simp: demo_envelope_def demo_times)
qed

lemma demo_world_parts: "outside demo_world = ()" "safety_file demo_world = NoFile" "executed demo_world = []"
  by (simp_all add: demo_world_def)

lemma demo_execution:
  assumes "execute demo_gateway demo_clock demo_uuid (enc_envelope demo_envelope) demo_identity demo_policy demo_world = (r, w')"
  shows "attempted_by demo_stored demo_world w'" and "executed w' = [demo_envelope]"
proof -
  have id: "env_actionId (envelope demo_stored) = ''act1''" by (simp add: demo_stored_ok demo_envelope_def)
  show "attempted_by demo_stored demo_world w'"
  proof (rule adapter_reached [OF _ _ _ _ _ _ _ _ _ _ _ _ _ assms, where ms = 0 and v = None and x = "()" and ?x1.0 = "()" and ?x2.0 = "()"])
    show "clock_ok 0" by code_simp
  qed (use demo_read demo_ids(5) demo_cleared demo_granted demo_stored_ok id in
      \<open>simp_all add: demo_clock_def demo_uuid_def demo_world_parts MAX_RECEIPTS_def, simp_all add: demo_gateway_def demo_adapter_def\<close>)
  then show "executed w' = [demo_envelope]" by (simp add: attempted_by_def demo_stored_ok demo_world_parts)
qed

section \<open>At most once\<close>

text \<open>C9: At most once.  Whatever calls of the gateway, of the safety controller and of the outside
  world follow one another, whichever of them fail and however the adapter behaves, the adapter
  is told to execute an action id at most once, and for every action it was told to execute the
  action's file holds a valid record of exactly that envelope with a receipt of the attempt.\<close>

theorem action_executes_at_most_once:
  assumes "gateway_trace gw auth w cs w'" and "executed w = []"
  shows "distinct (map env_actionId (executed w')) \<and>
    (\<forall>e \<in> set (executed w'). \<exists>s. action_files w' (env_actionId e) = written s \<and> ok_stored s \<and> envelope s = e \<and> has_status Attempted s)"
  using trace_once [OF assms(1)] assms(2) by (simp add: once_def accounted_def)

theorem action_executes_at_most_once_witness:
  "\<exists>w'. gateway_trace demo_gateway demo_auth demo_world
       [GExecute demo_clock demo_uuid (enc_envelope demo_envelope) demo_identity demo_policy,
        GExecute demo_clock demo_uuid (enc_envelope demo_envelope) demo_identity demo_policy] w' \<and>
     executed w' = [demo_envelope] \<and>
     (\<exists>s. action_files w' ''act1'' = written s \<and> ok_stored s \<and> envelope s = demo_envelope \<and> has_status Attempted s)"
proof -
  let ?ex = "execute demo_gateway demo_clock demo_uuid (enc_envelope demo_envelope) demo_identity demo_policy"
  let ?c = "GExecute demo_clock demo_uuid (enc_envelope demo_envelope) demo_identity demo_policy"
  obtain r1 w1 where e1: "?ex demo_world = (r1, w1)" by fastforce
  obtain r2 w2 where e2: "?ex w1 = (r2, w2)" by fastforce
  have tr: "gateway_trace demo_gateway demo_auth demo_world [?c, ?c] w2"
    using gtrace_snoc [OF gtrace_snoc [OF gtrace_nil gstep_execute [OF e1]] gstep_execute [OF e2], of demo_auth] by simp
  note all = action_executes_at_most_once [OF tr demo_world_parts(3)]
  have "prefix (executed w1) (executed w2)"
    using execute_effect [OF e2] by (auto simp: quiet_def attempted_by_def)
  then obtain es where es: "executed w2 = demo_envelope # es" using demo_execution(2) [OF e1] by (auto elim: prefixE)
  have "es = []"
  proof (rule ccontr)
    assume "es \<noteq> []"
    then obtain rec where "readStored (action_files w1 (env_actionId (envelope rec))) True = Inr (Some rec)"
      and new: "cleared demo_gateway (enc_envelope demo_envelope) demo_identity demo_policy (outside w1) rec (toISOString 0)" "attempted_by rec w1 w2"
      using execute_effect [OF e2] es demo_execution(2) [OF e1] by (auto simp: quiet_def demo_clock_def)
    then have "envelope rec = demo_envelope" using demo_envelope_ok by (simp add: cleared_def)
    with new(2) demo_execution(2) [OF e1] all show False by (auto simp: attempted_by_def)
  qed
  with es all tr show ?thesis by (intro exI [of _ w2]) (auto simp: demo_envelope_def)
qed

section \<open>Authorisation\<close>

text \<open>C10: Only authorised actions are executed.  When a call of \<open>execute\<close> tells the adapter to
  execute, then what it executes is the envelope that was asked for and that is on file, bound to
  its approval by its hash; the approver is neither the actor nor its workload; the verifier
  accepted the approval (naming the very inbox request when it came from the inbox); neither the
  action nor the approval has expired; the policy allows it under the approved version and hash;
  the caller is the approved actor and workload; the safety controller granted a fresh lease for
  it; and no attempt was on record.\<close>

theorem execution_authorized:
  assumes "execute gw clk rnd j identity policy w = (r, w')" and "executed w' \<noteq> executed w"
  shows "\<exists>rec ms. executed w' = executed w @ [envelope rec] \<and> validateActionEnvelope j = Inr (envelope rec) \<and>
    readStored (action_files w (env_actionId (envelope rec))) True = Inr (Some rec) \<and> \<not> has_status Attempted rec \<and>
    approval_actionHash (approval rec) = envelope_hash (envelope rec) \<and>
    approvedBy (approval rec) \<noteq> actor_id (envelope rec) \<and> approvedBy (approval rec) \<noteq> actor_workloadId (envelope rec) \<and>
    (\<exists>v x. gw_verifier gw (envelope rec) (approval rec) Execute_phase (outside w) = (Inr v, x) \<and>
       (approvedBy (approval rec) = ''approval-inbox'' \<longrightarrow> v = Some (approvalId (approval rec)))) \<and>
    clk 0 = Some ms \<and> \<not> not_after (env_expiresAt (envelope rec)) (toISOString ms) \<and>
    current_approval (approval rec) (toISOString ms) \<and>
    allowed policy \<and> check_version policy = int (policy_version (envelope rec)) \<and> check_hash policy = policy_hash (envelope rec) \<and>
    identity_actorId identity = actor_id (envelope rec) \<and> identity_workloadId identity = actor_workloadId (envelope rec) \<and>
    (\<exists>lease f. admit (enc_action (safetyAction (envelope rec) (envelope_hash (envelope rec)))) (gw_leaseTtlMs gw) (clk 1) (safety_file w) =
       (Inr lease, f) \<and> \<not> replay lease)"
proof -
  from execute_effect [OF assms(1)] assms(2) obtain rec ms where
    h: "readStored (action_files w (env_actionId (envelope rec))) True = Inr (Some rec)" "clk 0 = Some ms"
      "cleared gw j identity policy (outside w) rec (toISOString ms)" "\<not> has_status Attempted rec"
      "granted gw rec (toISOString ms) (clk 1) (safety_file w)" "attempted_by rec w w'"
    by (auto simp: quiet_def)
  from readStored_ok [OF h(1)] h show ?thesis
    by (intro exI [of _ rec] exI [of _ ms]) (auto simp: ok_stored_def binds_def cleared_def granted_def attempted_by_def)
qed

theorem execution_authorized_witness:
  "\<exists>(rec :: StoredAction) w'. snd (execute demo_gateway demo_clock demo_uuid (enc_envelope demo_envelope) demo_identity demo_policy demo_world) = w' \<and>
     executed w' = executed demo_world @ [envelope rec] \<and> approval_actionHash (approval rec) = envelope_hash demo_envelope"
proof -
  let ?run = "execute demo_gateway demo_clock demo_uuid (enc_envelope demo_envelope) demo_identity demo_policy demo_world"
  obtain r w' where run: "?run = (r, w')" by fastforce
  from demo_execution(2) [OF run] have "executed w' \<noteq> executed demo_world" by (simp add: demo_world_parts)
  from execution_authorized [OF run this] obtain rec :: StoredAction where
    "executed w' = executed demo_world @ [envelope rec]" "approval_actionHash (approval rec) = envelope_hash (envelope rec)" by blast
  with demo_execution(2) [OF run] run show ?thesis by (intro exI [of _ rec] exI [of _ w']) (simp add: demo_world_parts)
qed

text \<open>C13: An authorised action is executed.  When every check passes, the safety controller grants a
  fresh lease and the adapter plans and simulates without an error, the call does tell the adapter
  to execute this action, exactly once, and has put the receipt of the attempt on file.\<close>

theorem authorized_action_reaches_adapter:
  assumes "readStored (action_files w (env_actionId (envelope rec))) True = Inr (Some rec)"
    and "clk 0 = Some ms" and "clock_ok ms" and "cleared gw j identity policy (outside w) rec (toISOString ms)"
    and "gw_verifier gw (envelope rec) (approval rec) Execute_phase (outside w) = (Inr v, x)"
    and "\<forall>st \<in> {Attempted, Committed, Verified}. \<not> has_status st rec"
    and "length (receipts rec) < MAX_RECEIPTS" and "ok_ident (''receipt-'' @ rnd 0)"
    and "granted gw rec (toISOString ms) (clk 1) (safety_file w)"
    and "ad_plan (gw_adapter gw) (envelope rec) x = (Inr (), x1)" and "ad_simulate (gw_adapter gw) (envelope rec) x1 = (Inr (), x2)"
    and "execute gw clk rnd j identity policy w = (r, w')"
  shows "executed w' = executed w @ [envelope rec] \<and>
    (\<exists>s. action_files w' (env_actionId (envelope rec)) = written s \<and> ok_stored s \<and> record_grows rec s \<and> has_status Attempted s)"
  using adapter_reached [OF assms(1-5) _ _ _ assms(7-12)] assms(6) by (auto simp: attempted_by_def)

theorem authorized_action_reaches_adapter_witness:
  "executed (snd (execute demo_gateway demo_clock demo_uuid (enc_envelope demo_envelope) demo_identity demo_policy demo_world)) = [demo_envelope]"
proof -
  let ?run = "execute demo_gateway demo_clock demo_uuid (enc_envelope demo_envelope) demo_identity demo_policy demo_world"
  obtain r w' where run: "?run = (r, w')" by fastforce
  have id: "env_actionId (envelope demo_stored) = ''act1''" by (simp add: demo_stored_ok demo_envelope_def)
  have "clock_ok 0" by code_simp
  then have "executed w' = executed demo_world @ [envelope demo_stored]"
    using authorized_action_reaches_adapter [of demo_world demo_stored demo_clock 0 demo_gateway "enc_envelope demo_envelope" demo_identity
        demo_policy None "()" demo_uuid "()" "()" r w']
      run demo_read demo_ids(5) demo_cleared demo_granted demo_stored_ok id
    by (simp add: demo_clock_def demo_uuid_def demo_world_parts MAX_RECEIPTS_def) (simp add: demo_gateway_def demo_adapter_def)
  with run show ?thesis by (simp add: demo_stored_ok demo_world_parts)
qed

end
