(* ===== verification/Gateway_Stop_Props.thy ===== *)
theory Gateway_Stop_Props
  imports Gateway_Props
begin

text \<open>
  The gateway and the safety controller together: the kill switch of the controller stops the
  gateway's executions.  \<open>stop_kept\<close> is the frame of the programs that leave an engaged
  switch engaged.
\<close>

section \<open>The kill switch\<close>

text \<open>What the adapter may do to the safety controller's file: nothing but the calls a lease's
  \<open>commit\<close> makes.\<close>

definition commits_only :: "('i \<Rightarrow> (safety_error, json) res) \<Rightarrow> 'x gateway \<Rightarrow> bool" where
  "commits_only auth gw =
     (\<forall>env lease f x q f' x'. ad_execute (gw_adapter gw) env lease (f, x) = (q, f', x') \<longrightarrow>
        (\<exists>cs. safety_trace auth (gw_leaseTtlMs gw) f cs f' \<and>
           (\<forall>c \<in> set cs. \<exists>l n. c = CCommitBefore l n \<or> c = CCommitAfter l n)))"

definition stop_kept :: "SafetyScope \<Rightarrow> 'x gateway_world \<Rightarrow> 'x gateway_world \<Rightarrow> bool" where
  "stop_kept sc w w' = (holds (stopped sc) (safety_file w) \<longrightarrow> holds (stopped sc) (safety_file w'))"

interpretation stop_kept: frame "stop_kept sc" for sc
  by unfold_locales (auto simp: stop_kept_def)

lemma outsideCall_stop: "keeps (stop_kept sc) (outsideCall p)"
  by (auto simp: keeps_def outsideCall_def stop_kept_def split: prod.splits)

lemma verifierCall_stop: "keeps (stop_kept sc) (verifierCall gw env appr ph)"
  by (auto simp: keeps_def verifierCall_def stop_kept_def split: prod.splits)

lemma writeStoredAction_stop: "keeps (stop_kept sc) (writeStoredAction i rec)"
  by (rule keepsI, drule writeStoredAction_result) (auto simp: stop_kept_def)

lemma readStoredAction_stop: "keeps (stop_kept sc) (readStoredAction i b)"
  by (rule keepsI, drule readStoredAction_state) (auto simp: stop_kept_def)

lemma safetyCall_stop:
  assumes "\<And>f q f'. p f = (q, f') \<Longrightarrow> \<exists>c. safety_step auth ttl f c f' \<and> (\<forall>i j r n. c \<noteq> CReenable i j r n)"
  shows "keeps (stop_kept sc) (safetyCall p)"
proof (rule keepsI)
  fix w q w'
  assume "safetyCall p w = (q, w')"
  then obtain q' f' where p: "p (safety_file w) = (q', f')" and w': "w' = w\<lparr>safety_file := f'\<rparr>"
    by (auto simp: safetyCall_def split: prod.splits)
  from assms [OF p] obtain c where "safety_step auth ttl (safety_file w) c f'" "\<forall>i j r n. c \<noteq> CReenable i j r n" by blast
  then show "stop_kept sc w w'" using step_stopped [of auth ttl "safety_file w" c f' sc] w' by (auto simp: stop_kept_def)
qed

lemma admit_stop: "keeps (stop_kept sc) (safetyCall (admit j ttl now))"
  by (rule safetyCall_stop [of _ demo_auth ttl]) (blast intro: step_admit)

lemma complete_stop: "keeps (stop_kept sc) (safetyCall (complete l j now))"
  by (rule safetyCall_stop [of _ demo_auth 0]) (blast intro: step_complete)

lemmas stop_intros = stop_kept.keeps_seqp stop_kept.keeps_ret stop_kept.keeps_throw stop_kept.keeps_liftp outsideCall_stop
  verifierCall_stop writeStoredAction_stop readStoredAction_stop admit_stop complete_stop

lemma failExecution_stop: "keeps (stop_kept sc) (failExecution lease c1 c2 u rec m reason p v fc msg)"
  unfolding failExecution_def by (intro stop_intros)

lemma reconcile_stop:
  "keeps (stop_kept sc) (reconcileCommitted gw rnd rec current)" "keeps (stop_kept sc) (reconcileAttempted gw rnd rec current)"
  unfolding reconcileCommitted_def reconcileAttempted_def
  by (auto intro!: stop_intros split: option.splits prod.splits)

lemma afterCommit_stop: "keeps (stop_kept sc) (afterCommit gw clk rnd lease rec p v)"
  unfolding afterCommit_def by (auto intro!: stop_intros failExecution_stop split: option.splits prod.splits)

lemma adapterExecute_stop:
  assumes "commits_only auth gw"
  shows "keeps (stop_kept sc) (adapterExecute gw env lease)"
proof (rule keepsI)
  fix w q w'
  assume "adapterExecute gw env lease w = (q, w')"
  then obtain q' f x where a: "ad_execute (gw_adapter gw) env lease (safety_file w, outside w) = (q', f, x)" and w': "safety_file w' = f"
    by (auto simp: adapterExecute_def split: prod.splits)
  from assms a obtain cs where "safety_trace auth (gw_leaseTtlMs gw) (safety_file w) cs f"
    "\<forall>c \<in> set cs. \<exists>l n. c = CCommitBefore l n \<or> c = CCommitAfter l n"
    unfolding commits_only_def by blast
  then show "stop_kept sc w w'" using trace_stopped [of auth _ "safety_file w" cs f sc] w' by (fastforce simp: stop_kept_def)
qed

lemma runAdapter_stop:
  assumes "commits_only auth gw"
  shows "keeps (stop_kept sc) (runAdapter gw clk rnd lease rec)"
proof (rule keepsI)
  fix w q w'
  assume run: "runAdapter gw clk rnd lease rec w = (q, w')"
  obtain q1 w1 where a: "adapterExecute gw (envelope rec) lease w = (q1, w1)" by fastforce
  have "stop_kept sc w1 w'"
    using run a by (auto simp: runAdapter_def split: sum.splits execution.splits
        dest: keepsD [OF failExecution_stop] keepsD [OF afterCommit_stop])
  with keepsD [OF adapterExecute_stop [OF assms] a] show "stop_kept sc w w'" by (rule stop_kept.frame_trans)
qed

lemma execute_stop:
  assumes "commits_only auth gw"
  shows "keeps (stop_kept sc) (execute gw clk rnd j identity policy)"
  unfolding execute_def firstAttempt_def
  by (auto intro!: stop_intros reconcile_stop runAdapter_stop [OF assms] split: option.splits)

lemma submit_stop: "keeps (stop_kept sc) (submit gw clk rnd j p policy)"
  unfolding submit_def by (auto simp: Let_def intro!: stop_intros split: option.splits)

lemma compensate_stop: "keeps (stop_kept sc) (compensate gw i)"
  unfolding compensate_def inspect_def by (auto intro!: stop_intros split: option.splits)

lemma gateway_step_stop:
  assumes "gateway_step gw auth w c w'" and "commits_only auth gw" and "holds (stopped sc) (safety_file w)"
    and "\<forall>i j r n. c = GSafety (CReenable i j r n) \<longrightarrow> validateScope j \<noteq> Inr sc"
  shows "holds (stopped sc) (safety_file w')"
  using assms(1)
proof cases
  case (gstep_submit clk rnd j p policy r)
  then show ?thesis using keepsD [OF submit_stop] assms(3) by (metis stop_kept_def)
next
  case (gstep_execute clk rnd j identity policy r)
  then show ?thesis using keepsD [OF execute_stop [OF assms(2)]] assms(3) by (metis stop_kept_def)
next
  case (gstep_inspect i r)
  then show ?thesis using inspect_same assms(3) by metis
next
  case (gstep_compensate i r)
  then show ?thesis using keepsD [OF compensate_stop] assms(3) by (metis stop_kept_def)
next
  case (gstep_safety c' f)
  then show ?thesis using step_stopped [OF gstep_safety(3) assms(3)] assms(4) by auto
qed (simp add: assms(3))

lemma gateway_step_executes:
  assumes "gateway_step gw auth w c w'" and "holds (stopped sc) (safety_file w)"
  shows "executed w' = executed w \<or> (\<exists>e. executed w' = executed w @ [e] \<and> \<not> scopeMatches sc (safetyAction e (envelope_hash e)))"
  using step_effect [OF assms(1)]
proof (elim disjE exE conjE)
  fix clk rnd j identity policy rec ms
  assume rec: "readStored (action_files w (env_actionId (envelope rec))) True = Inr (Some rec)"
    and g: "granted gw rec (toISOString ms) (clk 1) (safety_file w)" and att: "attempted_by rec w w'"
  let ?a = "safetyAction (envelope rec) (envelope_hash (envelope rec))"
  from readStored_ok [OF rec] have h: "record_actionHash rec = envelope_hash (envelope rec)" by (simp add: ok_stored_def)
  from g h obtain lease f where "admit (enc_action ?a) (gw_leaseTtlMs gw) (clk 1) (safety_file w) = (Inr lease, f)" "\<not> replay lease"
    by (auto simp: granted_def)
  moreover from this(1) obtain a where "validateAction (enc_action ?a) = Inr a" by (auto simp: admit_def liftp_def res_simps)
  moreover from this have "a = ?a" by (rule validateAction_norm)
  ultimately have "\<not> scopeMatches sc ?a" using admit_stopped_replay [OF assms(2)] by blast
  with att show ?thesis by (auto simp: attempted_by_def)
qed (simp add: quiet_def)

lemma gateway_trace_stop:
  assumes "gateway_trace gw auth w cs w'" and "commits_only auth gw" and "holds (stopped sc) (safety_file w)"
    and "\<forall>i j r n. GSafety (CReenable i j r n) \<in> set cs \<longrightarrow> validateScope j \<noteq> Inr sc"
  shows "holds (stopped sc) (safety_file w') \<and>
    (\<exists>es. executed w' = executed w @ es \<and> (\<forall>e \<in> set es. \<not> scopeMatches sc (safetyAction e (envelope_hash e))))"
  using assms
proof (induction rule: gateway_trace.induct)
  case (gtrace_snoc w cs w1 c w2)
  have "\<forall>i j r n. GSafety (CReenable i j r n) \<in> set cs \<longrightarrow> validateScope j \<noteq> Inr sc" using gtrace_snoc.prems(3) by auto
  with gtrace_snoc.IH gtrace_snoc.prems(1,2) obtain es where es: "holds (stopped sc) (safety_file w1)" "executed w1 = executed w @ es"
    "\<forall>e \<in> set es. \<not> scopeMatches sc (safetyAction e (envelope_hash e))" by blast
  have "holds (stopped sc) (safety_file w2)"
    using gateway_step_stop [OF gtrace_snoc.hyps(2) assms(2) es(1)] gtrace_snoc.prems(3) by auto
  moreover from gateway_step_executes [OF gtrace_snoc.hyps(2) es(1)] es(2,3)
  have "\<exists>es. executed w2 = executed w @ es \<and> (\<forall>e \<in> set es. \<not> scopeMatches sc (safetyAction e (envelope_hash e)))"
    by (elim disjE exE conjE) (auto intro: exI [of _ es] exI [of _ "es @ [_]"])
  ultimately show ?case by blast
qed auto

text \<open>C11: The kill switch stops the gateway.  Once the safety controller's \<open>stop\<close> has returned for
  a scope, no call of the gateway executes an action of that scope, whatever calls follow, as long
  as none of them re-enables the scope.  The adapter may use the controller's file only through the
  lease it is given.\<close>

theorem kill_switch_stops_gateway:
  assumes "stop auth i jsc rs now f0 = (Inr (), safety_file w)" and "validateScope jsc = Inr sc"
    and "gateway_trace gw auth w cs w'" and "commits_only auth gw"
    and "\<forall>i j r n. GSafety (CReenable i j r n) \<in> set cs \<longrightarrow> validateScope j \<noteq> Inr sc"
  shows "\<exists>es. executed w' = executed w @ es \<and> (\<forall>e \<in> set es. \<not> scopeMatches sc (safetyAction e (envelope_hash e)))"
  using gateway_trace_stop [OF assms(3,4) stop_Inr_stopped [OF assms(1,2)] assms(5)] by blast

lemma demo_commits: "commits_only demo_auth demo_gateway"
  by (auto simp: commits_only_def demo_gateway_def demo_adapter_def intro!: exI [of _ "[]"] trace_nil)

theorem kill_switch_stops_gateway_witness:
  "\<exists>w'. gateway_trace demo_gateway demo_auth (demo_world\<lparr>safety_file := demo_stopped\<rparr>)
       [GExecute demo_clock demo_uuid (enc_envelope demo_envelope) demo_identity demo_policy] w' \<and> executed w' = []"
proof -
  let ?w = "demo_world\<lparr>safety_file := demo_stopped\<rparr>"
  obtain r w' where run: "execute demo_gateway demo_clock demo_uuid (enc_envelope demo_envelope) demo_identity demo_policy ?w = (r, w')"
    by fastforce
  have tr: "gateway_trace demo_gateway demo_auth ?w [GExecute demo_clock demo_uuid (enc_envelope demo_envelope) demo_identity demo_policy] w'"
    using gtrace_snoc [OF gtrace_nil gstep_execute [OF run], of demo_auth] by simp
  have stop: "stop demo_auth () (enc_scope globalScope) (JStr ''drill'') (Some 0) NoFile = (Inr (), safety_file ?w)"
    using demo_stop by simp
  from kill_switch_stops_gateway [OF stop validateScope_global tr demo_commits] have "executed w' = []"
    by (auto simp: demo_world_parts)
  with tr show ?thesis by blast
qed

end
