(* ===== verification/Gateway_Record_Props.thy ===== *)
theory Gateway_Record_Props
  imports Gateway_Props
begin

text \<open>
  The records of the gateway: what is on file for an action is never rewritten, only extended;
  submitting puts the validated request on file or finds it there; a verified execution is
  answered from the file; and what the approval signer signs, the verifier accepts.
\<close>

section \<open>Records are only extended\<close>

lemma moves_written:
  assumes "file_moves (written s) f'" and "ok_stored s"
  shows "\<exists>s'. f' = written s' \<and> ok_stored s' \<and> record_grows s s'"
  using assms(1) unfolding file_moves_def
proof (elim disjE exE conjE)
  fix rec s'
  assume "readStored (written s) True = Inr (Some rec)" "ok_stored s'" "record_grows rec s'" "f' = written s'"
  moreover from this(1) readStored_written_Some [OF assms(2)] have "rec = s" by blast
  ultimately show ?thesis by blast
qed (use assms(2) in auto)

lemma step_written:
  assumes "gateway_step gw auth w c w'" and "action_files w i = written s" and "ok_stored s"
  shows "\<exists>s'. action_files w' i = written s' \<and> ok_stored s' \<and> record_grows s s'"
  using step_effect [OF assms(1)]
proof (elim disjE exE conjE)
  assume "quiet w w'"
  then have "file_moves (written s) (action_files w' i)" using assms(2) by (metis quiet_def)
  then show ?thesis using assms(3) by (rule moves_written)
next
  fix clk rnd j identity policy rec ms
  assume rec: "readStored (action_files w (env_actionId (envelope rec))) True = Inr (Some rec)" and att: "attempted_by rec w w'"
  show ?thesis
  proof (cases "i = env_actionId (envelope rec)")
    case True
    with rec assms(2) readStored_written_Some [OF assms(3)] have "rec = s" by metis
    with True att show ?thesis by (auto simp: attempted_by_def)
  next
    case False
    with att assms(2,3) show ?thesis by (auto simp: attempted_by_def)
  qed
qed

lemma trace_written:
  assumes "gateway_trace gw auth w cs w'" and "action_files w i = written s" and "ok_stored s"
  shows "\<exists>s'. action_files w' i = written s' \<and> ok_stored s' \<and> record_grows s s'"
  using assms
proof (induction rule: gateway_trace.induct)
  case (gtrace_snoc w cs w1 c w2)
  then obtain s1 where s1: "action_files w1 i = written s1" "ok_stored s1" "record_grows s s1" by blast
  from step_written [OF gtrace_snoc.hyps(2) s1(1,2)] s1(3) show ?case by (blast intro: record_grows_trans)
qed auto

text \<open>C12: Records are append-only.  Once a valid record of an action is on file, every sequence of
  calls leaves a valid record there, with the same envelope, action hash and approval, whose
  receipts extend the earlier ones and whose hash chain is intact.\<close>

theorem action_record_append_only:
  assumes "gateway_trace gw auth w cs w'" and "action_files w i = written s" and "ok_stored s"
  shows "\<exists>s'. action_files w' i = written s' \<and> envelope s' = envelope s \<and> approval s' = approval s \<and>
    record_actionHash s' = envelope_hash (envelope s) \<and> prefix (receipts s) (receipts s') \<and>
    receipt_chain (env_actionId (envelope s)) (envelope_hash (envelope s)) (receiptGenesisHash (envelope_hash (envelope s))) (receipts s')"
  using trace_written [OF assms] by (auto simp: record_grows_def ok_stored_def)

theorem action_record_append_only_witness:
  "\<exists>w' s'. gateway_trace demo_gateway demo_auth (demo_world\<lparr>action_files := (\<lambda>_. written demo_stored)\<rparr>)
       [GExecute demo_clock demo_uuid (enc_envelope demo_envelope) demo_identity demo_policy] w' \<and>
     action_files w' ''act1'' = written s' \<and> envelope s' = demo_envelope \<and> prefix (receipts demo_stored) (receipts s')"
proof -
  let ?w = "demo_world\<lparr>action_files := (\<lambda>_. written demo_stored)\<rparr>"
  obtain r w' where run: "execute demo_gateway demo_clock demo_uuid (enc_envelope demo_envelope) demo_identity demo_policy ?w = (r, w')"
    by fastforce
  have tr: "gateway_trace demo_gateway demo_auth ?w [GExecute demo_clock demo_uuid (enc_envelope demo_envelope) demo_identity demo_policy] w'"
    using gtrace_snoc [OF gtrace_nil gstep_execute [OF run], of demo_auth] by simp
  from action_record_append_only [OF tr _ demo_stored_ok(1), of "''act1''"] tr show ?thesis
    by (auto simp: demo_stored_ok)
qed

section \<open>Submission\<close>

lemma submit_Inr:
  assumes "submit gw clk rnd j p policy w = (Inr s, w')"
  shows "\<exists>e a ms. validateActionEnvelope j = Inr e \<and> validateActionApproval p = Inr a \<and> clk 0 = Some ms \<and>
    verifyPolicy e policy = Inr () \<and> executed w' = executed w \<and>
    ((readStored (action_files w (env_actionId e)) False = Inr (Some s) \<and> action_files w' = action_files w \<and>
        record_actionHash s = envelope_hash e \<and> approval_hash (approval s) = approval_hash a) \<or>
     (action_files w (env_actionId e) = NoFile \<and> ok_stored s \<and> envelope s = e \<and> approval s = a \<and>
        action_files w' = (action_files w)(env_actionId e := written s) \<and>
        (\<exists>r. receipts s = [r] \<and> receipt_timestamp r = toISOString ms) \<and>
        \<not> not_after (env_expiresAt e) (toISOString ms) \<and> current_approval a (toISOString ms)))"
proof -
  from assms obtain e where e: "validateActionEnvelope j = Inr e"
    by (cases "validateActionEnvelope j") (auto simp: submit_def liftp_seqp)
  from assms e obtain a where a: "validateActionApproval p = Inr a"
    by (cases "validateActionApproval p") (auto simp: submit_def liftp_seqp)
  obtain q x where v: "gw_verifier gw e a Submit_phase (outside w) = (q, x)" by fastforce
  let ?w = "w\<lparr>outside := x\<rparr>"
  from assms e a v obtain verification where q: "q = Inr verification"
    by (cases q) (auto simp: submit_def liftp_seqp verifierCall_run)
  note start = e a v q
  from assms start have pre: "requireApprovalInboxVerification a verification = Inr ()" "verifyPolicy e policy = Inr ()"
    and "\<exists>ms. clk 0 = Some ms"
    by (auto simp: submit_def liftp_seqp verifierCall_run isoNow_def split: sum.splits option.splits)
  then obtain ms where ms: "clk 0 = Some ms" by blast
  note ok = validateActionEnvelope_ok [OF e] validateActionApproval_ok [OF a]
  note run = assms [unfolded submit_def, simplified liftp_seqp verifierCall_run isoNow_def start pre ms readStoredAction_run
      actionHash_enc [OF ok(1)] sum.case prod.case option.case]
  show ?thesis
  proof (cases "readStored (action_files w (env_actionId e)) False")
    case (Inl err)
    with run show ?thesis by simp
  next
    case (Inr found)
    show ?thesis
    proof (cases found)
      case (Some rec)
      with Inr have "ok_stored rec" by (auto dest: readStored_ok)
      then have "ok_approval (approval rec)" by (simp add: ok_stored_def)
      with run Inr Some ok have "s = rec \<and> w' = ?w \<and> record_actionHash rec = envelope_hash e \<and> approval_hash (approval rec) = approval_hash a"
        by (auto simp: liftp_seqp ret_def throw_def split: if_splits)
      with Inr Some e a ms pre show ?thesis by auto
    next
      case None
      let ?rec = "\<lparr>envelope = e, record_actionHash = envelope_hash e, approval = a, receipts = []\<rparr>"
      from run Inr None ok obtain c where c: "createReceipt ?rec Requested (toISOString ms) (rnd 0) None None None = Inr c"
        and fresh: "\<not> not_after (env_expiresAt e) (toISOString ms)" "verifyApproval e a (toISOString ms) True = Inr ()"
        and wr: "seqp (writeStoredAction (env_actionId e) (?rec\<lparr>receipts := [c]\<rparr>)) (\<lambda>_. ret (?rec\<lparr>receipts := [c]\<rparr>)) ?w = (Inr s, w')"
        by (auto simp: liftp_seqp throw_def Let_def split: if_splits sum.splits)
      from wr have s: "s = ?rec\<lparr>receipts := [c]\<rparr>" by (auto simp: seqp_eq_Inr ret_def)
      from wr obtain w1 where "writeStoredAction (env_actionId e) (?rec\<lparr>receipts := [c]\<rparr>) ?w = (Inr (), w1)" "w' = w1"
        by (auto simp: seqp_eq_Inr ret_def)
      with writeStoredAction_result have "ok_stored s" "w' = ?w\<lparr>action_files := (action_files ?w)(env_actionId e := written s)\<rparr>"
        unfolding s by (metis Inl_Inr_False)+
      moreover from fresh(2) ok have "current_approval a (toISOString ms)" by (simp add: verifyApproval_eq)
      moreover note readStored_None [OF Inr [unfolded None]] createReceipt_status [OF c]
      ultimately show ?thesis using s fresh(1) e a ms pre by auto
    qed
  qed
qed

text \<open>Submitting puts the request on file or finds it there.  When \<open>submit\<close> returns a record,
  then either there was no file and there is now one with exactly the validated envelope and
  approval and the receipt of the request, neither of them expired; or the record was on file
  under the same action hash and approval hash and no file changed.  Nothing is executed.\<close>

theorem submit_puts_on_file:
  assumes "submit gw clk rnd j p policy w = (Inr s, w')"
  shows "\<exists>e a ms. validateActionEnvelope j = Inr e \<and> validateActionApproval p = Inr a \<and> clk 0 = Some ms \<and>
    allowed policy \<and> check_version policy = int (policy_version e) \<and> check_hash policy = policy_hash e \<and> executed w' = executed w \<and>
    ((readStored (action_files w (env_actionId e)) False = Inr (Some s) \<and> action_files w' = action_files w \<and>
        record_actionHash s = envelope_hash e \<and> approval_hash (approval s) = approval_hash a) \<or>
     (action_files w (env_actionId e) = NoFile \<and> ok_stored s \<and> envelope s = e \<and> approval s = a \<and>
        action_files w' = (action_files w)(env_actionId e := written s) \<and>
        (\<exists>r. receipts s = [r] \<and> receipt_status r = Requested \<and> receipt_timestamp r = toISOString ms) \<and>
        \<not> not_after (env_expiresAt e) (toISOString ms) \<and> current_approval a (toISOString ms)))"
  using submit_Inr [OF assms] by (force simp: verifyPolicy_def res_simps ok_stored_def)

lemma demo_submit:
  "submit demo_gateway demo_clock demo_uuid (enc_envelope demo_envelope) (enc_approval demo_approval) demo_policy (demo_world\<lparr>action_files := \<lambda>_. NoFile\<rparr>) =
     (Inr demo_stored, demo_world\<lparr>action_files := (\<lambda>_. NoFile)(''act1'' := written demo_stored)\<rparr>)"
proof -
  obtain c where c: "createReceipt demo_request Requested (toISOString 0) ''0'' None None None = Inr c"
    using createReceipt_succeeds [of "''0''" "toISOString 0" None None Requested None demo_request] demo_ids(5) demo_iso by auto
  have s: "demo_request\<lparr>receipts := [c]\<rparr> = demo_stored" by (simp add: demo_stored_def c)
  have v: "verifyApproval demo_envelope demo_approval (toISOString 0) True = Inr ()"
    using demo_envelope_ok demo_approval_ok by (simp add: verifyApproval_eq)
  have n: "not_after (env_expiresAt demo_envelope) (toISOString 0) = False" "env_actionId demo_envelope = ''act1''"
    "approvedBy demo_approval \<noteq> ''approval-inbox''" "policy_hash demo_envelope = replicate 64 CHR ''a''" "policy_version demo_envelope = 1"
    by (simp_all add: demo_envelope_def demo_approval_def demo_times)
  have w: "writeStoredAction ''act1'' demo_stored u = (Inr (), u\<lparr>action_files := (action_files u)(''act1'' := written demo_stored)\<rparr>)"
    for u :: "unit gateway_world"
    using validateStoredAction_enc [OF demo_stored_ok(1)] by (simp add: writeStoredAction_def liftp_seqp modifyp_def written_def)
  show ?thesis
    using demo_envelope_ok demo_approval_ok(1) v n w c s
    by (simp add: submit_def liftp_seqp verifierCall_run readStoredAction_run demo_gateway_def demo_clock_def demo_uuid_def isoNow_def
        requireApprovalInboxVerification_def verifyPolicy_def demo_policy_def readStored_def demo_request_def Let_def ret_def)
qed

theorem submit_puts_on_file_witness:
  "\<exists>w'. submit demo_gateway demo_clock demo_uuid (enc_envelope demo_envelope) (enc_approval demo_approval) demo_policy
      (demo_world\<lparr>action_files := \<lambda>_. NoFile\<rparr>) = (Inr demo_stored, w') \<and> executed w' = [] \<and>
     (\<exists>r. receipts demo_stored = [r] \<and> receipt_status r = Requested)"
  using submit_puts_on_file [OF demo_submit] demo_submit demo_envelope_ok by (auto simp: demo_world_parts readStored_def)

section \<open>A verified execution is final\<close>

text \<open>A verified execution is answered from the file.  When the record of an action has a verified
  receipt, a cleared call of \<open>execute\<close> returns the last such receipt and changes no file:
  nothing is planned, admitted, executed or verified again, even when the approval has expired.\<close>

theorem verified_execution_is_final:
  assumes "readStored (action_files w (env_actionId (envelope rec))) True = Inr (Some rec)"
    and "clk 0 = Some ms" and "cleared gw j identity policy (outside w) rec (toISOString ms)"
    and "gw_verifier gw (envelope rec) (approval rec) Execute_phase (outside w) = (Inr v, x)"
    and "findLatestReceipt (receipts rec) Verified = Some q"
  shows "execute gw clk rnd j identity policy w = (Inr q, w\<lparr>outside := x\<rparr>)"
proof -
  note ok = readStored_ok [OF assms(1)]
  have "ok_envelope (envelope rec)" "binds (envelope rec) (approval rec)" using ok by (auto simp: ok_stored_def)
  with assms(1-4) ok have "execute gw clk rnd j identity policy w = proceed gw clk rnd rec (toISOString ms) (w\<lparr>outside := x\<rparr>)"
    by (auto simp: execute_def [folded proceed_def] cleared_def liftp_seqp readStoredAction_run verifierCall_run isoNow_def
        requireApprovalInboxVerification_def canonicalize_enc ok_stored_def verifyApproval_lax verifyPolicy_def throwIf_def)
  with assms(5) show ?thesis by (simp add: proceed_def ret_def)
qed

definition demo_result :: ReceiptResult where
  "demo_result = \<lparr>res_worldId = ''prod'', subscriptionId = ''op1'', syntheticReceiptId = ''k1''\<rparr>"

definition demo_proof :: ActionExecutionReceipt where
  "demo_proof = projr (createReceipt demo_stored Verified (toISOString 0) ''0'' (Some ''op1'') (Some demo_result) None)"

definition demo_verified :: StoredAction where
  "demo_verified = demo_stored\<lparr>receipts := receipts demo_stored @ [demo_proof]\<rparr>"

lemma demo_verified_ok: "ok_stored demo_verified" "envelope demo_verified = demo_envelope" "approval demo_verified = demo_approval"
  "findLatestReceipt (receipts demo_verified) Verified = Some demo_proof"
proof -
  obtain q where q: "createReceipt demo_stored Verified (toISOString 0) ''0'' (Some ''op1'') (Some demo_result) None = Inr q"
    "receipt_status q = Verified" "ok_receipt (env_actionId (envelope demo_stored)) (record_actionHash demo_stored)
      (if receipts demo_stored = [] then receiptGenesisHash (record_actionHash demo_stored) else receiptHash (last (receipts demo_stored))) q"
    using createReceipt_succeeds [of "''0''" "toISOString 0" "Some ''op1''" "Some demo_result" Verified None demo_stored] demo_ids(5) demo_iso
    by (auto simp: demo_result_def ok_result_def demo_idents)
  then have p: "demo_proof = q" by (simp add: demo_proof_def)
  show "ok_stored demo_verified"
    using demo_stored_ok(1,4) q p by (auto simp: ok_stored_def demo_verified_def receipt_chain_append MAX_RECEIPTS_def)
  show "envelope demo_verified = demo_envelope" "approval demo_verified = demo_approval"
    by (simp_all add: demo_verified_def demo_stored_ok)
  show "findLatestReceipt (receipts demo_verified) Verified = Some demo_proof"
    using q(2) p by (simp add: findLatestReceipt_def demo_verified_def)
qed

theorem verified_execution_is_final_witness:
  "execute demo_gateway demo_clock demo_uuid (enc_envelope demo_envelope) demo_identity demo_policy
     (demo_world\<lparr>action_files := \<lambda>_. Regular (Some (enc_stored demo_verified)) 3000\<rparr>) =
   (Inr demo_proof, demo_world\<lparr>action_files := \<lambda>_. Regular (Some (enc_stored demo_verified)) 3000\<rparr>)"
proof -
  let ?w = "demo_world\<lparr>action_files := \<lambda>_. Regular (Some (enc_stored demo_verified)) 3000\<rparr>"
  have "readStored (action_files ?w (env_actionId (envelope demo_verified))) True = Inr (Some demo_verified)"
    using validateStoredAction_enc [OF demo_verified_ok(1)] by (simp add: readStored_def MAX_ACTION_BYTES_def)
  moreover have "cleared demo_gateway (enc_envelope demo_envelope) demo_identity demo_policy (outside ?w) demo_verified (toISOString 0)"
    using demo_cleared by (simp add: cleared_def demo_verified_ok demo_stored_ok)
  moreover have "gw_verifier demo_gateway (envelope demo_verified) (approval demo_verified) Execute_phase (outside ?w) = (Inr None, ())"
    by (simp add: demo_gateway_def)
  ultimately show ?thesis
    using verified_execution_is_final [of ?w demo_verified demo_clock 0 demo_gateway "enc_envelope demo_envelope" demo_identity demo_policy
        None "()" demo_proof demo_uuid] demo_verified_ok(4)
    by (simp add: demo_clock_def demo_world_def)
qed

section \<open>Signatures\<close>

lemma validateUnsigned_ok:
  assumes "validateUnsignedActionApproval j = Inr a"
  shows "ok_approval a"
  using assms by (auto simp: validateUnsignedActionApproval_def res_simps dest: validateActionApproval_ok)

lemma unsigned_text_total: "\<exists>t. unsigned_text a = Inr t"
  by (simp add: unsigned_text_def canonicalJson_def unsigned_fields_def)

text \<open>What is signed verifies.  An approval signed under a key id, for an action whose hash it
  names, is accepted by the verifier that trusts the matching public key, provided the signatures
  have the shape of an Ed25519 signature and check against what was signed; and it is accepted for
  no action with another hash.\<close>

theorem signed_approval_verifies:
  assumes "createEd25519ActionApprovalSigner key sign value = Inr a" and "keys key = Some k"
    and "\<And>t. length (sign t) = 86 \<and> list_all c_wdash (sign t)" and "\<And>t. checkSignature k t (sign t)"
    and "ok_envelope e"
  shows "createEd25519ActionApprovalVerifier keys checkSignature e a ph x =
    (if approval_actionHash a = envelope_hash e then Inr None else Inl (AGE ''Action approval authenticity could not be verified.''), x)"
proof -
  from assms(1) obtain u t where u: "validateUnsignedActionApproval value = Inr u" and key: "ok_ident key"
    and t: "unsigned_text u = Inr t" and a: "a = u\<lparr>keyId := key, signature := sign t\<rparr>"
    by (auto simp: createEd25519ActionApprovalSigner_def res_simps a_identifier_eq)
  have "ok_approval a" using validateUnsigned_ok [OF u] key assms(3) by (simp add: a ok_approval_def)
  moreover have "unsigned_text a = Inr t" using t by (simp add: a unsigned_text_def unsigned_fields_def)
  ultimately show ?thesis
    using assms(2,4,5) by (simp add: createEd25519ActionApprovalVerifier_def a)
qed

lemma demo_validation_key: "ok_ident ''validation-key''"
  by (rule ok_ident_unmarked; (unfold IDENTIFIER_iff)?; code_simp)

theorem signed_approval_verifies_witness:
  "\<exists>a. createEd25519ActionApprovalSigner ''op1'' (\<lambda>t. replicate 86 CHR ''A'') (JObj (unsigned_fields demo_approval)) = Inr a \<and>
     createEd25519ActionApprovalVerifier [''op1'' \<mapsto> ()] (\<lambda>k t s. s = replicate 86 CHR ''A'') demo_envelope a Submit_phase () = (Inr None, ())"
proof -
  let ?sign = "\<lambda>t :: string. replicate 86 CHR ''A''"
  obtain t where t: "unsigned_text demo_approval = Inr t" using unsigned_text_total by blast
  have sig: "signature demo_approval = replicate 86 CHR ''A''" "keyId demo_approval = ''op1''" by (simp_all add: demo_approval_def)
  have "ok_approval (demo_approval\<lparr>keyId := ''validation-key''\<rparr>)"
    using demo_approval_ok(1) demo_validation_key by (simp add: ok_approval_def)
  then have "validateUnsignedActionApproval (JObj (unsigned_fields demo_approval)) = Inr (demo_approval\<lparr>keyId := ''validation-key''\<rparr>)"
    using validateActionApproval_enc [of "demo_approval\<lparr>keyId := ''validation-key''\<rparr>"] sig
    by (simp add: validateUnsignedActionApproval_def unsigned_fields_def UNSIGNED_KEYS_def enc_approval_def)
  then have s: "createEd25519ActionApprovalSigner ''op1'' ?sign (JObj (unsigned_fields demo_approval)) = Inr demo_approval"
    using t sig by (simp add: createEd25519ActionApprovalSigner_def demo_idents unsigned_text_def unsigned_fields_def)
  have "createEd25519ActionApprovalVerifier [''op1'' \<mapsto> ()] (\<lambda>k t s. s = replicate 86 CHR ''A'') demo_envelope demo_approval Submit_phase () =
      (if approval_actionHash demo_approval = envelope_hash demo_envelope then Inr None
       else Inl (AGE ''Action approval authenticity could not be verified.''), ())"
    by (rule signed_approval_verifies [OF s, where k = "()"]) (simp_all add: demo_signature demo_envelope_ok)
  moreover have "approval_actionHash demo_approval = envelope_hash demo_envelope" by (simp add: demo_approval_def)
  ultimately show ?thesis using s by (intro exI [of _ demo_approval]) simp
qed

end
