(* ===== verification/Trust_Types.thy ===== *)
theory Trust_Types
  imports Safety_Shape Secrets_Plain
begin

text \<open>
  The data of the trust ladder (\<open>src/trust/trustLadder.ts\<close>): levels, capabilities,
  promotion policies and evidence, the state of a target, the audit and the store, with the JSON
  value of each.  The provider and the environment of a target can only have one value and
  appear in the JSON values, not in the record.
\<close>

section \<open>Limits and errors\<close>

datatype trust_error = TrustLadderError string | OwnerVerifierError string

abbreviation TLE :: "string \<Rightarrow> trust_error" where "TLE \<equiv> TrustLadderError"

definition TRUST_SCHEMA_VERSION :: nat where "TRUST_SCHEMA_VERSION = 1"
definition TRUST_MAX_STORE_BYTES :: nat where "TRUST_MAX_STORE_BYTES = 1024 * 1024"
definition MAX_TARGETS :: nat where "MAX_TARGETS = 1000"
definition TRUST_MAX_AUDIT :: nat where "TRUST_MAX_AUDIT = 10000"
definition MAX_EVALS :: nat where "MAX_EVALS = 100"
definition MAX_FRESHNESS_MS :: nat where "MAX_FRESHNESS_MS = 30 * 24 * 60 * 60 * 1000"
definition MILLION :: nat where "MILLION = 1000000"

section \<open>Records\<close>

datatype TrustLevel = Simulate | Shadow | Dry_run | Approve | Bounded_auto | Trusted

definition TRUST_LEVELS :: "TrustLevel list" where
  "TRUST_LEVELS = [Simulate, Shadow, Dry_run, Approve, Bounded_auto, Trusted]"

datatype TrustCapabilityStatus = Supported | Unsupported

record TrustTarget =
  tenantId :: string
  resourceId :: string

record TrustLevelCapability =
  cap_level :: TrustLevel
  cap_status :: TrustCapabilityStatus
  requiresActualContext :: "bool option"
  requiresOfficialProviderSemantics :: "bool option"
  requiresApproval :: "bool option"
  requiresCanary :: "bool option"
  requiresOutcomeComparison :: "bool option"
  cap_reason :: "string option"

datatype ViolationResponse = Demote_to_approve | Open_circuit_breaker

record TrustPromotionPolicy =
  tp_id :: string
  ownerPrincipalId :: string
  minimumRuns :: nat
  requiredEvalIds :: "string list"
  maxViolationRateBps :: nat
  maxErrorRateBps :: nat
  evidenceFreshnessMs :: nat
  canary_tenantIds :: "string list"
  canary_resourceIds :: "string list"
  percentageBps :: nat
  maxViolations :: nat
  maxErrors :: nat
  violationResponse :: ViolationResponse

record TrustEval =
  eval_id :: string
  eval_passed :: bool
  eval_completedAt :: string

record TrustPromotionEvidence =
  runCount :: nat
  ev_violations :: nat
  ev_errors :: nat
  evals :: "TrustEval list"
  ev_observedAt :: string

record TrustOwner =
  owner_id :: string
  owner_principalId :: string

record TrustCanaryDecision =
  dec_target :: TrustTarget
  assigned :: bool
  bucket :: nat
  dec_reason :: string

record TrustObservation =
  obs_target :: TrustTarget
  obs_actionHash :: string
  obs_operation :: string
  obs_contextHash :: string

record TrustOutcomeObservation =
  out_target :: TrustTarget
  out_actionHash :: string
  out_outcomeHash :: string
  out_receiptHash :: string

record TrustComparisonEvidence =
  cmp_target :: TrustTarget
  cmp_level :: TrustLevel
  matched :: bool
  predictedHash :: string
  actualHash :: string
  cmp_observedAt :: string

datatype TrustCanaryOutcome = Outcome_success | Outcome_violation | Outcome_error

datatype CircuitBreaker = Breaker_closed | Breaker_open

record TrustTargetState =
  target :: TrustTarget
  level :: TrustLevel
  circuitBreaker :: CircuitBreaker
  observed :: nat
  violations :: nat
  errors :: nat
  updatedAt :: string

record TrustAuditRecord =
  tr_sequence :: nat
  tr_event :: string
  tr_targetKey :: string
  fromLevel :: "TrustLevel option"
  toLevel :: "TrustLevel option"
  tr_reason :: string
  tr_timestamp :: string
  tr_previousHash :: string
  tr_recordHash :: string

record TrustLadderState =
  targets :: "TrustTargetState list"
  tr_auditAnchor :: string
  tr_audit :: "TrustAuditRecord list"

section \<open>The JSON values\<close>

fun level_name :: "TrustLevel \<Rightarrow> string" where
  "level_name Simulate = ''simulate''"
| "level_name Shadow = ''shadow''"
| "level_name Dry_run = ''dry-run''"
| "level_name Approve = ''approve''"
| "level_name Bounded_auto = ''bounded-auto''"
| "level_name Trusted = ''trusted''"

fun status_name :: "TrustCapabilityStatus \<Rightarrow> string" where
  "status_name Supported = ''supported''"
| "status_name Unsupported = ''unsupported''"

fun breaker_name :: "CircuitBreaker \<Rightarrow> string" where
  "breaker_name Breaker_closed = ''closed''"
| "breaker_name Breaker_open = ''open''"

definition target_fields :: "TrustTarget \<Rightarrow> fields" where
  "target_fields t =
     [(''provider'', JStr ''ghostapi-synthetic''), (''environment'', JStr ''synthetic''), (''tenantId'', JStr (tenantId t)),
      (''resourceId'', JStr (resourceId t))]"

definition enc_target :: "TrustTarget \<Rightarrow> json" where
  "enc_target t = JObj (target_fields t)"

definition enc_capability :: "TrustLevelCapability \<Rightarrow> json" where
  "enc_capability c = JObj ([(''level'', JStr (level_name (cap_level c))), (''status'', JStr (status_name (cap_status c))),
     (''externalSideEffects'', JBool False)] @
     opt_prop ''requiresActualContext'' JBool (requiresActualContext c) @
     opt_prop ''requiresOfficialProviderSemantics'' JBool (requiresOfficialProviderSemantics c) @
     opt_prop ''requiresApproval'' JBool (requiresApproval c) @ opt_prop ''requiresCanary'' JBool (requiresCanary c) @
     opt_prop ''requiresOutcomeComparison'' JBool (requiresOutcomeComparison c) @ opt_prop ''reason'' JStr (cap_reason c))"

definition enc_capabilities :: "TrustLevelCapability list \<Rightarrow> json" where
  "enc_capabilities cs = JObj [(''schemaVersion'', JNat 1), (''kind'', JStr ''ghostapi.trust-capabilities''),
     (''provider'', JStr ''ghostapi-synthetic''), (''environment'', JStr ''synthetic''), (''levels'', JArr (map enc_capability cs))]"

definition enc_observation :: "TrustObservation \<Rightarrow> json" where
  "enc_observation v = JObj [(''target'', enc_target (obs_target v)), (''actionHash'', JStr (obs_actionHash v)),
     (''operation'', JStr (obs_operation v)), (''contextHash'', JStr (obs_contextHash v))]"

definition enc_outcome_observation :: "TrustOutcomeObservation \<Rightarrow> json" where
  "enc_outcome_observation v = JObj [(''target'', enc_target (out_target v)), (''actionHash'', JStr (out_actionHash v)),
     (''outcomeHash'', JStr (out_outcomeHash v)), (''executionReceiptHash'', JStr (out_receiptHash v))]"

definition enc_target_state :: "TrustTargetState \<Rightarrow> json" where
  "enc_target_state s = JObj [(''target'', enc_target (target s)), (''level'', JStr (level_name (level s))),
     (''circuitBreaker'', JStr (breaker_name (circuitBreaker s))),
     (''canary'', JObj [(''observed'', JNat (observed s)), (''violations'', JNat (violations s)), (''errors'', JNat (errors s))]),
     (''updatedAt'', JStr (updatedAt s))]"

definition trust_audit_base ::
  "nat \<Rightarrow> string \<Rightarrow> string \<Rightarrow> TrustLevel option \<Rightarrow> TrustLevel option \<Rightarrow> string \<Rightarrow> string \<Rightarrow> string \<Rightarrow> fields" where
  "trust_audit_base sq ev key from to rs ts ph =
     [(''sequence'', JNat sq), (''event'', JStr ev), (''targetKey'', JStr key)] @
     opt_prop ''fromLevel'' (\<lambda>l. JStr (level_name l)) from @ opt_prop ''toLevel'' (\<lambda>l. JStr (level_name l)) to @
     [(''reason'', JStr rs), (''timestamp'', JStr ts), (''previousHash'', JStr ph)]"

definition enc_trust_audit :: "TrustAuditRecord \<Rightarrow> json" where
  "enc_trust_audit r = JObj (trust_audit_base (tr_sequence r) (tr_event r) (tr_targetKey r) (fromLevel r) (toLevel r) (tr_reason r)
     (tr_timestamp r) (tr_previousHash r) @ [(''recordHash'', JStr (tr_recordHash r))])"

definition enc_trust_state :: "TrustLadderState \<Rightarrow> json" where
  "enc_trust_state st = JObj [(''schemaVersion'', JNat 1), (''targets'', JArr (map enc_target_state (targets st))),
     (''auditAnchor'', JStr (tr_auditAnchor st)), (''audit'', JArr (map enc_trust_audit (tr_audit st)))]"

end
