(* ===== verification/Trust_Validate.thy ===== *)
theory Trust_Validate
  imports Trust_Types Action_Leaf
begin

text \<open>
  The validators of \<open>src/trust/trustLadder.ts\<close> in the order of checks of the source.  The leaf
  validators are the shared ones of \<open>Validators\<close> with the error class of this file.
\<close>

section \<open>Leaves\<close>

fun level_of :: "json \<Rightarrow> TrustLevel option" where
  "level_of (JStr s) = List.find (\<lambda>l. level_name l = s) TRUST_LEVELS"
| "level_of _ = None"

definition trustLevel :: "json \<Rightarrow> string \<Rightarrow> (trust_error, TrustLevel) res" where
  "trustLevel value label = fromOption (TLE (label @ '' is invalid.'')) (level_of value)"

definition canaryOutcome :: "json \<Rightarrow> (trust_error, TrustCanaryOutcome) res" where
  "canaryOutcome value =
     (if value = JStr ''success'' then Inr Outcome_success
      else if value = JStr ''violation'' then Inr Outcome_violation
      else if value = JStr ''error'' then Inr Outcome_error
      else Inl (TLE ''Trust canary outcome is invalid.''))"

definition booleanFlag :: "json \<Rightarrow> string \<Rightarrow> (trust_error, bool option) res" where
  "booleanFlag value label =
     (case value of JUndef \<Rightarrow> Inr None | JBool b \<Rightarrow> Inr (Some b) | _ \<Rightarrow> Inl (TLE (label @ '' is invalid.'')))"

definition bps :: "json \<Rightarrow> string \<Rightarrow> (trust_error, nat) res" where
  "bps value label = v_nonNegative TLE label 10000 value"

text \<open>\<open>values.sort()\<close> orders by code units.\<close>

definition identifiers :: "json \<Rightarrow> string \<Rightarrow> nat \<Rightarrow> bool \<Rightarrow> (trust_error, string list) res" where
  "identifiers value label maximum allowEmpty =
     andThen (v_array TLE label maximum value) (\<lambda>vs.
     andThen (mapM (v_identifier TLE label) vs) (\<lambda>ids.
     andThen (throwIf (\<not> allowEmpty \<and> ids = []) (TLE (label @ '' must not be empty.''))) (\<lambda>_.
     andThen (v_unique TLE label ids) (\<lambda>_. Inr (sort ids)))))"

section \<open>Targets and observations\<close>

definition validateTarget :: "json \<Rightarrow> (trust_error, TrustTarget) res" where
  "validateTarget value =
     andThen (v_object TLE ''Trust target is invalid.'' value) (\<lambda>t.
     andThen (v_exactKeys TLE ''Trust target'' [''provider'', ''environment'', ''tenantId'', ''resourceId''] [] t) (\<lambda>_.
     andThen (throwIf (jget t ''provider'' \<noteq> JStr ''ghostapi-synthetic'' \<or> jget t ''environment'' \<noteq> JStr ''synthetic'')
       (TLE ''Local trust preparation accepts synthetic identities only; production identities are unsupported.'')) (\<lambda>_.
     andThen (v_identifier TLE ''Trust target tenant id'' (jget t ''tenantId'')) (\<lambda>tenant.
     andThen (v_identifier TLE ''Trust target resource id'' (jget t ''resourceId'')) (\<lambda>resource.
     Inr \<lparr>tenantId = tenant, resourceId = resource\<rparr>)))))"

definition validateObservation :: "json \<Rightarrow> (trust_error, TrustObservation) res" where
  "validateObservation value =
     andThen (v_object TLE ''Shadow observation is invalid.'' value) (\<lambda>v.
     andThen (v_exactKeys TLE ''Shadow observation'' [''target'', ''actionHash'', ''operation'', ''contextHash''] [] v) (\<lambda>_.
     andThen (validateTarget (jget v ''target'')) (\<lambda>t.
     andThen (v_hash TLE ''Shadow action hash'' (jget v ''actionHash'')) (\<lambda>a.
     andThen (v_identifier TLE ''Shadow operation'' (jget v ''operation'')) (\<lambda>oper.
     andThen (v_hash TLE ''Shadow context hash'' (jget v ''contextHash'')) (\<lambda>c.
     Inr \<lparr>obs_target = t, obs_actionHash = a, obs_operation = oper, obs_contextHash = c\<rparr>))))))"

definition validateOutcomeObservation :: "json \<Rightarrow> (trust_error, TrustOutcomeObservation) res" where
  "validateOutcomeObservation value =
     andThen (v_object TLE ''Bounded outcome observation is invalid.'' value) (\<lambda>v.
     andThen (v_exactKeys TLE ''Bounded outcome observation'' [''target'', ''actionHash'', ''outcomeHash'', ''executionReceiptHash''] [] v) (\<lambda>_.
     andThen (validateTarget (jget v ''target'')) (\<lambda>t.
     andThen (v_hash TLE ''Bounded action hash'' (jget v ''actionHash'')) (\<lambda>a.
     andThen (v_hash TLE ''Bounded outcome hash'' (jget v ''outcomeHash'')) (\<lambda>h.
     andThen (v_hash TLE ''Bounded execution receipt hash'' (jget v ''executionReceiptHash'')) (\<lambda>r.
     Inr \<lparr>out_target = t, out_actionHash = a, out_outcomeHash = h, out_receiptHash = r\<rparr>))))))"

definition validateOwner :: "json \<Rightarrow> (trust_error, TrustOwner) res" where
  "validateOwner value =
     andThen (v_object TLE ''Trust owner identity is invalid.'' value) (\<lambda>w.
     andThen (v_exactKeys TLE ''Trust owner identity'' [''id'', ''principalId''] [] w) (\<lambda>_.
     andThen (v_identifier TLE ''Trust owner id'' (jget w ''id'')) (\<lambda>i.
     andThen (v_identifier TLE ''Trust owner principal id'' (jget w ''principalId'')) (\<lambda>p.
     Inr \<lparr>owner_id = i, owner_principalId = p\<rparr>))))"

section \<open>Capabilities\<close>

definition CAPABILITY_FLAGS :: "string list" where
  "CAPABILITY_FLAGS = [''requiresActualContext'', ''requiresOfficialProviderSemantics'', ''requiresApproval'', ''requiresCanary'',
     ''requiresOutcomeComparison'', ''reason'']"

fun status_of :: "json \<Rightarrow> TrustCapabilityStatus option" where
  "status_of (JStr s) = (if s = ''supported'' then Some Supported else if s = ''unsupported'' then Some Unsupported else None)"
| "status_of _ = None"

definition validateCapability :: "json \<Rightarrow> (trust_error, TrustLevelCapability) res" where
  "validateCapability value =
     andThen (v_object TLE ''Trust level capability is invalid.'' value) (\<lambda>c.
     andThen (v_exactKeys TLE ''Trust level capability'' ([''level'', ''status'', ''externalSideEffects''] @ CAPABILITY_FLAGS) CAPABILITY_FLAGS c) (\<lambda>_.
     andThen (trustLevel (jget c ''level'') ''Trust capability level'') (\<lambda>lv.
     andThen (fromOption (TLE ''Trust capability status is invalid.'') (status_of (jget c ''status''))) (\<lambda>st.
     andThen (throwIf (jget c ''externalSideEffects'' \<noteq> JBool False) (TLE ''Trust capability external side effects are invalid.'')) (\<lambda>_.
     andThen (booleanFlag (jget c ''requiresActualContext'') ''Trust capability flag'') (\<lambda>f1.
     andThen (booleanFlag (jget c ''requiresOfficialProviderSemantics'') ''Trust capability flag'') (\<lambda>f2.
     andThen (booleanFlag (jget c ''requiresApproval'') ''Trust capability flag'') (\<lambda>f3.
     andThen (booleanFlag (jget c ''requiresCanary'') ''Trust capability flag'') (\<lambda>f4.
     andThen (booleanFlag (jget c ''requiresOutcomeComparison'') ''Trust capability flag'') (\<lambda>f5.
     andThen (optionally (v_text TLE ''Trust capability reason'' 200) (jget c ''reason'')) (\<lambda>rs.
     andThen (throwIf (st = Unsupported \<and> rs = None) (TLE ''Unsupported trust capability requires a reason.'')) (\<lambda>_.
     Inr \<lparr>cap_level = lv, cap_status = st, requiresActualContext = f1, requiresOfficialProviderSemantics = f2, requiresApproval = f3,
          requiresCanary = f4, requiresOutcomeComparison = f5, cap_reason = rs\<rparr>))))))))))))"

definition validateCapabilities :: "json \<Rightarrow> (trust_error, TrustLevelCapability list) res" where
  "validateCapabilities value =
     andThen (v_object TLE ''Trust capabilities are invalid.'' value) (\<lambda>c.
     andThen (v_exactKeys TLE ''Trust capabilities'' [''schemaVersion'', ''kind'', ''provider'', ''environment'', ''levels''] [] c) (\<lambda>_.
     andThen (throwIf (jget c ''schemaVersion'' \<noteq> JNat TRUST_SCHEMA_VERSION \<or> jget c ''kind'' \<noteq> JStr ''ghostapi.trust-capabilities'' \<or>
         jget c ''provider'' \<noteq> JStr ''ghostapi-synthetic'' \<or> jget c ''environment'' \<noteq> JStr ''synthetic'')
       (TLE ''Only local synthetic trust capabilities are available.'')) (\<lambda>_.
     andThen (v_array TLE ''Trust level capabilities'' (length TRUST_LEVELS) (jget c ''levels'')) (\<lambda>vs.
     andThen (mapM validateCapability vs) (\<lambda>levels.
     andThen (throwIf (map cap_level levels \<noteq> TRUST_LEVELS) (TLE ''Trust capabilities must define every level in stable order.'')) (\<lambda>_.
     Inr levels))))))"

section \<open>Policies and evidence\<close>

definition POLICY_FIELDS :: "string list" where
  "POLICY_FIELDS = [''schemaVersion'', ''kind'', ''id'', ''ownerPrincipalId'', ''automaticPromotion'', ''minimumRuns'', ''requiredEvalIds'',
     ''maxViolationRateBps'', ''maxErrorRateBps'', ''evidenceFreshnessMs'', ''canary'', ''stopConditions'', ''violationResponse'']"

fun response_of :: "json \<Rightarrow> ViolationResponse option" where
  "response_of (JStr s) =
     (if s = ''demote_to_approve'' then Some Demote_to_approve else if s = ''open_circuit_breaker'' then Some Open_circuit_breaker else None)"
| "response_of _ = None"

definition validatePromotionPolicy :: "json \<Rightarrow> (trust_error, TrustPromotionPolicy) res" where
  "validatePromotionPolicy value =
     andThen (v_object TLE ''Trust promotion policy is invalid.'' value) (\<lambda>p.
     andThen (v_exactKeys TLE ''Trust promotion policy'' POLICY_FIELDS [] p) (\<lambda>_.
     andThen (throwIf (jget p ''schemaVersion'' \<noteq> JNat TRUST_SCHEMA_VERSION \<or> jget p ''kind'' \<noteq> JStr ''ghostapi.trust-promotion-policy'' \<or>
         jget p ''automaticPromotion'' \<noteq> JBool False) (TLE ''Automatic trust promotion is disabled.'')) (\<lambda>_.
     andThen (v_object TLE ''Trust canary scope is invalid.'' (jget p ''canary'')) (\<lambda>canary.
     andThen (v_exactKeys TLE ''Trust canary scope'' [''tenantIds'', ''resourceIds'', ''percentageBps''] [] canary) (\<lambda>_.
     andThen (v_object TLE ''Trust canary stop conditions are invalid.'' (jget p ''stopConditions'')) (\<lambda>stops.
     andThen (v_exactKeys TLE ''Trust canary stop conditions'' [''maxViolations'', ''maxErrors''] [] stops) (\<lambda>_.
     andThen (fromOption (TLE ''Trust violation response is invalid.'') (response_of (jget p ''violationResponse''))) (\<lambda>response.
     andThen (v_identifier TLE ''Trust policy id'' (jget p ''id'')) (\<lambda>i.
     andThen (v_identifier TLE ''Trust owner principal id'' (jget p ''ownerPrincipalId'')) (\<lambda>owner.
     andThen (v_positive TLE ''Trust minimum runs'' MILLION (jget p ''minimumRuns'')) (\<lambda>runs.
     andThen (identifiers (jget p ''requiredEvalIds'') ''Trust required eval ids'' MAX_EVALS False) (\<lambda>evs.
     andThen (bps (jget p ''maxViolationRateBps'') ''Trust maximum violation rate'') (\<lambda>vrate.
     andThen (bps (jget p ''maxErrorRateBps'') ''Trust maximum error rate'') (\<lambda>erate.
     andThen (v_positive TLE ''Trust evidence freshness'' MAX_FRESHNESS_MS (jget p ''evidenceFreshnessMs'')) (\<lambda>fresh.
     andThen (identifiers (jget canary ''tenantIds'') ''Trust canary tenant ids'' MAX_TARGETS True) (\<lambda>tenants.
     andThen (identifiers (jget canary ''resourceIds'') ''Trust canary resource ids'' MAX_TARGETS True) (\<lambda>resources.
     andThen (bps (jget canary ''percentageBps'') ''Trust canary percentage'') (\<lambda>percent.
     andThen (v_nonNegative TLE ''Trust canary maximum violations'' MILLION (jget stops ''maxViolations'')) (\<lambda>mv.
     andThen (v_nonNegative TLE ''Trust canary maximum errors'' MILLION (jget stops ''maxErrors'')) (\<lambda>me.
     Inr \<lparr>tp_id = i, ownerPrincipalId = owner, minimumRuns = runs, requiredEvalIds = evs, maxViolationRateBps = vrate,
          maxErrorRateBps = erate, evidenceFreshnessMs = fresh, canary_tenantIds = tenants, canary_resourceIds = resources,
          percentageBps = percent, maxViolations = mv, maxErrors = me, violationResponse = response\<rparr>))))))))))))))))))))"

definition validateEval :: "json \<Rightarrow> (trust_error, TrustEval) res" where
  "validateEval value =
     andThen (v_object TLE ''Trust evidence eval is invalid.'' value) (\<lambda>e.
     andThen (v_exactKeys TLE ''Trust evidence eval'' [''id'', ''status'', ''completedAt''] [] e) (\<lambda>_.
     andThen (throwIf (jget e ''status'' \<noteq> JStr ''passed'' \<and> jget e ''status'' \<noteq> JStr ''failed'') (TLE ''Trust evidence eval status is invalid.'')) (\<lambda>_.
     andThen (v_identifier TLE ''Trust evidence eval id'' (jget e ''id'')) (\<lambda>i.
     andThen (v_timestamp TLE ''Trust evidence eval completion'' (jget e ''completedAt'')) (\<lambda>t.
     Inr \<lparr>eval_id = i, eval_passed = (jget e ''status'' = JStr ''passed''), eval_completedAt = t\<rparr>)))))"

definition validateEvidence :: "json \<Rightarrow> (trust_error, TrustPromotionEvidence) res" where
  "validateEvidence value =
     andThen (v_object TLE ''Trust promotion evidence is invalid.'' value) (\<lambda>e.
     andThen (v_exactKeys TLE ''Trust promotion evidence'' [''runCount'', ''violations'', ''errors'', ''evals'', ''observedAt''] [] e) (\<lambda>_.
     andThen (v_nonNegative TLE ''Trust evidence run count'' MILLION (jget e ''runCount'')) (\<lambda>runs.
     andThen (v_nonNegative TLE ''Trust evidence violation count'' runs (jget e ''violations'')) (\<lambda>vs.
     andThen (v_nonNegative TLE ''Trust evidence error count'' runs (jget e ''errors'')) (\<lambda>es.
     andThen (v_array TLE ''Trust evidence evals'' MAX_EVALS (jget e ''evals'')) (\<lambda>xs.
     andThen (mapM validateEval xs) (\<lambda>evs.
     andThen (v_unique TLE ''Trust evidence eval ids'' (map eval_id evs)) (\<lambda>_.
     andThen (v_timestamp TLE ''Trust evidence observation time'' (jget e ''observedAt'')) (\<lambda>t.
     Inr \<lparr>runCount = runs, ev_violations = vs, ev_errors = es, evals = evs, ev_observedAt = t\<rparr>)))))))))"

section \<open>The store\<close>

definition trust_hash :: "fields \<Rightarrow> (trust_error, string) res" where
  "trust_hash ob = andThen (fromOption (TLE ''Trust data must be JSON.'') (canonical (JObj ob))) (\<lambda>t. Inr (sha256 t))"

text \<open>The fields of a target are strings, so its canonical text exists.\<close>

definition targetKey :: "TrustTarget \<Rightarrow> string" where
  "targetKey t = ''target-'' @ take 32 (sha256 (the (canonical (enc_target t))))"

fun breaker_of :: "json \<Rightarrow> CircuitBreaker option" where
  "breaker_of (JStr s) = (if s = ''closed'' then Some Breaker_closed else if s = ''open'' then Some Breaker_open else None)"
| "breaker_of _ = None"

definition validateTargetState :: "json \<Rightarrow> (trust_error, TrustTargetState) res" where
  "validateTargetState value =
     andThen (v_object TLE ''Trust target state is invalid.'' value) (\<lambda>s.
     andThen (v_exactKeys TLE ''Trust target state'' [''target'', ''level'', ''circuitBreaker'', ''canary'', ''updatedAt''] [] s) (\<lambda>_.
     andThen (v_object TLE ''Trust target canary state is invalid.'' (jget s ''canary'')) (\<lambda>c.
     andThen (v_exactKeys TLE ''Trust target canary state'' [''observed'', ''violations'', ''errors''] [] c) (\<lambda>_.
     andThen (v_nonNegative TLE ''Trust canary observed count'' MILLION (jget c ''observed'')) (\<lambda>n.
     andThen (v_nonNegative TLE ''Trust canary violation count'' n (jget c ''violations'')) (\<lambda>vs.
     andThen (v_nonNegative TLE ''Trust canary error count'' n (jget c ''errors'')) (\<lambda>es.
     andThen (fromOption (TLE ''Trust circuit breaker state is invalid.'') (breaker_of (jget s ''circuitBreaker''))) (\<lambda>brk.
     andThen (validateTarget (jget s ''target'')) (\<lambda>t.
     andThen (trustLevel (jget s ''level'') ''Trust target level'') (\<lambda>lv.
     andThen (v_timestamp TLE ''Trust target update time'' (jget s ''updatedAt'')) (\<lambda>u.
     Inr \<lparr>target = t, level = lv, circuitBreaker = brk, observed = n, violations = vs, errors = es, updatedAt = u\<rparr>)))))))))))"

definition TRUST_AUDIT_KEYS :: "string list" where
  "TRUST_AUDIT_KEYS = [''sequence'', ''event'', ''targetKey'', ''fromLevel'', ''toLevel'', ''reason'', ''timestamp'', ''previousHash'', ''recordHash'']"

definition validateTrustAudit :: "json \<Rightarrow> (trust_error, TrustAuditRecord) res" where
  "validateTrustAudit value =
     andThen (v_object TLE ''Trust audit record is invalid.'' value) (\<lambda>r.
     andThen (v_exactKeys TLE ''Trust audit record'' TRUST_AUDIT_KEYS [''fromLevel'', ''toLevel''] r) (\<lambda>_.
     andThen (v_positive TLE ''Trust audit sequence'' TRUST_MAX_AUDIT (jget r ''sequence'')) (\<lambda>sq.
     andThen (v_text TLE ''Trust audit event'' 80 (jget r ''event'')) (\<lambda>ev.
     andThen (v_identifier TLE ''Trust audit target key'' (jget r ''targetKey'')) (\<lambda>key.
     andThen (optionally (\<lambda>v. trustLevel v ''Trust audit from level'') (jget r ''fromLevel'')) (\<lambda>from.
     andThen (optionally (\<lambda>v. trustLevel v ''Trust audit to level'') (jget r ''toLevel'')) (\<lambda>to.
     andThen (v_text TLE ''Trust audit reason'' 200 (jget r ''reason'')) (\<lambda>rs.
     andThen (v_timestamp TLE ''Trust audit timestamp'' (jget r ''timestamp'')) (\<lambda>ts.
     andThen (v_hash TLE ''Trust audit previous hash'' (jget r ''previousHash'')) (\<lambda>ph.
     andThen (v_hash TLE ''Trust audit record hash'' (jget r ''recordHash'')) (\<lambda>rh.
     andThen (trust_hash (trust_audit_base sq ev key from to rs ts ph)) (\<lambda>h.
     if rh \<noteq> h then Inl (TLE ''Trust audit record hash is invalid.'')
     else Inr \<lparr>tr_sequence = sq, tr_event = ev, tr_targetKey = key, fromLevel = from, toLevel = to, tr_reason = rs,
            tr_timestamp = ts, tr_previousHash = ph, tr_recordHash = rh\<rparr>))))))))))))"

fun trust_chain :: "string \<Rightarrow> nat \<Rightarrow> TrustAuditRecord list \<Rightarrow> bool" where
  "trust_chain previous n [] = True"
| "trust_chain previous n (r # rs) = (tr_sequence r = n \<and> tr_previousHash r = previous \<and> trust_chain (tr_recordHash r) (n + 1) rs)"

definition validateTrustAuditChain :: "string \<Rightarrow> TrustAuditRecord list \<Rightarrow> (trust_error, unit) res" where
  "validateTrustAuditChain anchor records = throwIf (\<not> trust_chain anchor 1 records) (TLE ''Trust audit chain is invalid.'')"

definition validateTrustState :: "json \<Rightarrow> (trust_error, TrustLadderState) res" where
  "validateTrustState value =
     andThen (v_object TLE ''Trust ladder store must be an object.'' value) (\<lambda>s.
     andThen (v_exactKeys TLE ''Trust ladder store'' [''schemaVersion'', ''targets'', ''auditAnchor'', ''audit''] [] s) (\<lambda>_.
     andThen (throwIf (jget s ''schemaVersion'' \<noteq> JNat TRUST_SCHEMA_VERSION) (TLE ''Unsupported trust ladder schema version.'')) (\<lambda>_.
     andThen (v_array TLE ''Trust targets'' MAX_TARGETS (jget s ''targets'')) (\<lambda>vs.
     andThen (mapM validateTargetState vs) (\<lambda>ts.
     andThen (v_unique TLE ''Trust targets'' (map (\<lambda>t. targetKey (target t)) ts)) (\<lambda>_.
     andThen (v_hash TLE ''Trust audit anchor'' (jget s ''auditAnchor'')) (\<lambda>anchor.
     andThen (v_array TLE ''Trust audit'' TRUST_MAX_AUDIT (jget s ''audit'')) (\<lambda>rs.
     andThen (mapM validateTrustAudit rs) (\<lambda>records.
     andThen (validateTrustAuditChain anchor records) (\<lambda>_.
     Inr \<lparr>targets = ts, tr_auditAnchor = anchor, tr_audit = records\<rparr>))))))))))"

definition emptyTrustState :: TrustLadderState where
  "emptyTrustState = \<lparr>targets = [], tr_auditAnchor = sha256 ''ghostapi.trust.audit.v1'', tr_audit = []\<rparr>"

definition trust_store :: "(TrustLadderState, trust_error) store" where
  "trust_store =
     \<lparr>emptyStore = emptyTrustState, validateStore = validateTrustState, encodeStore = enc_trust_state,
      maxStoreBytes = TRUST_MAX_STORE_BYTES,
      notRegularError = TLE ''Trust ladder store must be a regular non-symlink file.'',
      sizeError = TLE ''Trust ladder store exceeds its size limit.'',
      notJsonError = TLE ''Trust ladder store is not valid JSON.'',
      clockError = TLE ''Trust ladder clock is invalid.''\<rparr>"

end
