(* ===== verification/Trust_Shape.thy ===== *)
theory Trust_Shape
  imports Trust_Validate
begin

text \<open>
  The shapes the trust ladder's validators guarantee, the round trip of the store's JSON value,
  and the interpretation of \<open>validated_store\<close>.
\<close>

section \<open>Shapes\<close>

definition ok_target :: "TrustTarget \<Rightarrow> bool" where
  "ok_target t = (ok_ident (tenantId t) \<and> ok_ident (resourceId t))"

definition ok_target_state :: "TrustTargetState \<Rightarrow> bool" where
  "ok_target_state s =
     (ok_target (target s) \<and> observed s \<le> MILLION \<and> violations s \<le> observed s \<and> errors s \<le> observed s \<and> is_iso (updatedAt s))"

definition trust_audit_hash :: "TrustAuditRecord \<Rightarrow> (trust_error, string) res" where
  "trust_audit_hash r = trust_hash (trust_audit_base (tr_sequence r) (tr_event r) (tr_targetKey r) (fromLevel r) (toLevel r) (tr_reason r)
     (tr_timestamp r) (tr_previousHash r))"

definition ok_trust_audit :: "TrustAuditRecord \<Rightarrow> bool" where
  "ok_trust_audit r =
     (1 \<le> tr_sequence r \<and> tr_sequence r \<le> TRUST_MAX_AUDIT \<and> ok_text 80 (tr_event r) \<and> ok_ident (tr_targetKey r) \<and>
      ok_text 200 (tr_reason r) \<and> is_iso (tr_timestamp r) \<and> ok_hash (tr_previousHash r) \<and> trust_audit_hash r = Inr (tr_recordHash r))"

definition trust_inv :: "TrustLadderState \<Rightarrow> bool" where
  "trust_inv st =
     (length (targets st) \<le> MAX_TARGETS \<and> list_all ok_target_state (targets st) \<and>
        distinct (map (\<lambda>t. targetKey (target t)) (targets st)) \<and>
      ok_hash (tr_auditAnchor st) \<and> length (tr_audit st) \<le> TRUST_MAX_AUDIT \<and> list_all ok_trust_audit (tr_audit st) \<and>
      trust_chain (tr_auditAnchor st) 1 (tr_audit st))"

section \<open>What the validators return has the shape\<close>

lemma level_of_eq: "level_of j = Some l \<longleftrightarrow> j = JStr (level_name l)"
proof
  assume "level_of j = Some l"
  then show "j = JStr (level_name l)" by (cases j) (auto dest: find_SomeD)
next
  assume "j = JStr (level_name l)"
  then show "level_of j = Some l" by (cases l) (simp_all add: TRUST_LEVELS_def)
qed

lemma level_name_inj [simp]: "level_name l = level_name l' \<longleftrightarrow> l = l'"
  by (cases l; cases l') simp_all

lemma breaker_name_inj [simp]: "breaker_name b = breaker_name b' \<longleftrightarrow> b = b'"
  by (cases b; cases b') simp_all

lemma enc_target_defined [simp]: "enc_target t \<noteq> JUndef"
  by (simp add: enc_target_def)

lemma trustLevel_eq [validator_simps]: "trustLevel j label = Inr l \<longleftrightarrow> j = JStr (level_name l)"
  by (simp add: trustLevel_def fromOption_eq level_of_eq)

lemma breaker_of_eq: "breaker_of j = Some b \<longleftrightarrow> j = JStr (breaker_name b)"
  by (cases j; cases b) auto

lemma status_of_eq: "status_of j = Some s \<longleftrightarrow> j = JStr (status_name s)"
  by (cases j; cases s) auto

lemma validateTarget_ok: "validateTarget j = Inr t \<Longrightarrow> ok_target t"
  unfolding validateTarget_def by (elim andThenE) (clarsimp simp: ok_target_def validator_simps throwIf_eq_Inr)

lemma validateTarget_enc [simp]: "ok_target t \<Longrightarrow> validateTarget (enc_target t) = Inr t"
  by (cases t) (simp add: validateTarget_def enc_target_def target_fields_def ok_target_def)

lemma validateTarget_same: "validateTarget (enc_target t) = Inr t' \<Longrightarrow> t' = t"
  unfolding validateTarget_def enc_target_def target_fields_def
  by (elim andThenE) (cases t, clarsimp simp: validator_simps)

lemma validateTargetState_ok: "validateTargetState j = Inr s \<Longrightarrow> ok_target_state s"
  unfolding validateTargetState_def
  by (elim andThenE) (clarsimp simp: ok_target_state_def validator_simps fromOption_eq dest!: validateTarget_ok)

lemma validateTargetState_enc: "ok_target_state s \<Longrightarrow> validateTargetState (enc_target_state s) = Inr s"
  by (cases s; cases "circuitBreaker s")
    (simp_all add: validateTargetState_def enc_target_state_def ok_target_state_def validator_simps fromOption_def trustLevel_def
      level_of_eq [THEN iffD2] del: level_of.simps)

lemma validateTargetState_same: "validateTargetState (enc_target_state s) = Inr s' \<Longrightarrow> s' = s"
  unfolding validateTargetState_def enc_target_state_def
  apply (elim andThenE)
  apply (cases s)
  apply (clarsimp simp: validator_simps breaker_of_eq simp del: breaker_of.simps)
  apply (drule validateTarget_same, simp)
  done

section \<open>The audit\<close>

lemma validateTrustAudit_ok: "validateTrustAudit j = Inr r \<Longrightarrow> ok_trust_audit r"
  unfolding validateTrustAudit_def
  apply (elim andThenE)
  apply (clarsimp simp: ok_trust_audit_def trust_audit_hash_def v_object_eq v_positive_eq v_identifier_eq v_timestamp_eq v_hash_eq split: if_splits)
  apply (simp add: v_text_ok)
  done

lemma trust_audit_defined:
  "\<exists>t. canonical (JObj (trust_audit_base sq ev key fl dl rs ts ph)) = Some t"
  by (cases fl; cases dl) (simp_all add: trust_audit_base_def opt_prop_def)

lemma trust_hash_total: "\<exists>h. trust_hash (trust_audit_base sq ev key fl dl rs ts ph) = Inr h \<and> ok_hash h"
  using trust_audit_defined [of sq ev key fl dl rs ts ph] by (auto simp: trust_hash_def)

lemma optional_level [simp]:
  "optionally (\<lambda>v. trustLevel v label) (jget (opt_prop k (\<lambda>l. JStr (level_name l)) l) k) = Inr l"
  by (cases l) (simp_all add: opt_prop_def optionally_def validator_simps trustLevel_def level_of_eq [THEN iffD2] del: level_of.simps)

lemma validateTrustAudit_enc:
  assumes "ok_trust_audit r"
  shows "validateTrustAudit (enc_trust_audit r) = Inr r"
proof -
  have h: "trust_hash (trust_audit_base (tr_sequence r) (tr_event r) (tr_targetKey r) (fromLevel r) (toLevel r) (tr_reason r)
     (tr_timestamp r) (tr_previousHash r)) = Inr (tr_recordHash r)" "ok_hash (tr_recordHash r)"
    using assms trust_hash_total [of "tr_sequence r" "tr_event r" "tr_targetKey r" "fromLevel r" "toLevel r" "tr_reason r" "tr_timestamp r" "tr_previousHash r"]
    by (auto simp: ok_trust_audit_def trust_audit_hash_def)
  show ?thesis
    using assms h
    by (cases r; cases "fromLevel r"; cases "toLevel r")
      (simp_all add: validateTrustAudit_def enc_trust_audit_def trust_audit_base_def ok_trust_audit_def TRUST_AUDIT_KEYS_def opt_prop_def
        optionally_def trustLevel_def level_of_eq [THEN iffD2] del: level_of.simps)
qed

lemma validateTrustAudit_same:
  assumes "validateTrustAudit (enc_trust_audit r) = Inr r'" and "trim (tr_event r) = tr_event r" and "trim (tr_reason r) = tr_reason r"
  shows "r' = r"
  using assms unfolding validateTrustAudit_def enc_trust_audit_def trust_audit_base_def
  by (elim andThenE) (cases r; cases "fromLevel r"; cases "toLevel r";
    clarsimp simp: opt_prop_def optionally_def trustLevel_eq v_object_eq v_positive_eq v_identifier_eq v_timestamp_eq v_hash_eq v_text_JStr
      res_simps split: if_splits)

section \<open>The store\<close>

lemma validateTrustState_ok:
  assumes "validateTrustState j = Inr st"
  shows "trust_inv st"
  using assms unfolding validateTrustState_def validateTrustAuditChain_def
  apply (elim andThenE)
  apply (clarsimp simp: validator_simps throwIf_eq_Inr)
  apply (auto simp: trust_inv_def list_all_iff mapM_eq_Inr dest: list_all2_lengthD
      intro: validateTargetState_ok validateTrustAudit_ok mapM_Inr_all)
  done

lemma validateTrustState_enc:
  assumes "trust_inv st"
  shows "validateTrustState (enc_trust_state st) = Inr st"
proof -
  have "mapM validateTargetState (map enc_target_state (targets st)) = Inr (targets st)"
    using assms by (intro mapM_roundtrip validateTargetState_enc) (simp add: trust_inv_def list_all_iff)
  moreover have "mapM validateTrustAudit (map enc_trust_audit (tr_audit st)) = Inr (tr_audit st)"
    using assms by (intro mapM_roundtrip validateTrustAudit_enc) (simp add: trust_inv_def list_all_iff)
  ultimately show ?thesis
    using assms by (cases st) (simp add: validateTrustState_def enc_trust_state_def trust_inv_def TRUST_SCHEMA_VERSION_def validateTrustAuditChain_def)
qed

lemma trust_inv_empty: "trust_inv emptyTrustState"
  by (simp add: trust_inv_def emptyTrustState_def)

interpretation trust_file: validated_store trust_store trust_inv
  by unfold_locales (simp_all add: trust_store_def trust_inv_empty validateTrustState_ok validateTrustState_enc)

text \<open>Records whose texts are trimmed are written as they are.\<close>

definition trimmed :: "TrustLadderState \<Rightarrow> bool" where
  "trimmed st = (\<forall>r \<in> set (tr_audit st). trim (tr_event r) = tr_event r \<and> trim (tr_reason r) = tr_reason r)"

lemma validateTrustState_same:
  assumes "validateTrustState (enc_trust_state st) = Inr st'" and "trimmed st"
  shows "st' = st"
proof -
  from assms(1) obtain ts rs where "mapM validateTargetState (map enc_target_state (targets st)) = Inr ts"
    "mapM validateTrustAudit (map enc_trust_audit (tr_audit st)) = Inr rs"
    "st' = \<lparr>targets = ts, tr_auditAnchor = tr_auditAnchor st, tr_audit = rs\<rparr>"
    unfolding validateTrustState_def enc_trust_state_def by (elim andThenE) (clarsimp simp: validator_simps)
  moreover from this(1) have "ts = targets st" by (rule mapM_same) (rule validateTargetState_same)
  moreover from calculation(2) have "rs = tr_audit st"
    by (rule mapM_same) (use assms(2) in \<open>auto simp: trimmed_def intro: validateTrustAudit_same\<close>)
  ultimately show ?thesis by simp
qed

lemma trust_inv_trimmed: "trust_inv st \<Longrightarrow> trimmed st"
  by (auto simp: trust_inv_def trimmed_def list_all_iff ok_trust_audit_def ok_text_def)

text \<open>What a call does to the file, when the operation keeps the texts trimmed.\<close>

lemma trust_mutateE:
  assumes "mutate_store trust_store op now f = (Inr x, f')"
    and "\<And>t st y st'. op t st = (Inr y, st') \<Longrightarrow> trimmed st \<Longrightarrow> trimmed st'"
  obtains ms st st' where "now = Some ms" "read_store trust_store f = Inr st" "trust_inv st"
    "op (toISOString ms) st = (Inr x, st')" "trust_inv st'" "f' = atomicWriteJson (enc_trust_state st')"
proof -
  obtain ms s s' s'' where h: "now = Some ms" "read_store trust_store f = Inr s" "op (toISOString ms) s = (Inr x, s')"
    "validateStore trust_store (encodeStore trust_store s') = Inr s''" "f' = atomicWriteJson (encodeStore trust_store s'')"
    using assms(1) by (rule mutate_storeE)
  have inv: "trust_inv s" using h(2) by (rule trust_file.read_inv)
  have v: "validateTrustState (enc_trust_state s') = Inr s''" using h(4) by (simp add: trust_store_def)
  have "s'' = s'" using v assms(2) [OF h(3) trust_inv_trimmed [OF inv]] by (rule validateTrustState_same)
  with that h inv v validateTrustState_ok [OF v] show ?thesis by (simp add: trust_store_def)
qed

end
