(* ===== verification/Trust_Ladder.thy ===== *)
theory Trust_Ladder
  imports Trust_Shape
begin

text \<open>
  The operations of \<open>LocalTrustLadder\<close> (\<open>src/trust/trustLadder.ts\<close>).  A method validates
  its input, asks the owner verifier where the source does, and runs its body on the store under the
  file lock (\<open>mutate\<close>).  The bodies work on a reference to the target's entry in the state:
  here the entry is a value that is put back after each change.  The owner verifier is a
  parameter; it answers with a value that is validated like any other input.
\<close>

section \<open>Capabilities\<close>

definition plainCapability :: "TrustLevel \<Rightarrow> TrustCapabilityStatus \<Rightarrow> TrustLevelCapability" where
  "plainCapability lv st = \<lparr>cap_level = lv, cap_status = st, requiresActualContext = None, requiresOfficialProviderSemantics = None,
     requiresApproval = None, requiresCanary = None, requiresOutcomeComparison = None, cap_reason = None\<rparr>"

definition createLocalSyntheticTrustCapabilities :: "TrustLevelCapability list" where
  "createLocalSyntheticTrustCapabilities =
     [plainCapability Simulate Supported,
      (plainCapability Shadow Supported)\<lparr>requiresActualContext := Some True\<rparr>,
      (plainCapability Dry_run Unsupported)\<lparr>requiresOfficialProviderSemantics := Some True,
         cap_reason := Some ''ghostapi-synthetic has no provider-official dry-run semantic.''\<rparr>,
      (plainCapability Approve Supported)\<lparr>requiresApproval := Some True\<rparr>,
      (plainCapability Bounded_auto Supported)\<lparr>requiresCanary := Some True, requiresOutcomeComparison := Some True\<rparr>,
      (plainCapability Trusted Unsupported)\<lparr>cap_reason := Some ''The local synthetic runtime is not production authorization.''\<rparr>]"

definition capabilityFor :: "TrustLevelCapability list \<Rightarrow> TrustLevel \<Rightarrow> (trust_error, TrustLevelCapability) res" where
  "capabilityFor caps lv = fromOption (TLE ''Trust capability is missing.'') (List.find (\<lambda>c. cap_level c = lv) caps)"

fun firstSupported :: "TrustLevelCapability list \<Rightarrow> TrustLevel list \<Rightarrow> (trust_error, TrustLevel option) res" where
  "firstSupported caps [] = Inr None"
| "firstSupported caps (lv # lvs) =
     andThen (capabilityFor caps lv) (\<lambda>c. if cap_status c = Supported then Inr (Some lv) else firstSupported caps lvs)"

definition nextSupportedLevel :: "TrustLevelCapability list \<Rightarrow> TrustLevel \<Rightarrow> (trust_error, TrustLevel option) res" where
  "nextSupportedLevel caps current = firstSupported caps (tl (dropWhile (\<lambda>l. l \<noteq> current) TRUST_LEVELS))"

section \<open>The canary\<close>

definition deterministicBucket :: "string \<Rightarrow> TrustTarget \<Rightarrow> nat" where
  "deterministicBucket policyId t =
     unat (w_a (sha256_words (utf8_bytes (''ghostapi.trust.canary.v1:'' @ policyId @ '':'' @ targetKey t)))) mod 10000"

definition canaryDecision :: "TrustTarget \<Rightarrow> TrustPromotionPolicy \<Rightarrow> TrustCanaryDecision" where
  "canaryDecision t policy =
     (let b = deterministicBucket (tp_id policy) t;
          decide = (\<lambda>a reason. \<lparr>dec_target = t, assigned = a, bucket = b, dec_reason = reason\<rparr>)
      in if canary_tenantIds policy \<noteq> [] \<and> tenantId t \<notin> set (canary_tenantIds policy)
         then decide False ''tenant is outside the configured canary scope''
         else if canary_resourceIds policy \<noteq> [] \<and> resourceId t \<notin> set (canary_resourceIds policy)
         then decide False ''resource is outside the configured canary scope''
         else if b < percentageBps policy then decide True ''target is inside deterministic canary scope''
         else decide False ''target is outside the configured canary percentage'')"

section \<open>Promotion evidence\<close>

text \<open>\<open>Date.parse\<close> of texts that are timestamps.\<close>

definition dated_after :: "string \<Rightarrow> string \<Rightarrow> bool" where
  "dated_after a b = (case (date_parse a, date_parse b) of (Some x, Some y) \<Rightarrow> x > y | _ \<Rightarrow> False)"

definition stale :: "string \<Rightarrow> string \<Rightarrow> nat \<Rightarrow> bool" where
  "stale a now ms = (case (date_parse a, date_parse now) of (Some x, Some y) \<Rightarrow> y - x > int ms | _ \<Rightarrow> False)"

definition trust_rateBps :: "nat \<Rightarrow> nat \<Rightarrow> nat" where
  "trust_rateBps n runs = (if runs = 0 then 10000 else (n * 10000) div runs)"

definition checkEval :: "TrustEval list \<Rightarrow> nat \<Rightarrow> string \<Rightarrow> string \<Rightarrow> (trust_error, unit) res" where
  "checkEval evs fresh now required =
     (case List.find (\<lambda>e. eval_id e = required) evs of
        None \<Rightarrow> Inl (TLE (''Trust promotion requires passing eval: '' @ required))
      | Some e \<Rightarrow>
          andThen (throwIf (\<not> eval_passed e) (TLE (''Trust promotion requires passing eval: '' @ required))) (\<lambda>_.
          andThen (throwIf (dated_after (eval_completedAt e) now) (TLE (''Trust promotion eval is from the future: '' @ required))) (\<lambda>_.
          throwIf (stale (eval_completedAt e) now fresh) (TLE (''Trust promotion eval is stale: '' @ required)))))"

definition assertPromotionEvidence :: "TrustPromotionEvidence \<Rightarrow> TrustPromotionPolicy \<Rightarrow> string \<Rightarrow> (trust_error, unit) res" where
  "assertPromotionEvidence ev policy now =
     andThen (throwIf (runCount ev < minimumRuns policy) (TLE ''Trust promotion evidence has too few runs.'')) (\<lambda>_.
     andThen (throwIf (dated_after (ev_observedAt ev) now) (TLE ''Trust promotion evidence is from the future.'')) (\<lambda>_.
     andThen (throwIf (stale (ev_observedAt ev) now (evidenceFreshnessMs policy)) (TLE ''Trust promotion evidence is stale.'')) (\<lambda>_.
     andThen (mapM (checkEval (evals ev) (evidenceFreshnessMs policy) now) (requiredEvalIds policy)) (\<lambda>_.
     andThen (throwIf (trust_rateBps (ev_violations ev) (runCount ev) > maxViolationRateBps policy)
       (TLE ''Trust promotion violation rate exceeds policy.'')) (\<lambda>_.
     throwIf (trust_rateBps (ev_errors ev) (runCount ev) > maxErrorRateBps policy) (TLE ''Trust promotion error rate exceeds policy.''))))))"

section \<open>Comparisons\<close>

definition observationHash :: "TrustObservation \<Rightarrow> string" where
  "observationHash v = sha256 (the (canonical (enc_observation v)))"

definition outcomeHash :: "TrustOutcomeObservation \<Rightarrow> string" where
  "outcomeHash v = sha256 (the (canonical (enc_outcome_observation v)))"

definition comparisonEvidence :: "TrustTarget \<Rightarrow> TrustLevel \<Rightarrow> string \<Rightarrow> string \<Rightarrow> string \<Rightarrow> TrustComparisonEvidence" where
  "comparisonEvidence t lv predicted actual at =
     \<lparr>cmp_target = t, cmp_level = lv, matched = (predicted = actual), predictedHash = predicted, actualHash = actual, cmp_observedAt = at\<rparr>"

section \<open>State\<close>

type_synonym 'a trust_op = "(TrustLadderState, trust_error, 'a) prog"
type_synonym 'a trust_prog = "(store_file, trust_error, 'a) prog"

definition sameTarget :: "TrustTarget \<Rightarrow> TrustTarget \<Rightarrow> bool" where
  "sameTarget l r = (tenantId l = tenantId r \<and> resourceId l = resourceId r)"

definition findTarget :: "TrustTarget \<Rightarrow> TrustLadderState \<Rightarrow> TrustTargetState option" where
  "findTarget t st = List.find (\<lambda>c. sameTarget (target c) t) (targets st)"

definition newTarget :: "TrustTarget \<Rightarrow> string \<Rightarrow> TrustTargetState" where
  "newTarget t now = \<lparr>target = t, level = Simulate, circuitBreaker = Breaker_closed, observed = 0, violations = 0, errors = 0, updatedAt = now\<rparr>"

definition findOrCreateTarget :: "TrustTarget \<Rightarrow> string \<Rightarrow> TrustTargetState trust_op" where
  "findOrCreateTarget t now = getp (\<lambda>st.
     case findTarget t st of
       Some c \<Rightarrow> ret c
     | None \<Rightarrow>
         if length (targets st) \<ge> MAX_TARGETS then throw (TLE ''Trust target limit was reached.'')
         else seqp (modifyp (\<lambda>st. st\<lparr>targets := targets st @ [newTarget t now]\<rparr>)) (\<lambda>_. ret (newTarget t now)))"

definition putTarget :: "TrustTargetState \<Rightarrow> unit trust_op" where
  "putTarget c = modifyp (\<lambda>st. st\<lparr>targets := updateFirst (\<lambda>s. sameTarget (target s) (target c)) (\<lambda>_. c) (targets st)\<rparr>)"

definition lastTrustHash :: "TrustLadderState \<Rightarrow> string" where
  "lastTrustHash st = (if tr_audit st = [] then tr_auditAnchor st else tr_recordHash (last (tr_audit st)))"

definition trustAuditRecord ::
  "TrustLadderState \<Rightarrow> string \<Rightarrow> TrustTarget \<Rightarrow> TrustLevel option \<Rightarrow> TrustLevel option \<Rightarrow> string \<Rightarrow> string \<Rightarrow> (trust_error, TrustAuditRecord) res" where
  "trustAuditRecord st ev t from to reason ts =
     andThen (v_text TLE ''Trust audit event'' 80 (JStr ev)) (\<lambda>e.
     andThen (v_text TLE ''Trust audit reason'' 200 (JStr reason)) (\<lambda>r.
     andThen (trust_hash (trust_audit_base (length (tr_audit st) + 1) e (targetKey t) from to r ts (lastTrustHash st))) (\<lambda>h.
     Inr \<lparr>tr_sequence = length (tr_audit st) + 1, tr_event = e, tr_targetKey = targetKey t, fromLevel = from, toLevel = to,
          tr_reason = r, tr_timestamp = ts, tr_previousHash = lastTrustHash st, tr_recordHash = h\<rparr>)))"

definition appendTrustAudit ::
  "string \<Rightarrow> TrustTargetState \<Rightarrow> TrustLevel option \<Rightarrow> TrustLevel option \<Rightarrow> string \<Rightarrow> string \<Rightarrow> unit trust_op" where
  "appendTrustAudit ev c from to reason ts = getp (\<lambda>st.
     if length (tr_audit st) \<ge> TRUST_MAX_AUDIT then throw (TLE ''Trust audit limit was reached.'')
     else seqp (liftp (trustAuditRecord st ev (target c) from to reason ts)) (\<lambda>r.
       modifyp (\<lambda>st. st\<lparr>tr_audit := tr_audit st @ [r]\<rparr>)))"

definition assertActiveLevel :: "TrustTargetState \<Rightarrow> TrustLevel \<Rightarrow> (trust_error, unit) res" where
  "assertActiveLevel c lv =
     andThen (throwIf (circuitBreaker c = Breaker_open) (TLE ''Canary circuit breaker is open; comparisons cannot continue.'')) (\<lambda>_.
     throwIf (level c \<noteq> lv) (TLE (''Trust target is not active at '' @ level_name lv @ ''.'')))"

section \<open>The methods\<close>

definition trust_mutate :: "(string \<Rightarrow> 'a trust_op) \<Rightarrow> clock \<Rightarrow> 'a trust_prog" where
  "trust_mutate = mutate_store trust_store"

definition trust_inspect :: "json \<Rightarrow> clock \<Rightarrow> TrustTargetState trust_prog" where
  "trust_inspect targetValue now =
     seqp (liftp (validateTarget targetValue)) (\<lambda>t. trust_mutate (findOrCreateTarget t) now)"

definition assignCanary_op :: "TrustTarget \<Rightarrow> TrustPromotionPolicy \<Rightarrow> string \<Rightarrow> TrustCanaryDecision trust_op" where
  "assignCanary_op t policy now =
     seqp (findOrCreateTarget t now) (\<lambda>current.
     if circuitBreaker current = Breaker_open
     then throw (TLE ''Canary circuit breaker is open; no further canary action is allowed.'')
     else ret (canaryDecision t policy))"

definition assignCanary :: "json \<Rightarrow> json \<Rightarrow> clock \<Rightarrow> TrustCanaryDecision trust_prog" where
  "assignCanary targetValue policyValue now =
     seqp (liftp (validateTarget targetValue)) (\<lambda>t.
     seqp (liftp (validatePromotionPolicy policyValue)) (\<lambda>policy.
     trust_mutate (assignCanary_op t policy) now))"

definition verifiedOwner :: "('i \<Rightarrow> (trust_error, json) res) \<Rightarrow> 'i \<Rightarrow> (trust_error, TrustOwner) res" where
  "verifiedOwner authenticate identity = andThen (authenticate identity) validateOwner"

definition promote_op ::
  "TrustLevelCapability list \<Rightarrow> TrustTarget \<Rightarrow> TrustLevel \<Rightarrow> TrustPromotionPolicy \<Rightarrow> TrustPromotionEvidence \<Rightarrow> TrustOwner \<Rightarrow> string \<Rightarrow>
   TrustTargetState trust_op" where
  "promote_op caps t requested policy ev owner now =
     seqp (findOrCreateTarget t now) (\<lambda>current.
     if circuitBreaker current = Breaker_open
     then throw (TLE ''Trust promotion is blocked by an open circuit breaker.'')
     else
       seqp (liftp (capabilityFor caps requested)) (\<lambda>capability.
       seqp (liftp (throwIf (cap_status capability \<noteq> Supported)
         (TLE (''Trust level '' @ level_name requested @ '' is unsupported: '' @
            (case cap_reason capability of None \<Rightarrow> ''provider capability is unavailable'' | Some r \<Rightarrow> r))))) (\<lambda>_.
       seqp (liftp (nextSupportedLevel caps (level current))) (\<lambda>next_level.
       seqp (liftp (throwIf (next_level \<noteq> Some requested)
         (TLE ''Trust promotion must move to the next supported level; automatic promotion is disabled.''))) (\<lambda>_.
       seqp (liftp (assertPromotionEvidence ev policy now)) (\<lambda>_.
       seqp (liftp (throwIf (requiresCanary capability = Some True \<and> \<not> assigned (canaryDecision t policy))
         (TLE (''Canary scope denies promotion: '' @ dec_reason (canaryDecision t policy))))) (\<lambda>_.
       let promoted = current\<lparr>level := requested, updatedAt := now\<rparr> in
       seqp (putTarget promoted) (\<lambda>_.
       seqp (appendTrustAudit ''trust.promoted'' promoted (Some (level current)) (Some requested)
         (''verified owner '' @ owner_principalId owner @ '' approved promotion'') now) (\<lambda>_.
       ret promoted)))))))))"

definition promote ::
  "('i \<Rightarrow> (trust_error, json) res) \<Rightarrow> 'i \<Rightarrow> json \<Rightarrow> json \<Rightarrow> json \<Rightarrow> json \<Rightarrow> clock \<Rightarrow> TrustTargetState trust_prog" where
  "promote authenticate identity targetValue levelValue policyValue evidenceValue now =
     seqp (liftp (validateTarget targetValue)) (\<lambda>t.
     seqp (liftp (validatePromotionPolicy policyValue)) (\<lambda>policy.
     seqp (liftp (validateEvidence evidenceValue)) (\<lambda>ev.
     seqp (liftp (trustLevel levelValue ''Trust promotion level'')) (\<lambda>requested.
     seqp (liftp (verifiedOwner authenticate identity)) (\<lambda>owner.
     if owner_principalId owner \<noteq> ownerPrincipalId policy
     then throw (TLE ''Trust promotion requires the configured verified owner decision.'')
     else trust_mutate (promote_op createLocalSyntheticTrustCapabilities t requested policy ev owner) now)))))"

definition compareShadow_op :: "TrustObservation \<Rightarrow> TrustObservation \<Rightarrow> string \<Rightarrow> TrustComparisonEvidence trust_op" where
  "compareShadow_op prediction actual now =
     seqp (findOrCreateTarget (obs_target prediction) now) (\<lambda>current.
     seqp (liftp (assertActiveLevel current Shadow)) (\<lambda>_.
     let evidence = comparisonEvidence (obs_target prediction) Shadow (observationHash prediction) (observationHash actual) now in
     seqp (appendTrustAudit ''shadow.compared'' current None None
       (if matched evidence then ''predicted action matches actual input context'' else ''predicted action differs from actual input context'') now) (\<lambda>_.
     ret evidence)))"

definition compareShadow :: "json \<Rightarrow> json \<Rightarrow> clock \<Rightarrow> TrustComparisonEvidence trust_prog" where
  "compareShadow predictionValue actualValue now =
     seqp (liftp (validateObservation predictionValue)) (\<lambda>prediction.
     seqp (liftp (validateObservation actualValue)) (\<lambda>actual.
     if \<not> sameTarget (obs_target prediction) (obs_target actual)
     then throw (TLE ''Shadow comparison cannot mix synthetic identities.'')
     else trust_mutate (compareShadow_op prediction actual) now))"

definition compareBoundedOutcome_op :: "TrustOutcomeObservation \<Rightarrow> TrustOutcomeObservation \<Rightarrow> string \<Rightarrow> TrustComparisonEvidence trust_op" where
  "compareBoundedOutcome_op prediction actual now =
     seqp (findOrCreateTarget (out_target prediction) now) (\<lambda>current.
     seqp (liftp (assertActiveLevel current Bounded_auto)) (\<lambda>_.
     let evidence = comparisonEvidence (out_target prediction) Bounded_auto (outcomeHash prediction) (outcomeHash actual) now in
     seqp (appendTrustAudit ''bounded.outcome_compared'' current None None
       (if matched evidence then ''predicted and actual bounded outcomes match'' else ''predicted and actual bounded outcomes differ'') now) (\<lambda>_.
     ret evidence)))"

definition compareBoundedOutcome :: "json \<Rightarrow> json \<Rightarrow> clock \<Rightarrow> TrustComparisonEvidence trust_prog" where
  "compareBoundedOutcome predictionValue actualValue now =
     seqp (liftp (validateOutcomeObservation predictionValue)) (\<lambda>prediction.
     seqp (liftp (validateOutcomeObservation actualValue)) (\<lambda>actual.
     if \<not> sameTarget (out_target prediction) (out_target actual)
     then throw (TLE ''Bounded outcome comparison cannot mix synthetic identities.'')
     else trust_mutate (compareBoundedOutcome_op prediction actual) now))"

text \<open>The counters after an outcome, and whether a stop condition is met.\<close>

definition countOutcome :: "TrustCanaryOutcome \<Rightarrow> string \<Rightarrow> TrustTargetState \<Rightarrow> TrustTargetState" where
  "countOutcome outc now c =
     c\<lparr>observed := observed c + 1,
       violations := (if outc = Outcome_violation then violations c + 1 else violations c),
       errors := (if outc = Outcome_error then errors c + 1 else errors c), updatedAt := now\<rparr>"

definition breaches :: "TrustPromotionPolicy \<Rightarrow> TrustCanaryOutcome \<Rightarrow> TrustTargetState \<Rightarrow> bool" where
  "breaches policy outc c =
     ((outc = Outcome_violation \<and> violationResponse policy = Open_circuit_breaker) \<or>
      (violations c > 0 \<and> violations c \<ge> maxViolations policy) \<or> (errors c > 0 \<and> errors c \<ge> maxErrors policy))"

definition recordCanaryOutcome_op ::
  "TrustTarget \<Rightarrow> TrustPromotionPolicy \<Rightarrow> TrustCanaryOutcome \<Rightarrow> string \<Rightarrow> string \<Rightarrow> TrustTargetState trust_op" where
  "recordCanaryOutcome_op t policy outc reason now =
     seqp (findOrCreateTarget t now) (\<lambda>current.
     if circuitBreaker current = Breaker_open
     then throw (TLE ''Canary circuit breaker is open; no further canary action is allowed.'')
     else if level current \<noteq> Bounded_auto then throw (TLE ''Canary outcomes require bounded-auto trust.'')
     else if \<not> assigned (canaryDecision t policy)
     then throw (TLE (''Canary scope denies outcome recording: '' @ dec_reason (canaryDecision t policy)))
     else
       let counted = countOutcome outc now current;
           demote = (outc = Outcome_violation \<and> violationResponse policy = Demote_to_approve);
           demoted = (if demote then counted\<lparr>level := Approve\<rparr> else counted)
       in
       seqp (putTarget counted) (\<lambda>_.
       seqp (appendTrustAudit ''canary.outcome'' counted None None reason now) (\<lambda>_.
       seqp (if demote
             then seqp (putTarget demoted) (\<lambda>_. appendTrustAudit ''trust.auto_demoted'' demoted (Some (level counted)) (Some Approve)
                    ''policy violation automatically returned trust to approval mode'' now)
             else ret ()) (\<lambda>_.
       if breaches policy outc demoted
       then
         seqp (putTarget (demoted\<lparr>circuitBreaker := Breaker_open\<rparr>)) (\<lambda>_.
         seqp (appendTrustAudit ''canary.circuit_opened'' (demoted\<lparr>circuitBreaker := Breaker_open\<rparr>) None None
           (if outc = Outcome_violation \<and> violationResponse policy = Open_circuit_breaker
            then ''policy violation opened the configured circuit breaker'' else ''configured canary stop condition was breached'') now) (\<lambda>_.
         ret (demoted\<lparr>circuitBreaker := Breaker_open\<rparr>)))
       else ret demoted))))"

definition recordCanaryOutcome :: "json \<Rightarrow> json \<Rightarrow> json \<Rightarrow> json \<Rightarrow> clock \<Rightarrow> TrustTargetState trust_prog" where
  "recordCanaryOutcome targetValue policyValue outcomeValue reasonValue now =
     seqp (liftp (validateTarget targetValue)) (\<lambda>t.
     seqp (liftp (validatePromotionPolicy policyValue)) (\<lambda>policy.
     seqp (liftp (canaryOutcome outcomeValue)) (\<lambda>outc.
     seqp (liftp (v_text TLE ''Canary outcome reason'' 200 reasonValue)) (\<lambda>reason.
     trust_mutate (recordCanaryOutcome_op t policy outc reason) now))))"

definition rollbackToApproval_op :: "TrustTarget \<Rightarrow> string \<Rightarrow> string \<Rightarrow> TrustTargetState trust_op" where
  "rollbackToApproval_op t reason now =
     seqp (findOrCreateTarget t now) (\<lambda>current.
     let lowered = current\<lparr>level := Approve, updatedAt := now\<rparr> in
     seqp (putTarget lowered) (\<lambda>_.
     seqp (appendTrustAudit ''trust.rollback_to_approval'' lowered (Some (level current)) (Some Approve) reason now) (\<lambda>_.
     ret lowered)))"

definition rollbackToApproval ::
  "('i \<Rightarrow> (trust_error, json) res) \<Rightarrow> 'i \<Rightarrow> json \<Rightarrow> json \<Rightarrow> json \<Rightarrow> clock \<Rightarrow> TrustTargetState trust_prog" where
  "rollbackToApproval authenticate identity targetValue policyValue reasonValue now =
     seqp (liftp (validateTarget targetValue)) (\<lambda>t.
     seqp (liftp (validatePromotionPolicy policyValue)) (\<lambda>policy.
     seqp (liftp (verifiedOwner authenticate identity)) (\<lambda>owner.
     seqp (liftp (v_text TLE ''Trust rollback reason'' 200 reasonValue)) (\<lambda>reason.
     if owner_principalId owner \<noteq> ownerPrincipalId policy
     then throw (TLE ''Trust rollback requires the configured verified owner decision.'')
     else trust_mutate (rollbackToApproval_op t reason) now))))"

end
