(* ===== verification/Trust_Laws.thy ===== *)
theory Trust_Laws
  imports Trust_Ladder
begin

text \<open>
  What the trust ladder's operations do to the entry of a target and to the audit, and the ladder
  as an abstract transition system: a target's position is its level and its breaker.  The
  operations refine the moves of that system.
\<close>

section \<open>Entries\<close>

lemma sameTarget_eq [simp]: "sameTarget l r \<longleftrightarrow> l = r"
  by (cases l; cases r) (simp add: sameTarget_def)

lemma findTarget_Some: "findTarget t st = Some c \<Longrightarrow> target c = t \<and> c \<in> set (targets st)"
  by (auto simp: findTarget_def dest: find_SomeD)

lemma find_updateFirst:
  "target c = t \<Longrightarrow> List.find (\<lambda>s. target s = t') (updateFirst (\<lambda>s. target s = t) (\<lambda>_. c) xs) =
     (if t' = t then map_option (\<lambda>_. c) (List.find (\<lambda>s. target s = t) xs) else List.find (\<lambda>s. target s = t') xs)"
  by (induction xs) auto

lemma find_snoc: "List.find P (xs @ [c]) = (case List.find P xs of None \<Rightarrow> if P c then Some c else None | Some d \<Rightarrow> Some d)"
  by (induction xs) auto

definition withTarget :: "TrustTargetState \<Rightarrow> TrustLadderState \<Rightarrow> TrustLadderState" where
  "withTarget c st = st\<lparr>targets := updateFirst (\<lambda>s. target s = target c) (\<lambda>_. c) (targets st)\<rparr>"

lemma putTarget_run [simp]: "putTarget c st = (Inr (), withTarget c st)"
  by (simp add: putTarget_def modifyp_def withTarget_def)

lemma withTarget_audit [simp]: "tr_audit (withTarget c st) = tr_audit st" "tr_auditAnchor (withTarget c st) = tr_auditAnchor st"
  by (simp_all add: withTarget_def)

lemma findTarget_with:
  "findTarget t (withTarget c st) = (if t = target c then map_option (\<lambda>_. c) (findTarget t st) else findTarget t st)"
  unfolding findTarget_def withTarget_def by (simp add: find_updateFirst)

lemma withTarget_commutes [simp]: "withTarget c (st\<lparr>tr_audit := a\<rparr>) = (withTarget c st)\<lparr>tr_audit := a\<rparr>"
  by (simp add: withTarget_def)

lemma updateFirst_again:
  "target c = t \<Longrightarrow> updateFirst (\<lambda>s. target s = t) (\<lambda>_. c') (updateFirst (\<lambda>s. target s = t) (\<lambda>_. c) xs) = updateFirst (\<lambda>s. target s = t) (\<lambda>_. c') xs"
  by (induction xs) auto

lemma withTarget_again [simp]: "target c = target c' \<Longrightarrow> withTarget c' (withTarget c st) = withTarget c' st"
  by (simp add: withTarget_def updateFirst_again)

lemma findTarget_audit [simp]: "findTarget t (st\<lparr>tr_audit := a\<rparr>) = findTarget t st"
  by (simp add: findTarget_def)

lemma findTarget_append:
  "findTarget t (st\<lparr>targets := targets st @ [c]\<rparr>) = (case findTarget t st of None \<Rightarrow> if target c = t then Some c else None | Some d \<Rightarrow> Some d)"
  by (simp add: findTarget_def find_snoc)

lemma newTarget_target [simp]: "target (newTarget t now) = t" "level (newTarget t now) = Simulate"
  "circuitBreaker (newTarget t now) = Breaker_closed"
  by (simp_all add: newTarget_def)

text \<open>The entry a call works on: the one in the state, or a new one that has been added.\<close>

definition entered :: "TrustTarget \<Rightarrow> string \<Rightarrow> TrustLadderState \<Rightarrow> TrustTargetState \<Rightarrow> TrustLadderState \<Rightarrow> bool" where
  "entered t now st c st1 =
     ((findTarget t st = Some c \<and> st1 = st) \<or>
      (findTarget t st = None \<and> length (targets st) < MAX_TARGETS \<and> c = newTarget t now \<and> st1 = st\<lparr>targets := targets st @ [c]\<rparr>))"

lemma findOrCreateTarget_cases:
  assumes "findOrCreateTarget t now st = (r, st')"
  obtains e where "r = Inl e" "st' = st" | c where "r = Inr c" "entered t now st c st'"
  using assms
  by (auto simp: findOrCreateTarget_def getp_def ret_def throw_def modifyp_def seqp_def entered_def split: option.splits if_splits)

lemma entered_find:
  assumes "entered t now st c st1"
  shows "target c = t" "findTarget t st1 = Some c" "tr_audit st1 = tr_audit st" "tr_auditAnchor st1 = tr_auditAnchor st"
    "t' \<noteq> t \<Longrightarrow> findTarget t' st1 = findTarget t' st"
  using assms by (auto simp: entered_def findTarget_append dest: findTarget_Some split: option.splits)

section \<open>The audit\<close>

lemma appendTrustAudit_cases:
  assumes "appendTrustAudit ev c fl dl reason ts st = (r, st')"
  obtains e where "r = Inl e" "st' = st"
  | a where "r = Inr ()" "trustAuditRecord st ev (target c) fl dl reason ts = Inr a" "st' = st\<lparr>tr_audit := tr_audit st @ [a]\<rparr>"
      "length (tr_audit st) < TRUST_MAX_AUDIT"
  using assms
  by (auto simp: appendTrustAudit_def getp_def throw_def liftp_def modifyp_def seqp_def split: if_splits sum.splits)

lemma trustAuditRecord_fields:
  "trustAuditRecord st ev t fl dl reason ts = Inr a \<Longrightarrow>
     tr_sequence a = length (tr_audit st) + 1 \<and> tr_previousHash a = lastTrustHash st \<and> tr_event a = trim ev \<and> tr_targetKey a = targetKey t \<and>
     fromLevel a = fl \<and> toLevel a = dl \<and> tr_reason a = trim reason \<and> tr_timestamp a = ts"
  unfolding trustAuditRecord_def by (elim andThenE) (clarsimp simp: v_text_JStr)

lemma trustAuditRecord_trimmed:
  "trustAuditRecord st ev t fl dl reason ts = Inr a \<Longrightarrow> trim (tr_event a) = tr_event a \<and> trim (tr_reason a) = tr_reason a"
  unfolding trustAuditRecord_def by (elim andThenE) (auto dest!: v_text_ok simp: ok_text_def)

definition grows :: "TrustLadderState \<Rightarrow> TrustLadderState \<Rightarrow> bool" where
  "grows st st' = (tr_auditAnchor st' = tr_auditAnchor st \<and> (\<exists>as. tr_audit st' = tr_audit st @ as \<and> (trimmed st \<longrightarrow> trimmed st')))"

interpretation grows: frame grows
  by unfold_locales (auto simp: grows_def)

lemma growsI [simp]: "tr_auditAnchor st' = tr_auditAnchor st \<Longrightarrow> tr_audit st' = tr_audit st \<Longrightarrow> grows st st'"
  by (simp add: grows_def trimmed_def)

lemma findOrCreateTarget_grows: "keeps grows (findOrCreateTarget t now)"
  by (rule keepsI, erule findOrCreateTarget_cases) (auto simp: entered_def)

lemma putTarget_grows: "keeps grows (putTarget c)"
  by (rule keepsI) simp

lemma appendTrustAudit_grows: "keeps grows (appendTrustAudit ev c fl dl reason ts)"
  by (rule keepsI, erule appendTrustAudit_cases) (auto simp: grows_def trimmed_def dest: trustAuditRecord_trimmed)

lemmas grows_intros = grows.keeps_seqp grows.keeps_ret grows.keeps_throw grows.keeps_liftp findOrCreateTarget_grows putTarget_grows
  appendTrustAudit_grows keeps_if

lemma trust_ops_grow:
  "keeps grows (assignCanary_op t policy now)" "keeps grows (promote_op caps t requested policy ev owner now)"
  "keeps grows (compareShadow_op p1 a1 now)" "keeps grows (compareBoundedOutcome_op p2 a2 now)"
  "keeps grows (recordCanaryOutcome_op t policy outc reason now)" "keeps grows (rollbackToApproval_op t reason now)"
  unfolding assignCanary_op_def promote_op_def compareShadow_op_def compareBoundedOutcome_op_def recordCanaryOutcome_op_def
    rollbackToApproval_op_def Let_def
  by (intro grows_intros)+

section \<open>The ladder\<close>

type_synonym place = "TrustLevel \<times> CircuitBreaker"

definition position :: "TrustTarget \<Rightarrow> TrustLadderState \<Rightarrow> place option" where
  "position t st = map_option (\<lambda>c. (level c, circuitBreaker c)) (findTarget t st)"

fun rung :: "TrustLevel \<Rightarrow> TrustLevel option" where
  "rung Simulate = Some Shadow"
| "rung Shadow = Some Approve"
| "rung Dry_run = Some Approve"
| "rung Approve = Some Bounded_auto"
| "rung Bounded_auto = None"
| "rung Trusted = None"

text \<open>A target climbs one rung at a time while its breaker is closed, can be sent to approval from
  anywhere, and its breaker opens only when it holds or leaves bounded autonomy.  No move closes a
  breaker.\<close>

inductive ladder_move :: "place \<Rightarrow> place \<Rightarrow> bool" where
  move_up: "rung l = Some l' \<Longrightarrow> ladder_move (l, Breaker_closed) (l', Breaker_closed)"
| move_approval: "ladder_move (l, b) (Approve, b)"
| move_stop: "l \<in> {Bounded_auto, Approve} \<Longrightarrow> ladder_move (Bounded_auto, Breaker_closed) (l, Breaker_open)"

inductive_cases ladder_moveE: "ladder_move (l, b) p"

text \<open>A call first enters a target that is not on the ladder, at the bottom, then makes at most
  one move.\<close>

definition at_entry :: "place option \<Rightarrow> place" where
  "at_entry p = (case p of None \<Rightarrow> (Simulate, Breaker_closed) | Some x \<Rightarrow> x)"

definition ladder_step :: "place option \<Rightarrow> place option \<Rightarrow> bool" where
  "ladder_step p p' = (\<exists>x. p' = Some x \<and> (x = at_entry p \<or> ladder_move (at_entry p) x))"

lemma capability_local:
  "capabilityFor createLocalSyntheticTrustCapabilities l = Inr (case l of
     Simulate \<Rightarrow> plainCapability Simulate Supported
   | Shadow \<Rightarrow> (plainCapability Shadow Supported)\<lparr>requiresActualContext := Some True\<rparr>
   | Dry_run \<Rightarrow> (plainCapability Dry_run Unsupported)\<lparr>requiresOfficialProviderSemantics := Some True,
         cap_reason := Some ''ghostapi-synthetic has no provider-official dry-run semantic.''\<rparr>
   | Approve \<Rightarrow> (plainCapability Approve Supported)\<lparr>requiresApproval := Some True\<rparr>
   | Bounded_auto \<Rightarrow> (plainCapability Bounded_auto Supported)\<lparr>requiresCanary := Some True, requiresOutcomeComparison := Some True\<rparr>
   | Trusted \<Rightarrow> (plainCapability Trusted Unsupported)\<lparr>cap_reason := Some ''The local synthetic runtime is not production authorization.''\<rparr>)"
  by (cases l) (simp_all add: capabilityFor_def createLocalSyntheticTrustCapabilities_def plainCapability_def)

lemma nextSupportedLevel_local: "nextSupportedLevel createLocalSyntheticTrustCapabilities l = Inr (rung l)"
  by (cases l) (simp_all add: nextSupportedLevel_def TRUST_LEVELS_def capability_local plainCapability_def)

lemma entered_at: "entered t now st c st1 \<Longrightarrow> at_entry (position t st) = (level c, circuitBreaker c)"
  by (auto simp: entered_def position_def at_entry_def)

text \<open>What one call does to the positions: the target moves on the ladder, the others stay.\<close>

definition moves_one :: "TrustTarget \<Rightarrow> TrustLadderState \<Rightarrow> TrustLadderState \<Rightarrow> bool" where
  "moves_one t st st' = (ladder_step (position t st) (position t st') \<and> (\<forall>t'. t' \<noteq> t \<longrightarrow> findTarget t' st' = findTarget t' st))"

lemma seqp_Inr_step: "seqp p k s = (Inr y, s'') \<Longrightarrow> (\<And>x s'. p s = (Inr x, s') \<Longrightarrow> k x s' = (Inr y, s'') \<Longrightarrow> P) \<Longrightarrow> P"
  by (auto simp: seqp_eq_Inr)

lemma findOrCreateTarget_Inr: "findOrCreateTarget t now st = (Inr c, st') \<Longrightarrow> entered t now st c st'"
  by (erule findOrCreateTarget_cases) auto

lemma appendTrustAudit_Inr:
  "appendTrustAudit ev c fl dl reason ts st = (Inr u, st') \<longleftrightarrow>
     (\<exists>a. trustAuditRecord st ev (target c) fl dl reason ts = Inr a \<and> st' = st\<lparr>tr_audit := tr_audit st @ [a]\<rparr> \<and> length (tr_audit st) < TRUST_MAX_AUDIT)"
  by (auto simp: appendTrustAudit_def getp_def throw_def liftp_def modifyp_def seqp_def split: sum.splits)

lemma entered_one: "entered t now st c st1 \<Longrightarrow> moves_one t st st1"
  using entered_at [of t now st c st1] entered_find [of t now st c st1] by (simp add: moves_one_def ladder_step_def) (simp add: position_def)

lemma moved_entry:
  assumes "entered t now st c st1" and "target c' = t" 
    and "(level c', circuitBreaker c') = (level c, circuitBreaker c) \<or> ladder_move (level c, circuitBreaker c) (level c', circuitBreaker c')"
    and "\<And>t'. findTarget t' st' = findTarget t' (withTarget c' st1)"
  shows "moves_one t st st' \<and> findTarget t st' = Some c'"
proof -
  note e = entered_find [OF assms(1)]
  have "findTarget t st' = Some c'" using assms(2,4) e(2) by (simp add: findTarget_with)
  moreover have "t' \<noteq> t \<Longrightarrow> findTarget t' st' = findTarget t' st" for t' using assms(2,4) e(5) by (simp add: findTarget_with)
  ultimately show ?thesis
    using entered_at [OF assms(1)] assms(3) by (simp add: moves_one_def ladder_step_def) (simp add: position_def)
qed

lemma promote_op_effect:
  assumes "promote_op createLocalSyntheticTrustCapabilities t requested policy ev owner now st = (Inr c', st')"
  shows "\<exists>c st1 a. entered t now st c st1 \<and> circuitBreaker c = Breaker_closed \<and> rung (level c) = Some requested \<and>
    assertPromotionEvidence ev policy now = Inr () \<and> (requested = Bounded_auto \<longrightarrow> assigned (canaryDecision t policy)) \<and>
    c' = c\<lparr>level := requested, updatedAt := now\<rparr> \<and> st' = (withTarget c' st1)\<lparr>tr_audit := tr_audit st @ [a]\<rparr> \<and>
    tr_event a = ''trust.promoted'' \<and> tr_targetKey a = targetKey t \<and> fromLevel a = Some (level c) \<and> toLevel a = Some requested"
proof -
  have tr: "trim ''trust.promoted'' = ''trust.promoted''" by code_simp
  from assms obtain c st1 where c: "findOrCreateTarget t now st = (Inr c, st1)"
    unfolding promote_op_def by (erule_tac seqp_Inr_step)
  note e = findOrCreateTarget_Inr [OF c]
  from assms c have closed: "circuitBreaker c = Breaker_closed"
    by (cases "circuitBreaker c") (auto simp: promote_op_def throw_def)
  let ?c' = "c\<lparr>level := requested, updatedAt := now\<rparr>"
  from assms c closed have h: "rung (level c) = Some requested" "assertPromotionEvidence ev policy now = Inr ()"
    "requested = Bounded_auto \<longrightarrow> assigned (canaryDecision t policy)"
    by (auto simp: promote_op_def liftp_seqp capability_local nextSupportedLevel_local throwIf_def Let_def plainCapability_def split: if_splits sum.splits)
  from assms c closed have "c' = ?c'" and "\<exists>a. trustAuditRecord (withTarget ?c' st1) ''trust.promoted'' t (Some (level c)) (Some requested)
      (''verified owner '' @ owner_principalId owner @ '' approved promotion'') now = Inr a \<and> st' = (withTarget c' st1)\<lparr>tr_audit := tr_audit st1 @ [a]\<rparr>"
    using entered_find(1) [OF e]
    by (auto simp: promote_op_def liftp_seqp Let_def res_simps appendTrustAudit_Inr ret_def split: sum.splits)
  with e closed h entered_find(3) [OF e] trustAuditRecord_fields tr show ?thesis by fastforce
qed

lemma promote_op_moves:
  assumes "promote_op createLocalSyntheticTrustCapabilities t requested policy ev owner now st = (Inr c', st')"
  shows "moves_one t st st' \<and> findTarget t st' = Some c'"
proof -
  from promote_op_effect [OF assms] obtain c st1 a where
    e: "entered t now st c st1" and h: "circuitBreaker c = Breaker_closed" "rung (level c) = Some requested"
      "c' = c\<lparr>level := requested, updatedAt := now\<rparr>" "st' = (withTarget c' st1)\<lparr>tr_audit := tr_audit st @ [a]\<rparr>" by blast
  have "ladder_move (level c, circuitBreaker c) (level c', circuitBreaker c')"
    using move_up [OF h(2)] h by simp
  then show ?thesis using entered_find(1) [OF e] h by (intro moved_entry [OF e]) auto
qed

section \<open>The other operations\<close>

text \<open>The entry after an outcome of a canary action.\<close>

definition afterOutcome :: "TrustPromotionPolicy \<Rightarrow> TrustCanaryOutcome \<Rightarrow> string \<Rightarrow> TrustTargetState \<Rightarrow> TrustTargetState" where
  "afterOutcome policy outc now c =
     (let counted = countOutcome outc now c;
          demoted = (if outc = Outcome_violation \<and> violationResponse policy = Demote_to_approve then counted\<lparr>level := Approve\<rparr> else counted)
      in if breaches policy outc demoted then demoted\<lparr>circuitBreaker := Breaker_open\<rparr> else demoted)"

lemma countOutcome_kept [simp]: "target (countOutcome outc now c) = target c" "level (countOutcome outc now c) = level c"
  "circuitBreaker (countOutcome outc now c) = circuitBreaker c"
  by (simp_all add: countOutcome_def)

lemma afterOutcome_target [simp]: "target (afterOutcome policy outc now c) = target c"
  by (simp add: afterOutcome_def Let_def)

lemma entered_old: "entered t now st c st1 \<Longrightarrow> level c \<noteq> Simulate \<Longrightarrow> findTarget t st = Some c \<and> st1 = st"
  by (auto simp: entered_def)

lemma recordCanaryOutcome_op_effect:
  assumes "recordCanaryOutcome_op t policy outc reason now st = (Inr c', st')"
  shows "\<exists>c as. findTarget t st = Some c \<and> circuitBreaker c = Breaker_closed \<and> level c = Bounded_auto \<and>
    assigned (canaryDecision t policy) \<and> c' = afterOutcome policy outc now c \<and> st' = (withTarget c' st)\<lparr>tr_audit := tr_audit st @ as\<rparr>"
proof -
  from assms obtain c st1 where c: "findOrCreateTarget t now st = (Inr c, st1)"
    unfolding recordCanaryOutcome_op_def by (erule_tac seqp_Inr_step)
  note e = findOrCreateTarget_Inr [OF c]
  from assms c have h: "circuitBreaker c = Breaker_closed" "level c = Bounded_auto" "assigned (canaryDecision t policy)"
    by (cases "circuitBreaker c"; auto simp: recordCanaryOutcome_op_def throw_def split: if_splits)+
  have old: "findTarget t st = Some c" "st1 = st" using entered_old [OF e] h by simp_all
  from assms c h old have "c' = afterOutcome policy outc now c \<and> (\<exists>as. st' = (withTarget c' st)\<lparr>tr_audit := tr_audit st @ as\<rparr>)"
    by (auto simp: recordCanaryOutcome_op_def afterOutcome_def Let_def seqp_eq_Inr appendTrustAudit_Inr ret_def split: if_splits)
  with old h show ?thesis by blast
qed

lemma afterOutcome_moves:
  "level c = Bounded_auto \<Longrightarrow> circuitBreaker c = Breaker_closed \<Longrightarrow>
     (level (afterOutcome policy outc now c), circuitBreaker (afterOutcome policy outc now c)) = (level c, circuitBreaker c) \<or>
     ladder_move (level c, circuitBreaker c) (level (afterOutcome policy outc now c), circuitBreaker (afterOutcome policy outc now c))"
  using move_stop move_approval [of Bounded_auto]
  by (auto simp: afterOutcome_def Let_def)

lemma recordCanaryOutcome_op_moves:
  assumes "recordCanaryOutcome_op t policy outc reason now st = (Inr c', st')"
  shows "moves_one t st st' \<and> findTarget t st' = Some c'"
proof -
  from recordCanaryOutcome_op_effect [OF assms] obtain c as where
    h: "findTarget t st = Some c" "circuitBreaker c = Breaker_closed" "level c = Bounded_auto" "c' = afterOutcome policy outc now c"
      "st' = (withTarget c' st)\<lparr>tr_audit := tr_audit st @ as\<rparr>" by blast
  then have e: "entered t now st c st" by (simp add: entered_def)
  show ?thesis using entered_find(1) [OF e] h afterOutcome_moves by (intro moved_entry [OF e]) auto
qed

lemma rollbackToApproval_op_effect:
  assumes "rollbackToApproval_op t reason now st = (Inr c', st')"
  shows "\<exists>c st1 a. entered t now st c st1 \<and> c' = c\<lparr>level := Approve, updatedAt := now\<rparr> \<and>
    st' = (withTarget c' st1)\<lparr>tr_audit := tr_audit st @ [a]\<rparr>"
proof -
  from assms obtain c st1 where c: "findOrCreateTarget t now st = (Inr c, st1)"
    unfolding rollbackToApproval_op_def by (erule_tac seqp_Inr_step)
  note e = findOrCreateTarget_Inr [OF c]
  from assms c show ?thesis using entered_find(3) [OF e] e
    by (auto simp: rollbackToApproval_op_def Let_def seqp_eq_Inr appendTrustAudit_Inr ret_def)
qed

lemma rollbackToApproval_op_moves:
  assumes "rollbackToApproval_op t reason now st = (Inr c', st')"
  shows "moves_one t st st' \<and> findTarget t st' = Some c'"
proof -
  from rollbackToApproval_op_effect [OF assms] obtain c st1 a where e: "entered t now st c st1"
    and h: "c' = c\<lparr>level := Approve, updatedAt := now\<rparr>" "st' = (withTarget c' st1)\<lparr>tr_audit := tr_audit st @ [a]\<rparr>" by blast
  have "ladder_move (level c, circuitBreaker c) (level c', circuitBreaker c')"
    using move_approval h by simp
  then show ?thesis using entered_find(1) [OF e] h by (intro moved_entry [OF e]) auto
qed

text \<open>The operations that only read the entry.\<close>

lemma moves_one_audit [simp]: "moves_one t st (st'\<lparr>tr_audit := a\<rparr>) \<longleftrightarrow> moves_one t st st'"
  by (simp add: moves_one_def position_def)

lemma findOrCreateTarget_moves: "findOrCreateTarget t now st = (Inr c, st') \<Longrightarrow> moves_one t st st' \<and> findTarget t st' = Some c"
  using entered_one entered_find(2) findOrCreateTarget_Inr by blast

lemma assignCanary_op_moves: "assignCanary_op t policy now st = (Inr d, st') \<Longrightarrow> moves_one t st st'"
  by (auto simp: assignCanary_op_def seqp_eq_Inr ret_def throw_def split: if_splits dest: findOrCreateTarget_moves)

lemma compareShadow_op_moves: "compareShadow_op p1 a1 now st = (Inr d, st') \<Longrightarrow> moves_one (obs_target p1) st st'"
  by (auto simp: compareShadow_op_def Let_def seqp_eq_Inr ret_def liftp_def appendTrustAudit_Inr dest: findOrCreateTarget_moves)

lemma compareBoundedOutcome_op_moves: "compareBoundedOutcome_op p1 a1 now st = (Inr d, st') \<Longrightarrow> moves_one (out_target p1) st st'"
  by (auto simp: compareBoundedOutcome_op_def Let_def seqp_eq_Inr ret_def liftp_def appendTrustAudit_Inr dest: findOrCreateTarget_moves)

end
