(* ===== verification/Trust_Machine.thy ===== *)
theory Trust_Machine
  imports Trust_Laws
begin

text \<open>
  The trust ladder as a state machine on its store file: any sequence of calls of its public
  methods, failing ones included.  Each call leaves the file alone or applies one operation to
  the state the file holds.
\<close>

section \<open>The machine\<close>

datatype 'i trust_call =
    TInspect json clock
  | TAssignCanary json json clock
  | TPromote 'i json json json json clock
  | TCompareShadow json json clock
  | TCompareBounded json json clock
  | TRecordOutcome json json json json clock
  | TRollback 'i json json json clock

fun trust_run :: "('i \<Rightarrow> (trust_error, json) res) \<Rightarrow> 'i trust_call \<Rightarrow> store_file \<Rightarrow> store_file" where
  "trust_run auth (TInspect t now) f = snd (trust_inspect t now f)"
| "trust_run auth (TAssignCanary t p now) f = snd (assignCanary t p now f)"
| "trust_run auth (TPromote i t l p e now) f = snd (promote auth i t l p e now f)"
| "trust_run auth (TCompareShadow p a now) f = snd (compareShadow p a now f)"
| "trust_run auth (TCompareBounded p a now) f = snd (compareBoundedOutcome p a now f)"
| "trust_run auth (TRecordOutcome t p k r now) f = snd (recordCanaryOutcome t p k r now f)"
| "trust_run auth (TRollback i t p r now) f = snd (rollbackToApproval auth i t p r now f)"

inductive trust_trace :: "('i \<Rightarrow> (trust_error, json) res) \<Rightarrow> store_file \<Rightarrow> 'i trust_call list \<Rightarrow> store_file \<Rightarrow> bool"
  for auth :: "'i \<Rightarrow> (trust_error, json) res" where
  ttrace_nil: "trust_trace auth f [] f"
| ttrace_snoc: "trust_trace auth f cs f' \<Longrightarrow> trust_trace auth f (cs @ [c]) (trust_run auth c f')"

text \<open>The state the file holds, if the ladder can read it.\<close>

definition ladder_of :: "store_file \<Rightarrow> TrustLadderState option" where
  "ladder_of f = (case read_store trust_store f of Inl _ \<Rightarrow> None | Inr st \<Rightarrow> Some st)"

lemma ladder_of_eq: "ladder_of f = Some st \<longleftrightarrow> read_store trust_store f = Inr st"
  by (simp add: ladder_of_def split: sum.splits)

lemma ladder_NoFile [simp]: "ladder_of NoFile = Some emptyTrustState"
  by (simp add: ladder_of_def read_store_def trust_store_def)

lemma ladder_inv: "ladder_of f = Some st \<Longrightarrow> trust_inv st"
  by (auto simp: ladder_of_eq dest: trust_file.read_inv)

lemma ladder_written:
  assumes "trust_inv st" and "ladder_of (atomicWriteJson (enc_trust_state st)) = Some st'"
  shows "st' = st"
  using assms read_written [of "enc_trust_state st" trust_store] read_written_too_large [of trust_store "enc_trust_state st"]
    validateTrustState_enc [of st]
  by (cases "store_bytes (enc_trust_state st) \<le> maxStoreBytes trust_store") (auto simp: ladder_of_eq trust_store_def)

section \<open>What a call does\<close>

text \<open>One operation on the state the file holds.\<close>

definition applied :: "store_file \<Rightarrow> store_file \<Rightarrow> (string \<Rightarrow> 'a trust_op) \<Rightarrow> bool" where
  "applied f f' body =
     (\<exists>ms st x st'. ladder_of f = Some st \<and> body (toISOString ms) st = (Inr x, st') \<and> trust_inv st' \<and> f' = atomicWriteJson (enc_trust_state st'))"

lemma mutate_applied:
  assumes "\<And>t. keeps grows (body t)"
  shows "snd (trust_mutate body now f) = f \<or> applied f (snd (trust_mutate body now f)) body"
proof (cases "fst (trust_mutate body now f)")
  case (Inl e)
  then have "mutate_store trust_store body now f = (Inl e, snd (trust_mutate body now f))"
    by (simp add: trust_mutate_def prod_eq_iff)
  then show ?thesis by (auto dest: mutate_throw_unchanged)
next
  case (Inr x)
  then have m: "mutate_store trust_store body now f = (Inr x, snd (trust_mutate body now f))"
    by (simp add: trust_mutate_def prod_eq_iff)
  have "applied f (snd (trust_mutate body now f)) body"
  proof (rule trust_mutateE [OF m])
    show "trimmed st'" if "body t st = (Inr y, st')" "trimmed st" for t st y st'
      using keepsD [OF assms that(1)] that(2) by (auto simp: grows_def)
  qed (auto simp: applied_def ladder_of_eq)
  then show ?thesis ..
qed

lemmas applied_bodies = mutate_applied [OF findOrCreateTarget_grows] mutate_applied [OF trust_ops_grow(1)] mutate_applied [OF trust_ops_grow(2)]
  mutate_applied [OF trust_ops_grow(3)] mutate_applied [OF trust_ops_grow(4)] mutate_applied [OF trust_ops_grow(5)] mutate_applied [OF trust_ops_grow(6)]

text \<open>The target of a call, as the validators read it.\<close>

fun call_target :: "'i trust_call \<Rightarrow> json" where
  "call_target (TInspect t now) = t"
| "call_target (TAssignCanary t p now) = t"
| "call_target (TPromote i t l p e now) = t"
| "call_target (TCompareShadow (JObj p) a now) = jget p ''target''"
| "call_target (TCompareBounded (JObj p) a now) = jget p ''target''"
| "call_target (TRecordOutcome t p k r now) = t"
| "call_target (TRollback i t p r now) = t"
| "call_target _ = JUndef"

lemma run_inspect:
  "trust_run auth (TInspect j now) f = f \<or>
   (\<exists>t. validateTarget j = Inr t \<and> applied f (trust_run auth (TInspect j now) f) (findOrCreateTarget t))"
  using applied_bodies(1) by (auto simp: trust_inspect_def liftp_seqp split: sum.splits)

lemma run_assign:
  "trust_run auth (TAssignCanary j p now) f = f \<or>
   (\<exists>t policy. validateTarget j = Inr t \<and> validatePromotionPolicy p = Inr policy \<and> applied f (trust_run auth (TAssignCanary j p now) f) (assignCanary_op t policy))"
  using applied_bodies(2) by (auto simp: assignCanary_def liftp_seqp split: sum.splits)

lemma run_promote:
  "trust_run auth (TPromote i j l p e now) f = f \<or>
   (\<exists>t policy ev owner requested. validateTarget j = Inr t \<and> validatePromotionPolicy p = Inr policy \<and> validateEvidence e = Inr ev \<and>
      trustLevel l ''Trust promotion level'' = Inr requested \<and> verifiedOwner auth i = Inr owner \<and> owner_principalId owner = ownerPrincipalId policy \<and>
      applied f (trust_run auth (TPromote i j l p e now) f) (promote_op createLocalSyntheticTrustCapabilities t requested policy ev owner))"
  using applied_bodies(3) by (auto simp: promote_def liftp_seqp throw_def split: sum.splits)

lemma run_compareShadow:
  "trust_run auth (TCompareShadow p a now) f = f \<or>
   (\<exists>v1 v2. validateObservation p = Inr v1 \<and> validateObservation a = Inr v2 \<and> validateTarget (call_target (TCompareShadow p a now :: 'i trust_call)) = Inr (obs_target v1) \<and>
      applied f (trust_run (auth :: 'i \<Rightarrow> (trust_error, json) res) (TCompareShadow p a now) f) (compareShadow_op v1 v2))"
proof -
  have "validateObservation p = Inr v \<Longrightarrow> validateTarget (call_target (TCompareShadow p a now :: 'i trust_call)) = Inr (obs_target v)" for v
    unfolding validateObservation_def by (elim andThenE) (cases p, auto simp: v_object_eq)
  then show ?thesis using applied_bodies(4) by (auto simp: compareShadow_def liftp_seqp throw_def split: sum.splits)
qed

lemma run_compareBounded:
  "trust_run auth (TCompareBounded p a now) f = f \<or>
   (\<exists>v1 v2. validateOutcomeObservation p = Inr v1 \<and> validateOutcomeObservation a = Inr v2 \<and> validateTarget (call_target (TCompareBounded p a now :: 'i trust_call)) = Inr (out_target v1) \<and>
      applied f (trust_run (auth :: 'i \<Rightarrow> (trust_error, json) res) (TCompareBounded p a now) f) (compareBoundedOutcome_op v1 v2))"
proof -
  have "validateOutcomeObservation p = Inr v \<Longrightarrow> validateTarget (call_target (TCompareBounded p a now :: 'i trust_call)) = Inr (out_target v)" for v
    unfolding validateOutcomeObservation_def by (elim andThenE) (cases p, auto simp: v_object_eq)
  then show ?thesis using applied_bodies(5) by (auto simp: compareBoundedOutcome_def liftp_seqp throw_def split: sum.splits)
qed

lemma run_record:
  "trust_run auth (TRecordOutcome j p k r now) f = f \<or>
   (\<exists>t policy outc reason. validateTarget j = Inr t \<and> validatePromotionPolicy p = Inr policy \<and> canaryOutcome k = Inr outc \<and>
      v_text TLE ''Canary outcome reason'' 200 r = Inr reason \<and>
      applied f (trust_run auth (TRecordOutcome j p k r now) f) (recordCanaryOutcome_op t policy outc reason))"
  using applied_bodies(6) by (auto simp: recordCanaryOutcome_def liftp_seqp split: sum.splits)

lemma run_rollback:
  "trust_run auth (TRollback i j p r now) f = f \<or>
   (\<exists>t policy owner reason. validateTarget j = Inr t \<and> validatePromotionPolicy p = Inr policy \<and> verifiedOwner auth i = Inr owner \<and>
      owner_principalId owner = ownerPrincipalId policy \<and> v_text TLE ''Trust rollback reason'' 200 r = Inr reason \<and>
      applied f (trust_run auth (TRollback i j p r now) f) (rollbackToApproval_op t reason))"
  using applied_bodies(7) by (auto simp: rollbackToApproval_def liftp_seqp throw_def split: sum.splits)

text \<open>Every call: one target moves on the ladder, the audit grows.\<close>

definition ladder_call :: "TrustTarget \<Rightarrow> TrustLadderState \<Rightarrow> TrustLadderState \<Rightarrow> bool" where
  "ladder_call t st st' = (moves_one t st st' \<and> grows st st')"

lemma applied_call:
  assumes "applied f f' body" and "\<And>now. keeps grows (body now)" and "\<And>now st x st'. body now st = (Inr x, st') \<Longrightarrow> moves_one t st st'"
  shows "\<exists>st st'. ladder_of f = Some st \<and> trust_inv st' \<and> f' = atomicWriteJson (enc_trust_state st') \<and> ladder_call t st st'"
proof -
  from assms(1) obtain ms st x st' where h: "ladder_of f = Some st" "body (toISOString ms) st = (Inr x, st')" "trust_inv st'"
    "f' = atomicWriteJson (enc_trust_state st')" by (auto simp: applied_def)
  moreover have "moves_one t st st'" using assms(3) h(2) by blast
  moreover have "grows st st'" using keepsD [OF assms(2) h(2)] .
  ultimately show ?thesis by (auto simp: ladder_call_def)
qed

lemmas applied_calls = applied_call [OF _ findOrCreateTarget_grows conjunct1 [OF findOrCreateTarget_moves]]
  applied_call [OF _ trust_ops_grow(1) assignCanary_op_moves] applied_call [OF _ trust_ops_grow(2) conjunct1 [OF promote_op_moves]]
  applied_call [OF _ trust_ops_grow(3) compareShadow_op_moves] applied_call [OF _ trust_ops_grow(4) compareBoundedOutcome_op_moves]
  applied_call [OF _ trust_ops_grow(5) conjunct1 [OF recordCanaryOutcome_op_moves]]
  applied_call [OF _ trust_ops_grow(6) conjunct1 [OF rollbackToApproval_op_moves]]

lemma run_effect:
  "trust_run auth c f = f \<or>
   (\<exists>t st st'. validateTarget (call_target c) = Inr t \<and> ladder_of f = Some st \<and> trust_inv st' \<and>
      trust_run auth c f = atomicWriteJson (enc_trust_state st') \<and> ladder_call t st st')"
proof (cases c)
  case (TInspect j now)
  then show ?thesis using run_inspect [of auth j now f] by (auto simp del: trust_run.simps dest!: applied_calls(1))
next
  case (TAssignCanary j p now)
  then show ?thesis using run_assign [of auth j p now f] by (auto simp del: trust_run.simps dest!: applied_calls(2))
next
  case (TPromote i j l p e now)
  then show ?thesis using run_promote [of auth i j l p e now f] by (auto simp del: trust_run.simps dest!: applied_calls(3))
next
  case (TCompareShadow p a now)
  then show ?thesis using run_compareShadow [of auth p a now f] by (auto simp del: trust_run.simps dest!: applied_calls(4))
next
  case (TCompareBounded p a now)
  then show ?thesis using run_compareBounded [of auth p a now f] by (auto simp del: trust_run.simps dest!: applied_calls(5))
next
  case (TRecordOutcome j p k r now)
  then show ?thesis using run_record [of auth j p k r now f] by (auto simp del: trust_run.simps dest!: applied_calls(6))
next
  case (TRollback i j p r now)
  then show ?thesis using run_rollback [of auth i j p r now f] by (auto simp del: trust_run.simps dest!: applied_calls(7))
qed

section \<open>Invariants along a trace\<close>

definition ladder_holds :: "(TrustLadderState \<Rightarrow> bool) \<Rightarrow> store_file \<Rightarrow> bool" where
  "ladder_holds P f = (\<forall>st. ladder_of f = Some st \<longrightarrow> P st)"

lemma ladder_trace_holds:
  assumes "trust_trace auth f cs f'" and "ladder_holds P f" and "\<And>t st st'. ladder_call t st st' \<Longrightarrow> P st \<Longrightarrow> P st'"
  shows "ladder_holds P f'"
  using assms(1,2)
proof (induction rule: trust_trace.induct)
  case (ttrace_snoc f cs f' c)
  show ?case
  proof (cases "trust_run auth c f' = f'")
    case True
    with ttrace_snoc show ?thesis by simp
  next
    case False
    with run_effect [of auth c f'] obtain t st st' where "ladder_of f' = Some st" "trust_inv st'"
      "trust_run auth c f' = atomicWriteJson (enc_trust_state st')" "ladder_call t st st'" by auto
    moreover then have "P st'" using ttrace_snoc assms(3) by (auto simp: ladder_holds_def)
    ultimately show ?thesis using ladder_written by (auto simp: ladder_holds_def)
  qed
qed

text \<open>A set of places that every move stays inside is not left.\<close>

lemma moves_position:
  "moves_one t st st' \<Longrightarrow> position t' st' = position t' st \<or> ladder_step (position t' st) (position t' st')"
  by (cases "t' = t") (simp_all add: moves_one_def position_def)

lemma trace_places:
  assumes "trust_trace auth f cs f'" and "ladder_holds (\<lambda>st. \<exists>x \<in> S. position t st = Some x) f" and "\<And>x x'. ladder_move x x' \<Longrightarrow> x \<in> S \<Longrightarrow> x' \<in> S"
  shows "ladder_holds (\<lambda>st. \<exists>x \<in> S. position t st = Some x) f'"
  using assms(1,2)
proof (rule ladder_trace_holds)
  show "\<exists>x \<in> S. position t st' = Some x" if "ladder_call u st st'" "\<exists>x \<in> S. position t st = Some x" for u st st'
    using that assms(3) moves_position [of u st st' t] by (auto simp: ladder_call_def ladder_step_def at_entry_def)
qed

lemma trace_all_places:
  assumes "trust_trace auth f cs f'" and "ladder_holds (\<lambda>st. \<forall>x. position t st = Some x \<longrightarrow> x \<in> S) f" and "(Simulate, Breaker_closed) \<in> S"
    and "\<And>x x'. ladder_move x x' \<Longrightarrow> x \<in> S \<Longrightarrow> x' \<in> S"
  shows "ladder_holds (\<lambda>st. \<forall>x. position t st = Some x \<longrightarrow> x \<in> S) f'"
  using assms(1,2)
proof (rule ladder_trace_holds)
  show "\<forall>x. position t st' = Some x \<longrightarrow> x \<in> S" if "ladder_call u st st'" "\<forall>x. position t st = Some x \<longrightarrow> x \<in> S" for u st st'
    using that assms(3,4) moves_position [of u st st' t]
    by (cases "position t st") (auto simp: ladder_call_def ladder_step_def at_entry_def)
qed

end
