(* ===== verification/Store_Size.thy ===== *)
theory Store_Size
  imports Store
begin

text \<open>
  The size of what a store writes.  \<open>atomicWriteJson\<close> writes a value without looking at its
  size, and a store refuses to read a file over its limit, so whether a store can be read again
  after a write depends on the length of the indented text: here it is bounded from both sides.
\<close>

section \<open>An upper bound\<close>

fun json_room :: "nat \<Rightarrow> json \<Rightarrow> nat"
  and room_elems :: "nat \<Rightarrow> json list \<Rightarrow> nat"
  and room_props :: "nat \<Rightarrow> fields \<Rightarrow> nat" where
  "json_room d JUndef = 0"
| "json_room d JNull = 4"
| "json_room d (JBool b) = 5"
| "json_room d (JInt i) = length (int_text i)"
| "json_room d (JFrac t) = length t"
| "json_room d (JStr s) = 6 * length s + 2"
| "json_room d (JArr vs) = room_elems (d + 2) vs + 2 * d + 8"
| "json_room d (JObj ob) = room_props (d + 2) ob + 2 * d + 8"
| "room_elems d [] = 0"
| "room_elems d (v # vs) = json_room d v + d + 8 + room_elems d vs"
| "room_props d [] = 0"
| "room_props d ((k, v) # ob) = 6 * length k + json_room d v + d + 10 + room_props d ob"

lemma join_length: "length (join sep xs) \<le> (\<Sum>x\<leftarrow>xs. length x + length sep)"
proof (induction xs)
  case (Cons x xs)
  then show ?case by (cases xs) simp_all
qed simp

lemma json_string_length: "length (json_string s) \<le> 6 * length s + 2" "length s + 2 \<le> length (json_string s)"
proof -
  have e: "length (json_escape_char c) \<le> 6" "1 \<le> length (json_escape_char c)" for c by (simp_all add: json_escape_char_def Let_def)
  have "length (concat (map json_escape_char s)) \<le> 6 * length s \<and> length s \<le> length (concat (map json_escape_char s))"
  proof (induction s)
    case (Cons c s)
    then show ?case using e [of c] by simp
  qed simp
  then show "length (json_string s) \<le> 6 * length s + 2" "length s + 2 \<le> length (json_string s)" by (simp_all add: json_string_def)
qed

lemma newline_size [simp]: "length (newline d) = d + 1"
  by (simp add: newline_def)

lemma pretty_room:
  "length (case pretty d v of None \<Rightarrow> ''null'' | Some t \<Rightarrow> t) \<le> json_room d v + 4"
  "(\<Sum>x\<leftarrow>pretty_elems d vs. length x + (d + 2)) \<le> room_elems d vs"
  "(\<Sum>x\<leftarrow>pretty_props d ob. length x + (d + 2)) \<le> room_props d ob"
proof (induction d v and d vs and d ob rule: pretty_pretty_elems_pretty_props.induct)
  case (6 d s)
  then show ?case using json_string_length(1) [of s] by simp
next
  case (7 d vs)
  then show ?case using join_length [of "'','' @ newline (d + 2)" "pretty_elems (d + 2) vs"]
    by (cases "vs = []") (simp_all add: add.commute add.left_commute)
next
  case (8 d ob)
  then show ?case using join_length [of "'','' @ newline (d + 2)" "pretty_props (d + 2) ob"]
    by (cases "pretty_props (d + 2) ob = []") (simp_all add: Let_def add.commute add.left_commute)
next
  case (12 d k v ob)
  then show ?case using json_string_length(1) [of k] by (cases "pretty d v") simp_all
qed simp_all

lemma utf8_length_le: "utf8_length s \<le> 2 * length s"
  by (induction s) (simp_all add: utf8_length_def)

lemma store_bytes_room: "store_bytes v \<le> 2 * json_room 0 v + 10"
proof (cases "pretty 0 v")
  case (Some t)
  with pretty_room(1) [of 0 v] utf8_length_le [of t] show ?thesis by (simp add: store_bytes_def)
qed (simp add: store_bytes_def)

lemma nat_digits_length: "n < 10 ^ Suc k \<Longrightarrow> length (nat_digits n) \<le> Suc k"
proof (induction k arbitrary: n)
  case 0
  then show ?case by (simp add: nat_digits.simps [of n])
next
  case (Suc k)
  then have "n div 10 < 10 ^ Suc k" by (auto intro: less_mult_imp_div_less)
  then show ?case using Suc.IH [of "n div 10"] by (simp add: nat_digits.simps [of n])
qed

lemma is_iso_length: "is_iso s \<Longrightarrow> length s = 24"
  by (auto simp: is_iso_def elim: iso_fields.elims)

section \<open>A lower bound\<close>

fun json_least :: "json \<Rightarrow> nat"
  and least_elems :: "json list \<Rightarrow> nat"
  and least_props :: "fields \<Rightarrow> nat" where
  "json_least (JStr s) = length s"
| "json_least (JArr vs) = least_elems vs"
| "json_least (JObj ob) = least_props ob"
| "json_least _ = 0"
| "least_elems [] = 0"
| "least_elems (v # vs) = json_least v + least_elems vs"
| "least_props [] = 0"
| "least_props ((k, v) # ob) = json_least v + least_props ob"

lemma join_length_ge: "(\<Sum>x\<leftarrow>xs. length x) \<le> length (join sep xs)"
proof (induction xs)
  case (Cons x xs)
  then show ?case by (cases xs) simp_all
qed simp

lemma pretty_least:
  "pretty d v = None \<Longrightarrow> json_least v = 0"
  "json_least v \<le> length (case pretty d v of None \<Rightarrow> '''' | Some t \<Rightarrow> t)"
  "least_elems vs \<le> (\<Sum>x\<leftarrow>pretty_elems d vs. length x)"
  "least_props ob \<le> (\<Sum>x\<leftarrow>pretty_props d ob. length x)"
proof -
  show "pretty d v = None \<Longrightarrow> json_least v = 0" by (cases v) (simp_all add: Let_def)
  show "json_least v \<le> length (case pretty d v of None \<Rightarrow> '''' | Some t \<Rightarrow> t)" "least_elems vs \<le> (\<Sum>x\<leftarrow>pretty_elems d vs. length x)"
    "least_props ob \<le> (\<Sum>x\<leftarrow>pretty_props d ob. length x)"
  proof (induction d v and d vs and d ob rule: pretty_pretty_elems_pretty_props.induct)
    case (6 d s)
    then show ?case using json_string_length(2) [of s] by simp
  next
    case (7 d vs)
    then show ?case using join_length_ge [of "pretty_elems (d + 2) vs" "'','' @ newline (d + 2)"] by (cases "vs = []") simp_all
  next
    case (8 d ob)
    then show ?case using join_length_ge [of "pretty_props (d + 2) ob" "'','' @ newline (d + 2)"]
      by (cases "pretty_props (d + 2) ob = []") (simp_all add: Let_def)
  next
    case (10 d v vs)
    then show ?case by (cases "pretty d v") simp_all
  next
    case (12 d k v ob)
    then show ?case by (cases "pretty d v") simp_all
  qed simp_all
qed

lemma store_bytes_least: "json_least v \<le> store_bytes v"
proof (cases "pretty 0 v")
  case None
  then show ?thesis using pretty_least(1) by simp
next
  case (Some t)
  then show ?thesis using pretty_least(2) [of v 0] utf8_length_ge [of t] by (simp add: store_bytes_def)
qed

lemma least_elems_ge: "(\<And>v. v \<in> set vs \<Longrightarrow> n \<le> json_least v) \<Longrightarrow> n * length vs \<le> least_elems vs"
proof (induction vs)
  case (Cons v vs)
  have "n \<le> json_least v" "n * length vs \<le> least_elems vs" using Cons by simp_all
  then show ?case by simp
qed simp

lemma least_props_append [simp]: "least_props (xs @ ys) = least_props xs + least_props ys"
  by (induction xs) auto

end
