(* ===== verification/Trust_Live.thy ===== *)
theory Trust_Live
  imports Trust_Machine Safety_Kill_Props Store_Size
begin

text \<open>
  The steps of a trust operation that cannot fail: an audit record with valid texts and room is
  appended, and the state stays valid, so the operation is written.
\<close>

section \<open>Audit records are appended\<close>

lemma ok_ident_targetKey [simp]: "ok_ident (targetKey t)"
proof -
  let ?h = "take 32 (sha256 (the (canonical (enc_target t))))"
  have "list_all is_hex (sha256 (the (canonical (enc_target t))))" using ok_hash_sha256 by (simp add: ok_hash_iff)
  then have hex: "list_all is_hex ?h" by (auto simp: list_all_iff dest: in_set_takeD)
  have "is_hex CHR ''a''" "is_hex CHR ''e''" by code_simp+
  with hex have k: "list_all key_char (targetKey t)" by (auto simp: targetKey_def key_char_def list_all_iff)
  have "is_hex c \<Longrightarrow> is_lower c \<or> is_digit c" for c by (auto simp: is_hex_def is_lower_def between_def code_def)
  with hex have "test_full IDENTIFIER (targetKey t)"
    unfolding IDENTIFIER_iff targetKey_def by (auto simp: list_all_iff) (auto simp: is_lower_def between_def code_def)
  then show ?thesis using key_chars_sanitize [OF k] by (simp add: ok_ident_def)
qed

lemma trust_chain_snoc:
  "trust_chain p n (xs @ [a]) \<longleftrightarrow>
     trust_chain p n xs \<and> tr_sequence a = n + length xs \<and> tr_previousHash a = (if xs = [] then p else tr_recordHash (last xs))"
  by (induction xs arbitrary: p n) auto

lemma ok_lastTrustHash: "trust_inv st \<Longrightarrow> ok_hash (lastTrustHash st)"
proof -
  assume inv: "trust_inv st"
  have "ok_hash (tr_recordHash a)" if "ok_trust_audit a" for a
    using that trust_hash_total [of "tr_sequence a" "tr_event a" "tr_targetKey a" "fromLevel a" "toLevel a" "tr_reason a" "tr_timestamp a" "tr_previousHash a"]
    by (auto simp: ok_trust_audit_def trust_audit_hash_def)
  then show ?thesis using inv by (auto simp: lastTrustHash_def trust_inv_def list_all_iff)
qed

lemma appendTrustAudit_total:
  assumes "trust_inv st" and "length (tr_audit st) < TRUST_MAX_AUDIT" and "ok_text 80 ev" and "ok_text 200 reason" and "is_iso ts"
  shows "\<exists>a. appendTrustAudit ev c fl dl reason ts st = (Inr (), st\<lparr>tr_audit := tr_audit st @ [a]\<rparr>) \<and> trust_inv (st\<lparr>tr_audit := tr_audit st @ [a]\<rparr>)"
proof -
  obtain h where h: "trust_hash (trust_audit_base (length (tr_audit st) + 1) ev (targetKey (target c)) fl dl reason ts (lastTrustHash st)) = Inr h"
    using trust_hash_total by blast
  define a where "a = \<lparr>tr_sequence = length (tr_audit st) + 1, tr_event = ev, tr_targetKey = targetKey (target c), fromLevel = fl, toLevel = dl,
     tr_reason = reason, tr_timestamp = ts, tr_previousHash = lastTrustHash st, tr_recordHash = h\<rparr>"
  have "trustAuditRecord st ev (target c) fl dl reason ts = Inr a"
    using assms(3,4) h by (simp add: trustAuditRecord_def a_def v_text_accepts)
  moreover have "ok_trust_audit a" using assms h ok_lastTrustHash [OF assms(1)] by (simp add: a_def ok_trust_audit_def trust_audit_hash_def)
  then have "trust_inv (st\<lparr>tr_audit := tr_audit st @ [a]\<rparr>)"
    using assms(1,2) by (simp add: trust_inv_def trust_chain_snoc) (simp add: a_def lastTrustHash_def)
  ultimately show ?thesis using assms(2) appendTrustAudit_Inr by blast
qed

section \<open>Entries are put back\<close>

lemma updateFirst_keys:
  "k (target c) = k t \<Longrightarrow> map (\<lambda>s. k (target s)) (updateFirst (\<lambda>s. target s = t) (\<lambda>_. c) xs) = map (\<lambda>s. k (target s)) xs"
  by (induction xs) auto

lemma updateFirst_all: "list_all P xs \<Longrightarrow> P c \<Longrightarrow> list_all P (updateFirst Q (\<lambda>_. c) xs)"
  by (induction xs) auto

lemma withTarget_inv: "trust_inv st \<Longrightarrow> ok_target_state c \<Longrightarrow> trust_inv (withTarget c st)"
  using map_eq_imp_length_eq [OF updateFirst_keys [of targetKey c "target c" "targets st"]]
  by (simp add: trust_inv_def withTarget_def updateFirst_keys updateFirst_all)

lemma countOutcome_ok:
  "ok_target_state c \<Longrightarrow> observed c < MILLION \<Longrightarrow> is_iso now \<Longrightarrow> ok_target_state (countOutcome outc now c)"
  by (auto simp: ok_target_state_def countOutcome_def)

lemma ok_target_state_level [simp]: "ok_target_state (c\<lparr>level := l\<rparr>) = ok_target_state c"
  "ok_target_state (c\<lparr>circuitBreaker := b\<rparr>) = ok_target_state c"
  by (simp_all add: ok_target_state_def)

section \<open>A violation is recorded\<close>

lemma trust_texts:
  "ok_text 80 ''canary.outcome''" "ok_text 80 ''trust.auto_demoted''" "ok_text 80 ''canary.circuit_opened''"
  "ok_text 80 ''trust.rollback_to_approval''" "ok_text 80 ''trust.promoted''"
  "ok_text 200 ''policy violation automatically returned trust to approval mode''"
  "ok_text 200 ''policy violation opened the configured circuit breaker''"
  "ok_text 200 ''configured canary stop condition was breached''"
  by (rule ok_text_unmarked; code_simp)+

text \<open>Putting an entry and recording it, the step the operations repeat.\<close>

definition putRecord :: "TrustTargetState \<Rightarrow> string \<Rightarrow> TrustLevel option \<Rightarrow> TrustLevel option \<Rightarrow> string \<Rightarrow> string \<Rightarrow> unit trust_op" where
  "putRecord c ev fl dl reason now = seqp (putTarget c) (\<lambda>_. appendTrustAudit ev c fl dl reason now)"

lemma putRecord_total:
  assumes "trust_inv st" and "ok_target_state c" and "length (tr_audit st) < TRUST_MAX_AUDIT" and "ok_text 80 ev" and "ok_text 200 reason" and "is_iso now"
  shows "\<exists>st'. putRecord c ev fl dl reason now st = (Inr (), st') \<and> trust_inv st' \<and> length (tr_audit st') = length (tr_audit st) + 1"
  using appendTrustAudit_total [OF withTarget_inv [OF assms(1,2)], of ev reason now c fl dl] assms(3-6)
  by (auto simp: putRecord_def seqp_def)

lemma recordCanaryOutcome_op_steps:
  "recordCanaryOutcome_op t policy outc reason now =
     seqp (findOrCreateTarget t now) (\<lambda>current.
     if circuitBreaker current = Breaker_open
     then throw (TLE ''Canary circuit breaker is open; no further canary action is allowed.'')
     else if level current \<noteq> Bounded_auto then throw (TLE ''Canary outcomes require bounded-auto trust.'')
     else if \<not> assigned (canaryDecision t policy)
     then throw (TLE (''Canary scope denies outcome recording: '' @ dec_reason (canaryDecision t policy)))
     else
       let counted = countOutcome outc now current;
           demote = (outc = Outcome_violation \<and> violationResponse policy = Demote_to_approve);
           demoted = (if demote then counted\<lparr>level := Approve\<rparr> else counted)
       in
       seqp (putRecord counted ''canary.outcome'' None None reason now) (\<lambda>_.
       seqp (if demote then putRecord demoted ''trust.auto_demoted'' (Some (level counted)) (Some Approve)
                    ''policy violation automatically returned trust to approval mode'' now
             else ret ()) (\<lambda>_.
       if breaches policy outc demoted
       then seqp (putRecord (demoted\<lparr>circuitBreaker := Breaker_open\<rparr>) ''canary.circuit_opened'' None None
           (if outc = Outcome_violation \<and> violationResponse policy = Open_circuit_breaker
            then ''policy violation opened the configured circuit breaker'' else ''configured canary stop condition was breached'') now) (\<lambda>_.
         ret (demoted\<lparr>circuitBreaker := Breaker_open\<rparr>))
       else ret demoted)))"
  unfolding recordCanaryOutcome_op_def putRecord_def seqp_assoc ..

lemma seqp_run: "p s = (Inr x, s') \<Longrightarrow> seqp p k s = k x s'"
  by (simp add: seqp_def)

lemma recordCanaryOutcome_op_total:
  assumes "trust_inv st" and "findTarget t st = Some c" and "circuitBreaker c = Breaker_closed" and "level c = Bounded_auto"
    and "assigned (canaryDecision t policy)" and "observed c < MILLION" and "length (tr_audit st) + 3 \<le> TRUST_MAX_AUDIT"
    and "ok_text 200 reason" and "is_iso now"
  shows "\<exists>c' st'. recordCanaryOutcome_op t policy outc reason now st = (Inr c', st') \<and> trust_inv st'"
proof -
  let ?d = "outc = Outcome_violation \<and> violationResponse policy = Demote_to_approve"
  let ?c1 = "countOutcome outc now c"
  let ?c2 = "if ?d then ?c1\<lparr>level := Approve\<rparr> else ?c1"
  let ?c3 = "?c2\<lparr>circuitBreaker := Breaker_open\<rparr>"
  let ?r = "if outc = Outcome_violation \<and> violationResponse policy = Open_circuit_breaker
            then ''policy violation opened the configured circuit breaker'' else ''configured canary stop condition was breached''"
  have ok: "ok_target_state ?c1" using countOutcome_ok assms findTarget_Some [OF assms(2)] by (auto simp: trust_inv_def list_all_iff)
  obtain st1 where 1: "putRecord ?c1 ''canary.outcome'' None None reason now st = (Inr (), st1)" "trust_inv st1" "length (tr_audit st1) = length (tr_audit st) + 1"
    using putRecord_total [OF assms(1) ok, of "''canary.outcome''" reason now None None] assms(7-9) trust_texts by auto
  obtain st2 where 2: "(if ?d then putRecord ?c2 ''trust.auto_demoted'' (Some (level ?c1)) (Some Approve)
      ''policy violation automatically returned trust to approval mode'' now else ret ()) st1 = (Inr (), st2)" "trust_inv st2"
      "length (tr_audit st2) \<le> length (tr_audit st) + 2"
    using putRecord_total [OF 1(2), of ?c2 "''trust.auto_demoted''" "''policy violation automatically returned trust to approval mode''" now
        "Some (level ?c1)" "Some Approve"] ok assms(7,9) trust_texts 1(2,3) by (cases ?d) (auto simp: ret_def)
  have ok3: "ok_target_state ?c3" using ok by auto
  have why: "ok_text 200 ?r" using trust_texts by simp
  obtain st3 where 3: "putRecord ?c3 ''canary.circuit_opened'' None None ?r now st2 = (Inr (), st3)" "trust_inv st3"
    using putRecord_total [OF 2(2) ok3 _ trust_texts(3) why assms(9), of None None] assms(7) 2(3) by (auto simp del: ok_target_state_level)
  have found: "findOrCreateTarget t now st = (Inr c, st)" using assms(2) by (simp add: findOrCreateTarget_def getp_def ret_def)
  have "recordCanaryOutcome_op t policy outc reason now st =
    (if breaches policy outc ?c2 then seqp (putRecord ?c3 ''canary.circuit_opened'' None None ?r now) (\<lambda>_. ret ?c3) else ret ?c2) st2"
    unfolding recordCanaryOutcome_op_steps Let_def seqp_run [where p = "findOrCreateTarget t now" and s = st, OF found] using assms(3-5)
    by (simp only: seqp_run [where p = "putRecord ?c1 ''canary.outcome'' None None reason now" and s = st, OF 1(1)]
       seqp_run [where p = "if ?d then putRecord ?c2 ''trust.auto_demoted'' (Some (level ?c1)) (Some Approve)
      ''policy violation automatically returned trust to approval mode'' now else ret ()" and s = st1, OF 2(1)] CircuitBreaker.distinct if_False not_True_eq_False simp_thms)
  then have "recordCanaryOutcome_op t policy outc reason now st = (if breaches policy outc ?c2 then (Inr ?c3, st3) else (Inr ?c2, st2))"
    by (simp only: seqp_run [where p = "putRecord ?c3 ''canary.circuit_opened'' None None ?r now" and s = st2, OF 3(1)] ret_def split: if_split) blast
  then show ?thesis using 2(2) 3(2) by (cases "breaches policy outc ?c2") auto
qed

section \<open>The size of the store\<close>

lemma room_target: "ok_target t \<Longrightarrow> json_room d (enc_target t) \<le> 2500 + 6 * d"
  using ok_ident_length [of "tenantId t"] ok_ident_length [of "resourceId t"]
  by (simp add: ok_target_def enc_target_def target_fields_def)

lemma count_text: "n \<le> MILLION \<Longrightarrow> length (int_text (int n)) \<le> 7"
  using nat_digits_length [of n 6] by (simp add: int_text_def MILLION_def)

lemma name_lengths: "length (level_name l) \<le> 12" "length (breaker_name b) \<le> 6"
  by (cases l; simp) (cases b; simp)

lemma room_target_state: "ok_target_state s \<Longrightarrow> json_room 4 (enc_target_state s) \<le> 5000"
  using room_target [of "target s" 6] count_text [of "observed s"] count_text [of "violations s"] count_text [of "errors s"]
    name_lengths(1) [of "level s"] name_lengths(2) [of "circuitBreaker s"]
  by (simp add: ok_target_state_def enc_target_state_def is_iso_length)

lemma audit_hashes: "ok_trust_audit r \<Longrightarrow> length (tr_previousHash r) = 64 \<and> length (tr_recordHash r) = 64"
  using trust_hash_total [of "tr_sequence r" "tr_event r" "tr_targetKey r" "fromLevel r" "toLevel r" "tr_reason r" "tr_timestamp r" "tr_previousHash r"]
  by (auto simp: ok_trust_audit_def trust_audit_hash_def ok_hash_iff)

lemma room_trust_audit: "ok_trust_audit r \<Longrightarrow> json_room 4 (enc_trust_audit r) \<le> 5000"
  using count_text [of "tr_sequence r"] ok_ident_length [of "tr_targetKey r"] audit_hashes [of r]
    name_lengths(1) [of "the (fromLevel r)"] name_lengths(1) [of "the (toLevel r)"]
  by (cases "fromLevel r"; cases "toLevel r")
    (simp_all add: ok_trust_audit_def enc_trust_audit_def trust_audit_base_def opt_prop_def ok_text_def is_iso_length MILLION_def TRUST_MAX_AUDIT_def)

lemma room_elems_le: "(\<And>v. v \<in> set vs \<Longrightarrow> json_room d v \<le> n) \<Longrightarrow> room_elems d vs \<le> (n + d + 8) * length vs"
proof (induction vs)
  case (Cons v vs)
  have "json_room d v \<le> n" "room_elems d vs \<le> (n + d + 8) * length vs" using Cons by simp_all
  then show ?case by simp
qed simp

text \<open>A small ladder can be read back, a ladder with many records cannot.\<close>

lemma ladder_small:
  assumes "trust_inv st" and "length (targets st) + length (tr_audit st) \<le> 50"
  shows "ladder_of (atomicWriteJson (enc_trust_state st)) = Some st"
proof -
  have t: "room_elems 4 (map enc_target_state (targets st)) \<le> 5012 * length (targets st)"
    using assms(1) room_elems_le [of "map enc_target_state (targets st)" 4 5000] by (auto simp: trust_inv_def list_all_iff intro: room_target_state)
  have a: "room_elems 4 (map enc_trust_audit (tr_audit st)) \<le> 5012 * length (tr_audit st)"
    using assms(1) room_elems_le [of "map enc_trust_audit (tr_audit st)" 4 5000] by (auto simp: trust_inv_def list_all_iff intro: room_trust_audit)
  have one: "int_text 1 = ''1''" by code_simp
  have four: "Suc (Suc (Suc (Suc 0))) = 4" by simp
  have "length (tr_auditAnchor st) = 64" using assms(1) by (simp add: trust_inv_def ok_hash_iff)
  then have "json_room 0 (enc_trust_state st) \<le> 5012 * (length (targets st) + length (tr_audit st)) + 1000"
    using t a by (simp add: enc_trust_state_def one four)
  then have "store_bytes (enc_trust_state st) \<le> maxStoreBytes trust_store"
    using assms(2) store_bytes_room [of "enc_trust_state st"] by (simp add: trust_store_def TRUST_MAX_STORE_BYTES_def)
  then show ?thesis
    using read_written [of "enc_trust_state st" trust_store] validateTrustState_enc [OF assms(1)] by (simp add: ladder_of_eq trust_store_def)
qed

lemma ladder_large:
  assumes "trust_inv st" and "8192 \<le> length (tr_audit st)"
  shows "ladder_of (atomicWriteJson (enc_trust_state st)) = None"
proof -
  have "129 \<le> json_least (enc_trust_audit r)" if "r \<in> set (tr_audit st)" for r
    using assms(1) that audit_hashes [of r] is_iso_length [of "tr_timestamp r"]
    by (auto simp: trust_inv_def list_all_iff ok_trust_audit_def enc_trust_audit_def trust_audit_base_def)
  then have "129 * length (tr_audit st) \<le> least_elems (map enc_trust_audit (tr_audit st))"
    using least_elems_ge [of "map enc_trust_audit (tr_audit st)" 129] by auto
  also have "\<dots> \<le> json_least (enc_trust_state st)" by (simp add: enc_trust_state_def)
  also have "\<dots> \<le> store_bytes (enc_trust_state st)" by (rule store_bytes_least)
  finally have "store_bytes (enc_trust_state st) > maxStoreBytes trust_store"
    using assms(2) by (simp add: trust_store_def TRUST_MAX_STORE_BYTES_def)
  from read_written_too_large [OF this] show ?thesis by (simp add: ladder_of_def)
qed

section \<open>A rollback succeeds\<close>

text \<open>The reason is a text the owner gave; the target is on the ladder, or the ladder is empty.\<close>

lemma findOrCreateTarget_total:
  assumes "trust_inv st" and "ok_target t" and "is_iso now" and "targets st = [] \<or> findTarget t st \<noteq> None"
  shows "\<exists>c st1. findOrCreateTarget t now st = (Inr c, st1) \<and> trust_inv st1 \<and> ok_target_state c \<and> tr_audit st1 = tr_audit st \<and>
    length (targets st1) = max 1 (length (targets st))"
proof (cases "findTarget t st")
  case (Some c)
  then have "ok_target_state c" "targets st \<noteq> []" using assms(1) findTarget_Some [OF Some] by (auto simp: trust_inv_def list_all_iff)
  then show ?thesis using assms(1) Some by (auto simp: findOrCreateTarget_def getp_def ret_def Suc_le_eq max_def)
next
  case None
  then have e: "targets st = []" using assms(4) by simp
  have "ok_target_state (newTarget t now)" using assms(2,3) by (simp add: ok_target_state_def newTarget_def)
  then show ?thesis using assms(1) None e
    by (simp add: findOrCreateTarget_def getp_def ret_def modifyp_def seqp_def MAX_TARGETS_def trust_inv_def)
qed

lemma rollbackToApproval_op_total:
  assumes "trust_inv st" and "ok_target t" and "is_iso now" and "ok_text 200 reason" and "length (tr_audit st) < TRUST_MAX_AUDIT"
    and "targets st = [] \<or> findTarget t st \<noteq> None"
  shows "\<exists>c st'. rollbackToApproval_op t reason now st = (Inr c, st') \<and> trust_inv st' \<and> length (tr_audit st') = length (tr_audit st) + 1 \<and>
    length (targets st') = max 1 (length (targets st))"
proof -
  obtain c st1 where c: "findOrCreateTarget t now st = (Inr c, st1)" "trust_inv st1" "ok_target_state c" "tr_audit st1 = tr_audit st"
    "length (targets st1) = max 1 (length (targets st))"
    using findOrCreateTarget_total [OF assms(1-3,6)] by blast
  let ?c = "c\<lparr>level := Approve, updatedAt := now\<rparr>"
  have "ok_target_state ?c" using c(3) assms(3) by (simp add: ok_target_state_def)
  then have inv: "trust_inv (withTarget ?c st1)" using c(2) by (intro withTarget_inv)
  obtain a where a: "appendTrustAudit ''trust.rollback_to_approval'' ?c (Some (level c)) (Some Approve) reason now (withTarget ?c st1) =
    (Inr (), (withTarget ?c st1)\<lparr>tr_audit := tr_audit st @ [a]\<rparr>)" "trust_inv ((withTarget ?c st1)\<lparr>tr_audit := tr_audit st @ [a]\<rparr>)"
    using appendTrustAudit_total [OF inv _ trust_texts(4) assms(4,3), of ?c "Some (level c)" "Some Approve"] assms(5) c(4) by auto
  have n: "length (targets (withTarget ?c st1)) = length (targets st1)"
    using map_eq_imp_length_eq [OF updateFirst_keys [of targetKey ?c "target c" "targets st1"]] by (simp add: withTarget_def)
  from c(1) a(1) have "rollbackToApproval_op t reason now st = (Inr ?c, (withTarget ?c st1)\<lparr>tr_audit := tr_audit st @ [a]\<rparr>)"
    by (simp add: rollbackToApproval_op_def Let_def seqp_def ret_def)
  with a(2) n c(5) show ?thesis by simp
qed

end
