(* ===== verification/Trust_Props.thy ===== *)
theory Trust_Props
  imports Trust_Live
begin

text \<open>
  What the trust ladder promises, over sequences of calls on its store file.  The witnesses use one
  target, one owner and one promotion policy.
\<close>

section \<open>An example\<close>

definition demo_target :: TrustTarget where
  "demo_target = \<lparr>tenantId = ''acme'', resourceId = ''shop''\<rparr>"

definition demo_owner :: "unit \<Rightarrow> (trust_error, json) res" where
  "demo_owner u = Inr (JObj [(''id'', JStr ''op1''), (''principalId'', JStr ''alice'')])"

definition demo_promotion :: TrustPromotionPolicy where
  "demo_promotion = \<lparr>tp_id = ''k1'', ownerPrincipalId = ''alice'', minimumRuns = 3, requiredEvalIds = [''refund''],
     maxViolationRateBps = 100, maxErrorRateBps = 500, evidenceFreshnessMs = 60000, canary_tenantIds = [''acme''], canary_resourceIds = [],
     percentageBps = 10000, maxViolations = 2, maxErrors = 3, violationResponse = Demote_to_approve\<rparr>"

definition demo_promotion_json :: json where
  "demo_promotion_json = JObj [(''schemaVersion'', JNat 1), (''kind'', JStr ''ghostapi.trust-promotion-policy''), (''id'', JStr ''k1''),
     (''ownerPrincipalId'', JStr ''alice''), (''automaticPromotion'', JBool False), (''minimumRuns'', JNat 3),
     (''requiredEvalIds'', JArr [JStr ''refund'']), (''maxViolationRateBps'', JNat 100), (''maxErrorRateBps'', JNat 500),
     (''evidenceFreshnessMs'', JNat 60000),
     (''canary'', JObj [(''tenantIds'', JArr [JStr ''acme'']), (''resourceIds'', JArr []), (''percentageBps'', JNat 10000)]),
     (''stopConditions'', JObj [(''maxViolations'', JNat 2), (''maxErrors'', JNat 3)]), (''violationResponse'', JStr ''demote_to_approve'')]"

definition demo_evidence :: TrustPromotionEvidence where
  "demo_evidence = \<lparr>runCount = 5, ev_violations = 0, ev_errors = 0,
     evals = [\<lparr>eval_id = ''refund'', eval_passed = True, eval_completedAt = toISOString 0\<rparr>], ev_observedAt = toISOString 0\<rparr>"

definition demo_evidence_json :: json where
  "demo_evidence_json = JObj [(''runCount'', JNat 5), (''violations'', JNat 0), (''errors'', JNat 0),
     (''evals'', JArr [JObj [(''id'', JStr ''refund''), (''status'', JStr ''passed''), (''completedAt'', JStr (toISOString 0))]]),
     (''observedAt'', JStr (toISOString 0))]"

lemma demo_target_ok [simp]: "ok_target demo_target"
  by (simp add: ok_target_def demo_target_def demo_idents)

lemma demo_validated:
  "validateTarget (enc_target demo_target) = Inr demo_target"
  "validatePromotionPolicy demo_promotion_json = Inr demo_promotion"
  "validateEvidence demo_evidence_json = Inr demo_evidence"
  "verifiedOwner demo_owner () = Inr \<lparr>owner_id = ''op1'', owner_principalId = ''alice''\<rparr>"
  "v_text TLE ''Trust rollback reason'' 200 (JStr ''drill'') = Inr ''drill''"
  "v_text TLE ''Canary outcome reason'' 200 (JStr ''drill'') = Inr ''drill''"
     apply simp
    apply (simp add: validatePromotionPolicy_def demo_promotion_json_def demo_promotion_def demo_idents identifiers_def bps_def validator_simps
      v_nonNegative_def v_positive_def POLICY_FIELDS_def TRUST_SCHEMA_VERSION_def MILLION_def MAX_EVALS_def MAX_FRESHNESS_MS_def MAX_TARGETS_def fromOption_def)
   apply (simp add: validateEvidence_def validateEval_def demo_evidence_json_def demo_evidence_def demo_idents demo_iso validator_simps v_nonNegative_def MILLION_def MAX_EVALS_def)
  apply (simp add: verifiedOwner_def demo_owner_def validateOwner_def demo_idents validator_simps)
  by (simp_all add: demo_texts)

lemma canary_full: "canary_tenantIds policy = [] \<or> tenantId t \<in> set (canary_tenantIds policy) \<Longrightarrow>
  canary_resourceIds policy = [] \<or> resourceId t \<in> set (canary_resourceIds policy) \<Longrightarrow> percentageBps policy = 10000 \<Longrightarrow> assigned (canaryDecision t policy)"
  by (auto simp: canaryDecision_def deterministicBucket_def Let_def)

text \<open>A store with one target.\<close>

definition trust_state :: "TrustLevel \<Rightarrow> CircuitBreaker \<Rightarrow> TrustLadderState" where
  "trust_state l b = emptyTrustState\<lparr>targets := [(newTarget demo_target (toISOString 0))\<lparr>level := l, circuitBreaker := b\<rparr>]\<rparr>"

definition trust_file_of :: "TrustLadderState \<Rightarrow> store_file" where
  "trust_file_of st = Regular (Some (enc_trust_state st)) 1000"

lemma trust_state_inv: "trust_inv (trust_state l b)"
  by (simp add: trust_inv_def trust_state_def emptyTrustState_def ok_target_state_def newTarget_def demo_iso MAX_TARGETS_def)

lemma ladder_trust_file: "trust_inv st \<Longrightarrow> ladder_of (trust_file_of st) = Some st"
  by (simp add: ladder_of_eq trust_file_of_def read_store_def trust_store_def TRUST_MAX_STORE_BYTES_def validateTrustState_enc)

lemma trust_state_find: "findTarget demo_target (trust_state l b) = Some ((newTarget demo_target (toISOString 0))\<lparr>level := l, circuitBreaker := b\<rparr>)"
  by (simp add: trust_state_def findTarget_def)

lemma trust_mutate_exact:
  "ladder_of f = Some st \<Longrightarrow> body (toISOString ms) st = (Inr x, st') \<Longrightarrow> trust_inv st' \<Longrightarrow>
   trust_mutate body (Some ms) f = (Inr x, atomicWriteJson (enc_trust_state st'))"
  using trust_file.mutate_exact [of f st body ms x st'] by (simp add: trust_mutate_def ladder_of_eq) (simp add: trust_store_def)

text \<open>A rollback by the policy's owner, on a ladder that has the target or is empty.\<close>

lemma rollback_runs:
  assumes "validateTarget tj = Inr t" and "validatePromotionPolicy pj = Inr policy" and "verifiedOwner auth i = Inr owner"
    and "v_text TLE ''Trust rollback reason'' 200 rj = Inr reason" and "owner_principalId owner = ownerPrincipalId policy" and "clock_ok ms"
    and "ladder_of f = Some st" and "length (tr_audit st) < TRUST_MAX_AUDIT" and "targets st = [] \<or> findTarget t st \<noteq> None"
  shows "\<exists>c st'. rollbackToApproval auth i tj pj rj (Some ms) f = (Inr c, atomicWriteJson (enc_trust_state st')) \<and> trust_inv st' \<and>
    length (tr_audit st') = length (tr_audit st) + 1 \<and> length (targets st') = max 1 (length (targets st)) \<and> findTarget t st' = Some c \<and> level c = Approve"
proof -
  have iso: "is_iso (toISOString ms)" using assms(6) by (rule is_iso_toISOString)
  obtain c st' where h: "rollbackToApproval_op t reason (toISOString ms) st = (Inr c, st')" "trust_inv st'"
    "length (tr_audit st') = length (tr_audit st) + 1" "length (targets st') = max 1 (length (targets st))"
    using rollbackToApproval_op_total [OF ladder_inv [OF assms(7)] validateTarget_ok [OF assms(1)] iso v_text_ok [OF assms(4)] assms(8,9)] by blast
  have "trust_mutate (rollbackToApproval_op t reason) (Some ms) f = (Inr c, atomicWriteJson (enc_trust_state st'))"
    using assms(7) h(1,2) by (rule trust_mutate_exact)
  then have "rollbackToApproval auth i tj pj rj (Some ms) f = (Inr c, atomicWriteJson (enc_trust_state st'))"
    using assms(1-5) by (simp add: rollbackToApproval_def liftp_seqp)
  moreover have "findTarget t st' = Some c" "level c = Approve"
    using rollbackToApproval_op_moves [OF h(1)] rollbackToApproval_op_effect [OF h(1)] by auto
  ultimately show ?thesis using h by blast
qed

definition demo_rollback :: "int \<Rightarrow> unit trust_call" where
  "demo_rollback ms = TRollback () (enc_target demo_target) demo_promotion_json (JStr ''drill'') (Some ms)"

lemma demo_rolled:
  "\<exists>st c. ladder_of (trust_run demo_owner (demo_rollback 0) NoFile) = Some st \<and> findTarget demo_target st = Some c \<and> level c = Approve"
proof -
  have "clock_ok 0" by code_simp
  then obtain c st where h: "rollbackToApproval demo_owner () (enc_target demo_target) demo_promotion_json (JStr ''drill'') (Some 0) NoFile =
      (Inr c, atomicWriteJson (enc_trust_state st))" "trust_inv st" "length (tr_audit st) = 1" "length (targets st) = 1"
      "findTarget demo_target st = Some c" "level c = Approve"
    using rollback_runs [OF demo_validated(1,2,4,5) _ _ ladder_NoFile, of 0] by (auto simp: demo_promotion_def emptyTrustState_def TRUST_MAX_AUDIT_def)
  have "trust_run demo_owner (demo_rollback 0) NoFile = atomicWriteJson (enc_trust_state st)" using h(1) by (simp add: demo_rollback_def)
  then show ?thesis using h ladder_small [of st] by auto
qed

section \<open>The ladder\<close>

text \<open>C14: The trust ladder implements its abstract transition system.  Whatever public method is
  called with whatever input, the state the store then holds is the one before, or exactly the
  target the call names has made one step of the ladder: it entered at simulation if it was not there,
  and then made at most one move, which is one rung up with the breaker closed, to approval, or the opening of
  the breaker at bounded autonomy.  No other target changes.\<close>

theorem trust_calls_refine_ladder:
  assumes "ladder_of f = Some st" and "ladder_of (trust_run auth c f) = Some st'"
  shows "st' = st \<or> (\<exists>t. validateTarget (call_target c) = Inr t \<and> ladder_step (position t st) (position t st') \<and>
    (\<forall>t'. t' \<noteq> t \<longrightarrow> findTarget t' st' = findTarget t' st))"
proof (cases "trust_run auth c f = f")
  case True
  with assms show ?thesis by simp
next
  case False
  with run_effect [of auth c f] assms(1) obtain t st1 where h: "validateTarget (call_target c) = Inr t" "trust_inv st1"
    "trust_run auth c f = atomicWriteJson (enc_trust_state st1)" "ladder_call t st st1" by auto
  then have "st' = st1" using assms(2) ladder_written by simp
  with h show ?thesis by (auto simp: ladder_call_def moves_one_def)
qed

theorem trust_calls_refine_ladder_witness:
  "\<exists>st'. ladder_of (trust_run demo_owner (demo_rollback 0) NoFile) = Some st' \<and>
     (st' = emptyTrustState \<or> (\<exists>t. validateTarget (enc_target demo_target) = Inr t \<and> ladder_step (position t emptyTrustState) (position t st')))"
proof -
  obtain st' where "ladder_of (trust_run demo_owner (demo_rollback 0) NoFile) = Some st'" using demo_rolled by blast
  with trust_calls_refine_ladder [OF ladder_NoFile this] show ?thesis by (auto simp: demo_rollback_def)
qed

text \<open>C18: The unsupported levels are out of reach.  Starting without a store, no sequence of calls,
  with whatever owners, policies and evidence, puts a target at dry-run or trusted.\<close>

theorem unsupported_levels_unreachable:
  assumes "trust_trace auth NoFile cs f" and "ladder_of f = Some st" and "findTarget t st = Some c"
  shows "level c \<noteq> Dry_run \<and> level c \<noteq> Trusted"
proof -
  let ?S = "{(l, b). l \<noteq> Dry_run \<and> l \<noteq> Trusted} :: place set"
  have "ladder_holds (\<lambda>st. \<forall>x. position t st = Some x \<longrightarrow> x \<in> ?S) NoFile"
    by (simp add: ladder_holds_def position_def findTarget_def emptyTrustState_def)
  moreover have "x' \<in> ?S" if "ladder_move x x'" "x \<in> ?S" for x x'
    using that by (cases rule: ladder_move.cases) (auto elim!: rung.elims)
  ultimately have "ladder_holds (\<lambda>st. \<forall>x. position t st = Some x \<longrightarrow> x \<in> ?S) f"
    by (intro trace_all_places [OF assms(1)]) auto
  with assms(2,3) show ?thesis by (auto simp: ladder_holds_def position_def)
qed

theorem unsupported_levels_unreachable_witness:
  "\<exists>st c. trust_trace demo_owner NoFile [demo_rollback 0] (trust_run demo_owner (demo_rollback 0) NoFile) \<and>
     ladder_of (trust_run demo_owner (demo_rollback 0) NoFile) = Some st \<and> findTarget demo_target st = Some c \<and> level c \<noteq> Dry_run \<and> level c \<noteq> Trusted"
proof -
  have "trust_trace demo_owner NoFile [demo_rollback 0] (trust_run demo_owner (demo_rollback 0) NoFile)"
    using ttrace_snoc [OF ttrace_nil, of demo_owner NoFile "demo_rollback 0"] by simp
  moreover obtain st c where "ladder_of (trust_run demo_owner (demo_rollback 0) NoFile) = Some st" "findTarget demo_target st = Some c"
    using demo_rolled by blast
  ultimately show ?thesis using unsupported_levels_unreachable by blast
qed

text \<open>C17: An open circuit breaker stays open.  Once a target's breaker is open, after any sequence of
  calls the target is still on the ladder, its breaker is open, and its level is the same or
  approval: no promotion and no method closes the breaker.\<close>

theorem open_breaker_is_final:
  assumes "trust_trace auth f cs f'" and "ladder_of f = Some st" and "findTarget t st = Some c" and "circuitBreaker c = Breaker_open"
    and "ladder_of f' = Some st'"
  shows "\<exists>c'. findTarget t st' = Some c' \<and> circuitBreaker c' = Breaker_open \<and> (level c' = level c \<or> level c' = Approve)"
proof -
  let ?S = "{(level c, Breaker_open), (Approve, Breaker_open)}"
  have "ladder_holds (\<lambda>st. \<exists>x \<in> ?S. position t st = Some x) f"
    using assms(2-4) by (simp add: ladder_holds_def position_def)
  moreover have "x' \<in> ?S" if "ladder_move x x'" "x \<in> ?S" for x x'
    using that by (cases rule: ladder_move.cases) auto
  ultimately have "ladder_holds (\<lambda>st. \<exists>x \<in> ?S. position t st = Some x) f'"
    by (rule trace_places [OF assms(1)])
  with assms(5) show ?thesis by (auto simp: ladder_holds_def position_def)
qed

theorem open_breaker_is_final_witness:
  "\<exists>st' c'. ladder_of (trust_run demo_owner (demo_rollback 1) (trust_file_of (trust_state Bounded_auto Breaker_open))) = Some st' \<and>
    findTarget demo_target st' = Some c' \<and> circuitBreaker c' = Breaker_open"
proof -
  let ?st = "trust_state Bounded_auto Breaker_open"
  let ?f = "trust_file_of ?st"
  let ?f' = "trust_run demo_owner (demo_rollback 1) ?f"
  have l: "ladder_of ?f = Some ?st" by (rule ladder_trust_file [OF trust_state_inv])
  have "clock_ok 1" by code_simp
  then obtain c st' where h: "rollbackToApproval demo_owner () (enc_target demo_target) demo_promotion_json (JStr ''drill'') (Some 1) ?f =
      (Inr c, atomicWriteJson (enc_trust_state st'))" "trust_inv st'" "length (tr_audit st') = 1" "length (targets st') = 1"
    using rollback_runs [OF demo_validated(1,2,4,5) _ _ l, of 1] trust_state_find
    by (auto simp: demo_promotion_def trust_state_def emptyTrustState_def TRUST_MAX_AUDIT_def)
  then have l': "ladder_of ?f' = Some st'" using ladder_small [of st'] by (simp add: demo_rollback_def)
  have "trust_trace demo_owner ?f [demo_rollback 1] ?f'"
    using ttrace_snoc [OF ttrace_nil, of demo_owner ?f "demo_rollback 1"] by simp
  from open_breaker_is_final [OF this l trust_state_find _ l'] l' show ?thesis by auto
qed

end
