(* ===== verification/Trust_Gate_Props.thy ===== *)
theory Trust_Gate_Props
  imports Trust_Props
begin

text \<open>
  The gates of the trust ladder: what a promotion requires, what a violation does, who is in the
  canary, and the two ways around or out of the ladder that the code leaves open.
\<close>

section \<open>Capabilities\<close>

text \<open>The constructor validates the built-in capabilities; they pass unchanged.\<close>

lemma constructor_capabilities: "validateCapabilities (enc_capabilities createLocalSyntheticTrustCapabilities) = Inr createLocalSyntheticTrustCapabilities"
proof -
  have "ok_text 200 ''ghostapi-synthetic has no provider-official dry-run semantic.''"
    "ok_text 200 ''The local synthetic runtime is not production authorization.''" by (rule ok_text_unmarked; code_simp)+
  then show ?thesis
    by (simp add: validateCapabilities_def enc_capabilities_def createLocalSyntheticTrustCapabilities_def validateCapability_def enc_capability_def
        plainCapability_def opt_prop_def CAPABILITY_FLAGS_def TRUST_SCHEMA_VERSION_def TRUST_LEVELS_def trustLevel_def fromOption_def booleanFlag_def
        optionally_def v_text_accepts)
qed

section \<open>Promotion\<close>

lemma checkEval_Inr:
  "checkEval evs fresh now r = Inr u \<longleftrightarrow>
     (\<exists>e. List.find (\<lambda>e. eval_id e = r) evs = Some e \<and> eval_passed e \<and> \<not> dated_after (eval_completedAt e) now \<and> \<not> stale (eval_completedAt e) now fresh)"
  by (cases "List.find (\<lambda>e. eval_id e = r) evs") (simp_all only: checkEval_def option.case res_simps option.inject option.distinct, auto)

text \<open>What the evidence has to show at the time of the call.\<close>

definition sufficient :: "TrustPromotionPolicy \<Rightarrow> TrustPromotionEvidence \<Rightarrow> string \<Rightarrow> bool" where
  "sufficient policy ev now =
     (minimumRuns policy \<le> runCount ev \<and>
      \<not> dated_after (ev_observedAt ev) now \<and> \<not> stale (ev_observedAt ev) now (evidenceFreshnessMs policy) \<and>
      (\<forall>r \<in> set (requiredEvalIds policy). \<exists>e \<in> set (evals ev). eval_id e = r \<and> eval_passed e \<and>
         \<not> dated_after (eval_completedAt e) now \<and> \<not> stale (eval_completedAt e) now (evidenceFreshnessMs policy)) \<and>
      ev_violations ev * 10000 < (maxViolationRateBps policy + 1) * runCount ev \<and>
      ev_errors ev * 10000 < (maxErrorRateBps policy + 1) * runCount ev)"

lemma rate_below: "0 < runs \<Longrightarrow> trust_rateBps n runs \<le> m \<Longrightarrow> n * 10000 < (m + 1) * runs"
  using div_less_iff_less_mult [of runs "n * 10000" "m + 1"] by (simp add: trust_rateBps_def)

lemma evidence_sufficient:
  assumes "assertPromotionEvidence ev policy now = Inr u" and "0 < minimumRuns policy"
  shows "sufficient policy ev now"
proof -
  from assms(1) have h: "minimumRuns policy \<le> runCount ev" "\<not> dated_after (ev_observedAt ev) now" "\<not> stale (ev_observedAt ev) now (evidenceFreshnessMs policy)"
    "\<exists>us. mapM (checkEval (evals ev) (evidenceFreshnessMs policy) now) (requiredEvalIds policy) = Inr us"
    "trust_rateBps (ev_violations ev) (runCount ev) \<le> maxViolationRateBps policy" "trust_rateBps (ev_errors ev) (runCount ev) \<le> maxErrorRateBps policy"
    unfolding assertPromotionEvidence_def by (auto elim!: andThenE simp: throwIf_eq_Inr)
  have "\<exists>e \<in> set (evals ev). eval_id e = r \<and> eval_passed e \<and> \<not> dated_after (eval_completedAt e) now \<and> \<not> stale (eval_completedAt e) now (evidenceFreshnessMs policy)"
    if "r \<in> set (requiredEvalIds policy)" for r
  proof -
    have "\<exists>u. checkEval (evals ev) (evidenceFreshnessMs policy) now r = Inr u"
      using h(4) that by (auto simp: mapM_eq_Inr list_all2_conv_all_nth in_set_conv_nth)
    then show ?thesis by (auto simp: checkEval_Inr dest!: find_SomeD)
  qed
  moreover have "0 < runCount ev" using h(1) assms(2) by simp
  ultimately show ?thesis using h rate_below by (simp add: sufficient_def)
qed

lemma policy_runs: "validatePromotionPolicy j = Inr policy \<Longrightarrow> 0 < minimumRuns policy"
  unfolding validatePromotionPolicy_def by (elim andThenE) (clarsimp simp: v_positive_eq)

text \<open>C15: No promotion without the owner and the evidence.  If \<open>promote\<close> returns, the owner
  verifier vouched for the caller, the caller is the owner the policy names, the requested level
  is the next supported one above the level the target had, its breaker was closed, the evidence
  has the runs, the passed and fresh evals and the rates the policy asks for, and for bounded
  autonomy the target is in the canary; the target's level is then the requested one.\<close>

theorem promotion_needs_evidence:
  assumes "promote auth i tj lj pj ej now f = (Inr c', f')"
  shows "\<exists>t policy ev owner requested st ms.
    validateTarget tj = Inr t \<and> validatePromotionPolicy pj = Inr policy \<and> validateEvidence ej = Inr ev \<and>
    verifiedOwner auth i = Inr owner \<and> owner_principalId owner = ownerPrincipalId policy \<and>
    now = Some ms \<and> ladder_of f = Some st \<and> snd (at_entry (position t st)) = Breaker_closed \<and>
    rung (fst (at_entry (position t st))) = Some requested \<and> level c' = requested \<and> lj = JStr (level_name requested) \<and>
    sufficient policy ev (toISOString ms) \<and> (requested = Bounded_auto \<longrightarrow> assigned (canaryDecision t policy))"
proof -
  from assms obtain t policy ev requested owner where v: "validateTarget tj = Inr t" "validatePromotionPolicy pj = Inr policy"
    "validateEvidence ej = Inr ev" "trustLevel lj ''Trust promotion level'' = Inr requested" "verifiedOwner auth i = Inr owner"
    "owner_principalId owner = ownerPrincipalId policy"
    "mutate_store trust_store (promote_op createLocalSyntheticTrustCapabilities t requested policy ev owner) now f = (Inr c', f')"
    by (auto simp: promote_def liftp_seqp throw_def trust_mutate_def split: sum.splits if_splits)
  from v(7) obtain ms st st' where m: "now = Some ms" "read_store trust_store f = Inr st"
    "promote_op createLocalSyntheticTrustCapabilities t requested policy ev owner (toISOString ms) st = (Inr c', st')"
    by (rule mutate_storeE)
  from promote_op_effect [OF m(3)] obtain c st1 where e: "entered t (toISOString ms) st c st1" "circuitBreaker c = Breaker_closed"
    "rung (level c) = Some requested" "assertPromotionEvidence ev policy (toISOString ms) = Inr ()"
    "requested = Bounded_auto \<longrightarrow> assigned (canaryDecision t policy)" "level c' = requested" by fastforce
  have "sufficient policy ev (toISOString ms)" using e(4) policy_runs [OF v(2)] by (rule evidence_sufficient)
  then show ?thesis
    using v m e entered_at [OF e(1)] trustLevel_eq [of lj _ requested] by (auto simp: ladder_of_eq)
qed

lemma demo_promote:
  "\<exists>c f'. promote demo_owner () (enc_target demo_target) (JStr ''shadow'') demo_promotion_json demo_evidence_json (Some 1) NoFile = (Inr c, f')"
proof -
  let ?now = "toISOString 1"
  let ?c = "(newTarget demo_target ?now)\<lparr>level := Shadow, updatedAt := ?now\<rparr>"
  let ?st = "emptyTrustState\<lparr>targets := [newTarget demo_target ?now]\<rparr>"
  let ?owner = "\<lparr>owner_id = ''op1'', owner_principalId = ''alice''\<rparr>"
  have inv: "trust_inv ?st"
    by (simp add: trust_inv_def emptyTrustState_def ok_target_state_def newTarget_def demo_iso MAX_TARGETS_def)
  have "ok_target_state ?c" by (simp add: ok_target_state_def newTarget_def demo_iso)
  then have inv': "trust_inv (withTarget ?c ?st)" by (rule withTarget_inv [OF inv])
  have why: "ok_text 200 ''verified owner alice approved promotion''" by (rule ok_text_unmarked; code_simp)
  obtain a where a: "appendTrustAudit ''trust.promoted'' ?c (Some Simulate) (Some Shadow) ''verified owner alice approved promotion'' ?now (withTarget ?c ?st) =
      (Inr (), (withTarget ?c ?st)\<lparr>tr_audit := [a]\<rparr>)" "trust_inv ((withTarget ?c ?st)\<lparr>tr_audit := [a]\<rparr>)"
    using appendTrustAudit_total [OF inv' _ trust_texts(5) why demo_iso(2), of ?c "Some Simulate" "Some Shadow"]
    by (auto simp: emptyTrustState_def TRUST_MAX_AUDIT_def)
  have "clock_ok 0" "clock_ok 1" by code_simp+
  then have "dated_after (toISOString 0) ?now = False" "stale (toISOString 0) ?now 60000 = False"
    by (simp_all add: dated_after_def stale_def date_parse_toISOString)
  then have ev: "assertPromotionEvidence demo_evidence demo_promotion ?now = Inr ()"
    by (simp add: assertPromotionEvidence_def demo_evidence_def demo_promotion_def checkEval_def trust_rateBps_def)
  have "promote_op createLocalSyntheticTrustCapabilities demo_target Shadow demo_promotion demo_evidence ?owner ?now emptyTrustState =
      (Inr ?c, (withTarget ?c ?st)\<lparr>tr_audit := [a]\<rparr>)"
    using a(1) ev
    by (simp add: promote_op_def findOrCreateTarget_def findTarget_def emptyTrustState_def getp_def ret_def modifyp_def seqp_def liftp_def MAX_TARGETS_def
        capability_local nextSupportedLevel_local plainCapability_def Let_def)
  then have "trust_mutate (promote_op createLocalSyntheticTrustCapabilities demo_target Shadow demo_promotion demo_evidence ?owner) (Some 1) NoFile =
      (Inr ?c, atomicWriteJson (enc_trust_state ((withTarget ?c ?st)\<lparr>tr_audit := [a]\<rparr>)))"
    using a(2) by (rule trust_mutate_exact [OF ladder_NoFile])
  moreover have "trustLevel (JStr ''shadow'') ''Trust promotion level'' = Inr Shadow" by code_simp
  ultimately show ?thesis
    by (simp add: promote_def liftp_seqp demo_validated demo_validated(1) [unfolded demo_target_def]) (simp add: demo_promotion_def)
qed

theorem promotion_needs_evidence_witness:
  "\<exists>c f'. promote demo_owner () (enc_target demo_target) (JStr ''shadow'') demo_promotion_json demo_evidence_json (Some 1) NoFile = (Inr c, f') \<and>
     level c = Shadow \<and> sufficient demo_promotion demo_evidence (toISOString 1)"
proof -
  obtain c f' where h: "promote demo_owner () (enc_target demo_target) (JStr ''shadow'') demo_promotion_json demo_evidence_json (Some 1) NoFile = (Inr c, f')"
    using demo_promote by blast
  from promotion_needs_evidence [OF h] obtain requested where "level c = requested" "''shadow'' = level_name requested"
    "sufficient demo_promotion demo_evidence (toISOString 1)" by (auto simp: demo_validated)
  moreover from this(2) have "requested = Shadow" by (cases requested) simp_all
  ultimately show ?thesis using h by auto
qed

section \<open>Violations\<close>



section \<open>The canary\<close>

text \<open>The canary rollout is stable.  Who is in the canary depends only on the policy's id and scope
  and on the target: at ten thousand basis points every target of the scope is in it, at zero none, and
  raising the percentage never takes a target out.\<close>

definition in_canary :: "TrustPromotionPolicy \<Rightarrow> TrustTarget \<Rightarrow> nat \<Rightarrow> bool" where
  "in_canary policy t n = assigned (canaryDecision t (policy\<lparr>percentageBps := n\<rparr>))"

theorem canary_rollout_stable:
  "bucket (canaryDecision t policy) < 10000" "\<not> in_canary policy t 0" "n \<le> m \<Longrightarrow> in_canary policy t n \<Longrightarrow> in_canary policy t m"
  "in_canary policy t 10000 \<longleftrightarrow> (canary_tenantIds policy = [] \<or> tenantId t \<in> set (canary_tenantIds policy)) \<and>
      (canary_resourceIds policy = [] \<or> resourceId t \<in> set (canary_resourceIds policy))"
  by (auto simp: in_canary_def canaryDecision_def deterministicBucket_def Let_def split: if_splits)

section \<open>Around and out of the ladder\<close>

text \<open>A rollback can raise trust.  \<open>rollbackToApproval\<close> sets the level to approval from any level: for a
  target the ladder has never seen, or one at simulation or shadow, the owner's rollback is a promotion to
  approval, without a run, an eval or any other evidence and past the rungs in between.\<close>

theorem rollback_raises_trust:
  assumes "validateTarget tj = Inr t" and "validatePromotionPolicy pj = Inr policy" and "verifiedOwner auth i = Inr owner"
    and "v_text TLE ''Trust rollback reason'' 200 rj = Inr reason" and "owner_principalId owner = ownerPrincipalId policy" and "clock_ok ms"
    and "ladder_of f = Some st" and "length (tr_audit st) < TRUST_MAX_AUDIT" and "targets st = [] \<or> findTarget t st \<noteq> None"
    and "fst (at_entry (position t st)) = Simulate"
  shows "\<exists>c st'. rollbackToApproval auth i tj pj rj (Some ms) f = (Inr c, atomicWriteJson (enc_trust_state st')) \<and> trust_inv st' \<and>
    findTarget t st' = Some c \<and> level c = Approve"
  using rollback_runs [OF assms(1-9)] by blast

theorem rollback_raises_trust_witness:
  "fst (at_entry (position demo_target emptyTrustState)) = Simulate \<and>
   (\<exists>c st'. rollbackToApproval demo_owner () (enc_target demo_target) demo_promotion_json (JStr ''drill'') (Some 1) NoFile =
      (Inr c, atomicWriteJson (enc_trust_state st')) \<and> trust_inv st' \<and> findTarget demo_target st' = Some c \<and> level c = Approve)"
proof -
  have entry: "fst (at_entry (position demo_target emptyTrustState)) = Simulate"
    by (simp add: at_entry_def position_def findTarget_def emptyTrustState_def)
  have "clock_ok 1" by code_simp
  with entry show ?thesis
    using rollback_raises_trust [OF demo_validated(1,2,4,5) _ _ ladder_NoFile, of 1]
    by (simp add: demo_promotion_def emptyTrustState_def TRUST_MAX_AUDIT_def)
qed

lemma unreadable_stuck: "ladder_of f = None \<Longrightarrow> trust_run auth c f = f"
  using run_effect [of auth c f] by auto

text \<open>The ladder after a number of equal calls.\<close>

fun repeatedly :: "nat \<Rightarrow> ('i \<Rightarrow> (trust_error, json) res) \<Rightarrow> 'i trust_call \<Rightarrow> store_file \<Rightarrow> store_file" where
  "repeatedly 0 auth c f = f"
| "repeatedly (Suc n) auth c f = trust_run auth c (repeatedly n auth c f)"

text \<open>C19: The ladder locks itself up.  The store is written without regard to its size, reading refuses more than
  one mebibyte, and the audit is allowed ten thousand records but never pruned: an owner who
  repeats one valid rollback from an empty store reaches, after at most 8192 calls, a store that no call can read, and from then on
  every call of every method leaves it as it is, so that no violation can be recorded and no target demoted.\<close>

theorem trust_ladder_locks_up:
  assumes "validateTarget tj = Inr t" and "validatePromotionPolicy pj = Inr policy" and "verifiedOwner auth i = Inr owner"
    and "v_text TLE ''Trust rollback reason'' 200 rj = Inr reason" and "owner_principalId owner = ownerPrincipalId policy" and "clock_ok ms"
  defines "f n \<equiv> repeatedly n auth (TRollback i tj pj rj (Some ms)) NoFile"
  shows "\<exists>n \<le> 8192. ladder_of (f n) = None \<and> (\<forall>auth' c. trust_run auth' c (f n) = f n)"
proof (rule ccontr)
  assume never: "\<not> ?thesis"
  have readable: "\<exists>st. ladder_of (f n) = Some st" if "n \<le> 8192" for n
  proof (rule ccontr)
    assume "\<nexists>st. ladder_of (f n) = Some st"
    then have "ladder_of (f n) = None" by simp
    moreover from this have "\<forall>auth' c. trust_run auth' c (f n) = f n" by (simp add: unreadable_stuck)
    ultimately show False using never that by blast
  qed
  have "\<exists>st. ladder_of (f n) = Some st \<and> length (tr_audit st) = n \<and> (targets st = [] \<or> findTarget t st \<noteq> None) \<and>
      (n = 0 \<or> f n = atomicWriteJson (enc_trust_state st))" if "n \<le> 8192" for n
    using that
  proof (induction n)
    case 0
    then show ?case by (simp add: f_def emptyTrustState_def)
  next
    case (Suc n)
    then obtain st where st: "ladder_of (f n) = Some st" "length (tr_audit st) = n" "targets st = [] \<or> findTarget t st \<noteq> None" by auto
    have "length (tr_audit st) < TRUST_MAX_AUDIT" using Suc.prems st(2) by (simp add: TRUST_MAX_AUDIT_def)
    from rollback_runs [OF assms(1-6) st(1) this st(3)] obtain c st' where h:
      "rollbackToApproval auth i tj pj rj (Some ms) (f n) = (Inr c, atomicWriteJson (enc_trust_state st'))" "trust_inv st'"
      "length (tr_audit st') = length (tr_audit st) + 1" "findTarget t st' = Some c" by blast
    then have w: "f (Suc n) = atomicWriteJson (enc_trust_state st')" by (simp add: f_def)
    with readable [OF Suc.prems] ladder_written [OF h(2)] have "ladder_of (f (Suc n)) = Some st'" by auto
    with h w st(2) show ?case by auto
  qed
  from this [of 8192] obtain st where st: "ladder_of (f 8192) = Some st" "length (tr_audit st) = 8192" "f 8192 = atomicWriteJson (enc_trust_state st)" by auto
  from ladder_large [OF ladder_inv [OF st(1)]] st show False by simp
qed

theorem trust_ladder_locks_up_witness:
  "\<exists>n \<le> 8192. ladder_of (repeatedly n demo_owner (demo_rollback 1) NoFile) = None"
proof -
  have "clock_ok 1" by code_simp
  then show ?thesis using trust_ladder_locks_up [OF demo_validated(1,2,4,5), of 1] by (auto simp: demo_rollback_def demo_promotion_def)
qed

end
