(* ===== verification/Ledger_Types.thy ===== *)
theory Ledger_Types
  imports Action_Shape
begin

text \<open>
  The data of the action ledger (\<open>src/ledger/actionLedger.ts\<close>): permissions, stages,
  entries, the state of a tenant and the store, with the JSON value of each.
\<close>

section \<open>Errors and limits\<close>

text \<open>Besides its own errors the ledger lets through what the gateway's validators, an invalid
  \<open>Date\<close> and the caller's access authorizer throw.\<close>

datatype ledger_error =
    ActionLedgerError string
  | GatewayThrew gateway_error
  | InvalidDate
  | AuthorizerThrew string

abbreviation ALE :: "string \<Rightarrow> ledger_error" where "ALE \<equiv> ActionLedgerError"

definition LEDGER_SCHEMA_VERSION :: nat where "LEDGER_SCHEMA_VERSION = 1"
definition LEDGER_KIND :: string where "LEDGER_KIND = ''ghostapi.action-ledger''"
definition MAX_LEDGER_BYTES :: nat where "MAX_LEDGER_BYTES = 2 * 1024 * 1024"
definition MAX_ENTRIES :: nat where "MAX_ENTRIES = 2000"
definition MAX_TENANTS :: nat where "MAX_TENANTS = 200"

section \<open>Records\<close>

datatype LedgerPermission = Perm_append | Perm_read | Perm_export | Perm_manage_retention | Perm_manage_hold | Perm_request_deletion

datatype LedgerStage =
    Intent | Identity | Policy_decision | Approval_stage | Credential_grant | Execution_attempt | Provider_receipt
  | Verification | Compensation | Retention | Legal_hold | Deletion_request

record LedgerAccess =
  access_tenantId :: string
  access_principalId :: string
  access_permissions :: "LedgerPermission list"

record LedgerEntry =
  le_tenantId :: string
  le_sequence :: nat
  le_timestamp :: string
  le_actionId :: string
  le_actionHash :: string
  le_stage :: LedgerStage
  le_data :: fields
  le_previousHash :: string
  le_entryHash :: string

record LedgerTenantState =
  lt_tenantId :: string
  lt_entryCount :: nat
  lt_headHash :: string
  lt_retentionDays :: "nat option"
  lt_legalHold :: bool
  lt_deletionRequestedAt :: "string option"

record ActionLedgerState =
  ledger_entries :: "LedgerEntry list"
  ledger_tenants :: "LedgerTenantState list"

text \<open>What a caller hands in: the JSON values of an action, its approval and receipts, and the
  reference to a credential grant.\<close>

record ActionLedgerRecord =
  rec_envelope :: json
  rec_approval :: json
  rec_receipts :: json
  rec_credentialGrant :: "(json \<times> json) option"

datatype LedgerVerification = Ledger_valid nat string bool | Ledger_invalid string

record LedgerExport =
  export_tenantId :: string
  exportedAt :: string
  export_integrity :: LedgerVerification
  export_entries :: "LedgerEntry list"

section \<open>The JSON values\<close>

fun stage_name :: "LedgerStage \<Rightarrow> string" where
  "stage_name Intent = ''intent''"
| "stage_name Identity = ''identity''"
| "stage_name Policy_decision = ''policy_decision''"
| "stage_name Approval_stage = ''approval''"
| "stage_name Credential_grant = ''credential_grant''"
| "stage_name Execution_attempt = ''execution_attempt''"
| "stage_name Provider_receipt = ''provider_receipt''"
| "stage_name Verification = ''verification''"
| "stage_name Compensation = ''compensation''"
| "stage_name Retention = ''retention''"
| "stage_name Legal_hold = ''legal_hold''"
| "stage_name Deletion_request = ''deletion_request''"

definition LEDGER_STAGES :: "LedgerStage list" where
  "LEDGER_STAGES = [Intent, Identity, Policy_decision, Approval_stage, Credential_grant, Execution_attempt, Provider_receipt,
     Verification, Compensation, Retention, Legal_hold, Deletion_request]"

definition entry_base :: "LedgerEntry \<Rightarrow> fields" where
  "entry_base e =
     [(''schemaVersion'', JNat 1), (''kind'', JStr ''ghostapi.action-ledger-entry''), (''tenantId'', JStr (le_tenantId e)),
      (''sequence'', JNat (le_sequence e)), (''timestamp'', JStr (le_timestamp e)), (''actionId'', JStr (le_actionId e)),
      (''actionHash'', JStr (le_actionHash e)), (''stage'', JStr (stage_name (le_stage e))), (''data'', JObj (le_data e)),
      (''previousHash'', JStr (le_previousHash e))]"

definition enc_entry_ledger :: "LedgerEntry \<Rightarrow> json" where
  "enc_entry_ledger e = JObj (entry_base e @ [(''entryHash'', JStr (le_entryHash e))])"

fun enc_retention :: "nat option \<Rightarrow> json" where
  "enc_retention None = JNull"
| "enc_retention (Some n) = JNat n"

definition enc_tenant :: "LedgerTenantState \<Rightarrow> json" where
  "enc_tenant t = JObj ([(''tenantId'', JStr (lt_tenantId t)), (''entryCount'', JNat (lt_entryCount t)), (''headHash'', JStr (lt_headHash t)),
     (''retentionDays'', enc_retention (lt_retentionDays t)), (''legalHold'', JBool (lt_legalHold t))] @
     opt_prop ''deletionRequestedAt'' JStr (lt_deletionRequestedAt t))"

definition enc_action_ledger :: "ActionLedgerState \<Rightarrow> json" where
  "enc_action_ledger st = JObj [(''schemaVersion'', JNat 1), (''kind'', JStr ''ghostapi.action-ledger''),
     (''entries'', JArr (map enc_entry_ledger (ledger_entries st))), (''tenants'', JArr (map enc_tenant (ledger_tenants st)))]"

section \<open>Hashes\<close>

definition genesisHash :: "string \<Rightarrow> string" where
  "genesisHash tid = sha256 (''ghostapi.action-ledger.v1:'' @ tid)"

text \<open>The hash of an entry's content.  The data of an entry are scalars (\<open>normalizeData\<close>), so the canonical text exists.\<close>

definition entry_hash :: "LedgerEntry \<Rightarrow> string" where
  "entry_hash e = sha256 (the (canonical (JObj (entry_base e))))"

end
