(* ===== verification/Ledger_Validate.thy ===== *)
theory Ledger_Validate
  imports Ledger_Types
begin

text \<open>
  The validators of \<open>src/ledger/actionLedger.ts\<close> and the verification of a tenant's chain.
\<close>

section \<open>Leaves\<close>

definition nonNegativeInteger :: "string \<Rightarrow> json \<Rightarrow> (ledger_error, nat) res" where
  "nonNegativeInteger label value =
     (case value of
        JInt i \<Rightarrow> if i < 0 then Inl (ALE (label @ '' must be a non-negative integer.'')) else Inr (nat i)
      | _ \<Rightarrow> Inl (ALE (label @ '' must be a non-negative integer.'')))"

definition boundedInteger :: "string \<Rightarrow> nat \<Rightarrow> nat \<Rightarrow> json \<Rightarrow> (ledger_error, nat) res" where
  "boundedInteger label minimum maximum value =
     (let e = ALE (label @ '' must be an integer from '' @ nat_digits minimum @ '' through '' @ nat_digits maximum @ ''.'') in
      case value of
        JInt i \<Rightarrow> if i < int minimum \<or> i > int maximum then Inl e else Inr (nat i)
      | _ \<Rightarrow> Inl e)"

definition safeString :: "string \<Rightarrow> nat \<Rightarrow> json \<Rightarrow> (ledger_error, string) res" where
  "safeString label maximum value =
     (case value of
        JStr s \<Rightarrow>
          if s = [] \<or> length s > maximum \<or> sanitizeSecretString s \<noteq> s
          then Inl (ALE (label @ '' must be a bounded non-secret string.'')) else Inr s
      | _ \<Rightarrow> Inl (ALE (label @ '' must be a bounded non-secret string.'')))"

fun stage_of :: "json \<Rightarrow> LedgerStage option" where
  "stage_of (JStr s) = List.find (\<lambda>g. stage_name g = s) LEDGER_STAGES"
| "stage_of _ = None"

section \<open>Structured data\<close>

definition FORBIDDEN_WORDS :: "string list" where
  "FORBIDDEN_WORDS = [''authorization'', ''cookie'', ''token'', ''secret'', ''password'', ''email'', ''phone'', ''address'', ''card'',
     ''payload'', ''body'']"

text \<open>\<open>/^[a-z][a-zA-Z0-9]{0,63}$/\<close> and the words that may not occur in any case.\<close>

definition field_allowed :: "string \<Rightarrow> bool" where
  "field_allowed key =
     ((case key of [] \<Rightarrow> False | c # cs \<Rightarrow> is_lower c \<and> length cs \<le> 63 \<and> list_all is_alnum cs) \<and>
      \<not> list_ex (str_includes (toLowerCase key)) FORBIDDEN_WORDS)"

definition normalizeField :: "string \<times> json \<Rightarrow> (ledger_error, string \<times> json) res" where
  "normalizeField kv =
     (let key = fst kv in
      andThen (throwIf (\<not> field_allowed key) (ALE (''Ledger structured field is forbidden: '' @ key))) (\<lambda>_.
      case snd kv of
        JStr s \<Rightarrow> andThen (safeString (''Ledger structured field '' @ key) 512 (JStr s)) (\<lambda>t. Inr (key, JStr t))
      | JInt i \<Rightarrow> Inr (key, JInt i)
      | JFrac t \<Rightarrow> Inr (key, JFrac t)
      | JBool b \<Rightarrow> Inr (key, JBool b)
      | JNull \<Rightarrow> Inr (key, JNull)
      | _ \<Rightarrow> Inl (ALE (''Ledger structured field '' @ key @ '' must be scalar.''))))"

definition normalizeData :: "json \<Rightarrow> (ledger_error, fields) res" where
  "normalizeData value =
     andThen (v_object ALE ''Ledger structured data must be an object.'' value) (\<lambda>data.
     andThen (throwIf (length data > 16) (ALE ''Ledger structured data has too many fields.'')) (\<lambda>_.
     mapM normalizeField data))"

section \<open>Entries and tenants\<close>

definition ENTRY_KEYS :: "string list" where
  "ENTRY_KEYS = [''schemaVersion'', ''kind'', ''tenantId'', ''sequence'', ''timestamp'', ''actionId'', ''actionHash'', ''stage'', ''data'',
     ''previousHash'', ''entryHash'']"

definition validateEntry :: "json \<Rightarrow> (ledger_error, LedgerEntry) res" where
  "validateEntry value =
     andThen (v_object ALE ''Ledger entry must be an object.'' value) (\<lambda>e.
     andThen (a_exactKeys ALE ''Ledger entry'' ENTRY_KEYS e) (\<lambda>_.
     andThen (throwIf (jget e ''schemaVersion'' \<noteq> JNat 1 \<or> jget e ''kind'' \<noteq> JStr ''ghostapi.action-ledger-entry'')
       (ALE ''Ledger entry schema is invalid.'')) (\<lambda>_.
     andThen (fromOption (ALE ''Ledger entry schema is invalid.'') (stage_of (jget e ''stage''))) (\<lambda>stage.
     andThen (a_identifier ALE ''Ledger tenant id'' (jget e ''tenantId'')) (\<lambda>tid.
     andThen (a_positiveInteger ALE ''Ledger sequence'' (jget e ''sequence'')) (\<lambda>sq.
     andThen (v_timestamp ALE ''Ledger timestamp'' (jget e ''timestamp'')) (\<lambda>ts.
     andThen (a_identifier ALE ''Ledger action id'' (jget e ''actionId'')) (\<lambda>aid.
     andThen (a_hash ALE ''Ledger action hash'' (jget e ''actionHash'')) (\<lambda>ah.
     andThen (normalizeData (jget e ''data'')) (\<lambda>data.
     andThen (a_hash ALE ''Ledger previous hash'' (jget e ''previousHash'')) (\<lambda>ph.
     andThen (a_hash ALE ''Ledger entry hash'' (jget e ''entryHash'')) (\<lambda>eh.
     let entry = \<lparr>le_tenantId = tid, le_sequence = sq, le_timestamp = ts, le_actionId = aid, le_actionHash = ah, le_stage = stage,
                  le_data = data, le_previousHash = ph, le_entryHash = eh\<rparr>
     in if eh \<noteq> entry_hash entry then Inl (ALE ''Ledger entry hash is invalid.'') else Inr entry))))))))))))"

definition TENANT_KEYS :: "string list" where
  "TENANT_KEYS = [''tenantId'', ''entryCount'', ''headHash'', ''retentionDays'', ''legalHold'', ''deletionRequestedAt'']"

fun retention_of :: "json \<Rightarrow> nat option option" where
  "retention_of JNull = Some None"
| "retention_of (JInt i) = (if i < 1 \<or> i > 3650 then None else Some (Some (nat i)))"
| "retention_of _ = None"

fun hold_of :: "json \<Rightarrow> bool option" where
  "hold_of (JBool b) = Some b"
| "hold_of _ = None"

definition validateTenant :: "json \<Rightarrow> (ledger_error, LedgerTenantState) res" where
  "validateTenant value =
     andThen (v_object ALE ''Ledger tenant state is invalid.'' value) (\<lambda>t.
     andThen (a_exactKeys ALE ''Ledger tenant state'' TENANT_KEYS t) (\<lambda>_.
     andThen (optionally (v_timestamp ALE ''Ledger deletion request timestamp'') (jget t ''deletionRequestedAt'')) (\<lambda>del.
     andThen (fromOption (ALE ''Ledger tenant retention state is invalid.'') (retention_of (jget t ''retentionDays''))) (\<lambda>days.
     andThen (fromOption (ALE ''Ledger tenant retention state is invalid.'') (hold_of (jget t ''legalHold''))) (\<lambda>hold.
     andThen (a_identifier ALE ''Ledger tenant id'' (jget t ''tenantId'')) (\<lambda>tid.
     andThen (nonNegativeInteger ''Ledger tenant entry count'' (jget t ''entryCount'')) (\<lambda>n.
     andThen (a_hash ALE ''Ledger tenant head hash'' (jget t ''headHash'')) (\<lambda>hd_hash.
     Inr \<lparr>lt_tenantId = tid, lt_entryCount = n, lt_headHash = hd_hash, lt_retentionDays = days, lt_legalHold = hold,
          lt_deletionRequestedAt = del\<rparr>))))))))"

section \<open>The chain of a tenant\<close>

definition findTenant :: "string \<Rightarrow> ActionLedgerState \<Rightarrow> LedgerTenantState option" where
  "findTenant tid st = List.find (\<lambda>t. lt_tenantId t = tid) (ledger_tenants st)"

definition tenant_log :: "string \<Rightarrow> ActionLedgerState \<Rightarrow> LedgerEntry list" where
  "tenant_log tid st = filter (\<lambda>e. le_tenantId e = tid) (ledger_entries st)"

text \<open>The loop over the entries: the error, or the hash the chain ends in.\<close>

fun verifyChain :: "string \<Rightarrow> nat \<Rightarrow> LedgerEntry list \<Rightarrow> string + string" where
  "verifyChain previous i [] = Inr previous"
| "verifyChain previous i (e # es) =
     (if le_sequence e \<noteq> i + 1 \<or> le_previousHash e \<noteq> previous then Inl ''Ledger entry ordering or chain link is corrupted.''
      else if le_entryHash e \<noteq> entry_hash e then Inl ''Ledger entry content hash is corrupted.''
      else verifyChain (le_entryHash e) (i + 1) es)"

definition verifyTenantState :: "ActionLedgerState \<Rightarrow> string \<Rightarrow> LedgerVerification" where
  "verifyTenantState st tid =
     (case findTenant tid st of
        None \<Rightarrow> Ledger_valid 0 (genesisHash tid) False
      | Some t \<Rightarrow>
          let es = tenant_log tid st in
          if length es \<noteq> lt_entryCount t then Ledger_invalid ''Ledger tenant entry count does not match the append-only record.''
          else (case verifyChain (genesisHash tid) 0 es of
                  Inl e \<Rightarrow> Ledger_invalid e
                | Inr h \<Rightarrow>
                    if lt_headHash t \<noteq> h then Ledger_invalid ''Ledger tenant head hash does not match the append-only record.''
                    else Ledger_valid (length es) (lt_headHash t) True))"

definition assertTenantIntegrity :: "ActionLedgerState \<Rightarrow> string \<Rightarrow> (ledger_error, unit) res" where
  "assertTenantIntegrity st tid = (case verifyTenantState st tid of Ledger_invalid e \<Rightarrow> Inl (ALE e) | _ \<Rightarrow> Inr ())"

section \<open>The store\<close>

text \<open>The checks on the two arrays, then the whole.\<close>

definition validateArrays :: "json list \<Rightarrow> json list \<Rightarrow> (ledger_error, ActionLedgerState) res" where
  "validateArrays ves vts =
     andThen (throwIf (length ves > MAX_ENTRIES \<or> length vts > MAX_TENANTS) (ALE ''Action ledger state exceeds its bounded limits.'')) (\<lambda>_.
     andThen (mapM validateEntry ves) (\<lambda>es.
     andThen (mapM validateTenant vts) (\<lambda>ts.
     andThen (throwIf (\<not> distinct (map lt_tenantId ts)) (ALE ''Action ledger tenant state is duplicated.'')) (\<lambda>_.
     andThen (mapM (\<lambda>t. assertTenantIntegrity \<lparr>ledger_entries = es, ledger_tenants = ts\<rparr> (lt_tenantId t)) ts) (\<lambda>_.
     andThen (throwIf (card (set (map le_tenantId es)) \<noteq> length ts \<and> list_ex (\<lambda>e. \<not> list_ex (\<lambda>t. lt_tenantId t = le_tenantId e) ts) es)
       (ALE ''Action ledger entry has no tenant state.'')) (\<lambda>_.
     Inr \<lparr>ledger_entries = es, ledger_tenants = ts\<rparr>))))))"

definition validateLedgerState :: "json \<Rightarrow> (ledger_error, ActionLedgerState) res" where
  "validateLedgerState value =
     andThen (v_object ALE ''Action ledger state must be an object.'' value) (\<lambda>s.
     andThen (a_exactKeys ALE ''Action ledger state'' [''schemaVersion'', ''kind'', ''entries'', ''tenants''] s) (\<lambda>_.
     andThen (throwIf (jget s ''schemaVersion'' \<noteq> JNat LEDGER_SCHEMA_VERSION \<or> jget s ''kind'' \<noteq> JStr LEDGER_KIND)
       (ALE ''Unsupported action ledger schema.'')) (\<lambda>_.
     case (jget s ''entries'', jget s ''tenants'') of
       (JArr ves, JArr vts) \<Rightarrow> validateArrays ves vts
     | _ \<Rightarrow> Inl (ALE ''Action ledger state exceeds its bounded limits.''))))"

definition emptyLedger :: ActionLedgerState where
  "emptyLedger = \<lparr>ledger_entries = [], ledger_tenants = []\<rparr>"

text \<open>The clock error belongs to the controllers' \<open>mutate\<close>, which the ledger does not use.\<close>

definition ledger_store :: "(ActionLedgerState, ledger_error) store" where
  "ledger_store =
     \<lparr>emptyStore = emptyLedger, validateStore = validateLedgerState, encodeStore = enc_action_ledger, maxStoreBytes = MAX_LEDGER_BYTES,
      notRegularError = ALE ''Action ledger must be a regular non-symlink file.'',
      sizeError = ALE (''Action ledger exceeds '' @ nat_digits MAX_LEDGER_BYTES @ '' bytes.''),
      notJsonError = ALE ''Action ledger is not valid JSON.'',
      clockError = InvalidDate\<rparr>"

end
