(* ===== verification/Ledger_Shape.thy ===== *)
theory Ledger_Shape
  imports Ledger_Validate
begin

text \<open>
  The invariant of the action ledger, the round trip of its JSON value, and the interpretation of
  \<open>validated_store\<close>.
\<close>

section \<open>Shapes\<close>

definition ok_safe :: "nat \<Rightarrow> string \<Rightarrow> bool" where
  "ok_safe n s = (s \<noteq> [] \<and> length s \<le> n \<and> sanitizeSecretString s = s)"

fun ok_scalar :: "json \<Rightarrow> bool" where
  "ok_scalar (JStr s) = ok_safe 512 s"
| "ok_scalar JNull = True"
| "ok_scalar (JBool b) = True"
| "ok_scalar (JInt i) = True"
| "ok_scalar (JFrac t) = True"
| "ok_scalar _ = False"

definition ok_data :: "fields \<Rightarrow> bool" where
  "ok_data d = (length d \<le> 16 \<and> list_all (\<lambda>kv. field_allowed (fst kv) \<and> ok_scalar (snd kv)) d)"

definition ok_ledger_entry :: "LedgerEntry \<Rightarrow> bool" where
  "ok_ledger_entry e =
     (ok_ident (le_tenantId e) \<and> 1 \<le> le_sequence e \<and> is_iso (le_timestamp e) \<and> ok_ident (le_actionId e) \<and> ok_hash (le_actionHash e) \<and>
      ok_data (le_data e) \<and> ok_hash (le_previousHash e) \<and> le_entryHash e = entry_hash e)"

definition ok_tenant :: "LedgerTenantState \<Rightarrow> bool" where
  "ok_tenant t =
     (ok_ident (lt_tenantId t) \<and> ok_hash (lt_headHash t) \<and>
      (case lt_retentionDays t of None \<Rightarrow> True | Some n \<Rightarrow> 1 \<le> n \<and> n \<le> 3650) \<and>
      (case lt_deletionRequestedAt t of None \<Rightarrow> True | Some s \<Rightarrow> is_iso s))"

text \<open>A tenant's count and head hash describe its part of the entries, which is a chain.\<close>

definition chained :: "ActionLedgerState \<Rightarrow> LedgerTenantState \<Rightarrow> bool" where
  "chained st t =
     (length (tenant_log (lt_tenantId t) st) = lt_entryCount t \<and>
      verifyChain (genesisHash (lt_tenantId t)) 0 (tenant_log (lt_tenantId t) st) = Inr (lt_headHash t))"

definition tracked :: "ActionLedgerState \<Rightarrow> bool" where
  "tracked st = (le_tenantId ` set (ledger_entries st) \<subseteq> lt_tenantId ` set (ledger_tenants st))"

definition ledger_inv :: "ActionLedgerState \<Rightarrow> bool" where
  "ledger_inv st =
     (length (ledger_entries st) \<le> MAX_ENTRIES \<and> list_all ok_ledger_entry (ledger_entries st) \<and>
      length (ledger_tenants st) \<le> MAX_TENANTS \<and> list_all ok_tenant (ledger_tenants st) \<and> distinct (map lt_tenantId (ledger_tenants st)) \<and>
      list_all (chained st) (ledger_tenants st) \<and>
      (card (le_tenantId ` set (ledger_entries st)) = length (ledger_tenants st) \<or> tracked st))"

section \<open>Leaves\<close>

lemma safeString_eq [validator_simps]: "safeString label n v = Inr s \<longleftrightarrow> v = JStr s \<and> ok_safe n s"
  by (auto simp: safeString_def ok_safe_def split: json.splits)

lemma nonNegativeInteger_eq [validator_simps]: "nonNegativeInteger label v = Inr n \<longleftrightarrow> v = JNat n"
  by (auto simp: nonNegativeInteger_def split: json.splits)

lemma boundedInteger_eq [validator_simps]: "boundedInteger label lo hi v = Inr n \<longleftrightarrow> v = JNat n \<and> lo \<le> n \<and> n \<le> hi"
  by (auto simp: boundedInteger_def Let_def split: json.splits)

lemma stage_of_eq: "stage_of j = Some g \<longleftrightarrow> j = JStr (stage_name g)"
proof
  assume "stage_of j = Some g"
  then show "j = JStr (stage_name g)" by (cases j) (auto dest: find_SomeD)
next
  assume "j = JStr (stage_name g)"
  then show "stage_of j = Some g" by (cases g) (simp_all add: LEDGER_STAGES_def)
qed

lemma stage_name_inj [simp]: "stage_name g = stage_name g' \<longleftrightarrow> g = g'"
  by (cases g; cases g') simp_all

lemma normalizeField_eq: "normalizeField kv = Inr kv' \<longleftrightarrow> kv' = kv \<and> field_allowed (fst kv) \<and> ok_scalar (snd kv)"
  by (cases kv; cases "snd kv") (auto simp: normalizeField_def Let_def res_simps validator_simps)

lemma mapM_checked: "(\<And>x y. f x = Inr y \<longleftrightarrow> y = x \<and> P x) \<Longrightarrow> mapM f xs = Inr ys \<longleftrightarrow> ys = xs \<and> list_all P xs"
  by (induction xs arbitrary: ys) (auto simp: res_simps)

lemma normalizeData_eq [validator_simps]: "normalizeData j = Inr d \<longleftrightarrow> j = JObj d \<and> ok_data d"
  unfolding normalizeData_def ok_data_def
  by (auto simp: andThen_eq_Inr throwIf_eq_Inr v_object_eq mapM_checked [OF normalizeField_eq] simp del: mapM_eq_Inr)

lemma canonical_scalar: "ok_scalar v \<Longrightarrow> \<exists>t. canonical v = Some t"
  by (cases v) simp_all

lemma retention_of_eq: "retention_of j = Some r \<longleftrightarrow> j = enc_retention r \<and> (case r of None \<Rightarrow> True | Some n \<Rightarrow> 1 \<le> n \<and> n \<le> 3650)"
  by (cases j; cases r) (auto split: if_splits)

lemma hold_of_eq: "hold_of j = Some b \<longleftrightarrow> j = JBool b"
  by (cases j) auto

section \<open>Entries and tenants\<close>

lemma ok_hash_entry [simp]: "ok_hash (entry_hash e)" "ok_hash (genesisHash tid)"
  by (simp_all add: entry_hash_def genesisHash_def)

lemma validateEntry_ok: "validateEntry j = Inr e \<Longrightarrow> ok_ledger_entry e"
  unfolding validateEntry_def Let_def
  by (elim andThenE) (cases e, clarsimp simp: ok_ledger_entry_def validator_simps fromOption_eq split: if_splits)

lemma entry_keys: "fst ` set (entry_base e @ [(''entryHash'', v)]) = set ENTRY_KEYS"
  by (auto simp: entry_base_def ENTRY_KEYS_def)

lemma validateEntry_enc:
  assumes "ok_ledger_entry e"
  shows "validateEntry (enc_entry_ledger e) = Inr e"
proof -
  have h: "le_entryHash e = entry_hash e" "ok_hash (le_entryHash e)" "normalizeData (JObj (le_data e)) = Inr (le_data e)"
    using assms by (simp_all add: ok_ledger_entry_def normalizeData_eq)
  have k: "a_exactKeys ALE ''Ledger entry'' ENTRY_KEYS (entry_base e @ [(''entryHash'', JStr (le_entryHash e))]) = Inr ()"
    using entry_keys by (intro a_exactKeys_accepts) simp
  have s: "stage_of (JStr (stage_name (le_stage e))) = Some (le_stage e)" by (simp add: stage_of_eq del: stage_of.simps)
  show ?thesis
    using assms h k s
    by (cases e) (simp add: validateEntry_def enc_entry_ledger_def ok_ledger_entry_def del: a_exactKeys.simps stage_of.simps,
      simp add: entry_base_def Let_def del: stage_of.simps a_exactKeys.simps)
qed

lemma validateEntry_same: "validateEntry (enc_entry_ledger e) = Inr e' \<Longrightarrow> e' = e"
  unfolding validateEntry_def enc_entry_ledger_def entry_base_def Let_def
  by (elim andThenE) (cases e, clarsimp simp: validator_simps stage_of_eq split: if_splits simp del: stage_of.simps)

lemma validateTenant_ok: "validateTenant j = Inr t \<Longrightarrow> ok_tenant t"
  unfolding validateTenant_def
  by (elim andThenE) (auto simp: ok_tenant_def validator_simps retention_of_eq fromOption_eq optionally_def andThen_eq_Inr simp del: retention_of.simps split: option.splits if_splits)

lemma validateTenant_enc:
  assumes "ok_tenant t"
  shows "validateTenant (enc_tenant t) = Inr t"
proof -
  have "retention_of (enc_retention (lt_retentionDays t)) = Some (lt_retentionDays t)" "hold_of (JBool (lt_legalHold t)) = Some (lt_legalHold t)"
    "nonNegativeInteger l (JNat (lt_entryCount t)) = Inr (lt_entryCount t)" for l
    using assms by (simp_all add: retention_of_eq ok_tenant_def nonNegativeInteger_eq del: retention_of.simps)
  then show ?thesis
    using assms by (cases t; cases "lt_deletionRequestedAt t")
      (simp_all add: validateTenant_def enc_tenant_def ok_tenant_def TENANT_KEYS_def opt_prop_def optionally_def v_timestamp_eq del: retention_of.simps)
qed

lemma validateTenant_same: "validateTenant (enc_tenant t) = Inr t' \<Longrightarrow> t' = t"
  unfolding validateTenant_def enc_tenant_def
  by (elim andThenE) (cases t; cases "lt_deletionRequestedAt t"; cases "lt_retentionDays t";
    clarsimp simp: validator_simps opt_prop_def optionally_def res_simps split: if_splits)

section \<open>The store\<close>

lemma find_key: "x \<in> set xs \<Longrightarrow> distinct (map k xs) \<Longrightarrow> List.find (\<lambda>y. k y = k x) xs = Some x"
  by (induction xs) auto

lemma findTenant_mem: "t \<in> set (ledger_tenants st) \<Longrightarrow> distinct (map lt_tenantId (ledger_tenants st)) \<Longrightarrow> findTenant (lt_tenantId t) st = Some t"
  by (simp add: findTenant_def find_key)

lemma integrity_iff:
  "t \<in> set (ledger_tenants st) \<Longrightarrow> distinct (map lt_tenantId (ledger_tenants st)) \<Longrightarrow>
   assertTenantIntegrity st (lt_tenantId t) = Inr u \<longleftrightarrow> chained st t"
  by (auto simp: assertTenantIntegrity_def verifyTenantState_def chained_def Let_def findTenant_mem split: sum.splits)

lemma integrity_all:
  assumes "distinct (map lt_tenantId (ledger_tenants st))"
  shows "(\<exists>us. mapM (\<lambda>t. assertTenantIntegrity st (lt_tenantId t)) (ledger_tenants st) = Inr us) \<longleftrightarrow> list_all (chained st) (ledger_tenants st)"
proof
  assume "\<exists>us. mapM (\<lambda>t. assertTenantIntegrity st (lt_tenantId t)) (ledger_tenants st) = Inr us"
  then have "\<exists>u. assertTenantIntegrity st (lt_tenantId t) = Inr u" if "t \<in> set (ledger_tenants st)" for t
    using that by (auto simp: mapM_eq_Inr list_all2_conv_all_nth in_set_conv_nth)
  then show "list_all (chained st) (ledger_tenants st)" using integrity_iff assms by (auto simp: list_all_iff)
next
  assume "list_all (chained st) (ledger_tenants st)"
  then have "assertTenantIntegrity st (lt_tenantId t) = Inr ()" if "t \<in> set (ledger_tenants st)" for t
    using integrity_iff [OF that assms] that by (simp add: list_all_iff)
  then have "mapM (\<lambda>t. assertTenantIntegrity st (lt_tenantId t)) ts = Inr (map (\<lambda>_. ()) ts)" if "set ts \<subseteq> set (ledger_tenants st)" for ts
    using that by (induction ts) simp_all
  then show "\<exists>us. mapM (\<lambda>t. assertTenantIntegrity st (lt_tenantId t)) (ledger_tenants st) = Inr us" by blast
qed

lemma tracked_iff: "tracked st \<longleftrightarrow> \<not> list_ex (\<lambda>e. \<not> list_ex (\<lambda>t. lt_tenantId t = le_tenantId e) (ledger_tenants st)) (ledger_entries st)"
  by (auto simp: tracked_def list_ex_iff image_subset_iff) (metis imageE image_eqI)+

text \<open>What the validator of the store accepts.\<close>

lemma validateArrays_eq:
  "validateArrays ves vts = Inr st \<longleftrightarrow>
     length ves \<le> MAX_ENTRIES \<and> length vts \<le> MAX_TENANTS \<and> mapM validateEntry ves = Inr (ledger_entries st) \<and>
     mapM validateTenant vts = Inr (ledger_tenants st) \<and> distinct (map lt_tenantId (ledger_tenants st)) \<and>
     list_all (chained st) (ledger_tenants st) \<and>
     (card (le_tenantId ` set (ledger_entries st)) = length (ledger_tenants st) \<or> tracked st)"
  using integrity_all [of st] tracked_iff [of st]
  by (cases st) (auto simp: validateArrays_def andThen_eq_Inr throwIf_eq_Inr simp del: mapM_eq_Inr)

lemma validateLedgerStateE:
  assumes "validateLedgerState j = Inr st"
  obtains s ves vts where "j = JObj s" "jget s ''entries'' = JArr ves" "jget s ''tenants'' = JArr vts" "validateArrays ves vts = Inr st"
  using assms unfolding validateLedgerState_def
  by (elim andThenE) (auto simp: v_object_eq split: json.splits)

lemma validateLedgerState_ok:
  assumes "validateLedgerState j = Inr st"
  shows "ledger_inv st"
proof -
  from assms obtain ves vts where "validateArrays ves vts = Inr st" by (rule validateLedgerStateE)
  then have h: "length ves \<le> MAX_ENTRIES" "length vts \<le> MAX_TENANTS" "mapM validateEntry ves = Inr (ledger_entries st)"
    "mapM validateTenant vts = Inr (ledger_tenants st)" "distinct (map lt_tenantId (ledger_tenants st))" "list_all (chained st) (ledger_tenants st)"
    "card (le_tenantId ` set (ledger_entries st)) = length (ledger_tenants st) \<or> tracked st"
    unfolding validateArrays_eq by blast+
  have "list_all ok_ledger_entry (ledger_entries st)" "list_all ok_tenant (ledger_tenants st)"
    using mapM_Inr_all [OF h(3) validateEntry_ok] mapM_Inr_all [OF h(4) validateTenant_ok] by (auto simp: list_all_iff)
  with h mapM_Inr_length [OF h(3)] mapM_Inr_length [OF h(4)] show ?thesis by (simp add: ledger_inv_def)
qed

lemma validateLedgerState_enc:
  assumes "ledger_inv st"
  shows "validateLedgerState (enc_action_ledger st) = Inr st"
proof -
  have "mapM validateEntry (map enc_entry_ledger (ledger_entries st)) = Inr (ledger_entries st)"
    using assms by (intro mapM_roundtrip validateEntry_enc) (simp add: ledger_inv_def list_all_iff)
  moreover have "mapM validateTenant (map enc_tenant (ledger_tenants st)) = Inr (ledger_tenants st)"
    using assms by (intro mapM_roundtrip validateTenant_enc) (simp add: ledger_inv_def list_all_iff)
  ultimately have "validateArrays (map enc_entry_ledger (ledger_entries st)) (map enc_tenant (ledger_tenants st)) = Inr st"
    using assms unfolding validateArrays_eq by (simp add: ledger_inv_def)
  then show ?thesis by (simp add: validateLedgerState_def enc_action_ledger_def LEDGER_SCHEMA_VERSION_def LEDGER_KIND_def)
qed

lemma validateLedgerState_same:
  assumes "validateLedgerState (enc_action_ledger st) = Inr st'"
  shows "st' = st"
proof -
  from assms have "mapM validateEntry (map enc_entry_ledger (ledger_entries st)) = Inr (ledger_entries st')"
    "mapM validateTenant (map enc_tenant (ledger_tenants st)) = Inr (ledger_tenants st')"
    by (auto elim!: validateLedgerStateE simp: enc_action_ledger_def validateArrays_eq simp del: mapM_eq_Inr)
  then have "ledger_entries st' = ledger_entries st" "ledger_tenants st' = ledger_tenants st"
    by (auto dest!: mapM_same intro: validateEntry_same validateTenant_same)
  then show ?thesis by (cases st; cases st') simp
qed

lemma ledger_inv_empty: "ledger_inv emptyLedger"
  by (simp add: ledger_inv_def emptyLedger_def)

interpretation ledger_file: validated_store ledger_store ledger_inv
  by unfold_locales (simp_all add: ledger_store_def ledger_inv_empty validateLedgerState_ok validateLedgerState_enc)

end
