(* ===== verification/Action_Ledger.thy ===== *)
theory Action_Ledger
  imports Ledger_Shape
begin

text \<open>
  The operations of \<open>LocalActionLedger\<close> (\<open>src/ledger/actionLedger.ts\<close>).  A method
  authorizes its caller and runs its body on the store under the file lock (\<open>mutate\<close>) or reads
  the store.  The access authorizer is a parameter; so is the clock, which the code reads once for
  every entry it appends.
\<close>

section \<open>Access\<close>

text \<open>An access value is an object with an identity and the fields that can be seen of it.\<close>

type_synonym 'i access_value = "'i \<times> json"

type_synonym 'i LedgerAccessAuthorizer = "'i access_value \<Rightarrow> LedgerPermission \<Rightarrow> string \<Rightarrow> (ledger_error, json \<times> json \<times> LedgerPermission list) res"

definition accessTenantId :: "json \<Rightarrow> (ledger_error, string) res" where
  "accessTenantId value =
     (case value of
        JObj ob \<Rightarrow> (case jget ob ''tenantId'' of JStr s \<Rightarrow> a_identifier ALE ''Ledger tenant id'' (JStr s) | _ \<Rightarrow> Inr ''opaque'')
      | JArr vs \<Rightarrow> Inr ''opaque''
      | _ \<Rightarrow> Inl (ALE ''Ledger access is not a verified capability.''))"

definition denyLedgerAccess :: "'i LedgerAccessAuthorizer" where
  "denyLedgerAccess access permission tid =
     Inl (ALE ''Ledger access is disabled until a verified tenant access authorizer is configured.'')"

definition authorizeLedger :: "'i LedgerAccessAuthorizer \<Rightarrow> 'i access_value \<Rightarrow> LedgerPermission \<Rightarrow> (ledger_error, LedgerAccess) res" where
  "authorizeLedger accessAuthorizer access permission =
     andThen (accessTenantId (snd access)) (\<lambda>hint.
     andThen (accessAuthorizer access permission hint) (\<lambda>(tid, principal, permissions).
     andThen (throwIf (permission \<notin> set permissions) (ALE ''Ledger access authorizer returned an insufficient permission set.'')) (\<lambda>_.
     andThen (a_identifier ALE ''Ledger tenant id'' tid) (\<lambda>t.
     andThen (a_identifier ALE ''Ledger principal id'' principal) (\<lambda>p.
     Inr \<lparr>access_tenantId = t, access_principalId = p, access_permissions = permissions\<rparr>)))))"

section \<open>Tenants\<close>

type_synonym 'a ledger_op = "(ActionLedgerState, ledger_error, 'a) prog"
type_synonym 'a ledger_prog = "(store_file, ledger_error, 'a) prog"

definition newTenant :: "string \<Rightarrow> LedgerTenantState" where
  "newTenant tid = \<lparr>lt_tenantId = tid, lt_entryCount = 0, lt_headHash = genesisHash tid, lt_retentionDays = None, lt_legalHold = False,
     lt_deletionRequestedAt = None\<rparr>"

definition getOrCreateTenant :: "string \<Rightarrow> LedgerTenantState ledger_op" where
  "getOrCreateTenant tid = getp (\<lambda>st.
     case findTenant tid st of
       Some t \<Rightarrow> ret t
     | None \<Rightarrow>
         if length (ledger_tenants st) \<ge> MAX_TENANTS
         then throw (ALE (''Action ledger tenant limit of '' @ nat_digits MAX_TENANTS @ '' was reached.''))
         else seqp (modifyp (\<lambda>st. st\<lparr>ledger_tenants := ledger_tenants st @ [newTenant tid]\<rparr>)) (\<lambda>_. ret (newTenant tid)))"

text \<open>A change of the tenant's object in the state.\<close>

definition updTenant :: "string \<Rightarrow> (LedgerTenantState \<Rightarrow> LedgerTenantState) \<Rightarrow> ActionLedgerState \<Rightarrow> ActionLedgerState" where
  "updTenant tid f st = st\<lparr>ledger_tenants := updateFirst (\<lambda>t. lt_tenantId t = tid) f (ledger_tenants st)\<rparr>"

section \<open>Retention\<close>

fun relinkTenantChain :: "string \<Rightarrow> nat \<Rightarrow> string \<Rightarrow> LedgerEntry list \<Rightarrow> LedgerEntry list" where
  "relinkTenantChain tid i previous [] = []"
| "relinkTenantChain tid i previous (e # es) =
     (let base = e\<lparr>le_tenantId := tid, le_sequence := i + 1, le_previousHash := previous\<rparr>;
          linked = base\<lparr>le_entryHash := entry_hash base\<rparr>
      in linked # relinkTenantChain tid (i + 1) (le_entryHash linked) es)"

definition survives :: "int \<Rightarrow> LedgerEntry \<Rightarrow> bool" where
  "survives cutoff e = (case date_parse (le_timestamp e) of None \<Rightarrow> False | Some x \<Rightarrow> x \<ge> cutoff)"

definition rotateTenant :: "int \<Rightarrow> string \<Rightarrow> ActionLedgerState \<Rightarrow> ActionLedgerState" where
  "rotateTenant ms tid st =
     (case findTenant tid st of
        None \<Rightarrow> st
      | Some t \<Rightarrow>
          (case lt_retentionDays t of
             None \<Rightarrow> st
           | Some days \<Rightarrow>
               if lt_legalHold t then st
               else
                 let cutoff = ms - int days * 86400000;
                     surviving = filter (survives cutoff) (sort_key le_sequence (tenant_log tid st))
                 in if length surviving = length (tenant_log tid st) then st
                    else
                      let rebuilt = relinkTenantChain tid 0 (genesisHash tid) surviving
                      in updTenant tid (\<lambda>t. t\<lparr>lt_entryCount := length rebuilt,
                             lt_headHash := (if rebuilt = [] then genesisHash tid else le_entryHash (last rebuilt))\<rparr>)
                           (st\<lparr>ledger_entries := filter (\<lambda>e. le_tenantId e \<noteq> tid) (ledger_entries st) @ rebuilt\<rparr>)))"

definition rotateForRetention :: "int \<Rightarrow> ActionLedgerState \<Rightarrow> ActionLedgerState" where
  "rotateForRetention ms st = fold (rotateTenant ms) (map lt_tenantId (ledger_tenants st)) st"

section \<open>Appending\<close>

definition pushEntry :: "LedgerEntry \<Rightarrow> ActionLedgerState \<Rightarrow> ActionLedgerState" where
  "pushEntry e st =
     updTenant (le_tenantId e) (\<lambda>t. t\<lparr>lt_entryCount := le_sequence e, lt_headHash := le_entryHash e\<rparr>)
       (st\<lparr>ledger_entries := ledger_entries st @ [e]\<rparr>)"

text \<open>The new entry, from the tenant's object, which a rotation may have changed.\<close>

definition newEntry ::
  "LedgerTenantState \<Rightarrow> string \<Rightarrow> string \<Rightarrow> string \<Rightarrow> LedgerStage \<Rightarrow> fields \<Rightarrow> string \<Rightarrow> (ledger_error, LedgerEntry) res" where
  "newEntry t tid actionId digest stage data ts =
     andThen (v_timestamp ALE ''Ledger timestamp'' (JStr ts)) (\<lambda>ts.
     andThen (a_identifier ALE ''Ledger action id'' (JStr actionId)) (\<lambda>aid.
     andThen (a_hash ALE ''Ledger action hash'' (JStr digest)) (\<lambda>ah.
     andThen (normalizeData (JObj data)) (\<lambda>d.
     let base = \<lparr>le_tenantId = tid, le_sequence = lt_entryCount t + 1, le_timestamp = ts, le_actionId = aid, le_actionHash = ah, le_stage = stage,
                 le_data = d, le_previousHash = (if lt_entryCount t = 0 then genesisHash tid else lt_headHash t), le_entryHash = ''''\<rparr>
     in Inr (base\<lparr>le_entryHash := entry_hash base\<rparr>)))))"

definition appendEntry :: "string \<Rightarrow> string \<Rightarrow> string \<Rightarrow> LedgerStage \<Rightarrow> fields \<Rightarrow> int \<Rightarrow> LedgerEntry ledger_op" where
  "appendEntry tid actionId digest stage data ms =
     seqp (getOrCreateTenant tid) (\<lambda>tenant.
     seqp (getp (\<lambda>st. if length (ledger_entries st) \<ge> MAX_ENTRIES then modifyp (rotateForRetention ms) else ret ())) (\<lambda>_.
     getp (\<lambda>st.
       if length (ledger_entries st) \<ge> MAX_ENTRIES
       then throw (ALE (''Action ledger entry limit of '' @ nat_digits MAX_ENTRIES @
              '' was reached; export and controlled retention review are required.''))
       else
         let current = (case findTenant tid st of None \<Rightarrow> tenant | Some t \<Rightarrow> t) in
         seqp (liftp (newEntry current tid actionId digest stage data (toISOString ms))) (\<lambda>e.
         seqp (modifyp (pushEntry e)) (\<lambda>_. ret e)))))"

text \<open>\<open>this.now().toISOString()\<close>, which throws for an invalid \<open>Date\<close>.\<close>

definition dateNow :: "clock \<Rightarrow> (ledger_error, int) res" where
  "dateNow now = (case now of None \<Rightarrow> Inl InvalidDate | Some ms \<Rightarrow> Inr ms)"

definition entriesForAction :: "ActionLedgerState \<Rightarrow> string \<Rightarrow> string \<Rightarrow> LedgerEntry list" where
  "entriesForAction st tid actionId = filter (\<lambda>e. le_tenantId e = tid \<and> le_actionId e = actionId) (ledger_entries st)"

definition governanceActionId :: "string \<Rightarrow> ActionLedgerState \<Rightarrow> string \<Rightarrow> string" where
  "governanceActionId kind st tid =
     take 128 (''governance-'' @ kind @ ''-'' @ tid @ ''-'' @ nat_digits (length (tenant_log tid st) + 1))"

section \<open>The evidence of an action\<close>

definition fromGateway :: "(gateway_error, 'a) res \<Rightarrow> (ledger_error, 'a) res" where
  "fromGateway r = (case r of Inl e \<Rightarrow> Inl (GatewayThrew e) | Inr x \<Rightarrow> Inr x)"

definition normalizeActionRecord :: "ActionLedgerRecord \<Rightarrow> (ledger_error, StoredAction) res" where
  "normalizeActionRecord value =
     fromGateway (andThen (actionHash (rec_envelope value)) (\<lambda>digest.
       validateStoredAction (JObj [(''schemaVersion'', JNat 1), (''kind'', JStr ''ghostapi.action-record''),
         (''envelope'', rec_envelope value), (''actionHash'', JStr digest), (''approval'', rec_approval value), (''receipts'', rec_receipts value)])))"

text \<open>A stage of an action's timeline: its data are computed, and may throw, just before the append.\<close>

type_synonym stage_data = "LedgerStage \<times> (ledger_error, fields) res"

definition jsonHash :: "json \<Rightarrow> string" where
  "jsonHash v = sha256 (the (canonical v))"

definition intentData :: "ActionEnvelope \<Rightarrow> fields" where
  "intentData env =
     [(''operation'', JStr (env_operation env)), (''resourceType'', JStr ''synthetic-world''), (''resourceIdHash'', JStr (sha256 (resource_id env))),
      (''argumentsHash'', JStr (jsonHash (JObj [(''worldId'', JStr (arg_worldId env))]))),
      (''expectedEffectsHash'', JStr (jsonHash (JArr (map JStr (expectedSideEffects env))))),
      (''riskClass'', JStr (risk_name (env_riskClass env))), (''reversibility'', JStr (reversibility_name (reversibility env)))]"

definition identityData :: "ActionEnvelope \<Rightarrow> fields" where
  "identityData env = [(''actorId'', JStr (actor_id env)), (''workloadId'', JStr (actor_workloadId env)), (''actorType'', JStr (actor_name (actor_type env)))]"

definition policyData :: "ActionEnvelope \<Rightarrow> fields" where
  "policyData env = [(''policyVersion'', JNat (policy_version env)), (''policyHash'', JStr (policy_hash env)), (''allowed'', JBool True),
     (''basis'', JStr ''caller_claimed'')]"

definition approvalData :: "ActionApproval \<Rightarrow> (ledger_error, fields) res" where
  "approvalData p =
     andThen (fromGateway (actionApprovalHash (enc_approval p))) (\<lambda>h.
     Inr [(''approvalHash'', JStr h), (''approverId'', JStr (approvedBy p)), (''status'', JStr ''approved''), (''basis'', JStr ''caller_claimed'')])"

definition grantData :: "(json \<times> json) option \<Rightarrow> (ledger_error, fields) res" where
  "grantData grant =
     (case grant of
        None \<Rightarrow> Inr [(''status'', JStr ''not_used'')]
      | Some (g, v) \<Rightarrow>
          andThen (a_hash ALE ''Credential grant reference'' g) (\<lambda>h.
          andThen (a_positiveInteger ALE ''Credential version'' v) (\<lambda>n.
          Inr [(''status'', JStr ''granted''), (''grantIdHash'', JStr h), (''credentialVersion'', JNat n)])))"

definition enc_result_or_null :: "ReceiptResult option \<Rightarrow> json" where
  "enc_result_or_null r = (case r of None \<Rightarrow> JNull | Some v \<Rightarrow> enc_result v)"

definition receiptRef :: "ActionExecutionReceipt \<Rightarrow> fields \<Rightarrow> fields \<Rightarrow> (ledger_error, fields) res" where
  "receiptRef r before after =
     andThen (a_hash ALE ''Action receipt hash'' (JStr (receiptHash r))) (\<lambda>h. Inr (before @ [(''receiptHash'', JStr h)] @ after))"

text \<open>The status of a validated receipt is one of five words that pass \<open>safeString\<close>.\<close>

definition receiptEvidence :: "ActionExecutionReceipt \<Rightarrow> stage_data list" where
  "receiptEvidence r =
     (case receipt_status r of
        Requested \<Rightarrow> []
      | Attempted \<Rightarrow> [(Execution_attempt, receiptRef r [(''attempt'', JNat 1), (''status'', JStr ''attempted'')] [])]
      | Committed \<Rightarrow>
          [(Provider_receipt, receiptRef r [(''outcome'', JStr ''committed'')]
             [(''providerReceiptHash'', case providerRequestId r of None \<Rightarrow> JNull | Some i \<Rightarrow> JStr (sha256 i))])]
      | Verified \<Rightarrow>
          [(Verification, receiptRef r [(''status'', JStr ''verified'')] [(''proofHash'', JStr (jsonHash (enc_result_or_null (receipt_result r))))])]
      | Failed \<Rightarrow>
          let outcome = (if receipt_failure r = Some Unknown_outcome then ''ambiguous'' else ''failed'') in
          [(Execution_attempt, receiptRef r [(''attempt'', JNat 1), (''status'', JStr outcome)] []),
           (Verification, receiptRef r [(''status'', JStr outcome)] [(''proofHash'', JNull)])])"

definition actionStages :: "StoredAction \<Rightarrow> (json \<times> json) option \<Rightarrow> stage_data list" where
  "actionStages rec grant =
     (let env = envelope rec in
      [(Intent, Inr (intentData env)), (Identity, Inr (identityData env)), (Policy_decision, Inr (policyData env)),
       (Approval_stage, approvalData (approval rec)), (Credential_grant, grantData grant)] @
      concat (map receiptEvidence (receipts rec)) @
      [(Compensation, Inr [(''status'', JStr (if reversibility env = Compensatable then ''not_attempted'' else ''not_supported''))])])"

text \<open>The appends in order; the clock is read for each.\<close>

fun appendStages :: "string \<Rightarrow> string \<Rightarrow> string \<Rightarrow> (nat \<Rightarrow> clock) \<Rightarrow> nat \<Rightarrow> stage_data list \<Rightarrow> LedgerEntry list ledger_op" where
  "appendStages tid actionId digest clk n [] = ret []"
| "appendStages tid actionId digest clk n ((stage, data) # rest) =
     seqp (liftp data) (\<lambda>d.
     seqp (liftp (dateNow (clk n))) (\<lambda>ms.
     seqp (appendEntry tid actionId digest stage d ms) (\<lambda>e.
     seqp (appendStages tid actionId digest clk (n + 1) rest) (\<lambda>es.
     ret (e # es)))))"

section \<open>The methods\<close>

definition mutate_ledger :: "'a ledger_op \<Rightarrow> 'a ledger_prog" where
  "mutate_ledger body f =
     (case read_store ledger_store f of
        Inl e \<Rightarrow> (Inl e, f)
      | Inr st \<Rightarrow>
          (case body st of
             (Inl e, _) \<Rightarrow> (Inl e, f)
           | (Inr result, st') \<Rightarrow>
               (case validateLedgerState (enc_action_ledger st') of
                  Inl e \<Rightarrow> (Inl e, f)
                | Inr _ \<Rightarrow> (Inr result, atomicWriteJson (enc_action_ledger st')))))"

definition recordAction_op :: "string \<Rightarrow> StoredAction \<Rightarrow> (json \<times> json) option \<Rightarrow> (nat \<Rightarrow> clock) \<Rightarrow> LedgerEntry list ledger_op" where
  "recordAction_op tid rec grant clk = getp (\<lambda>st.
     let aid = env_actionId (envelope rec); existing = entriesForAction st tid aid in
     seqp (liftp (fromGateway (actionHash (enc_envelope (envelope rec))))) (\<lambda>digest.
     if existing \<noteq> []
     then if le_actionHash (hd existing) \<noteq> digest
          then throw (ALE ''Action id already has a different ledger timeline in this tenant.'')
          else ret existing
     else appendStages tid aid digest clk 0 (actionStages rec grant)))"

definition recordAction :: "'i LedgerAccessAuthorizer \<Rightarrow> 'i access_value \<Rightarrow> ActionLedgerRecord \<Rightarrow> (nat \<Rightarrow> clock) \<Rightarrow> LedgerEntry list ledger_prog" where
  "recordAction auth access value clk =
     seqp (liftp (authorizeLedger auth access Perm_append)) (\<lambda>a.
     seqp (liftp (normalizeActionRecord value)) (\<lambda>rec.
     mutate_ledger (recordAction_op (access_tenantId a) rec (rec_credentialGrant value) clk)))"

definition timeline :: "'i LedgerAccessAuthorizer \<Rightarrow> 'i access_value \<Rightarrow> json \<Rightarrow> store_file \<Rightarrow> (ledger_error, LedgerEntry list) res" where
  "timeline auth access actionId f =
     andThen (authorizeLedger auth access Perm_read) (\<lambda>a.
     andThen (a_identifier ALE ''Action id'' actionId) (\<lambda>aid.
     andThen (read_store ledger_store f) (\<lambda>st.
     andThen (assertTenantIntegrity st (access_tenantId a)) (\<lambda>_.
     Inr (entriesForAction st (access_tenantId a) aid)))))"

definition exportTenant :: "'i LedgerAccessAuthorizer \<Rightarrow> 'i access_value \<Rightarrow> clock \<Rightarrow> store_file \<Rightarrow> (ledger_error, LedgerExport) res" where
  "exportTenant auth access now f =
     andThen (authorizeLedger auth access Perm_export) (\<lambda>a.
     andThen (read_store ledger_store f) (\<lambda>st.
     case verifyTenantState st (access_tenantId a) of
       Ledger_invalid e \<Rightarrow> Inl (ALE (''Ledger integrity verification failed: '' @ e))
     | Ledger_valid n h tr \<Rightarrow>
         andThen (dateNow now) (\<lambda>ms.
         Inr \<lparr>export_tenantId = access_tenantId a, exportedAt = toISOString ms, export_integrity = Ledger_valid n h tr,
              export_entries = tenant_log (access_tenantId a) st\<rparr>)))"

text \<open>\<open>error.message\<close> of what \<open>readState\<close> can throw.\<close>

fun ledger_message :: "ledger_error \<Rightarrow> string" where
  "ledger_message (ActionLedgerError m) = m"
| "ledger_message _ = ''Ledger state could not be validated.''"

definition verifyTenant :: "'i LedgerAccessAuthorizer \<Rightarrow> 'i access_value \<Rightarrow> store_file \<Rightarrow> (ledger_error, LedgerVerification) res" where
  "verifyTenant auth access f =
     andThen (authorizeLedger auth access Perm_read) (\<lambda>a.
     Inr (case read_store ledger_store f of
            Inl e \<Rightarrow> Ledger_invalid (ledger_message e)
          | Inr st \<Rightarrow> verifyTenantState st (access_tenantId a)))"

text \<open>A governance change: the tenant's object, then an entry that records it.\<close>

definition govern ::
  "string \<Rightarrow> (LedgerTenantState \<Rightarrow> LedgerTenantState) \<Rightarrow> string \<Rightarrow> string \<Rightarrow> LedgerStage \<Rightarrow> fields \<Rightarrow> clock \<Rightarrow> LedgerTenantState ledger_op" where
  "govern tid change kind label stage data now =
     seqp (getOrCreateTenant tid) (\<lambda>_.
     seqp (modifyp (updTenant tid change)) (\<lambda>_.
     getp (\<lambda>st.
       seqp (liftp (dateNow now)) (\<lambda>ms.
       seqp (appendEntry tid (governanceActionId kind st tid) (sha256 (label @ '':'' @ tid)) stage data ms) (\<lambda>_.
       seqp (getOrCreateTenant tid) ret)))))"

definition configureRetention_op :: "string \<Rightarrow> nat option \<Rightarrow> clock \<Rightarrow> LedgerTenantState ledger_op" where
  "configureRetention_op tid days now =
     govern tid (\<lambda>t. t\<lparr>lt_retentionDays := days\<rparr>) ''retention'' ''retention'' Retention [(''retentionDays'', enc_retention days)] now"

definition configureRetention :: "'i LedgerAccessAuthorizer \<Rightarrow> 'i access_value \<Rightarrow> json \<Rightarrow> clock \<Rightarrow> LedgerTenantState ledger_prog" where
  "configureRetention auth access daysValue now =
     seqp (liftp (authorizeLedger auth access Perm_manage_retention)) (\<lambda>a.
     seqp (liftp (if daysValue = JNull then Inr None
                  else andThen (boundedInteger ''Retention days'' 1 3650 daysValue) (\<lambda>n. Inr (Some n)))) (\<lambda>days.
     mutate_ledger (configureRetention_op (access_tenantId a) days now)))"

definition setLegalHold_op :: "string \<Rightarrow> bool \<Rightarrow> clock \<Rightarrow> LedgerTenantState ledger_op" where
  "setLegalHold_op tid active now =
     govern tid (\<lambda>t. t\<lparr>lt_legalHold := active\<rparr>) ''hold'' ''legal-hold'' Legal_hold [(''active'', JBool active)] now"

definition setLegalHold :: "'i LedgerAccessAuthorizer \<Rightarrow> 'i access_value \<Rightarrow> json \<Rightarrow> clock \<Rightarrow> LedgerTenantState ledger_prog" where
  "setLegalHold auth access activeValue now =
     seqp (liftp (authorizeLedger auth access Perm_manage_hold)) (\<lambda>a.
     seqp (liftp (fromOption (ALE ''Legal hold state must be boolean.'') (hold_of activeValue))) (\<lambda>active.
     mutate_ledger (setLegalHold_op (access_tenantId a) active now)))"

definition requestDeletion_op :: "string \<Rightarrow> clock \<Rightarrow> LedgerTenantState ledger_op" where
  "requestDeletion_op tid now =
     seqp (getOrCreateTenant tid) (\<lambda>t.
     if lt_legalHold t then throw (ALE ''Deletion request is blocked by the active local legal hold.'')
     else if lt_deletionRequestedAt t \<noteq> None then ret t
     else
       seqp (liftp (dateNow now)) (\<lambda>ms.
       govern tid (\<lambda>t. t\<lparr>lt_deletionRequestedAt := Some (toISOString ms)\<rparr>) ''deletion'' ''deletion'' Deletion_request
         [(''status'', JStr ''requested'')] (Some ms)))"

definition requestDeletion :: "'i LedgerAccessAuthorizer \<Rightarrow> 'i access_value \<Rightarrow> clock \<Rightarrow> LedgerTenantState ledger_prog" where
  "requestDeletion auth access now =
     seqp (liftp (authorizeLedger auth access Perm_request_deletion)) (\<lambda>a. mutate_ledger (requestDeletion_op (access_tenantId a) now))"

end
