(* ===== verification/Ledger_Laws.thy ===== *)
theory Ledger_Laws
  imports Action_Ledger
begin

text \<open>
  What the ledger's operations do to the log of a tenant.  The entries of all tenants share one
  list; the log of a tenant is its part of it (\<open>tenant_log\<close>).  A tenant under legal hold keeps its
  log (a frame of every operation), and the bodies keep the invariant, so that the
  validation before the write never refuses them.
\<close>

section \<open>Tenants and logs\<close>

lemma tenant_log_tenants [simp]: "tenant_log tid (st\<lparr>ledger_tenants := ts\<rparr>) = tenant_log tid st"
  by (simp add: tenant_log_def)

lemma findTenant_entries [simp]: "findTenant tid (st\<lparr>ledger_entries := es\<rparr>) = findTenant tid st"
  by (simp add: findTenant_def)

lemma findTenant_id: "findTenant tid st = Some t \<Longrightarrow> lt_tenantId t = tid \<and> t \<in> set (ledger_tenants st)"
  by (auto simp: findTenant_def dest: find_SomeD)

lemma findTenant_ex: "findTenant tid st \<noteq> None \<longleftrightarrow> tid \<in> lt_tenantId ` set (ledger_tenants st)"
  unfolding findTenant_def by (auto simp: find_None_iff)

definition same_id :: "(LedgerTenantState \<Rightarrow> LedgerTenantState) \<Rightarrow> bool" where
  "same_id f = (\<forall>t. lt_tenantId (f t) = lt_tenantId t)"

lemma updateFirst_id:
  "same_id f \<Longrightarrow> map lt_tenantId (updateFirst P f ts) = map lt_tenantId ts"
  "same_id f \<Longrightarrow> List.find (\<lambda>t. lt_tenantId t = tid') (updateFirst (\<lambda>t. lt_tenantId t = tid) f ts) =
     (if tid' = tid then map_option f (List.find (\<lambda>t. lt_tenantId t = tid) ts) else List.find (\<lambda>t. lt_tenantId t = tid') ts)"
  by (induction ts) (auto simp: same_id_def)

lemma updTenant_simps [simp]:
  "tenant_log tid' (updTenant tid f st) = tenant_log tid' st" "ledger_entries (updTenant tid f st) = ledger_entries st"
  "same_id f \<Longrightarrow> map lt_tenantId (ledger_tenants (updTenant tid f st)) = map lt_tenantId (ledger_tenants st)"
  "same_id f \<Longrightarrow> findTenant tid' (updTenant tid f st) = (if tid' = tid then map_option f (findTenant tid st) else findTenant tid' st)"
  by (simp_all add: updTenant_def updateFirst_id) (simp add: findTenant_def updateFirst_id)

lemma same_ids [simp]:
  "same_id (\<lambda>t. t\<lparr>lt_entryCount := n, lt_headHash := h\<rparr>)" "same_id (\<lambda>t. t\<lparr>lt_retentionDays := d\<rparr>)"
  "same_id (\<lambda>t. t\<lparr>lt_legalHold := b\<rparr>)" "same_id (\<lambda>t. t\<lparr>lt_deletionRequestedAt := x\<rparr>)"
  by (simp_all add: same_id_def)

section \<open>Rotation\<close>

lemma relink_tenant: "e \<in> set (relinkTenantChain tid i p es) \<Longrightarrow> le_tenantId e = tid"
  by (induction es arbitrary: i p) (auto simp: Let_def)

lemma relink_length [simp]: "length (relinkTenantChain tid i p es) = length es"
  by (induction es arbitrary: i p) (auto simp: Let_def)

text \<open>Rotating a tenant does nothing, or drops its old entries and links the others again.\<close>

definition rebuilt :: "int \<Rightarrow> string \<Rightarrow> nat \<Rightarrow> ActionLedgerState \<Rightarrow> LedgerEntry list" where
  "rebuilt ms tid days st =
     relinkTenantChain tid 0 (genesisHash tid) (filter (survives (ms - int days * 86400000)) (sort_key le_sequence (tenant_log tid st)))"

lemma rotateTenant_cases:
  obtains "rotateTenant ms tid st = st"
  | t days where "findTenant tid st = Some t" "lt_retentionDays t = Some days" "\<not> lt_legalHold t"
      "rotateTenant ms tid st = updTenant tid (\<lambda>t. t\<lparr>lt_entryCount := length (rebuilt ms tid days st),
         lt_headHash := (if rebuilt ms tid days st = [] then genesisHash tid else le_entryHash (last (rebuilt ms tid days st)))\<rparr>)
         (st\<lparr>ledger_entries := filter (\<lambda>e. le_tenantId e \<noteq> tid) (ledger_entries st) @ rebuilt ms tid days st\<rparr>)"
  unfolding rotateTenant_def rebuilt_def Let_def by (fastforce split: option.splits if_splits)

lemma tenant_log_rebuilt:
  "tenant_log tid' (st\<lparr>ledger_entries := filter (\<lambda>e. le_tenantId e \<noteq> tid) (ledger_entries st) @ rebuilt ms tid days st\<rparr>) =
     (if tid' = tid then rebuilt ms tid days st else tenant_log tid' st)"
  using relink_tenant unfolding rebuilt_def tenant_log_def
  by (auto intro: filter_cong simp: filter_empty_conv filter_id_conv)

lemma rotateTenant_other:
  assumes "tid' \<noteq> tid"
  shows "tenant_log tid' (rotateTenant ms tid st) = tenant_log tid' st" "findTenant tid' (rotateTenant ms tid st) = findTenant tid' st"
  by (cases rule: rotateTenant_cases [of ms tid st]; use assms in \<open>simp add: tenant_log_rebuilt\<close>)+

lemma rotateTenant_ids [simp]: "map lt_tenantId (ledger_tenants (rotateTenant ms tid st)) = map lt_tenantId (ledger_tenants st)"
  by (cases rule: rotateTenant_cases [of ms tid st]) simp_all

text \<open>A tenant that is not rotated: under legal hold, or without a retention period.\<close>

definition shielded :: "string \<Rightarrow> ActionLedgerState \<Rightarrow> bool" where
  "shielded tid st = (\<exists>t. findTenant tid st = Some t \<and> (lt_legalHold t \<or> lt_retentionDays t = None))"

lemma rotateTenant_shielded:
  "shielded tid st \<Longrightarrow> tenant_log tid (rotateTenant ms tid' st) = tenant_log tid st \<and> findTenant tid (rotateTenant ms tid' st) = findTenant tid st"
  by (cases "tid' = tid"; cases rule: rotateTenant_cases [of ms tid' st]) (auto simp: shielded_def tenant_log_rebuilt)

lemma rotate_shielded:
  "shielded tid st \<Longrightarrow> tenant_log tid (fold (rotateTenant ms) ids st) = tenant_log tid st \<and> findTenant tid (fold (rotateTenant ms) ids st) = findTenant tid st"
proof (induction ids arbitrary: st)
  case (Cons i ids)
  from rotateTenant_shielded [OF Cons.prems] have "shielded tid (rotateTenant ms i st)" using Cons.prems by (simp add: shielded_def)
  with Cons.IH [OF this] rotateTenant_shielded [OF Cons.prems] show ?case by simp
qed simp

lemma rotateForRetention_shielded:
  "shielded tid st \<Longrightarrow> tenant_log tid (rotateForRetention ms st) = tenant_log tid st \<and> findTenant tid (rotateForRetention ms st) = findTenant tid st"
  by (simp add: rotateForRetention_def rotate_shielded)

section \<open>The hold keeps the log\<close>

definition held :: "string \<Rightarrow> ActionLedgerState \<Rightarrow> bool" where
  "held tid st = (\<exists>t. findTenant tid st = Some t \<and> lt_legalHold t)"

definition hold_frame :: "string \<Rightarrow> ActionLedgerState \<Rightarrow> ActionLedgerState \<Rightarrow> bool" where
  "hold_frame tid st st' = (held tid st \<longrightarrow> held tid st' \<and> (\<exists>es. tenant_log tid st' = tenant_log tid st @ es))"

interpretation hold: frame "hold_frame tid" for tid
  by unfold_locales (auto simp: hold_frame_def)

lemma held_shielded: "held tid st \<Longrightarrow> shielded tid st"
  by (auto simp: held_def shielded_def)

lemma findTenant_append: "findTenant tid (st\<lparr>ledger_tenants := ledger_tenants st @ [t]\<rparr>) =
  (case findTenant tid st of None \<Rightarrow> if lt_tenantId t = tid then Some t else None | Some t' \<Rightarrow> Some t')"
proof -
  have "List.find P (ts @ [t]) = (case List.find P ts of None \<Rightarrow> if P t then Some t else None | Some t' \<Rightarrow> Some t')" for P ts
    by (induction ts) auto
  then show ?thesis by (simp add: findTenant_def)
qed

lemma getOrCreateTenant_hold: "keeps (hold_frame tid) (getOrCreateTenant tid')"
  unfolding getOrCreateTenant_def
  by (intro keeps_getp keeps_option keeps_if hold.keeps_ret hold.keeps_throw hold.keeps_seqp keeps_modifyp)
    (auto simp: hold_frame_def held_def findTenant_append)

lemma pushEntry_simps [simp]:
  "tenant_log tid (pushEntry e st) = tenant_log tid st @ (if le_tenantId e = tid then [e] else [])"
  "findTenant tid (pushEntry e st) = (if le_tenantId e = tid then map_option (\<lambda>t. t\<lparr>lt_entryCount := le_sequence e, lt_headHash := le_entryHash e\<rparr>) (findTenant tid st)
     else findTenant tid st)"
  by (simp_all add: pushEntry_def) (simp add: tenant_log_def)

lemma appendEntry_hold: "keeps (hold_frame tid) (appendEntry tid' aid digest stage data ms)"
  unfolding appendEntry_def Let_def
  by (intro keeps_getp keeps_if hold.keeps_ret hold.keeps_throw hold.keeps_seqp keeps_modifyp hold.keeps_liftp getOrCreateTenant_hold)
    (use rotateForRetention_shielded [OF held_shielded, of tid] in \<open>auto simp: hold_frame_def held_def\<close>)

lemma appendStages_hold: "keeps (hold_frame tid) (appendStages tid' aid digest clk n stages)"
  by (induction stages arbitrary: n) (auto intro!: hold.keeps_ret hold.keeps_seqp hold.keeps_liftp appendEntry_hold)

lemma recordAction_hold: "keeps (hold_frame tid) (recordAction_op tid' rec grant clk)"
  unfolding recordAction_op_def Let_def
  by (intro keeps_getp keeps_if hold.keeps_ret hold.keeps_throw hold.keeps_seqp hold.keeps_liftp appendStages_hold)

lemma govern_hold:
  assumes "same_id change" and "\<And>t. tid' = tid \<Longrightarrow> lt_legalHold t \<Longrightarrow> lt_legalHold (change t)"
  shows "keeps (hold_frame tid) (govern tid' change kind label stage data now)"
  unfolding govern_def
  by (intro keeps_getp hold.keeps_ret hold.keeps_seqp keeps_modifyp hold.keeps_liftp getOrCreateTenant_hold appendEntry_hold)
    (use assms in \<open>auto simp: hold_frame_def held_def\<close>)

lemma ledger_ops_hold:
  "keeps (hold_frame tid) (configureRetention_op tid' days now)" "keeps (hold_frame tid) (requestDeletion_op tid' now)"
  "active \<or> tid' \<noteq> tid \<Longrightarrow> keeps (hold_frame tid) (setLegalHold_op tid' active now)"
  unfolding configureRetention_op_def requestDeletion_op_def setLegalHold_op_def
  by (intro govern_hold hold.keeps_seqp keeps_if hold.keeps_throw hold.keeps_ret hold.keeps_liftp getOrCreateTenant_hold; auto)+

end
