(* ===== verification/Ledger_Valid.thy ===== *)
theory Ledger_Valid
  imports Ledger_Laws
begin

text \<open>
  The bodies of the ledger's methods keep a valid ledger valid: appended entries extend the
  chain of their tenant, and a rotation links what is left to a chain again.
\<close>

section \<open>Chains\<close>

lemma entry_hash_upd [simp]: "entry_hash (e\<lparr>le_entryHash := h\<rparr>) = entry_hash e"
  by (simp add: entry_hash_def entry_base_def)

lemma verifyChain_snoc:
  "verifyChain p i (es @ [e]) = Inr h \<longleftrightarrow>
     (\<exists>h'. verifyChain p i es = Inr h' \<and> le_sequence e = i + length es + 1 \<and> le_previousHash e = h' \<and> le_entryHash e = entry_hash e \<and> h = le_entryHash e)"
  by (induction es arbitrary: p i) auto

lemma verifyChain_relink:
  "verifyChain p i (relinkTenantChain tid i p es) =
     Inr (if relinkTenantChain tid i p es = [] then p else le_entryHash (last (relinkTenantChain tid i p es)))"
proof (induction es arbitrary: i p)
  case (Cons e es)
  then show ?case by (cases es) (simp_all add: Let_def)
qed simp

lemma relink_ok: "list_all ok_ledger_entry es \<Longrightarrow> ok_ident tid \<Longrightarrow> ok_hash p \<Longrightarrow> list_all ok_ledger_entry (relinkTenantChain tid i p es)"
  by (induction es arbitrary: i p) (auto simp: Let_def ok_ledger_entry_def)

section \<open>Valid ledgers\<close>

definition good :: "ActionLedgerState \<Rightarrow> bool" where
  "good st = (ledger_inv st \<and> tracked st)"

lemma all_tenants:
  "distinct (map lt_tenantId (ledger_tenants st)) \<Longrightarrow> list_all P (ledger_tenants st) \<longleftrightarrow> (\<forall>tid t. findTenant tid st = Some t \<longrightarrow> P t)"
  by (auto simp: list_all_iff dest: findTenant_id findTenant_mem)

lemma good_iff:
  "good st \<longleftrightarrow> length (ledger_entries st) \<le> MAX_ENTRIES \<and> list_all ok_ledger_entry (ledger_entries st) \<and>
     length (map lt_tenantId (ledger_tenants st)) \<le> MAX_TENANTS \<and> distinct (map lt_tenantId (ledger_tenants st)) \<and>
     (\<forall>tid t. findTenant tid st = Some t \<longrightarrow> ok_tenant t \<and> chained st t) \<and>
     le_tenantId ` set (ledger_entries st) \<subseteq> set (map lt_tenantId (ledger_tenants st))"
  using all_tenants [of st ok_tenant] all_tenants [of st "chained st"] by (auto simp: good_def ledger_inv_def tracked_def)

definition good_frame :: "ActionLedgerState \<Rightarrow> ActionLedgerState \<Rightarrow> bool" where
  "good_frame st st' = (good st \<longrightarrow> good st')"

interpretation good: frame good_frame
  by unfold_locales (auto simp: good_frame_def)

lemma chained_tenants [simp]: "chained (st\<lparr>ledger_tenants := ts\<rparr>) t = chained st t" "chained (updTenant tid f st) t = chained st t"
  by (simp_all add: chained_def)

lemma log_untracked: "good st \<Longrightarrow> findTenant tid st = None \<Longrightarrow> tenant_log tid st = []"
  using findTenant_ex [of tid st] by (auto simp: good_iff tenant_log_def filter_empty_conv)

lemma getOrCreateTenant_good:
  assumes "ok_ident tid"
  shows "keeps good_frame (getOrCreateTenant tid)"
proof (rule keepsI)
  fix st r st'
  assume run: "getOrCreateTenant tid st = (r, st')"
  show "good_frame st st'"
  proof (cases "findTenant tid st = None \<and> length (ledger_tenants st) < MAX_TENANTS")
    case True
    then have st': "st' = st\<lparr>ledger_tenants := ledger_tenants st @ [newTenant tid]\<rparr>"
      using run by (auto simp: getOrCreateTenant_def getp_def modifyp_def ret_def seqp_def)
    have new: "lt_tenantId (newTenant tid) = tid" "ok_tenant (newTenant tid)" using assms by (simp_all add: newTenant_def ok_tenant_def)
    have "good st'" if g: "good st"
    proof -
      have "chained st (newTenant tid)" using log_untracked [OF g] True by (simp add: chained_def newTenant_def)
      moreover have "tid \<notin> set (map lt_tenantId (ledger_tenants st))" using True findTenant_ex [of tid st] by simp
      ultimately show ?thesis
        using g new True unfolding good_iff st' by (auto simp: findTenant_append split: option.splits if_splits)
    qed
    then show ?thesis by (simp add: good_frame_def)
  next
    case False
    then have "st' = st" using run by (auto simp: getOrCreateTenant_def getp_def ret_def throw_def split: option.splits if_splits)
    then show ?thesis by (simp add: good_frame_def)
  qed
qed

lemma updTenant_good:
  assumes "same_id f" and "\<And>t. lt_entryCount (f t) = lt_entryCount t \<and> lt_headHash (f t) = lt_headHash t" and "\<And>t. ok_tenant t \<Longrightarrow> ok_tenant (f t)"
  shows "good_frame st (updTenant tid f st)"
proof -
  have "chained st (f t) = chained st t" for t using assms(1,2) by (simp add: chained_def same_id_def)
  then show ?thesis using assms unfolding good_frame_def good_iff by (auto split: if_splits simp del: map_map)
qed

section \<open>Rotation\<close>

lemma rotateTenant_good: "good_frame st (rotateTenant ms tid st)"
proof (cases rule: rotateTenant_cases [of ms tid st])
  case 1
  then show ?thesis by (simp add: good_frame_def)
next
  case (2 t days)
  let ?r = "rebuilt ms tid days st"
  let ?st = "st\<lparr>ledger_entries := filter (\<lambda>e. le_tenantId e \<noteq> tid) (ledger_entries st) @ ?r\<rparr>"
  let ?f = "\<lambda>t. t\<lparr>lt_entryCount := length ?r, lt_headHash := (if ?r = [] then genesisHash tid else le_entryHash (last ?r))\<rparr>"
  have "good (updTenant tid ?f ?st)" if g: "good st"
  proof -
    have t: "lt_tenantId t = tid" "ok_tenant t" using g 2(1) findTenant_id [OF 2(1)] by (auto simp: good_iff)
    have oklog: "list_all ok_ledger_entry (tenant_log tid st)" using g by (auto simp: good_iff list_all_iff tenant_log_def)
    have okr: "list_all ok_ledger_entry ?r"
      unfolding rebuilt_def by (rule relink_ok) (use oklog t in \<open>auto simp: list_all_iff ok_tenant_def\<close>)
    have "length ?r \<le> length (tenant_log tid st)" unfolding rebuilt_def by (simp add: order_trans [OF length_filter_le])
    moreover have "length (filter (\<lambda>e. le_tenantId e \<noteq> tid) (ledger_entries st)) + length (tenant_log tid st) = length (ledger_entries st)"
      using sum_length_filter_compl [of "\<lambda>e. le_tenantId e = tid" "ledger_entries st"] by (simp add: tenant_log_def)
    ultimately have len: "length (ledger_entries ?st) \<le> MAX_ENTRIES" using g by (simp add: good_iff)
    have "ok_hash (lt_headHash (?f t))" using okr by (auto simp: list_all_iff ok_ledger_entry_def)
    then have okt: "ok_tenant (?f t)" using t by (auto simp: ok_tenant_def)
    have ch: "chained ?st (?f t)"
      using t verifyChain_relink [of "genesisHash tid" 0 tid] by (simp add: chained_def tenant_log_rebuilt) (simp add: rebuilt_def)
    have others: "chained ?st u = chained st u" if "lt_tenantId u \<noteq> tid" for u using that by (simp add: chained_def tenant_log_rebuilt)
    have "tid \<in> set (map lt_tenantId (ledger_tenants st))" using 2(1) findTenant_ex [of tid st] by simp
    then have tr: "le_tenantId ` set (ledger_entries ?st) \<subseteq> set (map lt_tenantId (ledger_tenants st))"
      using g relink_tenant [of _ tid 0 "genesisHash tid"] by (auto simp: good_iff rebuilt_def)
    have "ok_tenant u \<and> chained (updTenant tid ?f ?st) u" if u: "findTenant tid' (updTenant tid ?f ?st) = Some u" for tid' u
    proof (cases "tid' = tid")
      case True
      with u 2(1) have "u = ?f t" by simp
      with okt ch show ?thesis by (simp only: chained_tenants)
    next
      case False
      with u have "findTenant tid' st = Some u" by simp
      with g False findTenant_id [OF this] others show ?thesis by (auto simp: good_iff)
    qed
    moreover have "list_all ok_ledger_entry (ledger_entries ?st)" using g okr by (auto simp: good_iff list_all_iff)
    moreover have "map lt_tenantId (ledger_tenants (updTenant tid ?f ?st)) = map lt_tenantId (ledger_tenants st)"
      "ledger_entries (updTenant tid ?f ?st) = ledger_entries ?st" by simp_all
    ultimately show ?thesis using g len tr unfolding good_iff by (simp only:) blast
  qed
  then show ?thesis using 2(4) by (simp add: good_frame_def)
qed

lemma rotateForRetention_good: "good_frame st (rotateForRetention ms st)"
proof -
  have "good_frame st (fold (rotateTenant ms) ids st)" for ids
    by (induction ids arbitrary: st) (auto intro: good.frame_refl good.frame_trans rotateTenant_good)
  then show ?thesis by (simp add: rotateForRetention_def)
qed

section \<open>Appending\<close>

lemma newEntry_ok:
  assumes "newEntry t tid aid digest stage data ts = Inr e"
  shows "le_tenantId e = tid" "le_sequence e = lt_entryCount t + 1" "le_previousHash e = (if lt_entryCount t = 0 then genesisHash tid else lt_headHash t)"
    "le_entryHash e = entry_hash e" "ok_ident tid \<Longrightarrow> ok_tenant t \<Longrightarrow> ok_ledger_entry e" "le_stage e = stage" "le_actionId e = aid"
    "le_actionHash e = digest" "le_timestamp e = ts" "le_data e = data"
  using assms unfolding newEntry_def
  by (auto elim!: andThenE simp: validator_simps Let_def ok_ledger_entry_def ok_tenant_def entry_hash_def entry_base_def simp del: canonical.simps)

lemma pushEntry_good:
  assumes "good st" and "findTenant tid st = Some t" and "newEntry t tid aid digest stage data ts = Inr e" and "length (ledger_entries st) < MAX_ENTRIES"
  shows "good (pushEntry e st)"
proof -
  note e = newEntry_ok [OF assms(3)]
  let ?f = "\<lambda>t. t\<lparr>lt_entryCount := le_sequence e, lt_headHash := le_entryHash e\<rparr>"
  have t: "lt_tenantId t = tid" "ok_tenant t" "chained st t" using assms(1,2) findTenant_id [OF assms(2)] by (auto simp: good_iff)
  have oke: "ok_ledger_entry e" using e(5) t by (simp add: ok_tenant_def)
  have "lt_entryCount t = 0 \<longrightarrow> lt_headHash t = genesisHash tid" using t(1,3) by (auto simp: chained_def)
  then have ch: "chained (pushEntry e st) (?f t)"
    using t e by (auto simp: chained_def verifyChain_snoc)
  have ids: "map lt_tenantId (ledger_tenants (pushEntry e st)) = map lt_tenantId (ledger_tenants st)"
    "ledger_entries (pushEntry e st) = ledger_entries st @ [e]" by (simp_all add: pushEntry_def)
  have okt: "ok_tenant (?f t)" using t oke by (simp add: ok_tenant_def ok_ledger_entry_def)
  have others: "chained (pushEntry e st) u = chained st u" if "lt_tenantId u \<noteq> tid" for u using that e(1) by (simp add: chained_def)
  have "tid \<in> set (map lt_tenantId (ledger_tenants st))" using assms(2) findTenant_ex [of tid st] by simp
  moreover have "ok_tenant u \<and> chained (pushEntry e st) u" if "findTenant tid' (pushEntry e st) = Some u" for tid' u
  proof (cases "tid' = tid")
    case True
    with that assms(2) e(1) have "u = ?f t" by simp
    with okt ch show ?thesis by simp
  next
    case False
    with that e(1) have "findTenant tid' st = Some u" by simp
    with assms(1) False findTenant_id [OF this] others show ?thesis by (auto simp: good_iff)
  qed
  ultimately show ?thesis using assms(1,4) oke e(1) unfolding good_iff ids by auto
qed

lemma getOrCreateTenant_found: "getOrCreateTenant tid st = (Inr t, st') \<Longrightarrow> findTenant tid st' = Some t"
  by (auto simp: getOrCreateTenant_def getp_def ret_def throw_def modifyp_def seqp_def findTenant_append newTenant_def split: option.splits if_splits)

lemma rotate_tenants: "map lt_tenantId (ledger_tenants (rotateForRetention ms st)) = map lt_tenantId (ledger_tenants st)"
proof -
  have "map lt_tenantId (ledger_tenants (fold (rotateTenant ms) ids st)) = map lt_tenantId (ledger_tenants st)" for ids
    by (induction ids arbitrary: st) simp_all
  then show ?thesis by (simp add: rotateForRetention_def)
qed

lemma findTenant_ids: "map lt_tenantId (ledger_tenants st') = map lt_tenantId (ledger_tenants st) \<Longrightarrow> findTenant tid st \<noteq> None \<Longrightarrow> findTenant tid st' \<noteq> None"
  unfolding findTenant_ex by (metis list.set_map)

lemma appendEntry_good:
  assumes "ok_ident tid"
  shows "keeps good_frame (appendEntry tid aid digest stage data ms)"
  unfolding appendEntry_def
proof (rule keepsI)
  fix st r st'
  let ?full = "\<lambda>st. length (ledger_entries st) \<ge> MAX_ENTRIES"
  assume run: "seqp (getOrCreateTenant tid) (\<lambda>tenant. seqp (getp (\<lambda>st. if ?full st then modifyp (rotateForRetention ms) else ret ())) (\<lambda>_. getp (\<lambda>st.
    if ?full st then throw (ALE (''Action ledger entry limit of '' @ nat_digits MAX_ENTRIES @ '' was reached; export and controlled retention review are required.''))
    else let current = (case findTenant tid st of None \<Rightarrow> tenant | Some t \<Rightarrow> t) in
      seqp (liftp (newEntry current tid aid digest stage data (toISOString ms))) (\<lambda>e. seqp (modifyp (pushEntry e)) (\<lambda>_. ret e))))) st = (r, st')"
  obtain r1 st1 where 1: "getOrCreateTenant tid st = (r1, st1)" by (cases "getOrCreateTenant tid st")
  have g1: "good_frame st st1" using keepsD [OF getOrCreateTenant_good [OF assms] 1] .
  show "good_frame st st'"
  proof (cases r1)
    case (Inl e)
    with run 1 g1 show ?thesis by simp
  next
    case (Inr t)
    let ?st2 = "if ?full st1 then rotateForRetention ms st1 else st1"
    have g2: "good_frame st ?st2" using g1 rotateForRetention_good good.frame_trans by simp
    have "findTenant tid st1 = Some t" using 1 Inr getOrCreateTenant_found by simp
    then obtain t2 where t2: "findTenant tid ?st2 = Some t2"
      using findTenant_ids [OF rotate_tenants [of ms st1], of tid] by (cases "?full st1") auto
    have "st' = ?st2 \<or> (\<exists>e. newEntry t2 tid aid digest stage data (toISOString ms) = Inr e \<and> length (ledger_entries ?st2) < MAX_ENTRIES \<and> st' = pushEntry e ?st2)"
      using run 1 Inr t2
      by (cases "?full st1"; cases "?full ?st2"; cases "newEntry t2 tid aid digest stage data (toISOString ms)")
        (auto simp: seqp_def getp_def modifyp_def ret_def throw_def liftp_def, metis+)
    then show ?thesis using g2 pushEntry_good [OF _ t2] by (auto simp: good_frame_def)
  qed
qed

lemma appendStages_good: "ok_ident tid \<Longrightarrow> keeps good_frame (appendStages tid aid digest clk n stages)"
  by (induction stages arbitrary: n) (auto intro!: good.keeps_ret good.keeps_seqp good.keeps_liftp appendEntry_good)

lemma recordAction_good: "ok_ident tid \<Longrightarrow> keeps good_frame (recordAction_op tid rec grant clk)"
  unfolding recordAction_op_def Let_def
  by (intro keeps_getp keeps_if good.keeps_ret good.keeps_throw good.keeps_seqp good.keeps_liftp appendStages_good)

lemma govern_good:
  assumes "ok_ident tid" and "same_id change" and "\<And>t. lt_entryCount (change t) = lt_entryCount t \<and> lt_headHash (change t) = lt_headHash t"
    and "\<And>t. ok_tenant t \<Longrightarrow> ok_tenant (change t)"
  shows "keeps good_frame (govern tid change kind label stage data now)"
  unfolding govern_def
  by (intro keeps_getp good.keeps_ret good.keeps_seqp keeps_modifyp good.keeps_liftp getOrCreateTenant_good appendEntry_good updTenant_good assms)

lemma ledger_ops_good:
  assumes "ok_ident tid"
  shows "case days of None \<Rightarrow> True | Some n \<Rightarrow> 1 \<le> n \<and> n \<le> 3650 \<Longrightarrow> keeps good_frame (configureRetention_op tid days now)"
    "keeps good_frame (setLegalHold_op tid active now)"
  unfolding configureRetention_op_def setLegalHold_op_def
  by (intro govern_good assms; simp add: ok_tenant_def)+

lemma appendEntry_timed: "appendEntry tid aid digest stage data ms st = (Inr e, st') \<Longrightarrow> is_iso (toISOString ms)"
  unfolding appendEntry_def newEntry_def
  by (auto simp: seqp_eq_Inr getp_def throw_def liftp_def Let_def validator_simps andThen_eq_Inr split: if_splits)

lemma requestDeletion_good:
  assumes "ok_ident tid" and "requestDeletion_op tid now st = (Inr t, st')"
  shows "good_frame st st'"
proof -
  obtain t1 st1 where 1: "getOrCreateTenant tid st = (Inr t1, st1)" using assms(2) by (auto simp: requestDeletion_op_def seqp_eq_Inr)
  have g1: "good_frame st st1" using keepsD [OF getOrCreateTenant_good [OF assms(1)] 1] .
  show ?thesis
  proof (cases "lt_legalHold t1 \<or> lt_deletionRequestedAt t1 \<noteq> None")
    case True
    with assms(2) 1 g1 show ?thesis by (auto simp: requestDeletion_op_def throw_def ret_def split: if_splits)
  next
    case False
    with assms(2) 1 obtain ms where m: "now = Some ms" and gov: "govern tid (\<lambda>t. t\<lparr>lt_deletionRequestedAt := Some (toISOString ms)\<rparr>) ''deletion'' ''deletion'' Deletion_request
         [(''status'', JStr ''requested'')] (Some ms) st1 = (Inr t, st')"
      by (auto simp: requestDeletion_op_def seqp_eq_Inr liftp_def dateNow_def split: option.splits)
    from gov have "is_iso (toISOString ms)"
      unfolding govern_def by (auto simp: seqp_eq_Inr getp_def liftp_def dateNow_def dest: appendEntry_timed)
    then have "keeps good_frame (govern tid (\<lambda>t. t\<lparr>lt_deletionRequestedAt := Some (toISOString ms)\<rparr>) ''deletion'' ''deletion'' Deletion_request
         [(''status'', JStr ''requested'')] (Some ms))"
      by (intro govern_good assms(1); simp add: ok_tenant_def)
    from good.frame_trans [OF g1 keepsD [OF this gov]] show ?thesis .
  qed
qed

end
