(* ===== verification/Ledger_Machine.thy ===== *)
theory Ledger_Machine
  imports Ledger_Valid
begin

text \<open>
  The ledger as a state machine on its store file: any sequence of calls of the methods that
  write, failing ones included; the other methods only read.
\<close>

datatype 'i ledger_call =
    LRecord "'i access_value" ActionLedgerRecord "nat \<Rightarrow> clock"
  | LRetention "'i access_value" json clock
  | LHold "'i access_value" json clock
  | LDeletion "'i access_value" clock

fun ledger_run :: "'i LedgerAccessAuthorizer \<Rightarrow> 'i ledger_call \<Rightarrow> store_file \<Rightarrow> store_file" where
  "ledger_run auth (LRecord a v clk) f = snd (recordAction auth a v clk f)"
| "ledger_run auth (LRetention a d now) f = snd (configureRetention auth a d now f)"
| "ledger_run auth (LHold a b now) f = snd (setLegalHold auth a b now f)"
| "ledger_run auth (LDeletion a now) f = snd (requestDeletion auth a now f)"

inductive ledger_trace :: "'i LedgerAccessAuthorizer \<Rightarrow> store_file \<Rightarrow> 'i ledger_call list \<Rightarrow> store_file \<Rightarrow> bool"
  for auth :: "'i LedgerAccessAuthorizer" where
  ltrace_nil: "ledger_trace auth f [] f"
| ltrace_snoc: "ledger_trace auth f cs f' \<Longrightarrow> ledger_trace auth f (cs @ [c]) (ledger_run auth c f')"

definition ledger_of :: "store_file \<Rightarrow> ActionLedgerState option" where
  "ledger_of f = (case read_store ledger_store f of Inl _ \<Rightarrow> None | Inr st \<Rightarrow> Some st)"

lemma ledger_of_eq: "ledger_of f = Some st \<longleftrightarrow> read_store ledger_store f = Inr st"
  by (simp add: ledger_of_def split: sum.splits)

lemma ledger_NoFile [simp]: "ledger_of NoFile = Some emptyLedger"
  by (simp add: ledger_of_def read_store_def ledger_store_def)

lemma ledger_written:
  assumes "ledger_inv st" and "ledger_of (atomicWriteJson (enc_action_ledger st)) = Some st'"
  shows "st' = st"
  using assms read_written [of "enc_action_ledger st" ledger_store] read_written_too_large [of ledger_store "enc_action_ledger st"] validateLedgerState_enc [of st]
  by (cases "store_bytes (enc_action_ledger st) \<le> maxStoreBytes ledger_store") (auto simp: ledger_of_eq ledger_store_def)

text \<open>A call leaves the file alone or writes the state its body leaves.\<close>

definition ledger_applied :: "store_file \<Rightarrow> store_file \<Rightarrow> 'a ledger_op \<Rightarrow> bool" where
  "ledger_applied f f' body =
     (\<exists>st x st'. ledger_of f = Some st \<and> body st = (Inr x, st') \<and> ledger_inv st' \<and> f' = atomicWriteJson (enc_action_ledger st'))"

lemma mutate_ledger_applied: "snd (mutate_ledger body f) = f \<or> ledger_applied f (snd (mutate_ledger body f)) body"
proof -
  have "ledger_inv st" if "validateLedgerState (enc_action_ledger st) = Inr st'" for st st'
    using validateLedgerState_ok [OF that] validateLedgerState_same [OF that] by simp
  then show ?thesis by (auto simp: mutate_ledger_def ledger_applied_def ledger_of_eq split: sum.splits prod.splits)
qed

lemma run_record_action:
  "ledger_run auth (LRecord a v clk) f = f \<or>
   (\<exists>ac rec. authorizeLedger auth a Perm_append = Inr ac \<and> normalizeActionRecord v = Inr rec \<and>
      ledger_applied f (ledger_run auth (LRecord a v clk) f) (recordAction_op (access_tenantId ac) rec (rec_credentialGrant v) clk))"
  using mutate_ledger_applied by (auto simp: recordAction_def liftp_seqp split: sum.splits)

lemma run_retention:
  "ledger_run auth (LRetention a d now) f = f \<or>
   (\<exists>ac days. authorizeLedger auth a Perm_manage_retention = Inr ac \<and> (case days of None \<Rightarrow> True | Some n \<Rightarrow> 1 \<le> n \<and> n \<le> 3650) \<and>
      ledger_applied f (ledger_run auth (LRetention a d now) f) (configureRetention_op (access_tenantId ac) days now))"
  using mutate_ledger_applied
  by (auto simp: configureRetention_def liftp_seqp boundedInteger_eq andThen_eq_Inr split: sum.splits if_splits option.splits)

lemma run_hold:
  "ledger_run auth (LHold a b now) f = f \<or>
   (\<exists>ac active. authorizeLedger auth a Perm_manage_hold = Inr ac \<and> b = JBool active \<and>
      ledger_applied f (ledger_run auth (LHold a b now) f) (setLegalHold_op (access_tenantId ac) active now))"
  using mutate_ledger_applied
  by (cases "hold_of b") (auto simp: setLegalHold_def liftp_seqp fromOption_def hold_of_eq split: sum.splits)

lemma run_deletion:
  "ledger_run auth (LDeletion a now) f = f \<or>
   (\<exists>ac. authorizeLedger auth a Perm_request_deletion = Inr ac \<and>
      ledger_applied f (ledger_run auth (LDeletion a now) f) (requestDeletion_op (access_tenantId ac) now))"
  using mutate_ledger_applied by (auto simp: requestDeletion_def liftp_seqp split: sum.splits)

lemma authorized_tenant: "authorizeLedger auth a p = Inr ac \<Longrightarrow> ok_ident (access_tenantId ac)"
  unfolding authorizeLedger_def by (elim andThenE) (auto elim!: andThenE simp: a_identifier_eq split: prod.splits)

text \<open>The call that lifts the hold of a tenant.\<close>

fun releases :: "'i LedgerAccessAuthorizer \<Rightarrow> string \<Rightarrow> 'i ledger_call \<Rightarrow> bool" where
  "releases auth tid (LHold a b now) =
     (b = JBool False \<and> (case authorizeLedger auth a Perm_manage_hold of Inl _ \<Rightarrow> False | Inr ac \<Rightarrow> access_tenantId ac = tid))"
| "releases auth tid _ = False"

lemma applied_frame:
  assumes "ledger_applied f f' body" and "keeps R body"
  shows "\<exists>st st'. ledger_of f = Some st \<and> ledger_inv st' \<and> f' = atomicWriteJson (enc_action_ledger st') \<and> R st st'"
  using assms by (auto simp: ledger_applied_def dest: keepsD)

lemma run_keeps_hold:
  assumes "\<not> releases auth tid c"
  shows "ledger_run auth c f = f \<or>
    (\<exists>st st'. ledger_of f = Some st \<and> ledger_inv st' \<and> ledger_run auth c f = atomicWriteJson (enc_action_ledger st') \<and> hold_frame tid st st')"
proof (cases c)
  case (LRecord a v clk)
  then show ?thesis using run_record_action [of auth a v clk f] applied_frame [OF _ recordAction_hold] by (auto simp del: ledger_run.simps)
next
  case (LRetention a d now)
  then show ?thesis using run_retention [of auth a d now f] applied_frame [OF _ ledger_ops_hold(1)] by (auto simp del: ledger_run.simps)
next
  case (LHold a b now)
  then consider "ledger_run auth c f = f"
    | ac active where "authorizeLedger auth a Perm_manage_hold = Inr ac" "b = JBool active"
      "ledger_applied f (ledger_run auth c f) (setLegalHold_op (access_tenantId ac) active now)"
    using run_hold [of auth a b now f] by (auto simp del: ledger_run.simps)
  then show ?thesis
  proof cases
    case 2
    with assms LHold have "active \<or> access_tenantId ac \<noteq> tid" by auto
    from applied_frame [OF 2(3) ledger_ops_hold(3) [OF this]] show ?thesis ..
  qed simp
next
  case (LDeletion a now)
  then show ?thesis using run_deletion [of auth a now f] applied_frame [OF _ ledger_ops_hold(2)] by (auto simp del: ledger_run.simps)
qed

lemma run_keeps_good:
  "ledger_run auth c f = f \<or>
    (\<exists>st st'. ledger_of f = Some st \<and> ledger_inv st' \<and> ledger_run auth c f = atomicWriteJson (enc_action_ledger st') \<and> good_frame st st')"
proof (cases c)
  case (LRecord a v clk)
  then show ?thesis using run_record_action [of auth a v clk f]
    by (auto simp del: ledger_run.simps dest: authorized_tenant dest!: applied_frame [OF _ recordAction_good])
next
  case (LRetention a d now)
  then show ?thesis using run_retention [of auth a d now f]
    by (auto simp del: ledger_run.simps dest: authorized_tenant dest!: applied_frame [OF _ ledger_ops_good(1)])
next
  case (LHold a b now)
  then show ?thesis using run_hold [of auth a b now f]
    by (auto simp del: ledger_run.simps dest: authorized_tenant dest!: applied_frame [OF _ ledger_ops_good(2)])
next
  case (LDeletion a now)
  then show ?thesis using run_deletion [of auth a now f]
    by (auto simp: ledger_applied_def simp del: ledger_run.simps dest: authorized_tenant dest!: requestDeletion_good [rotated])
qed

end
