(* ===== verification/Ledger_Record.thy ===== *)
theory Ledger_Record
  imports Ledger_Machine Secrets_Plain
begin

text \<open>
  When an action can be recorded: the data of its stages pass the ledger's own rules on
  structured data, so with room in the ledger and a working clock every append succeeds.
\<close>

section \<open>The data of the stages\<close>

lemma ok_safe_ident: "ok_ident s \<Longrightarrow> ok_safe 512 s"
  using ok_ident_length [of s] by (simp add: ok_safe_def ok_ident_def)

lemma ok_safe_hash: "ok_hash s \<Longrightarrow> ok_safe 512 s"
  using key_chars_sanitize [OF key_chars_hash] by (auto simp: ok_safe_def ok_hash_iff)

lemma ok_safe_unmarked: "s \<noteq> [] \<Longrightarrow> length s \<le> 512 \<Longrightarrow> \<not> has_marker s \<Longrightarrow> \<not> has_bearer s \<Longrightarrow> ok_safe 512 s"
  by (simp add: ok_safe_def sanitizeSecretString_unmarked)

lemma ledger_words:
  "ok_safe 512 ''synthetic-world''" "ok_safe 512 ''caller_claimed''" "ok_safe 512 ''approved''" "ok_safe 512 ''not_used''" "ok_safe 512 ''granted''"
  "ok_safe 512 ''attempted''" "ok_safe 512 ''committed''" "ok_safe 512 ''verified''" "ok_safe 512 ''ambiguous''" "ok_safe 512 ''failed''"
  "ok_safe 512 ''not_attempted''" "ok_safe 512 ''not_supported''" "ok_safe 512 ''requested''"
  by (rule ok_safe_unmarked; code_simp)+

lemma ledger_names: "ok_safe 512 (risk_name k)" "ok_safe 512 (reversibility_name v)" "ok_safe 512 (actor_name a)"
proof -
  show "ok_safe 512 (risk_name k)" by (cases k; simp only: risk_name.simps; rule ok_safe_unmarked; code_simp)
  show "ok_safe 512 (reversibility_name v)" by (cases v; simp only: reversibility_name.simps; rule ok_safe_unmarked; code_simp)
  show "ok_safe 512 (actor_name a)" by (cases a; simp only: actor_name.simps; rule ok_safe_unmarked; code_simp)
qed

lemma ledger_fields:
  "field_allowed ''operation''" "field_allowed ''resourceType''" "field_allowed ''resourceIdHash''" "field_allowed ''argumentsHash''"
  "field_allowed ''expectedEffectsHash''" "field_allowed ''riskClass''" "field_allowed ''reversibility''" "field_allowed ''actorId''"
  "field_allowed ''workloadId''" "field_allowed ''actorType''" "field_allowed ''policyVersion''" "field_allowed ''policyHash''" "field_allowed ''allowed''"
  "field_allowed ''basis''" "field_allowed ''approvalHash''" "field_allowed ''approverId''" "field_allowed ''status''" "field_allowed ''grantIdHash''"
  "field_allowed ''credentialVersion''" "field_allowed ''attempt''" "field_allowed ''receiptHash''" "field_allowed ''outcome''"
  "field_allowed ''providerReceiptHash''" "field_allowed ''proofHash''" "field_allowed ''retentionDays''" "field_allowed ''active''"
  by code_simp+

lemmas stage_facts = ok_data_def ok_safe_hash ok_safe_ident ledger_words ledger_names ledger_fields

definition stage_ok :: "stage_data \<Rightarrow> bool" where
  "stage_ok s = (\<exists>d. snd s = Inr d \<and> ok_data d)"

lemma receipt_hash_ok: "receipt_chain aid digest p rs \<Longrightarrow> r \<in> set rs \<Longrightarrow> ok_hash (receiptHash r)"
  by (induction rs arbitrary: p) (auto simp: ok_receipt_def dest: receipt_digest_hash)

lemma receiptEvidence_ok: "ok_hash (receiptHash r) \<Longrightarrow> list_all stage_ok (receiptEvidence r)"
  by (cases "receipt_status r"; cases "providerRequestId r")
    (simp_all add: receiptEvidence_def receiptRef_def stage_ok_def stage_facts jsonHash_def Let_def)

lemma grantData_ok: "grantData grant = Inr d \<Longrightarrow> ok_data d"
  unfolding grantData_def by (auto split: option.splits elim!: andThenE simp: validator_simps stage_facts)

lemma ok_hash_approval: "ok_hash (approval_hash p)"
  by (simp add: approval_hash_def)

lemma actionStages_ok:
  assumes "ok_stored rec" and "grantData grant = Inr d"
  shows "list_all stage_ok (actionStages rec grant)"
proof -
  have env: "ok_envelope (envelope rec)" and app: "ok_approval (approval rec)" using assms(1) by (simp_all add: ok_stored_def)
  have 1: "ok_data (intentData (envelope rec))" "ok_data (identityData (envelope rec))" "ok_data (policyData (envelope rec))"
    using env by (simp_all add: intentData_def identityData_def policyData_def stage_facts jsonHash_def ok_envelope_def)
  have 2: "\<exists>x. approvalData (approval rec) = Inr x \<and> ok_data x"
    using app by (simp add: approvalData_def fromGateway_def stage_facts ok_hash_approval) (simp add: ok_approval_def ok_safe_ident)
  have 3: "list_all stage_ok (receiptEvidence r)" if "r \<in> set (receipts rec)" for r
    using assms(1) that by (auto simp: ok_stored_def intro: receiptEvidence_ok receipt_hash_ok)
  show ?thesis
    using 1 2 3 grantData_ok [OF assms(2)] assms(2)
    by (auto simp: actionStages_def Let_def stage_ok_def list_all_iff stage_facts)
qed

section \<open>Appending succeeds\<close>

lemma getOrCreateTenant_total:
  assumes "findTenant tid st \<noteq> None \<or> length (ledger_tenants st) < MAX_TENANTS"
  shows "\<exists>t st1. getOrCreateTenant tid st = (Inr t, st1) \<and> findTenant tid st1 = Some t \<and> ledger_entries st1 = ledger_entries st"
proof (cases "findTenant tid st")
  case (Some t)
  then show ?thesis by (simp add: getOrCreateTenant_def getp_def ret_def)
next
  case None
  with assms show ?thesis by (simp add: getOrCreateTenant_def getp_def ret_def modifyp_def seqp_def findTenant_append newTenant_def)
qed

lemma newEntry_total:
  assumes "is_iso ts" and "ok_ident aid" and "ok_hash digest" and "ok_data data"
  shows "\<exists>e. newEntry t tid aid digest stage data ts = Inr e"
  using assms normalizeData_eq [of "JObj data" data] by (simp add: newEntry_def Let_def)

lemma appendEntry_total:
  assumes "good st" and "ok_ident tid" and "findTenant tid st \<noteq> None \<or> length (ledger_tenants st) < MAX_TENANTS"
    and "length (ledger_entries st) < MAX_ENTRIES" and "is_iso (toISOString ms)" and "ok_ident aid" and "ok_hash digest" and "ok_data data"
  shows "\<exists>e st'. appendEntry tid aid digest stage data ms st = (Inr e, st') \<and> good st' \<and> ledger_entries st' = ledger_entries st @ [e] \<and>
    findTenant tid st' \<noteq> None \<and> le_tenantId e = tid \<and> le_stage e = stage \<and> le_actionId e = aid \<and> le_actionHash e = digest \<and> le_data e = data"
proof -
  obtain t st1 where 1: "getOrCreateTenant tid st = (Inr t, st1)" "findTenant tid st1 = Some t" "ledger_entries st1 = ledger_entries st"
    using getOrCreateTenant_total [OF assms(3)] by blast
  obtain e where e: "newEntry t tid aid digest stage data (toISOString ms) = Inr e" using newEntry_total assms(5-8) by blast
  have run: "appendEntry tid aid digest stage data ms st = (Inr e, pushEntry e st1)"
    using 1 e assms(4) by (simp add: appendEntry_def seqp_def getp_def ret_def liftp_def modifyp_def)
  moreover have "good (pushEntry e st1)" using keepsD [OF appendEntry_good [OF assms(2)] run] assms(1) by (simp add: good_frame_def)
  moreover have "ledger_entries (pushEntry e st1) = ledger_entries st @ [e]" using 1(3) by (simp add: pushEntry_def)
  ultimately show ?thesis using 1(2) newEntry_ok [OF e] by auto
qed

definition clocks_ok :: "(nat \<Rightarrow> clock) \<Rightarrow> bool" where
  "clocks_ok clk = (\<forall>k. \<exists>ms. clk k = Some ms \<and> clock_ok ms)"

lemma appendStages_total:
  assumes "good st" and "ok_ident tid" and "findTenant tid st \<noteq> None \<or> length (ledger_tenants st) < MAX_TENANTS"
    and "length (ledger_entries st) + length stages \<le> MAX_ENTRIES" and "clocks_ok clk" and "ok_ident aid" and "ok_hash digest" and "list_all stage_ok stages"
  shows "\<exists>es st'. appendStages tid aid digest clk n stages st = (Inr es, st') \<and> good st' \<and> ledger_entries st' = ledger_entries st @ es \<and>
    (\<forall>e \<in> set es. le_tenantId e = tid \<and> le_actionId e = aid \<and> le_actionHash e = digest) \<and> map (\<lambda>e. (le_stage e, Inr (le_data e))) es = stages"
  using assms(1,3,4,8)
proof (induction stages arbitrary: st n)
  case Nil
  then show ?case by (simp add: ret_def)
next
  case (Cons s stages)
  obtain g d where s: "s = (g, Inr d)" "ok_data d" using Cons.prems(4) by (cases s) (auto simp: stage_ok_def)
  obtain ms where ms: "clk n = Some ms" "is_iso (toISOString ms)" using assms(5) is_iso_toISOString by (fastforce simp: clocks_ok_def)
  obtain e st1 where e: "appendEntry tid aid digest g d ms st = (Inr e, st1)" "good st1" "ledger_entries st1 = ledger_entries st @ [e]"
    "findTenant tid st1 \<noteq> None" "le_tenantId e = tid" "le_stage e = g" "le_actionId e = aid" "le_actionHash e = digest" "le_data e = d"
    using appendEntry_total [OF Cons.prems(1) assms(2) Cons.prems(2) _ ms(2) assms(6,7) s(2), of g] Cons.prems(3) by auto
  have room: "length (ledger_entries st1) + length stages \<le> MAX_ENTRIES" using Cons.prems(3) e(3) by simp
  obtain es st2 where es: "appendStages tid aid digest clk (n + 1) stages st1 = (Inr es, st2)" "good st2" "ledger_entries st2 = ledger_entries st1 @ es"
    "\<forall>e \<in> set es. le_tenantId e = tid \<and> le_actionId e = aid \<and> le_actionHash e = digest" "map (\<lambda>e. (le_stage e, Inr (le_data e))) es = stages"
    using Cons.IH [OF e(2) disjI1 [OF e(4)] room, of "n + 1"] Cons.prems(4) by auto
  have "appendStages tid aid digest clk n (s # stages) st = (Inr (e # es), st2)"
    using s ms(1) e(1) es(1) by (simp add: seqp_def liftp_def dateNow_def ret_def)
  then show ?case using s e es by (intro exI [of _ "e # es"] exI [of _ st2]) simp
qed

end
