(* ===== verification/Ledger_Props.thy ===== *)
theory Ledger_Props
  imports Ledger_Record Gateway_Props Store_Size
begin

text \<open>
  What the action ledger promises: the hold of a tenant's log, the validity of every ledger that
  calls produce, the timeline of a recorded action, and the entries its validation lets through.
\<close>

section \<open>An example\<close>

definition demo_access :: "unit access_value" where
  "demo_access = ((), JObj [])"

definition demo_ledger_auth :: "unit LedgerAccessAuthorizer" where
  "demo_ledger_auth a p hint = Inr (JStr ''acme'', JStr ''alice'', [p])"

lemma demo_ledger_access: "authorizeLedger demo_ledger_auth demo_access p =
  Inr \<lparr>access_tenantId = ''acme'', access_principalId = ''alice'', access_permissions = [p]\<rparr>"
  by (simp add: authorizeLedger_def demo_ledger_auth_def demo_access_def accessTenantId_def demo_idents)

definition ledger_file_of :: "ActionLedgerState \<Rightarrow> store_file" where
  "ledger_file_of st = Regular (Some (enc_action_ledger st)) 1000"

lemma ledger_of_file: "ledger_inv st \<Longrightarrow> ledger_of (ledger_file_of st) = Some st"
  by (simp add: ledger_of_eq ledger_file_of_def read_store_def ledger_store_def MAX_LEDGER_BYTES_def validateLedgerState_enc)

lemma good_empty: "good emptyLedger"
  using ledger_inv_empty by (simp add: good_def tracked_def) (simp add: emptyLedger_def)

text \<open>A tenant whose ledger starts with a legal hold.\<close>

definition demo_hold_entry :: LedgerEntry where
  "demo_hold_entry = projr (newEntry (newTenant ''acme'') ''acme'' ''governance-hold-acme-1'' (sha256 ''legal-hold:acme'') Legal_hold
     [(''active'', JBool True)] (toISOString 0))"

definition demo_held :: ActionLedgerState where
  "demo_held = pushEntry demo_hold_entry \<lparr>ledger_entries = [], ledger_tenants = [(newTenant ''acme'')\<lparr>lt_legalHold := True\<rparr>]\<rparr>"

definition demo_hold_call :: "unit ledger_call" where
  "demo_hold_call = LHold demo_access (JBool True) (Some 0)"

lemma demo_governance: "ok_ident ''governance-hold-acme-1''" "ok_data [(''active'', JBool True)]"
  by (rule ok_ident_unmarked; (unfold IDENTIFIER_iff)?; code_simp) (simp add: ok_data_def; code_simp)

lemma demo_hold_new: "newEntry (newTenant ''acme'') ''acme'' ''governance-hold-acme-1'' (sha256 ''legal-hold:acme'') Legal_hold
    [(''active'', JBool True)] (toISOString 0) = Inr demo_hold_entry"
  using newEntry_total [OF demo_iso(1) demo_governance(1) ok_hash_sha256 demo_governance(2)]
  by (metis demo_hold_entry_def sum.sel(2))

lemma newEntry_parts:
  "newEntry t tid aid digest stage data ts = Inr e \<Longrightarrow>
   le_tenantId e = tid \<and> le_sequence e = lt_entryCount t + 1 \<and> le_timestamp e = ts \<and> le_actionId e = aid \<and> le_actionHash e = digest \<and>
   le_stage e = stage \<and> le_data e = data \<and> le_previousHash e = (if lt_entryCount t = 0 then genesisHash tid else lt_headHash t) \<and>
   ok_hash (le_entryHash e)"
  by (auto simp: newEntry_def Let_def andThen_eq_Inr validator_simps)

lemma demo_hold_entry_fields:
  "le_tenantId demo_hold_entry = ''acme''" "le_sequence demo_hold_entry = 1" "le_timestamp demo_hold_entry = toISOString 0"
  "le_actionId demo_hold_entry = ''governance-hold-acme-1''" "le_actionHash demo_hold_entry = sha256 ''legal-hold:acme''"
  "le_stage demo_hold_entry = Legal_hold" "le_data demo_hold_entry = [(''active'', JBool True)]"
  "le_previousHash demo_hold_entry = genesisHash ''acme''" "ok_hash (le_entryHash demo_hold_entry)"
  using newEntry_parts [OF demo_hold_new] by (simp_all add: newTenant_def)

lemma newEntry_hold: "newEntry (t\<lparr>lt_legalHold := b\<rparr>) = newEntry t"
  by (intro ext) (simp add: newEntry_def)

lemma demo_hold_append:
  "appendEntry ''acme'' ''governance-hold-acme-1'' (sha256 ''legal-hold:acme'') Legal_hold [(''active'', JBool True)] 0
     \<lparr>ledger_entries = [], ledger_tenants = [(newTenant ''acme'')\<lparr>lt_legalHold := True\<rparr>]\<rparr> = (Inr demo_hold_entry, demo_held)"
proof -
  let ?t = "(newTenant ''acme'')\<lparr>lt_legalHold := True\<rparr>"
  let ?st = "\<lparr>ledger_entries = [], ledger_tenants = [?t]\<rparr>"
  have "findTenant ''acme'' ?st = Some ?t" by (simp add: findTenant_def newTenant_def)
  moreover have "newEntry ?t ''acme'' ''governance-hold-acme-1'' (sha256 ''legal-hold:acme'') Legal_hold [(''active'', JBool True)] (toISOString 0) =
    Inr demo_hold_entry" using demo_hold_new by (simp add: newEntry_hold)
  ultimately show ?thesis
    by (simp add: appendEntry_def getOrCreateTenant_def seqp_def getp_def ret_def liftp_def modifyp_def MAX_ENTRIES_def demo_held_def)
qed

lemma demo_hold_op: "\<exists>t. setLegalHold_op ''acme'' True (Some 0) emptyLedger = (Inr t, demo_held)"
proof -
  let ?st = "\<lparr>ledger_entries = [], ledger_tenants = [(newTenant ''acme'')\<lparr>lt_legalHold := True\<rparr>]\<rparr>"
  have "lt_tenantId (newTenant ''acme'') = ''acme''" by (simp add: newTenant_def)
  then have 1: "(getOrCreateTenant ''acme'') emptyLedger = (Inr (newTenant ''acme''), \<lparr>ledger_entries = [], ledger_tenants = [newTenant ''acme'']\<rparr>)"
    "updTenant ''acme'' (\<lambda>t. t\<lparr>lt_legalHold := True\<rparr>) \<lparr>ledger_entries = [], ledger_tenants = [newTenant ''acme'']\<rparr> = ?st"
    by (simp_all add: getOrCreateTenant_def findTenant_def emptyLedger_def MAX_TENANTS_def seqp_def getp_def modifyp_def ret_def updTenant_def)
  have 2: "governanceActionId ''hold'' ?st ''acme'' = ''governance-hold-acme-1''" by (simp add: governanceActionId_def tenant_log_def; code_simp)
  have "ledger_tenants demo_held \<noteq> [] \<and> lt_tenantId (hd (ledger_tenants demo_held)) = ''acme''"
    by (simp add: demo_held_def pushEntry_def demo_hold_entry_fields updTenant_def newTenant_def)
  then have 3: "\<exists>t. getOrCreateTenant ''acme'' demo_held = (Inr t, demo_held)"
    by (cases "ledger_tenants demo_held") (auto simp: getOrCreateTenant_def findTenant_def getp_def ret_def)
  show ?thesis using 1 2 3 demo_hold_append by (auto simp: setLegalHold_op_def govern_def seqp_def modifyp_def getp_def liftp_def dateNow_def ret_def)
qed

lemma demo_held_good: "good demo_held"
  using demo_hold_op keepsD [OF ledger_ops_good(2) [OF demo_idents(1)]] good_empty by (fastforce simp: good_frame_def)

lemma demo_hold_run: "ledger_run demo_ledger_auth demo_hold_call NoFile = atomicWriteJson (enc_action_ledger demo_held)"
  using demo_hold_op demo_held_good
  by (auto simp: demo_hold_call_def setLegalHold_def liftp_seqp demo_ledger_access fromOption_def mutate_ledger_def good_def
      read_store_def ledger_store_def validateLedgerState_enc)

lemma demo_held_room: "store_bytes (enc_action_ledger demo_held) \<le> MAX_LEDGER_BYTES"
proof -
  have "length (int_text 1) = 1" by code_simp
  moreover have "length (le_entryHash demo_hold_entry) = 64" "length (sha256 s) = 64" "length (toISOString 0) = 24" for s
    using demo_hold_entry_fields(9) is_iso_length [OF demo_iso(1)] ok_hash_iff ok_hash_sha256 [of s] by auto
  ultimately have "json_room 0 (enc_action_ledger demo_held) \<le> 10000"
    by (simp add: enc_action_ledger_def demo_held_def pushEntry_def updTenant_def enc_entry_ledger_def entry_base_def demo_hold_entry_fields
        enc_tenant_def newTenant_def opt_prop_def genesisHash_def)
  then show ?thesis using store_bytes_room [of "enc_action_ledger demo_held"] by (simp add: MAX_LEDGER_BYTES_def)
qed

lemma demo_held_read: "ledger_of (atomicWriteJson (enc_action_ledger demo_held)) = Some demo_held"
  using demo_held_room demo_held_good read_written [of "enc_action_ledger demo_held" ledger_store]
  by (simp add: ledger_of_eq ledger_store_def good_def validateLedgerState_enc)

lemma demo_hold_trace: "ledger_trace demo_ledger_auth NoFile [demo_hold_call] (atomicWriteJson (enc_action_ledger demo_held))"
  using ltrace_snoc [OF ltrace_nil, of demo_ledger_auth NoFile demo_hold_call] by (simp add: demo_hold_run)

lemma demo_held_held: "held ''acme'' demo_held"
  by (simp add: held_def demo_held_def pushEntry_def updTenant_def demo_hold_entry_fields newTenant_def findTenant_def)

text \<open>The tenant's own request for deletion, which the hold blocks.\<close>

lemma demo_deletion_trace:
  "ledger_trace demo_ledger_auth (atomicWriteJson (enc_action_ledger demo_held)) [LDeletion demo_access (Some 0)] (atomicWriteJson (enc_action_ledger demo_held))"
proof -
  have "fst (requestDeletion_op ''acme'' (Some 0) demo_held) = Inl (ALE ''Deletion request is blocked by the active local legal hold.'')"
    using demo_held_held by (auto simp: held_def requestDeletion_op_def getOrCreateTenant_def seqp_def getp_def ret_def throw_def)
  then have "ledger_run demo_ledger_auth (LDeletion demo_access (Some 0)) (atomicWriteJson (enc_action_ledger demo_held)) = atomicWriteJson (enc_action_ledger demo_held)"
    using demo_held_read by (cases "requestDeletion_op ''acme'' (Some 0) demo_held")
      (simp add: requestDeletion_def liftp_seqp demo_ledger_access mutate_ledger_def ledger_of_eq)
  then show ?thesis using ltrace_snoc [OF ltrace_nil, of demo_ledger_auth "atomicWriteJson (enc_action_ledger demo_held)" "LDeletion demo_access (Some 0)"] by simp
qed

section \<open>The legal hold\<close>

text \<open>C20: A legal hold preserves the log.  Once a tenant is under legal hold, any sequence of calls, by whichever
  tenants and whichever retention periods they configure, keeps the hold and every entry of the
  tenant's log in place, with its hash, and only adds to it, unless a caller who is authorized to manage
  holds for this very tenant lifts it.\<close>

theorem legal_hold_preserves_log:
  assumes "ledger_trace auth f cs f'" and "\<forall>c \<in> set cs. \<not> releases auth tid c" and "ledger_of f = Some st" and "held tid st"
    and "ledger_of f' = Some st'"
  shows "held tid st' \<and> (\<exists>es. tenant_log tid st' = tenant_log tid st @ es)"
  using assms
proof (induction arbitrary: st' rule: ledger_trace.induct)
  case (ltrace_nil f)
  then show ?case by simp
next
  case (ltrace_snoc f cs f' c)
  have c: "\<not> releases auth tid c" using ltrace_snoc.prems(1) by simp
  show ?case
  proof (cases "ledger_run auth c f' = f'")
    case True
    with ltrace_snoc show ?thesis by simp
  next
    case False
    with run_keeps_hold [OF c, of f'] obtain st1 st2 where h: "ledger_of f' = Some st1" "ledger_inv st2"
      "ledger_run auth c f' = atomicWriteJson (enc_action_ledger st2)" "hold_frame tid st1 st2" by auto
    then have "st' = st2" using ledger_written ltrace_snoc.prems(4) by simp
    moreover have "held tid st1 \<and> (\<exists>es. tenant_log tid st1 = tenant_log tid st @ es)" using ltrace_snoc.IH ltrace_snoc.prems h(1) by simp
    ultimately show ?thesis using h(4) by (auto simp: hold_frame_def)
  qed
qed

theorem legal_hold_preserves_log_witness:
  "held ''acme'' demo_held \<and> (\<exists>es. tenant_log ''acme'' demo_held = tenant_log ''acme'' demo_held @ es)"
  by (rule legal_hold_preserves_log [OF demo_deletion_trace _ demo_held_read demo_held_held demo_held_read]) simp

section \<open>Validity\<close>

text \<open>C21: Every ledger that calls produce is valid.  Starting without a store, after any sequence of calls the ledger
  satisfies its invariant, no entry is without its tenant, and verifying any tenant succeeds with exactly the
  number of entries in its log.\<close>

theorem ledger_stays_valid:
  assumes "ledger_trace auth NoFile cs f" and "ledger_of f = Some st"
  shows "ledger_inv st \<and> tracked st \<and> (\<exists>h tr. verifyTenantState st tid = Ledger_valid (length (tenant_log tid st)) h tr)"
proof -
  have "\<forall>st. ledger_of f = Some st \<longrightarrow> good st" using assms(1)
  proof (induction "NoFile" cs f rule: ledger_trace.induct)
    case ltrace_nil
    then show ?case using good_empty by simp
  next
    case (ltrace_snoc cs f' c)
    show ?case
    proof (cases "ledger_run auth c f' = f'")
      case True
      with ltrace_snoc show ?thesis by simp
    next
      case False
      with run_keeps_good [of auth c f'] ltrace_snoc show ?thesis by (auto simp: good_frame_def dest: ledger_written)
    qed
  qed
  then have g: "good st" using assms(2) by simp
  have "\<exists>h tr. verifyTenantState st tid = Ledger_valid (length (tenant_log tid st)) h tr"
  proof (cases "findTenant tid st")
    case None
    with g show ?thesis by (auto simp: verifyTenantState_def log_untracked)
  next
    case (Some t)
    with g findTenant_id [OF Some] show ?thesis by (auto simp: verifyTenantState_def good_iff chained_def)
  qed
  with g show ?thesis by (simp add: good_def)
qed

theorem ledger_stays_valid_witness:
  "ledger_inv demo_held \<and> tracked demo_held \<and>
   (\<exists>h tr. verifyTenantState demo_held ''acme'' = Ledger_valid (length (tenant_log ''acme'' demo_held)) h tr)"
  by (rule ledger_stays_valid [OF demo_hold_trace demo_held_read])

section \<open>Recording\<close>

text \<open>C22: A recorded action is on its timeline.  Recording a valid action that the tenant's ledger does not have, with room and a
  working clock, succeeds and appends exactly the stages of the action, in order and with their
  data, to a valid ledger; as long as that fits the store's size limit, the tenant's timeline of the action is exactly those entries,
  and recording the action again returns them and changes nothing.\<close>

theorem recorded_action_on_timeline:
  assumes "authorizeLedger auth a Perm_append = Inr ac" and "authorizeLedger auth r Perm_read = Inr rc" and "access_tenantId rc = access_tenantId ac"
    and "normalizeActionRecord v = Inr rec" and "grantData (rec_credentialGrant v) = Inr gd"
    and "ledger_of f = Some st" and "good st" and "entriesForAction st (access_tenantId ac) (env_actionId (envelope rec)) = []"
    and "findTenant (access_tenantId ac) st \<noteq> None \<or> length (ledger_tenants st) < MAX_TENANTS"
    and "length (ledger_entries st) + length (actionStages rec (rec_credentialGrant v)) \<le> MAX_ENTRIES" and "clocks_ok clk"
  shows "\<exists>es st'. recordAction auth a v clk f = (Inr es, atomicWriteJson (enc_action_ledger st')) \<and> good st' \<and>
    ledger_entries st' = ledger_entries st @ es \<and> map (\<lambda>e. (le_stage e, Inr (le_data e))) es = actionStages rec (rec_credentialGrant v) \<and>
    (store_bytes (enc_action_ledger st') \<le> MAX_LEDGER_BYTES \<longrightarrow>
      timeline auth r (JStr (env_actionId (envelope rec))) (atomicWriteJson (enc_action_ledger st')) = Inr es \<and>
      recordAction auth a v clk (atomicWriteJson (enc_action_ledger st')) = (Inr es, atomicWriteJson (enc_action_ledger st')))"
proof -
  let ?tid = "access_tenantId ac" and ?aid = "env_actionId (envelope rec)" and ?digest = "envelope_hash (envelope rec)"
  let ?stages = "actionStages rec (rec_credentialGrant v)"
  have tid: "ok_ident ?tid" using assms(1) by (rule authorized_tenant)
  have stored: "ok_stored rec"
    using assms(4) by (auto simp: normalizeActionRecord_def fromGateway_def andThen_eq_Inr split: sum.splits dest: validateStoredAction_ok)
  then have env: "ok_envelope (envelope rec)" by (simp add: ok_stored_def)
  have hash: "ok_hash ?digest" "actionHash (enc_envelope (envelope rec)) = Inr ?digest" using env by (simp_all add: envelope_hash_def)
  have aid: "ok_ident ?aid" using env by (simp add: ok_envelope_def)
  obtain es st' where es: "appendStages ?tid ?aid ?digest clk 0 ?stages st = (Inr es, st')" "good st'" "ledger_entries st' = ledger_entries st @ es"
    "\<forall>e \<in> set es. le_tenantId e = ?tid \<and> le_actionId e = ?aid \<and> le_actionHash e = ?digest" "map (\<lambda>e. (le_stage e, Inr (le_data e))) es = ?stages"
    using appendStages_total [OF assms(7) tid assms(9,10,11) aid hash(1) actionStages_ok [OF stored assms(5)], of 0] by blast
  let ?f = "atomicWriteJson (enc_action_ledger st')"
  have inv: "ledger_inv st'" using es(2) by (simp add: good_def)
  have "recordAction_op ?tid rec (rec_credentialGrant v) clk st = (Inr es, st')"
    using es(1) assms(8) hash(2) by (simp add: recordAction_op_def getp_def Let_def fromGateway_def liftp_def)
  then have run: "recordAction auth a v clk f = (Inr es, ?f)"
    using assms(1,4,6) validateLedgerState_enc [OF inv] by (simp add: recordAction_def liftp_seqp mutate_ledger_def ledger_of_eq)
  have ne: "es \<noteq> []" using es(5) by (auto simp: actionStages_def Let_def)
  have mine: "entriesForAction st' ?tid ?aid = es"
    using assms(8) es(3,4) by (auto simp: entriesForAction_def filter_id_conv)
  have again: "recordAction_op ?tid rec (rec_credentialGrant v) clk st' = (Inr es, st')"
    using mine ne es(4) hash(2) by (simp add: recordAction_op_def getp_def Let_def fromGateway_def liftp_def ret_def)
  have "timeline auth r (JStr ?aid) ?f = Inr es \<and> recordAction auth a v clk ?f = (Inr es, ?f)" if "store_bytes (enc_action_ledger st') \<le> MAX_LEDGER_BYTES"
  proof -
    have rd: "read_store ledger_store ?f = Inr st'"
      using that read_written [of "enc_action_ledger st'" ledger_store] validateLedgerState_enc [OF inv] by (simp add: ledger_store_def)
    have "assertTenantIntegrity st' ?tid = Inr ()"
    proof (cases "findTenant ?tid st'")
      case None
      then show ?thesis by (simp add: assertTenantIntegrity_def verifyTenantState_def)
    next
      case (Some t)
      with es(2) integrity_iff [of t st' "()"] findTenant_id [OF Some] show ?thesis by (auto simp: good_iff)
    qed
    with rd mine assms(2,3) aid have "timeline auth r (JStr ?aid) ?f = Inr es" by (simp add: timeline_def)
    moreover have "recordAction auth a v clk ?f = (Inr es, ?f)"
      using assms(1,4) rd again validateLedgerState_enc [OF inv] by (simp add: recordAction_def liftp_seqp mutate_ledger_def)
    ultimately show ?thesis ..
  qed
  then show ?thesis using run es by blast
qed

definition demo_record :: ActionLedgerRecord where
  "demo_record = \<lparr>rec_envelope = enc_envelope demo_envelope, rec_approval = enc_approval demo_approval,
     rec_receipts = JArr (map enc_receipt (receipts demo_stored)), rec_credentialGrant = None\<rparr>"

lemma demo_record_stored: "normalizeActionRecord demo_record = Inr demo_stored"
proof -
  have "enc_stored demo_stored = JObj [(''schemaVersion'', JNat 1), (''kind'', JStr ''ghostapi.action-record''), (''envelope'', enc_envelope demo_envelope),
    (''actionHash'', JStr (envelope_hash demo_envelope)), (''approval'', enc_approval demo_approval), (''receipts'', JArr (map enc_receipt (receipts demo_stored)))]"
    by (simp add: enc_stored_def demo_stored_def demo_request_def ACTION_SCHEMA_VERSION_def RECORD_KIND_def)
  moreover have "actionHash (enc_envelope demo_envelope) = Inr (envelope_hash demo_envelope)" using demo_envelope_ok by (simp add: envelope_hash_def)
  ultimately show ?thesis
    using validateStoredAction_enc [OF demo_stored_ok(1)] by (simp add: normalizeActionRecord_def demo_record_def fromGateway_def)
qed

theorem recorded_action_on_timeline_witness:
  "\<exists>es st'. recordAction demo_ledger_auth demo_access demo_record (\<lambda>_. Some 0) NoFile = (Inr es, atomicWriteJson (enc_action_ledger st')) \<and> good st' \<and>
    ledger_entries st' = es \<and> map (\<lambda>e. (le_stage e, Inr (le_data e))) es = actionStages demo_stored None \<and>
    (store_bytes (enc_action_ledger st') \<le> MAX_LEDGER_BYTES \<longrightarrow>
      timeline demo_ledger_auth demo_access (JStr ''act1'') (atomicWriteJson (enc_action_ledger st')) = Inr es \<and>
      recordAction demo_ledger_auth demo_access demo_record (\<lambda>_. Some 0) (atomicWriteJson (enc_action_ledger st')) =
        (Inr es, atomicWriteJson (enc_action_ledger st')))"
proof -
  have "length (receiptEvidence r) \<le> 2" for r by (simp add: receiptEvidence_def Let_def split: ActionReceiptStatus.split)
  moreover obtain r where "receipts demo_stored = [r]" using demo_stored_ok(4) by (cases "receipts demo_stored") auto
  ultimately have "length (actionStages demo_stored None) \<le> 2000" by (simp add: actionStages_def Let_def le_trans [of _ 2])
  moreover have "env_actionId (envelope demo_stored) = ''act1''" "rec_credentialGrant demo_record = None"
    "ledger_entries emptyLedger = []" "ledger_tenants emptyLedger = []"
    using demo_stored_ok(2) by (simp_all add: demo_envelope_def demo_record_def emptyLedger_def)
  moreover have "clock_ok 0" by code_simp
  ultimately show ?thesis
    using recorded_action_on_timeline [where f = NoFile and st = emptyLedger and clk = "\<lambda>_. Some 0" and gd = "[(''status'', JStr ''not_used'')]",
        OF demo_ledger_access demo_ledger_access _ demo_record_stored] good_empty
    by (simp add: grantData_def entriesForAction_def MAX_TENANTS_def MAX_ENTRIES_def clocks_ok_def)
qed

section \<open>Entries without a tenant\<close>

text \<open>C23: Entries outside every chain are accepted.  The last check of the ledger's validation compares the number of tenants with
  entries to the number of tenant states before it looks for entries without a tenant state.  A file in which one tenant has a state and no entries and
  another has an entry and no state passes, whatever sequence number and previous hash the entry claims, and the other tenant's
  export reports valid integrity and contains the entry.\<close>

theorem untracked_entry_exported:
  assumes "ok_ledger_entry e" and "ok_ident t" and "t \<noteq> le_tenantId e" and "bytes \<le> MAX_LEDGER_BYTES"
    and "authorizeLedger auth a Perm_export = Inr ac" and "access_tenantId ac = le_tenantId e"
  shows "exportTenant auth a (Some ms) (Regular (Some (enc_action_ledger \<lparr>ledger_entries = [e], ledger_tenants = [newTenant t]\<rparr>)) bytes) =
    Inr \<lparr>export_tenantId = le_tenantId e, exportedAt = toISOString ms,
      export_integrity = Ledger_valid 0 (genesisHash (le_tenantId e)) False, export_entries = [e]\<rparr>"
proof -
  let ?st = "\<lparr>ledger_entries = [e], ledger_tenants = [newTenant t]\<rparr>"
  have new: "lt_tenantId (newTenant t) = t" by (simp add: newTenant_def)
  have "chained ?st (newTenant t)" using assms(3) by (simp add: chained_def tenant_log_def newTenant_def)
  then have "ledger_inv ?st"
    using assms(1,2) by (simp add: ledger_inv_def MAX_ENTRIES_def MAX_TENANTS_def ok_tenant_def newTenant_def)
  then have rd: "read_store ledger_store (Regular (Some (enc_action_ledger ?st)) bytes) = Inr ?st"
    using assms(4) validateLedgerState_enc by (simp add: read_store_def ledger_store_def)
  have "findTenant (le_tenantId e) ?st = None" using assms(3) new by (simp add: findTenant_def)
  then show ?thesis using rd assms(5,6) by (simp add: exportTenant_def verifyTenantState_def dateNow_def tenant_log_def)
qed

definition demo_stray :: LedgerEntry where
  "demo_stray =
     (let e = demo_hold_entry\<lparr>le_sequence := 7, le_previousHash := replicate 64 CHR ''b''\<rparr> in e\<lparr>le_entryHash := entry_hash e\<rparr>)"

lemma demo_stray_ok: "ok_ledger_entry demo_stray" "le_tenantId demo_stray = ''acme''"
  by (simp_all add: ok_ledger_entry_def demo_stray_def Let_def demo_hold_entry_fields demo_idents demo_iso demo_governance demo_hashes
      entry_hash_def entry_base_def)

theorem untracked_entry_exported_witness:
  "exportTenant demo_ledger_auth demo_access (Some 0)
     (Regular (Some (enc_action_ledger \<lparr>ledger_entries = [demo_stray], ledger_tenants = [newTenant ''shop'']\<rparr>)) 1000) =
   Inr \<lparr>export_tenantId = ''acme'', exportedAt = toISOString 0, export_integrity = Ledger_valid 0 (genesisHash ''acme'') False,
     export_entries = [demo_stray]\<rparr>"
  using untracked_entry_exported [OF demo_stray_ok(1) demo_idents(2) _ _ demo_ledger_access, of 1000 0]
  by (simp add: demo_stray_ok MAX_LEDGER_BYTES_def)

end
