(* ===== verification/Spec2Isabelle.thy ===== *)
theory Spec2Isabelle
  imports Core_Props Safety_Queue_Props Policy_Props File_Lock_Props Mock_Props Cache_Props
    Gateway_Stop_Props Gateway_Record_Props Trust_Gate_Props Ledger_Props
begin

text \<open>
  GhostAPI is a local mock of third-party APIs with a control plane for agents that act on real
  ones.  A proxy normalises each request, detects the provider, and answers from scripted
  behaviors, injected faults, mock state, cached or generated responses; a policy says which
  hosts and credentials are allowed; a safety controller admits, budgets and stops the actions
  of agents.  All state lives in JSON files that are replaced atomically under a lock file, and
  everything that is stored or shown goes through the masking of secrets first.

  \<^bold>\<open>The language.\<close>  \<open>Prelude\<close>: results (\<open>Inl\<close> a thrown error, \<open>Inr\<close> a
  value), programs over a state that is rolled back by the caller, and generic lemmas.
  \<open>Js_Text\<close>: strings as lists of characters (Latin-1: the ASCII range and the rest of
  one byte), \<open>trim\<close>, case conversion, splitting, UTF-8 length.  \<open>Js_Regex\<close>: regular
  expressions with the ordered, backtracking choice of the engine (all ends of a match in
  order of preference), search and replace-all.  \<open>Js_Value\<close>: JSON values; an object is the
  list of its own properties in insertion order; numbers are integers or, when they are not,
  their text; \<open>JSON.stringify\<close> compact and indented; the canonical text of the audit
  chains.  \<open>Js_Number\<close>: double-precision addition of non-negative integers.
  \<open>Sha256\<close>: the hash on 32-bit words.  \<open>Iso_Time\<close>: \<open>Date.parse\<close> and
  \<open>toISOString\<close> on clock values.

  \<^bold>\<open>Shared parts of the program.\<close>  \<open>Secrets\<close> and \<open>Masking\<close> model
  \<open>src/security/secrets.ts\<close>; \<open>Validators\<close> and \<open>Canonical\<close> the field validators
  and the canonical hash text that the stores repeat; \<open>Store\<close> the read and
  read-modify-write of a validated store (\<open>read\<close>, \<open>mutate\<close>, \<open>timestamp\<close> of the
  controllers) for any state type; \<open>File_Store\<close> the JSON files of
  \<open>src/storage/fileStore.ts\<close> with the locale \<open>json_store\<close> that the mock stores
  interpret; \<open>File_Lock\<close> its lock protocol as a transition system with one step per system
  call.  \<open>Core_Props\<close> shows that no token survives masking, what masking leaves alone, that
  validated texts and timestamps are stable, and that sums of costs compare exactly;
  \<open>Canonical_Inj\<close> that the canonical text determines the value up to the order of
  properties; \<open>Secrets_Plain\<close> which keys the masking leaves alone;
  \<open>File_Lock_Props\<close> that locked updates serialize in calm runs, that an abandoned lock is
  recovered, and where the recovery races.

  \<^bold>\<open>Safety controller\<close> (\<open>src/safety/safetyController.ts\<close>).  \<open>Safety_Types\<close> has
  its records, \<open>Safety_Validate\<close> the validators of the store file, \<open>Safety_Controller\<close>
  one definition per method and helper; \<open>stop\<close>, \<open>reenable\<close>, \<open>admit\<close> and the others
  take the file, the clock and the authorizer's answer and return the result and the file.
  \<open>Safety_Shape\<close>, \<open>Safety_Frame\<close> and \<open>Safety_Laws\<close> hold the invariant, what each
  helper keeps, and the frame laws; \<open>Safety_Machine\<close> the step relation whose labels are the
  method calls; \<open>Safety_Admit\<close> and \<open>Safety_Live\<close> what an admission guarantees and when
  it is granted.  The property theories show: a stopped scope stays stopped until it is
  re-enabled, for any sequence of calls (\<open>Safety_Kill_Props\<close>); limits, replays, expiry and
  the permanence of completed actions (\<open>Safety_Lease_Props\<close>); the audit chain grows only
  and is tamper evident (\<open>Safety_Audit_Props\<close>); calls are atomic and the methods do on
  every branch what they mean to (\<open>Safety_Ops_Props\<close>); the queue, and two inputs on which an
  emergency stop and the game day fail (\<open>Safety_Queue_Props\<close>).

  \<^bold>\<open>Action gateway\<close> (\<open>src/actions/gateway.ts\<close>).  \<open>Action_Types\<close> has the records and their
  JSON values, \<open>Action_Leaf\<close> and \<open>Action_Validate\<close> the validators and hashes,
  \<open>Action_Shape\<close> what they guarantee, \<open>Gateway\<close> the methods of
  \<open>LocalActionGateway\<close> and the Ed25519 signer and verifier of approvals.  A method is a program
  on a world of action files, the safety controller's file and an outside; a ghost list records
  which envelopes the adapter was told to execute.  \<open>Gateway_Laws\<close> and \<open>Gateway_Frame\<close>
  say what each part keeps, \<open>Gateway_Machine\<close> has the step relation with the safety
  controller's own calls in between.  Shown: an action is executed at most once and only when it
  was authorised, and is executed when it is (\<open>Gateway_Props\<close>); the safety controller's kill
  switch stops the gateway (\<open>Gateway_Stop_Props\<close>); records are append-only, what is submitted
  is on file, a verified execution is final, and signed approvals verify
  (\<open>Gateway_Record_Props\<close>).

  \<^bold>\<open>Trust ladder\<close> (\<open>src/trust/trustLadder.ts\<close>).  \<open>Trust_Types\<close> and
  \<open>Trust_Validate\<close> have its records and validators, \<open>Trust_Shape\<close> the invariant of the store, which
  is another interpretation of \<open>validated_store\<close>, \<open>Trust_Ladder\<close> the methods of
  \<open>LocalTrustLadder\<close>.  \<open>Trust_Laws\<close> has the abstract ladder (\<open>ladder_move\<close> on a level and a
  breaker) and the effect of each operation on it, \<open>Trust_Machine\<close> the sequences of calls,
  \<open>Trust_Live\<close> when an operation succeeds and, with the bounds of \<open>Store_Size\<close> on the
  text a store writes, when the store can be read again.  \<open>Trust_Props\<close>: the calls refine the
  ladder, unsupported levels are out of reach, an open breaker is final; \<open>Trust_Gate_Props\<close>: what a
  promotion requires, that a violation ends autonomy, and how the store locks itself up.

  \<^bold>\<open>Action ledger\<close> (\<open>src/ledger/actionLedger.ts\<close>).  \<open>Ledger_Types\<close> and
  \<open>Ledger_Validate\<close> have its records and validators and the verification of a tenant's hash chain,
  \<open>Ledger_Shape\<close> the invariant of the store, a further interpretation of \<open>validated_store\<close>,
  \<open>Action_Ledger\<close> the methods of \<open>LocalActionLedger\<close> with the rotation of old entries,
  which relinks a tenant's chain.  \<open>Ledger_Laws\<close> and \<open>Ledger_Valid\<close> interpret the frame
  locale for legal holds and for validity, \<open>Ledger_Machine\<close> has the sequences of calls,
  \<open>Ledger_Record\<close> when an append succeeds.  \<open>Ledger_Props\<close>: a legal hold preserves the
  log, every ledger that calls produce is valid, a recorded action is on its timeline, and the entries
  without a tenant that the validation lets through.

  \<^bold>\<open>Policy\<close> (\<open>src/policy/\<close>).  \<open>Policy\<close> models loading, validation and the four
  decisions, \<open>Policy_Match\<close> relates the table-driven glob matcher to an inductive relation
  and the path check to containment; \<open>Policy_Props\<close> has the decisions and the normal form.

  \<^bold>\<open>The mock server.\<close>  \<open>Headers\<close> (\<open>src/security/headerSanitizer.ts\<close>),
  \<open>Providers\<close> (\<open>src/proxy/providerDetector.ts\<close>, \<open>src/providers/\<close>,
  \<open>src/errors/providerErrors.ts\<close>), \<open>Requests\<close> (\<open>src/proxy/requestNormalizer.ts\<close>,
  \<open>cacheKey.ts\<close>), \<open>State_Store\<close> (\<open>src/state/\<close>), \<open>Behavior_Store\<close>
  (\<open>src/behavior/\<close>), \<open>Fault_Lab\<close> (\<open>src/fault/\<close>), \<open>Cache\<close> (\<open>src/cache/\<close>),
  \<open>Access_Control\<close> and \<open>Events\<close> (\<open>src/server/\<close>).  \<open>Mock_Props\<close> and
  \<open>Cache_Props\<close> show that masking is idempotent, which headers can leave, that what is stored
  is found again, the bounds of faults, histories and the cache, and who gets through the
  access control.

  \<^bold>\<open>Parameters.\<close>  What is not in the repository is an argument: the emergency authorizer, the trust ladder's owner verifier, the ledger's access authorizer,
  the gateway's execution adapter and approval verifier, signatures, the YAML parser, directory entries and links of the file system, the collation order of
  \<open>localeCompare\<close>, the URL parser and \<open>decodeURIComponent\<close>, random draws and fresh
  identifiers, and the clock.  There is no fuel anywhere: every loop of the modelled code is
  bounded by its input, and waiting for a lock is a sequence of steps.

  \<^bold>\<open>Not modelled.\<close>  Strings outside Latin-1 and numbers beyond the validators' ranges, file
  modes, and failures of \<open>chmod\<close> after a file was replaced.  Of the program: the synthetic
  adapter of the gateway, which runs a workflow of the worlds; the ledger's incident
  fixtures, which are scenario bundles; the approval inbox and the credential broker, which
  follow the store and audit pattern of \<open>Store\<close> and come next, then the Stripe pack and the
  proxy handler, the contracts, worlds and scenarios; inventory, reliability, team control,
  evals and evidence after them.  The command line, the dashboard, prompts and the calls of
  external services (AI, the hosted pilot's database, operating-system sandboxing) stay out:
  they are input, output or other systems.
\<close>

end
